(* ===== verification/Prelude.thy ===== *)
theory Prelude
  imports Main "HOL-Library.Word" "HOL-Library.Char_ord" "HOL-Library.List_Lexorder"
    "HOL-Library.Sublist" "HOL-Library.AList"
begin

text \<open>
  Shared vocabulary of the development.

  Go values are modelled as follows. A Go \<open>string\<close> is a sequence of bytes and is a
  \<^typ>\<open>string\<close> here (a list of 8-bit characters), so string equality, concatenation,
  prefixes and the byte-wise order of the library theories \<open>Char_ord\<close> and
  \<open>List_Lexorder\<close> are Go's own. The theory defines what the sources use of
  \<open>unicode/utf8\<close> (\<open>RuneCountInString\<close>, the decoding widths), of \<open>strings\<close>
  (\<open>TrimSpace\<close>, \<open>Join\<close>, \<open>Split\<close>) and of \<open>strconv\<close>/\<open>fmt\<close> (decimal printing), and
  proves the facts about them that the components share. It also holds the two
  interfaces used by every stateful component: invariants of step relations and
  write-once command receipts.
\<close>

unbundle bit_operations_syntax

named_theorems go_string "facts about the Go string operations"
named_theorems inv_intro "preservation of component invariants"

section \<open>UTF-8 runes\<close>

definition byte_in :: "nat \<Rightarrow> nat \<Rightarrow> char \<Rightarrow> bool" where
  "byte_in lo hi c \<longleftrightarrow> lo \<le> of_char c \<and> of_char c \<le> hi"

text \<open>
  The number of bytes \<open>utf8.DecodeRuneInString\<close> consumes: 0 on the empty string, the
  length of the encoding when the string starts with a well-formed one, 1 otherwise.
\<close>

definition rune_width :: "string \<Rightarrow> nat" where
  "rune_width s = (case s of
     [] \<Rightarrow> 0
   | b0 # r \<Rightarrow>
       if byte_in 0 0x7F b0 then 1
       else if byte_in 0xC2 0xDF b0 then
         (case r of b1 # _ \<Rightarrow> if byte_in 0x80 0xBF b1 then 2 else 1 | _ \<Rightarrow> 1)
       else if byte_in 0xE0 0xEF b0 then
         (case r of b1 # b2 # _ \<Rightarrow>
            if byte_in (if of_char b0 = (0xE0::nat) then 0xA0 else 0x80)
                       (if of_char b0 = (0xED::nat) then 0x9F else 0xBF) b1
               \<and> byte_in 0x80 0xBF b2 then 3 else 1
          | _ \<Rightarrow> 1)
       else if byte_in 0xF0 0xF4 b0 then
         (case r of b1 # b2 # b3 # _ \<Rightarrow>
            if byte_in (if of_char b0 = (0xF0::nat) then 0x90 else 0x80)
                       (if of_char b0 = (0xF4::nat) then 0x8F else 0xBF) b1
               \<and> byte_in 0x80 0xBF b2 \<and> byte_in 0x80 0xBF b3 then 4 else 1
          | _ \<Rightarrow> 1)
       else 1)"

lemma rune_width_Nil [simp]: "rune_width [] = 0"
  by (simp add: rune_width_def)

lemma rune_width_pos: "s \<noteq> [] \<Longrightarrow> 0 < rune_width s"
  by (cases s) (auto simp: rune_width_def split: list.split)

lemma rune_width_le_4: "rune_width s \<le> 4"
  by (auto simp: rune_width_def split: list.split)

lemma rune_width_le_length: "rune_width s \<le> length s"
  by (auto simp: rune_width_def split: list.split)

function runes :: "string \<Rightarrow> string list" where
  "runes s = (if s = [] then [] else take (rune_width s) s # runes (drop (rune_width s) s))"
  by pat_completeness auto
termination
  by (relation "measure length") (auto simp: rune_width_pos)

declare runes.simps [simp del]

definition rune_count :: "string \<Rightarrow> int" where
  "rune_count s = int (length (runes s))"

lemma runes_Nil [simp]: "runes [] = []"
  by (simp add: runes.simps)

lemma runes_step: "s \<noteq> [] \<Longrightarrow> runes s = take (rune_width s) s # runes (drop (rune_width s) s)"
  by (simp add: runes.simps [of s])

lemma concat_runes [simp, go_string]: "concat (runes s) = s"
proof (induction s rule: runes.induct)
  case (1 s)
  then show ?case by (cases "s = []") (simp_all add: runes_step)
qed

lemma runes_eq_Nil [simp]: "runes s = [] \<longleftrightarrow> s = []"
  by (cases "s = []") (simp_all add: runes_step)

lemma rune_in_runes: "r \<in> set (runes s) \<Longrightarrow> r \<noteq> [] \<and> length r \<le> 4"
proof (induction s rule: runes.induct)
  case (1 s)
  show ?case
  proof (cases "s = []")
    case False
    then show ?thesis
      using 1 rune_width_pos [OF False] rune_width_le_4 [of s]
      by (auto simp: runes_step)
  qed (use 1 in simp)
qed

lemma length_concat_bounds:
  "\<forall>r\<in>set rs. r \<noteq> [] \<and> length r \<le> 4
    \<Longrightarrow> length rs \<le> length (concat rs) \<and> length (concat rs) \<le> 4 * length rs"
proof (induction rs)
  case (Cons r rs)
  from Cons have "length rs \<le> length (concat rs) \<and> length (concat rs) \<le> 4 * length rs"
    by simp
  moreover from Cons.prems have "Suc 0 \<le> length r" "length r \<le> 4"
    by (simp_all add: Suc_le_eq)
  ultimately show ?case by (simp del: length_concat)
qed simp

lemma rune_count_le_length [go_string]: "rune_count s \<le> int (length s)"
  using length_concat_bounds [of "runes s"] rune_in_runes [of _ s] by (simp add: rune_count_def)

lemma length_le_rune_count [go_string]: "int (length s) \<le> 4 * rune_count s"
  using length_concat_bounds [of "runes s"] rune_in_runes [of _ s] by (simp add: rune_count_def)

lemma rune_count_nonneg [simp]: "0 \<le> rune_count s"
  by (simp add: rune_count_def)

lemma rune_count_eq_0 [simp]: "rune_count s = 0 \<longleftrightarrow> s = []"
  by (simp add: rune_count_def)

lemma rune_count_less_1 [simp]: "rune_count s < 1 \<longleftrightarrow> s = []"
  using rune_count_nonneg [of s] rune_count_eq_0 [of s] by linarith

lemma rune_count_ge_1 [simp]: "1 \<le> rune_count s \<longleftrightarrow> s \<noteq> []"
  using rune_count_less_1 [of s] by linarith

lemma rune_count_Nil [simp]: "rune_count [] = 0"
  by simp

lemma runes_ascii: "list_all (byte_in 0 0x7F) s \<Longrightarrow> runes s = map (\<lambda>c. [c]) s"
proof (induction s)
  case (Cons c s)
  then have "rune_width (c # s) = 1" by (simp add: rune_width_def)
  with Cons show ?case by (simp add: runes_step)
qed simp

lemma rune_count_ascii [go_string]:
  "list_all (byte_in 0 0x7F) s \<Longrightarrow> rune_count s = int (length s)"
  by (simp add: rune_count_def runes_ascii)

text \<open>
  A rune of width 1 outside ASCII is an encoding error: converting to \<open>[]rune\<close> or
  writing JSON replaces it by U+FFFD, whose UTF-8 encoding is EF BF BD.
\<close>

definition rune_error :: string where
  "rune_error = [char_of (0xEF::nat), char_of (0xBF::nat), char_of (0xBD::nat)]"

definition rune_ok :: "string \<Rightarrow> bool" where
  "rune_ok r \<longleftrightarrow> length r \<noteq> 1 \<or> list_all (byte_in 0 0x7F) r"

definition valid_utf8 :: "string \<Rightarrow> bool" where
  "valid_utf8 s \<longleftrightarrow> list_all rune_ok (runes s)"

definition to_valid_rune :: "string \<Rightarrow> string" where
  "to_valid_rune r = (if rune_ok r then r else rune_error)"

definition to_valid_utf8 :: "string \<Rightarrow> string" where
  "to_valid_utf8 s = concat (map to_valid_rune (runes s))"

lemma to_valid_utf8_id [simp, go_string]: "valid_utf8 s \<Longrightarrow> to_valid_utf8 s = s"
proof -
  assume "valid_utf8 s"
  then have "map to_valid_rune (runes s) = runes s"
    by (simp add: valid_utf8_def to_valid_rune_def list_all_iff map_idI)
  then show ?thesis by (simp add: to_valid_utf8_def)
qed

text \<open>Evaluation of ASCII texts, which are their own runes, needs no decoding.\<close>

definition ascii :: "string \<Rightarrow> bool" where
  "ascii s \<longleftrightarrow> list_all (\<lambda>c. \<not> digit7 c) s"

lemma ascii_bytes: "ascii s \<Longrightarrow> list_all (byte_in 0 0x7F) s"
proof -
  have "byte_in 0 0x7F c" if "\<not> digit7 c" for c
    using that by (cases c) (simp add: byte_in_def of_char_def horner_sum_simps)
  then show "ascii s \<Longrightarrow> list_all (byte_in 0 0x7F) s" by (simp add: ascii_def list_all_iff)
qed

lemma ascii_rune_ok: "ascii s \<Longrightarrow> list_all rune_ok (runes s)"
  using ascii_bytes [of s] by (auto simp: runes_ascii rune_ok_def list_all_iff)

lemma rune_count_code [code]: "rune_count s = int (if ascii s then length s else length (runes s))"
  by (simp add: rune_count_def runes_ascii ascii_bytes)

lemma valid_utf8_code [code]: "valid_utf8 s \<longleftrightarrow> ascii s \<or> list_all rune_ok (runes s)"
  using ascii_rune_ok [of s] by (auto simp: valid_utf8_def)

lemma to_valid_utf8_code [code]: "to_valid_utf8 s = (if ascii s then s else concat (map to_valid_rune (runes s)))"
  using ascii_rune_ok [of s] by (simp add: valid_utf8_def to_valid_utf8_def [symmetric])

lemma valid_utf8_ascii [go_string]: "list_all (byte_in 0 0x7F) s \<Longrightarrow> valid_utf8 s"
  by (simp add: valid_utf8_def runes_ascii rune_ok_def list_all_iff)

lemma rune_width_append:
  assumes "rune_ok (take (rune_width a) a)" "a \<noteq> []"
  shows "rune_width (a @ b) = rune_width a"
proof -
  obtain b0 r where a: "a = b0 # r" using assms(2) by (cases a) auto
  consider "byte_in 0 0x7F b0" | b1 where "r = [b1]" | b1 b2 where "r = [b1, b2]"
    | b1 b2 b3 r' where "r = b1 # b2 # b3 # r'" | "r = []" "\<not> byte_in 0 0x7F b0"
    by (metis neq_Nil_conv)
  then show ?thesis
    by cases (use assms(1) a in \<open>simp_all add: rune_width_def rune_ok_def split: if_splits\<close>)
qed

lemma runes_append: "valid_utf8 a \<Longrightarrow> runes (a @ b) = runes a @ runes b"
proof (induction a rule: runes.induct)
  case (1 a)
  show ?case
  proof (cases "a = []")
    case False
    with "1.prems" have ok: "rune_ok (take (rune_width a) a)" "valid_utf8 (drop (rune_width a) a)"
      by (simp_all add: valid_utf8_def runes_step [OF False])
    from False ok have "rune_width (a @ b) = rune_width a" by (simp add: rune_width_append)
    with 1(1) [OF False ok(2)] False show ?thesis
      by (simp add: runes_step [of a] runes_step [of "a @ b"] rune_width_le_length)
  qed simp
qed

lemma rune_width_take: "rune_width (take (rune_width s) s) = rune_width s"
proof (cases s)
  case (Cons b0 r)
  consider "r = []" | b1 where "r = [b1]" | b1 b2 where "r = [b1, b2]" | b1 b2 b3 r' where "r = b1 # b2 # b3 # r'"
    by (metis neq_Nil_conv)
  then show ?thesis by cases (simp_all add: Cons rune_width_def)
qed simp

lemma runes_single: "r \<in> set (runes s) \<Longrightarrow> runes r = [r]"
proof (induction s rule: runes.induct)
  case (1 s)
  show ?case
  proof (cases "s = []")
    case False
    let ?r = "take (rune_width s) s"
    from 1(2) False consider "r = ?r" | "r \<in> set (runes (drop (rune_width s) s))" by (auto simp: runes_step)
    then show ?thesis
    proof cases
      case 1
      have "?r \<noteq> []" using False rune_width_pos [OF False] by auto
      then have "runes ?r = take (rune_width ?r) ?r # runes (drop (rune_width ?r) ?r)" by (rule runes_step)
      then show ?thesis unfolding 1 by (simp add: rune_width_take)
    qed (use 1(1) False in blast)
  qed (use 1(2) in simp)
qed

lemma runes_rune_error: "runes rune_error = [rune_error]"
  by code_simp

lemma runes_to_valid: "r \<in> set (runes s) \<Longrightarrow> runes (to_valid_rune r) = [to_valid_rune r] \<and> valid_utf8 (to_valid_rune r)"
  using runes_rune_error by (auto simp: to_valid_rune_def valid_utf8_def runes_single rune_error_def rune_ok_def)

lemma runes_concat_valid:
  assumes "\<And>r. r \<in> set rs \<Longrightarrow> runes r = [r] \<and> valid_utf8 r"
  shows "runes (concat rs) = rs \<and> valid_utf8 (concat rs)"
  using assms
proof (induction rs)
  case (Cons r rs)
  have "runes r = [r]" "valid_utf8 r" using Cons.prems by auto
  moreover have "runes (concat rs) = rs \<and> valid_utf8 (concat rs)" using Cons by simp
  ultimately show ?case using runes_append [of r "concat rs"] by (auto simp: valid_utf8_def)
qed (simp add: valid_utf8_def)

section \<open>Strings\<close>

text \<open>
  \<open>strings.TrimSpace\<close> removes leading and trailing runes for which \<open>unicode.IsSpace\<close>
  holds. The encodings of those runes are listed; none is a prefix or a suffix of
  another, so looking for one at either end is what the rune-wise loops of the library
  do.
\<close>

definition bytes :: "nat list \<Rightarrow> string" where
  "bytes = map char_of"

definition space_encodings :: "string list" where
  "space_encodings = map bytes
     ([[9], [10], [11], [12], [13], [32], [0xC2, 0x85], [0xC2, 0xA0], [0xE1, 0x9A, 0x80]]
      @ map (\<lambda>b. [0xE2, 0x80, b]) ([0x80 ..< 0x8B] @ [0xA8, 0xA9, 0xAF])
      @ [[0xE2, 0x81, 0x9F], [0xE3, 0x80, 0x80]])"

definition leading_space :: "string \<Rightarrow> string option" where
  "leading_space s = find (\<lambda>e. prefix e s) space_encodings"

definition trailing_space :: "string \<Rightarrow> string option" where
  "trailing_space s = find (\<lambda>e. suffix e s) space_encodings"

lemma space_encodings_nonempty: "e \<in> set space_encodings \<Longrightarrow> e \<noteq> []"
  by (auto simp: space_encodings_def bytes_def)

lemma leading_space_SomeD: "leading_space s = Some e \<Longrightarrow> e \<noteq> [] \<and> prefix e s"
  by (auto simp: leading_space_def find_Some_iff dest: space_encodings_nonempty [OF nth_mem])

lemma trailing_space_SomeD: "trailing_space s = Some e \<Longrightarrow> e \<noteq> [] \<and> suffix e s"
  by (auto simp: trailing_space_def find_Some_iff dest: space_encodings_nonempty [OF nth_mem])

function TrimLeftSpace :: "string \<Rightarrow> string" where
  "TrimLeftSpace s = (case leading_space s of
      None \<Rightarrow> s | Some e \<Rightarrow> TrimLeftSpace (drop (length e) s))"
  by pat_completeness auto
termination
proof (relation "measure length", goal_cases)
  case (2 s e)
  then have "e \<noteq> []" "prefix e s" by (auto dest: leading_space_SomeD)
  then have "0 < length e" "length e \<le> length s" by (auto dest: prefix_length_le)
  then show ?case by (simp del: length_greater_0_conv)
qed simp

function TrimRightSpace :: "string \<Rightarrow> string" where
  "TrimRightSpace s = (case trailing_space s of
      None \<Rightarrow> s | Some e \<Rightarrow> TrimRightSpace (take (length s - length e) s))"
  by pat_completeness auto
termination
proof (relation "measure length", goal_cases)
  case (2 s e)
  then have "e \<noteq> []" "suffix e s" by (auto dest: trailing_space_SomeD)
  then have "0 < length e" "length e \<le> length s" by (auto dest: suffix_length_le)
  then show ?case by (simp del: length_greater_0_conv)
qed simp

declare TrimLeftSpace.simps [simp del] TrimRightSpace.simps [simp del]

definition TrimSpace :: "string \<Rightarrow> string" where
  "TrimSpace s = TrimRightSpace (TrimLeftSpace s)"

lemma suffix_TrimLeftSpace: "suffix (TrimLeftSpace s) s"
proof (induction s rule: TrimLeftSpace.induct)
  case (1 s)
  show ?case
  proof (cases "leading_space s")
    case (Some e)
    with 1 have "suffix (TrimLeftSpace (drop (length e) s)) (drop (length e) s)" by simp
    then have "suffix (TrimLeftSpace (drop (length e) s)) s"
      by (rule suffix_order.trans) (rule suffix_drop)
    then show ?thesis using Some by (simp add: TrimLeftSpace.simps [of s])
  qed (simp add: TrimLeftSpace.simps [of s])
qed

lemma prefix_TrimRightSpace: "prefix (TrimRightSpace s) s"
proof (induction s rule: TrimRightSpace.induct)
  case (1 s)
  show ?case
  proof (cases "trailing_space s")
    case (Some e)
    with 1 have "prefix (TrimRightSpace (take (length s - length e) s)) (take (length s - length e) s)"
      by simp
    then have "prefix (TrimRightSpace (take (length s - length e) s)) s"
      by (rule prefix_order.trans) (rule take_is_prefix)
    then show ?thesis using Some by (simp add: TrimRightSpace.simps [of s])
  qed (simp add: TrimRightSpace.simps [of s])
qed

lemma sublist_TrimSpace [go_string]: "sublist (TrimSpace s) s"
  unfolding TrimSpace_def
  by (meson prefix_TrimRightSpace prefix_imp_sublist sublist_order.order.trans suffix_TrimLeftSpace
      suffix_imp_sublist)

text \<open>The result neither ends nor, unless empty, starts with a space.\<close>

lemma trailing_TrimRightSpace: "trailing_space (TrimRightSpace s) = None"
proof (induction s rule: TrimRightSpace.induct)
  case (1 s)
  show ?case
  proof (cases "trailing_space s")
    case None
    then show ?thesis by (simp add: TrimRightSpace.simps [of s])
  next
    case (Some e)
    with 1 show ?thesis by (simp add: TrimRightSpace.simps [of s])
  qed
qed

lemma leading_TrimLeftSpace: "leading_space (TrimLeftSpace s) = None"
proof (induction s rule: TrimLeftSpace.induct)
  case (1 s)
  show ?case
  proof (cases "leading_space s")
    case None
    then show ?thesis by (simp add: TrimLeftSpace.simps [of s])
  next
    case (Some e)
    with 1 show ?thesis by (simp add: TrimLeftSpace.simps [of s])
  qed
qed

lemma leading_space_prefix:
  "prefix t s \<Longrightarrow> leading_space s = None \<Longrightarrow> leading_space t = None"
  unfolding leading_space_def find_None_iff by (meson prefix_order.trans)

lemma TrimSpace_idem [simp, go_string]: "TrimSpace (TrimSpace s) = TrimSpace s"
proof -
  have "leading_space (TrimSpace s) = None"
    unfolding TrimSpace_def
    using leading_space_prefix [OF prefix_TrimRightSpace leading_TrimLeftSpace] .
  moreover have "trailing_space (TrimSpace s) = None"
    by (simp add: TrimSpace_def trailing_TrimRightSpace)
  ultimately show ?thesis
    by (simp add: TrimSpace_def [of "TrimSpace s"] TrimLeftSpace.simps [of "TrimSpace s"]
        TrimRightSpace.simps [of "TrimSpace s"])
qed

lemma TrimSpace_id: "leading_space s = None \<Longrightarrow> trailing_space s = None \<Longrightarrow> TrimSpace s = s"
  by (simp add: TrimSpace_def TrimLeftSpace.simps [of s] TrimRightSpace.simps [of s])

lemma space_encodings_ends:
  "\<forall>e \<in> set space_encodings. \<not> byte_in 0x21 0x7E (hd e) \<and> \<not> byte_in 0x21 0x7E (last e)"
  by code_simp

lemma TrimSpace_printable:
  assumes "s \<noteq> []" "byte_in 0x21 0x7E (hd s)" "byte_in 0x21 0x7E (last s)"
  shows "TrimSpace s = s"
proof (rule TrimSpace_id)
  show "leading_space s = None"
    unfolding leading_space_def find_None_iff
  proof
    assume "\<exists>e. e \<in> set space_encodings \<and> prefix e s"
    then obtain e where e: "e \<in> set space_encodings" "prefix e s" by blast
    with space_encodings_nonempty have "hd e = hd s" by (auto elim!: prefixE)
    with e space_encodings_ends assms(2) show False by metis
  qed
  show "trailing_space s = None"
    unfolding trailing_space_def find_None_iff
  proof
    assume "\<exists>e. e \<in> set space_encodings \<and> suffix e s"
    then obtain e where e: "e \<in> set space_encodings" "suffix e s" by blast
    with space_encodings_nonempty have "last e = last s" by (auto elim!: suffixE)
    with e space_encodings_ends assms(3) show False by metis
  qed
qed

text \<open>\<open>strings.Join\<close>, and \<open>strings.Split\<close> for a one-byte separator.\<close>

fun Join :: "string list \<Rightarrow> string \<Rightarrow> string" where
  "Join [] sep = []"
| "Join [x] sep = x"
| "Join (x # y # zs) sep = x @ sep @ Join (y # zs) sep"

fun Split :: "string \<Rightarrow> char \<Rightarrow> string list" where
  "Split [] c = [[]]"
| "Split (x # xs) c = (if x = c then [] # Split xs c
     else (case Split xs c of p # ps \<Rightarrow> (x # p) # ps | [] \<Rightarrow> [[x]]))"

lemma Split_nonempty [simp]: "Split s c \<noteq> []"
  by (cases s) (auto split: list.split)

lemma Join_Split [simp, go_string]: "Join (Split s c) [c] = s"
proof (induction s)
  case (Cons x s)
  then show ?case
    using Split_nonempty [of s c]
    by (cases "Split s c"; cases "tl (Split s c)") (auto simp del: Split_nonempty)
qed simp

lemma Split_no_sep: "p \<in> set (Split s c) \<Longrightarrow> c \<notin> set p"
  by (induction s arbitrary: p) (force split: if_splits list.splits)+

lemma Split_single: "c \<notin> set p \<Longrightarrow> Split p c = [p]"
  by (induction p) auto

lemma Split_append: "c \<notin> set p \<Longrightarrow> Split (p @ c # s) c = p # Split s c"
  by (induction p) auto

lemma Split_Join:
  "ps \<noteq> [] \<Longrightarrow> \<forall>p\<in>set ps. c \<notin> set p \<Longrightarrow> Split (Join ps [c]) c = ps"
proof (induction ps rule: induct_list012)
  case (3 x y zs)
  then have "Split (Join (y # zs) [c]) c = y # zs" "c \<notin> set x" by simp_all
  then show ?case by (simp add: Split_append)
qed (simp_all add: Split_single)

text \<open>Joining is unambiguous on parts that do not contain the separator.\<close>

lemma Join_inject:
  assumes "ps \<noteq> []" "qs \<noteq> []" "\<forall>p\<in>set ps. c \<notin> set p" "\<forall>q\<in>set qs. c \<notin> set q"
    and "Join ps [c] = Join qs [c]"
  shows "ps = qs"
proof -
  have "ps = Split (Join ps [c]) c" using assms(1,3) by (rule Split_Join [symmetric])
  also have "\<dots> = Split (Join qs [c]) c" by (simp only: assms(5))
  also have "\<dots> = qs" using assms(2,4) by (rule Split_Join)
  finally show ?thesis .
qed

text \<open>Decimal printing: \<open>fmt.Sprint\<close> of an integer.\<close>

definition digit_char :: "nat \<Rightarrow> char" where
  "digit_char d = char_of (48 + d)"

fun nat_digits :: "nat \<Rightarrow> string" where
  "nat_digits n = (if n < 10 then [digit_char n] else nat_digits (n div 10) @ [digit_char (n mod 10)])"

declare nat_digits.simps [simp del]

definition itoa :: "int \<Rightarrow> string" where
  "itoa i = (if i < 0 then ''-'' @ nat_digits (nat (- i)) else nat_digits (nat i))"

lemma of_char_digit [simp]: "d < 10 \<Longrightarrow> of_char (digit_char d) = 48 + d"
  by (simp add: digit_char_def)

fun digits_value :: "string \<Rightarrow> nat" where
  "digits_value s = fold (\<lambda>c v. 10 * v + (of_char c - 48)) s 0"

lemma digits_value_nat_digits [simp]: "digits_value (nat_digits n) = n"
proof (induction n rule: nat_digits.induct)
  case (1 n)
  then show ?case by (cases "n < 10") (auto simp: nat_digits.simps [of n])
qed

lemma nat_digits_chars: "c \<in> set (nat_digits n) \<Longrightarrow> byte_in 48 57 c"
proof (induction n rule: nat_digits.induct)
  case (1 n)
  then show ?case
    by (cases "n < 10") (auto simp: nat_digits.simps [of n] byte_in_def)
qed

lemma nat_digits_inject [simp]: "nat_digits m = nat_digits n \<longleftrightarrow> m = n"
  by (metis digits_value_nat_digits)

lemma nat_digits_nonempty [simp]: "nat_digits n \<noteq> []"
  by (simp add: nat_digits.simps [of n])

lemma nat_digits_not_minus: "nat_digits n \<noteq> CHR ''-'' # s"
  using nat_digits_chars [of "CHR ''-''" n] by (auto simp: byte_in_def)

lemma itoa_inject [simp, go_string]: "itoa i = itoa j \<longleftrightarrow> i = j"
  using nat_digits_not_minus nat_digits_not_minus [THEN not_sym]
  by (auto simp: itoa_def)

lemma itoa_no_NUL: "CHR 0x00 \<notin> set (itoa i)"
  using nat_digits_chars [of "CHR 0x00"] by (auto simp: itoa_def byte_in_def)

lemma map_le_Some: "m \<subseteq>\<^sub>m m' \<Longrightarrow> m k = Some v \<Longrightarrow> m' k = Some v"
  by (metis domI map_le_def)

section \<open>Invariants of step relations\<close>

text \<open>
  The states a component can be in are those its step relation reaches from an initial
  state. Every component interprets this interface on its own step relation.
\<close>

locale step_invariant =
  fixes init :: "'s \<Rightarrow> bool"
    and step :: "'s \<Rightarrow> 's \<Rightarrow> bool"
    and inv :: "'s \<Rightarrow> bool"
  assumes inv_init: "init s \<Longrightarrow> inv s"
    and inv_step: "inv s \<Longrightarrow> step s t \<Longrightarrow> inv t"
begin

lemma inv_steps: "step\<^sup>*\<^sup>* s t \<Longrightarrow> inv s \<Longrightarrow> inv t"
  by (induction rule: rtranclp_induct) (auto intro: inv_step)

lemma inv_reachable: "init s \<Longrightarrow> step\<^sup>*\<^sup>* s t \<Longrightarrow> inv t"
  by (rule inv_steps [OF _ inv_init])

end

section \<open>Maps whose entries only evolve\<close>

definition map_evolves :: "('v \<Rightarrow> 'v \<Rightarrow> bool) \<Rightarrow> ('k \<rightharpoonup> 'v) \<Rightarrow> ('k \<rightharpoonup> 'v) \<Rightarrow> bool" where
  "map_evolves R m m' \<longleftrightarrow> (\<forall>k v. m k = Some v \<longrightarrow> (\<exists>v'. m' k = Some v' \<and> R v v'))"

lemma map_evolvesD: "map_evolves R m m' \<Longrightarrow> m k = Some v \<Longrightarrow> \<exists>v'. m' k = Some v' \<and> R v v'"
  by (simp add: map_evolves_def)

lemma map_evolves_refl: "reflp R \<Longrightarrow> map_evolves R m m"
  by (simp add: map_evolves_def reflp_def)

lemma map_evolves_trans:
  "transp R \<Longrightarrow> map_evolves R a b \<Longrightarrow> map_evolves R b c \<Longrightarrow> map_evolves R a c"
  unfolding map_evolves_def transp_def by metis

lemma map_evolves_upd:
  "reflp R \<Longrightarrow> (\<And>v. m k = Some v \<Longrightarrow> R v w) \<Longrightarrow> map_evolves R m (m(k \<mapsto> w))"
  by (simp add: map_evolves_def reflp_def)

section \<open>Write-once command receipts\<close>

text \<open>
  A governed command carries an idempotency key. The first successful execution stores a
  receipt (the request hash and the response) under the key; a later execution with the
  same hash returns the stored response; a different hash is refused. What may differ
  between two executions of the same command (clock readings, a freshly generated
  identifier) is the argument \<open>'n\<close>. The client fact is that a retry is answered with the
  first response no matter what ran in between. Responses for which the stored form is
  exact satisfy \<open>good\<close>.
\<close>

locale replayed_command =
  fixes run :: "'c \<Rightarrow> 'n \<Rightarrow> 's \<Rightarrow> ('e + 'a) \<times> 's"
    and receipt :: "'s \<Rightarrow> 'c \<Rightarrow> ('h \<times> 'a) option"
    and hash :: "'c \<Rightarrow> 'h"
    and valid :: "'c \<Rightarrow> bool"
    and good :: "'a \<Rightarrow> bool"
    and step :: "'s \<Rightarrow> 's \<Rightarrow> bool"
  assumes run_success:
      "run c n s = (Inr v, t) \<Longrightarrow> valid c \<and> (case receipt s c of
         None \<Rightarrow> good v \<longrightarrow> receipt t c = Some (hash c, v)
       | Some (h, w) \<Rightarrow> h = hash c \<and> w = v \<and> receipt t c = receipt s c)"
    and run_replay:
      "valid c \<Longrightarrow> receipt s c = Some (hash c, v) \<Longrightarrow> fst (run c n s) = Inr v"
    and write_once:
      "step s t \<Longrightarrow> receipt s c = Some r \<Longrightarrow> receipt t c = Some r"
begin

lemma receipt_kept: "step\<^sup>*\<^sup>* s t \<Longrightarrow> receipt s c = Some r \<Longrightarrow> receipt t c = Some r"
  by (induction rule: rtranclp_induct) (auto intro: write_once)

lemma success_recorded:
  "run c n s = (Inr v, t) \<Longrightarrow> good v \<Longrightarrow> receipt t c = Some (hash c, v)"
  by (drule run_success) (auto split: option.splits)

lemma retry_same_answer:
  assumes "run c n s = (Inr v, s')" "good v" "step\<^sup>*\<^sup>* s' t"
  shows "fst (run c n' t) = Inr v"
proof -
  have "valid c" using run_success [OF assms(1)] by simp
  moreover have "receipt t c = Some (hash c, v)"
    using receipt_kept [OF assms(3)] success_recorded [OF assms(1,2)] by simp
  ultimately show ?thesis by (rule run_replay)
qed

end

lemma pred_option_code [code]: "pred_option P None \<longleftrightarrow> True" "pred_option P (Some x) \<longleftrightarrow> P x"
  by simp_all

end
