(* ===== verification/Faults.thy ===== *)
theory Faults
  imports Prelude
begin

text \<open>
  The package \<open>internal/fault\<close>: categorised application errors. An error is either a
  \<open>*fault.Error\<close> with its code, operation, message and optional cause, or a plain
  Go error made by \<open>fmt.Errorf\<close>. A message is kept as its format string with the
  arguments; rendering it is \<open>fmt\<close>'s work and no code branches on the rendered text.
\<close>

datatype Code = CodeInvalidArgument | CodeUnauthenticated | CodePermissionDenied | CodeNotFound
  | CodeConflict | CodeUnavailable | CodeInternal

fun CodeString :: "Code \<Rightarrow> string" where
  "CodeString CodeInvalidArgument = ''invalid_argument''"
| "CodeString CodeUnauthenticated = ''unauthenticated''"
| "CodeString CodePermissionDenied = ''permission_denied''"
| "CodeString CodeNotFound = ''not_found''"
| "CodeString CodeConflict = ''conflict''"
| "CodeString CodeUnavailable = ''unavailable''"
| "CodeString CodeInternal = ''internal''"

datatype fmt_arg = FStr string | FInt int

datatype message = Msg string "fmt_arg list"

datatype error =
    FaultError (fault_code: Code) (fault_op: string) (fault_message: message) (fault_err: "error option")
  | PlainError message "error option"

type_synonym 'a result = "error + 'a"

text \<open>\<open>errors.As(err, &target)\<close> for a \<open>*fault.Error\<close>: the first fault of the chain.\<close>

fun as_fault :: "error \<Rightarrow> error option" where
  "as_fault (FaultError c op m e) = Some (FaultError c op m e)"
| "as_fault (PlainError m None) = None"
| "as_fault (PlainError m (Some e)) = as_fault e"

definition CodeOf :: "error \<Rightarrow> Code" where
  "CodeOf err = (case as_fault err of Some target \<Rightarrow> fault_code target | None \<Rightarrow> CodeInternal)"

definition IsCode :: "error \<Rightarrow> Code \<Rightarrow> bool" where
  "IsCode err c = (case as_fault err of Some target \<Rightarrow> fault_code target = c | None \<Rightarrow> False)"

definition New :: "Code \<Rightarrow> string \<Rightarrow> message \<Rightarrow> error" where
  "New c op m = FaultError c op m None"

definition Wrap :: "Code \<Rightarrow> string \<Rightarrow> message \<Rightarrow> error option \<Rightarrow> error option" where
  "Wrap c op m err = (case err of None \<Rightarrow> None | Some e \<Rightarrow> Some (FaultError c op m (Some e)))"

text \<open>\<open>fault.Wrap\<close> at a call where the cause is known to be non-nil.\<close>

definition WrapErr :: "Code \<Rightarrow> string \<Rightarrow> message \<Rightarrow> error \<Rightarrow> error" where
  "WrapErr c op m e = FaultError c op m (Some e)"

definition Errorf :: "string \<Rightarrow> fmt_arg list \<Rightarrow> error" where
  "Errorf f args = PlainError (Msg f args) None"

text \<open>The codes in the chain of an error, outermost first.\<close>

fun chain_codes :: "error \<Rightarrow> Code list" where
  "chain_codes (FaultError c op m None) = [c]"
| "chain_codes (FaultError c op m (Some e)) = c # chain_codes e"
| "chain_codes (PlainError m None) = []"
| "chain_codes (PlainError m (Some e)) = chain_codes e"

text \<open>
  The simplifier neither opens an error nor rewrites its texts: the code is all that
  proofs look at.
\<close>

lemma New_weak_cong [cong]: "c = c' \<Longrightarrow> New c op m = New c' op m"
  by simp

lemma WrapErr_weak_cong [cong]: "c = c' \<Longrightarrow> WrapErr c op m e = WrapErr c' op m e"
  by simp

lemma Errorf_weak_cong [cong]: "Errorf f args = Errorf f args"
  by simp

lemma CodeOf_New [simp]: "CodeOf (New c op m) = c"
  by (simp add: CodeOf_def New_def)

lemma CodeOf_WrapErr [simp]: "CodeOf (WrapErr c op m e) = c"
  by (simp add: CodeOf_def WrapErr_def)

lemma Wrap_Some [simp]: "Wrap c op m (Some e) = Some (WrapErr c op m e)"
  by (simp add: Wrap_def WrapErr_def)

lemma Wrap_None [simp]: "Wrap c op m None = None"
  by (simp add: Wrap_def)

lemma as_fault_chain: "as_fault err = Some f \<Longrightarrow> \<exists>cs. chain_codes err = fault_code f # cs"
  by (induction err rule: chain_codes.induct) auto

lemma as_fault_None_iff: "as_fault err = None \<longleftrightarrow> chain_codes err = []"
  by (induction err rule: chain_codes.induct) auto

text \<open>
  \<open>IsCode\<close> looks at the outermost code of the chain only, although its comment reads
  ``reports whether an error chain contains the requested code''.
\<close>

lemma IsCode_outermost:
  "IsCode err c \<longleftrightarrow> (case chain_codes err of [] \<Rightarrow> False | c' # _ \<Rightarrow> c = c')"
proof (cases "as_fault err")
  case None
  then show ?thesis using as_fault_None_iff [of err] by (simp add: IsCode_def)
next
  case (Some f)
  then obtain cs where "chain_codes err = fault_code f # cs" using as_fault_chain by blast
  then show ?thesis using Some by (auto simp: IsCode_def)
qed

text \<open>
  C26. The code an error is reported under at a trust boundary is the outermost code of
  its chain (\<open>internal\<close> for an error without one), and \<open>IsCode\<close> is true of exactly that
  code: a code deeper in the chain is not found, whatever the comment of \<open>IsCode\<close> says.
\<close>

theorem IsCode_iff_CodeOf:
  "(IsCode err c \<longleftrightarrow> chain_codes err \<noteq> [] \<and> c = CodeOf err)
   \<and> CodeOf err = (case chain_codes err of [] \<Rightarrow> CodeInternal | c' # _ \<Rightarrow> c')
   \<and> \<not> IsCode (WrapErr CodeInternal ''op'' (Msg ''m'' []) (New CodeConflict ''op'' (Msg ''m'' [])))
        CodeConflict"
proof -
  have *: "CodeOf err = (case chain_codes err of [] \<Rightarrow> CodeInternal | c' # _ \<Rightarrow> c')"
    using as_fault_None_iff [of err] as_fault_chain [of err]
    by (auto simp: CodeOf_def split: option.split)
  then have "IsCode err c \<longleftrightarrow> chain_codes err \<noteq> [] \<and> c = CodeOf err"
    by (auto simp: IsCode_outermost split: list.splits)
  moreover have "\<not> IsCode (WrapErr CodeInternal ''op'' (Msg ''m'' []) (New CodeConflict ''op'' (Msg ''m'' [])))
        CodeConflict"
    by (simp add: IsCode_def WrapErr_def)
  ultimately show ?thesis using * by simp
qed

end
