(* ===== verification/Identity.thy ===== *)
theory Identity
  imports Faults
begin

text \<open>
  The package \<open>internal/identity\<close>: typed UUIDv4 identifiers. The entropy source is the
  list of bytes it still delivers; \<open>io.ReadFull\<close> fails when fewer than sixteen are left.
  The regular expressions of the sources match strings of one fixed length, so each is
  the list of the character classes it accepts, in order.
\<close>

type_synonym RunID = string
type_synonym SprintID = string
type_synonym DecisionID = string

definition hex_char :: "nat \<Rightarrow> char" where
  "hex_char n = (if n < 10 then char_of (48 + n) else char_of (87 + n))"

definition is_hex :: "char \<Rightarrow> bool" where
  "is_hex c \<longleftrightarrow> byte_in 48 57 c \<or> byte_in 97 102 c"

text \<open>\<open>hex.Encode\<close>\<close>

definition hex_Encode :: "8 word list \<Rightarrow> string" where
  "hex_Encode ws = concat (map (\<lambda>w. [hex_char (unat w div 16), hex_char (unat w mod 16)]) ws)"

definition NewRunIDFrom :: "8 word list \<Rightarrow> RunID result" where
  "NewRunIDFrom source =
    (if length source < 16 then Inl (Errorf ''read run id entropy: %w'' [])
     else
       let raw = take 16 source;
           raw = raw[6 := (raw ! 6 AND 0x0f) OR 0x40];
           raw = raw[8 := (raw ! 8 AND 0x3f) OR 0x80];
           part = (\<lambda>i j. hex_Encode (take (j - i) (drop i raw)))
       in Inr (''run_'' @ part 0 4 @ ''-'' @ part 4 6 @ ''-'' @ part 6 8 @ ''-''
               @ part 8 10 @ ''-'' @ part 10 16))"

definition char_classes :: "string \<Rightarrow> (char \<Rightarrow> bool) list" where
  "char_classes s = map (\<lambda>c d. d = c) s"

definition uuid_pattern :: "(char \<Rightarrow> bool) list" where
  "uuid_pattern = replicate 8 is_hex @ char_classes ''-'' @ replicate 4 is_hex
     @ char_classes ''-4'' @ replicate 3 is_hex
     @ char_classes ''-'' @ [\<lambda>c. c \<in> set ''89ab''] @ replicate 3 is_hex
     @ char_classes ''-'' @ replicate 12 is_hex"

definition MatchString :: "(char \<Rightarrow> bool) list \<Rightarrow> string \<Rightarrow> bool" where
  "MatchString pat s = list_all2 (\<lambda>p c. p c) pat s"

definition runIDPattern :: "(char \<Rightarrow> bool) list" where
  "runIDPattern = char_classes ''run_'' @ uuid_pattern"

definition sprintIDPattern :: "(char \<Rightarrow> bool) list" where
  "sprintIDPattern = char_classes ''sprint_'' @ uuid_pattern"

definition decisionIDPattern :: "(char \<Rightarrow> bool) list" where
  "decisionIDPattern = char_classes ''decision_'' @ uuid_pattern"

definition ParseRunID :: "string \<Rightarrow> RunID result" where
  "ParseRunID value = (if MatchString runIDPattern value then Inr value
     else Inl (Errorf ''invalid run id %q'' [FStr value]))"

definition ParseSprintID :: "string \<Rightarrow> SprintID result" where
  "ParseSprintID value = (if MatchString sprintIDPattern value then Inr value
     else Inl (Errorf ''invalid sprint id %q'' [FStr value]))"

definition ParseDecisionID :: "string \<Rightarrow> DecisionID result" where
  "ParseDecisionID value = (if MatchString decisionIDPattern value then Inr value
     else Inl (Errorf ''invalid decision id %q'' [FStr value]))"

definition TrimPrefix :: "string \<Rightarrow> string \<Rightarrow> string" where
  "TrimPrefix s p = (if prefix p s then drop (length p) s else s)"

definition newGovernanceID :: "string \<Rightarrow> 8 word list \<Rightarrow> string result" where
  "newGovernanceID pfx source = (case NewRunIDFrom source of
      Inl err \<Rightarrow> Inl err
    | Inr runID \<Rightarrow> Inr (pfx @ ''_'' @ TrimPrefix runID ''run_''))"

definition NewSprintIDFrom :: "8 word list \<Rightarrow> SprintID result" where
  "NewSprintIDFrom source = newGovernanceID ''sprint'' source"

definition NewDecisionIDFrom :: "8 word list \<Rightarrow> DecisionID result" where
  "NewDecisionIDFrom source = newGovernanceID ''decision'' source"

definition SprintID_UUID :: "SprintID \<Rightarrow> string" where
  "SprintID_UUID i = TrimPrefix i ''sprint_''"

section \<open>Matching\<close>

lemma MatchString_append:
  "length s = length pat \<Longrightarrow>
   MatchString (pat @ pat') (s @ s') \<longleftrightarrow> MatchString pat s \<and> MatchString pat' s'"
  by (simp add: MatchString_def list_all2_append)

lemma MatchString_literal [simp]: "MatchString (char_classes t) s \<longleftrightarrow> s = t"
  by (auto simp: MatchString_def char_classes_def list_all2_conv_all_nth intro: nth_equalityI)

lemma length_char_classes [simp]: "length (char_classes t) = length t"
  by (simp add: char_classes_def)

lemma MatchString_replicate: "MatchString (replicate n p) s \<longleftrightarrow> length s = n \<and> list_all p s"
  by (auto simp: MatchString_def list_all2_conv_all_nth list_all_length)

lemma hex_char_is_hex: "n < 16 \<Longrightarrow> is_hex (hex_char n)"
  by (auto simp: is_hex_def hex_char_def byte_in_def)

lemma hex_char_inject: "m < 16 \<Longrightarrow> n < 16 \<Longrightarrow> hex_char m = hex_char n \<longleftrightarrow> m = n"
proof
  assume "m < 16" "n < 16" "hex_char m = hex_char n"
  then have "(of_char (hex_char m) :: nat) = of_char (hex_char n)" by simp
  with \<open>m < 16\<close> \<open>n < 16\<close> show "m = n"
    by (simp add: hex_char_def split: if_splits)
qed simp

lemma unat_byte: "unat (w :: 8 word) < 256"
  using unsigned_less [of w] by simp

lemma length_hex_Encode [simp]: "length (hex_Encode ws) = 2 * length ws"
  by (induction ws) (simp_all add: hex_Encode_def)

lemma hex_Encode_Nil [simp]: "hex_Encode [] = []"
  by (simp add: hex_Encode_def)

lemma hex_Encode_Cons:
  "hex_Encode (w # ws) = hex_char (unat w div 16) # hex_char (unat w mod 16) # hex_Encode ws"
  by (simp add: hex_Encode_def)

lemma hex_Encode_is_hex: "list_all is_hex (hex_Encode ws)"
proof (induction ws)
  case (Cons w ws)
  then show ?case using unat_byte [of w] by (simp add: hex_Encode_Cons hex_char_is_hex)
qed simp

lemma hex_Encode_inject [simp]: "hex_Encode vs = hex_Encode ws \<longleftrightarrow> vs = ws"
proof (induction vs arbitrary: ws)
  case Nil
  then show ?case by (cases ws) (simp_all add: hex_Encode_Cons)
next
  case (Cons v vs)
  show ?case
  proof (cases ws)
    case (Cons w ws')
    have "v = w" if "unat v div 16 = unat w div 16" "unat v mod 16 = unat w mod 16"
      using that by (metis div_mult_mod_eq word_unat_eq_iff)
    then show ?thesis
      using Cons Cons.IH [of ws'] unat_byte [of v] unat_byte [of w]
      by (auto simp: hex_Encode_Cons hex_char_inject)
  qed (simp add: hex_Encode_Cons)
qed

section \<open>Generated identifiers\<close>

lemma unat_div_16: "unat (w :: 8 word) div 16 = unat (drop_bit 4 w)"
  by (simp add: drop_bit_eq_div unat_div)

lemma version_nibble: "unat ((w AND 0x0f) OR 0x40 :: 8 word) div 16 = 4"
proof -
  have "drop_bit 4 ((w AND 0x0f) OR 0x40 :: 8 word) = 4"
    by (simp add: drop_bit_or drop_bit_and)
  then show ?thesis by (simp add: unat_div_16)
qed

lemma unat_and_3: "unat (x AND 3 :: 8 word) < 4"
proof -
  have "unat (x AND 3) \<le> unat (3 :: 8 word)"
    by (rule word_and_le1 [THEN word_le_nat_alt [THEN iffD1]])
  then show ?thesis by simp
qed

lemma variant_nibble: "unat ((w AND 0x3f) OR 0x80 :: 8 word) div 16 \<in> {8, 9, 10, 11}"
proof -
  have "drop_bit 4 ((w AND 0x3f) OR 0x80 :: 8 word) = (drop_bit 4 w AND 3) OR 8"
    by (simp add: drop_bit_or drop_bit_and)
  moreover have "drop_bit 4 w AND 3 \<in> {0, 1, 2, 3 :: 8 word}"
  proof -
    have "unat (drop_bit 4 w AND 3 :: 8 word) \<in> {0, 1, 2, 3}"
      using unat_and_3 [of "drop_bit 4 w"] by auto
    then show ?thesis by (auto simp: word_unat_eq_iff)
  qed
  ultimately show ?thesis by (auto simp: unat_div_16)
qed

text \<open>The sixteen bytes an identifier prints: the entropy with the six fixed bits set.\<close>

definition uuid_bytes :: "8 word list \<Rightarrow> 8 word list" where
  "uuid_bytes source =
     (take 16 source)[6 := (source ! 6 AND 0x0f) OR 0x40, 8 := (source ! 8 AND 0x3f) OR 0x80]"

definition uuid_text :: "8 word list \<Rightarrow> string" where
  "uuid_text raw =
     hex_Encode (take 4 raw) @ ''-'' @ hex_Encode (take 2 (drop 4 raw)) @ ''-''
     @ hex_Encode (take 2 (drop 6 raw)) @ ''-'' @ hex_Encode (take 2 (drop 8 raw)) @ ''-''
     @ hex_Encode (take 6 (drop 10 raw))"

lemma length_uuid_bytes [simp]: "16 \<le> length source \<Longrightarrow> length (uuid_bytes source) = 16"
  by (simp add: uuid_bytes_def)

lemma NewRunIDFrom_eq:
  "NewRunIDFrom source =
     (if length source < 16 then Inl (Errorf ''read run id entropy: %w'' [])
      else Inr (''run_'' @ uuid_text (uuid_bytes source)))"
  by (simp add: NewRunIDFrom_def uuid_bytes_def uuid_text_def Let_def)

lemma hex_char_values:
  "hex_char 4 = CHR ''4''" "hex_char 8 = CHR ''8''" "hex_char 9 = CHR ''9''"
  "hex_char 10 = CHR ''a''" "hex_char 11 = CHR ''b''"
  by code_simp+

lemma uuid_pattern_split:
  "uuid_pattern = replicate 8 is_hex @ char_classes ''-'' @ replicate 4 is_hex
     @ char_classes ''-'' @ (char_classes ''4'' @ replicate 3 is_hex)
     @ char_classes ''-'' @ ([\<lambda>c. c \<in> set ''89ab''] @ replicate 3 is_hex)
     @ char_classes ''-'' @ replicate 12 is_hex"
  by (simp add: uuid_pattern_def char_classes_def)

lemma uuid_text_matches:
  assumes "16 \<le> length source"
  shows "MatchString uuid_pattern (uuid_text (uuid_bytes source))"
proof -
  let ?r = "uuid_bytes source"
  have r: "length ?r = 16" using assms by simp
  have v6: "?r ! 6 = (source ! 6 AND 0x0f) OR 0x40" and v8: "?r ! 8 = (source ! 8 AND 0x3f) OR 0x80"
    using assms by (simp_all add: uuid_bytes_def)
  have d6: "take 2 (drop 6 ?r) = [?r ! 6, ?r ! 7]" and d8: "take 2 (drop 8 ?r) = [?r ! 8, ?r ! 9]"
    using r by (simp_all add: take_Suc_conv_app_nth numeral_2_eq_2 hd_drop_conv_nth)
  have hex2: "list_all is_hex [hex_char (unat w mod 16), hex_char (unat w' div 16), hex_char (unat w' mod 16)]"
    for w w' :: "8 word"
    using unat_byte [of w'] by (simp add: hex_char_is_hex)
  have "MatchString (char_classes ''4'' @ replicate 3 is_hex) (hex_Encode (take 2 (drop 6 ?r)))"
    using hex2 version_nibble [of "source ! 6"]
    by (simp add: d6 v6 hex_Encode_Cons MatchString_def char_classes_def numeral_3_eq_3 hex_char_values)
  moreover have "MatchString ([\<lambda>c. c \<in> set ''89ab''] @ replicate 3 is_hex) (hex_Encode (take 2 (drop 8 ?r)))"
    using hex2 variant_nibble [of "source ! 8"]
    by (auto simp: d8 v8 hex_Encode_Cons MatchString_def numeral_3_eq_3 hex_char_values)
  ultimately show ?thesis
    using r hex_Encode_is_hex
    by (simp add: uuid_text_def uuid_pattern_split MatchString_append MatchString_replicate
        del: append_assoc append_Cons replicate_Suc)
qed

lemma length_uuid_text [simp]: "length raw = 16 \<Longrightarrow> length (uuid_text raw) = 36"
  by (simp add: uuid_text_def)

lemma uuid_text_inject:
  assumes "length raw = 16" "length raw' = 16" "uuid_text raw = uuid_text raw'"
  shows "raw = raw'"
proof -
  let ?cut = "\<lambda>r :: 8 word list.
    take 4 r @ take 2 (drop 4 r) @ take 2 (drop 6 r) @ take 2 (drop 8 r) @ take 6 (drop 10 r)"
  have cut: "?cut r = r" if "length r = 16" for r :: "8 word list"
    using that append_take_drop_id [of 4 r] append_take_drop_id [of 2 "drop 4 r"]
      append_take_drop_id [of 2 "drop 6 r"] append_take_drop_id [of 2 "drop 8 r"] by simp
  have "?cut raw = ?cut raw'"
    using assms by (simp add: uuid_text_def)
  then show ?thesis
    unfolding cut [OF assms(1)] cut [OF assms(2)] .
qed

lemma MatchString_ids:
  "MatchString runIDPattern (''run_'' @ t) \<longleftrightarrow> MatchString uuid_pattern t"
  "MatchString sprintIDPattern (''sprint_'' @ t) \<longleftrightarrow> MatchString uuid_pattern t"
  "MatchString decisionIDPattern (''decision_'' @ t) \<longleftrightarrow> MatchString uuid_pattern t"
  unfolding runIDPattern_def sprintIDPattern_def decisionIDPattern_def
  by (subst MatchString_append; simp)+

lemma newGovernanceID_eq:
  "16 \<le> length source \<Longrightarrow>
   newGovernanceID pfx source = Inr (pfx @ ''_'' @ uuid_text (uuid_bytes source))"
  by (simp add: newGovernanceID_def NewRunIDFrom_eq TrimPrefix_def)

text \<open>
  C25. Every identifier the generators produce is accepted, unchanged, by the matching
  parser: sixteen bytes of entropy always give a UUIDv4 behind the right prefix, the three
  kinds of identifier made from the same entropy share their UUID, and fewer than sixteen
  bytes give an error.
\<close>

theorem generated_ids_parse:
  "if 16 \<le> length source then
     (\<exists>rid sid did. NewRunIDFrom source = Inr rid \<and> ParseRunID rid = Inr rid
        \<and> NewSprintIDFrom source = Inr sid \<and> ParseSprintID sid = Inr sid
        \<and> NewDecisionIDFrom source = Inr did \<and> ParseDecisionID did = Inr did
        \<and> ''run_'' @ SprintID_UUID sid = rid)
   else isl (NewRunIDFrom source) \<and> isl (NewSprintIDFrom source) \<and> isl (NewDecisionIDFrom source)"
proof (cases "16 \<le> length source")
  case True
  have ids: "NewRunIDFrom source = Inr (''run_'' @ uuid_text (uuid_bytes source))"
    "NewSprintIDFrom source = Inr (''sprint_'' @ uuid_text (uuid_bytes source))"
    "NewDecisionIDFrom source = Inr (''decision_'' @ uuid_text (uuid_bytes source))"
    using True by (simp_all add: NewRunIDFrom_eq NewSprintIDFrom_def NewDecisionIDFrom_def newGovernanceID_eq)
  have parse: "ParseRunID (''run_'' @ uuid_text (uuid_bytes source)) = Inr (''run_'' @ uuid_text (uuid_bytes source))"
    "ParseSprintID (''sprint_'' @ uuid_text (uuid_bytes source)) = Inr (''sprint_'' @ uuid_text (uuid_bytes source))"
    "ParseDecisionID (''decision_'' @ uuid_text (uuid_bytes source)) = Inr (''decision_'' @ uuid_text (uuid_bytes source))"
    unfolding ParseRunID_def ParseSprintID_def ParseDecisionID_def MatchString_ids
    using uuid_text_matches [OF True] by simp_all
  have body: "''run_'' @ SprintID_UUID (''sprint_'' @ uuid_text (uuid_bytes source))
      = ''run_'' @ uuid_text (uuid_bytes source)"
    by (simp add: SprintID_UUID_def TrimPrefix_def)
  show ?thesis using True ids parse body by metis
next
  case False
  then show ?thesis
    by (simp add: NewRunIDFrom_eq NewSprintIDFrom_def NewDecisionIDFrom_def newGovernanceID_def)
qed

text \<open>Setting the fixed bits loses exactly those bits.\<close>

lemma or_masked_inject:
  fixes x y m k :: "8 word"
  assumes "m AND k = 0"
  shows "(x AND m) OR k = (y AND m) OR k \<longleftrightarrow> x AND m = y AND m"
proof
  assume "(x AND m) OR k = (y AND m) OR k"
  then have "((x AND m) OR k) AND m = ((y AND m) OR k) AND m" by simp
  moreover have "\<not> (bit m n \<and> bit k n)" for n
    using assms by (metis bit_0_eq bit_and_iff bot_apply bot_bool_def)
  then have "((z AND m) OR k) AND m = z AND m" for z
    by (intro bit_word_eqI) (auto simp: bit_and_iff bit_or_iff)
  ultimately show "x AND m = y AND m" by simp
qed simp

lemma split_at:
  "(\<forall>i<(16::nat). P i) \<longleftrightarrow> (\<forall>i<16. i \<noteq> 6 \<and> i \<noteq> 8 \<longrightarrow> P i) \<and> P 6 \<and> P 8"
proof -
  have "(6::nat) < 16" "(8::nat) < 16" by simp_all
  then show ?thesis by blast
qed

lemma uuid_bytes_eq_iff:
  assumes "16 \<le> length s" "16 \<le> length t"
  shows "uuid_bytes s = uuid_bytes t \<longleftrightarrow>
    (\<forall>i<16. i \<noteq> 6 \<and> i \<noteq> 8 \<longrightarrow> s ! i = t ! i)
    \<and> s ! 6 AND 0x0f = t ! 6 AND 0x0f \<and> s ! 8 AND 0x3f = t ! 8 AND 0x3f"
proof -
  have nth: "uuid_bytes r ! i = (if i = 6 then (r ! 6 AND 0x0f) OR 0x40
      else if i = 8 then (r ! 8 AND 0x3f) OR 0x80 else r ! i)"
    if "16 \<le> length r" "i < 16" for r i
    using that by (simp add: uuid_bytes_def nth_list_update)
  have "uuid_bytes s = uuid_bytes t \<longleftrightarrow> (\<forall>i<16. uuid_bytes s ! i = uuid_bytes t ! i)"
    using assms by (simp add: list_eq_iff_nth_eq)
  also have "\<dots> \<longleftrightarrow> (\<forall>i<16. i \<noteq> 6 \<and> i \<noteq> 8 \<longrightarrow> uuid_bytes s ! i = uuid_bytes t ! i)
      \<and> uuid_bytes s ! 6 = uuid_bytes t ! 6 \<and> uuid_bytes s ! 8 = uuid_bytes t ! 8"
    using split_at [of "\<lambda>i. uuid_bytes s ! i = uuid_bytes t ! i"] .
  also have "\<dots> \<longleftrightarrow> (\<forall>i<16. i \<noteq> 6 \<and> i \<noteq> 8 \<longrightarrow> s ! i = t ! i)
      \<and> (s ! 6 AND 0x0f) OR 0x40 = (t ! 6 AND 0x0f) OR 0x40
      \<and> (s ! 8 AND 0x3f) OR 0x80 = (t ! 8 AND 0x3f) OR 0x80"
    using assms by (simp add: nth)
  finally show ?thesis
    using or_masked_inject [of "0x0f" "0x40"] or_masked_inject [of "0x3f" "0x80"] by simp
qed

text \<open>
  Two identifiers generated from sixteen bytes of entropy each are equal exactly when
  the entropy agrees on all of the 122 bits that are not fixed by the UUIDv4 layout, so
  identifier collisions are entropy collisions.
\<close>

theorem run_id_collision_iff:
  assumes "16 \<le> length s" "16 \<le> length t"
  shows "NewRunIDFrom s = NewRunIDFrom t \<longleftrightarrow>
    (\<forall>i<16. i \<noteq> 6 \<and> i \<noteq> 8 \<longrightarrow> s ! i = t ! i)
    \<and> s ! 6 AND 0x0f = t ! 6 AND 0x0f \<and> s ! 8 AND 0x3f = t ! 8 AND 0x3f"
  using assms uuid_text_inject [of "uuid_bytes s" "uuid_bytes t"]
  by (auto simp: NewRunIDFrom_eq uuid_bytes_eq_iff [symmetric])

theorem run_id_collision_witness:
  "NewRunIDFrom (replicate 16 0) = NewRunIDFrom ((replicate 16 0)[6 := 0xf0])
   \<and> NewRunIDFrom (replicate 16 0) \<noteq> NewRunIDFrom (replicate 16 1)"
  using run_id_collision_iff [of "replicate 16 0" "(replicate 16 0)[6 := 0xf0]"]
    run_id_collision_iff [of "replicate 16 0" "replicate 16 1"]
  by (auto simp: nth_list_update intro: exI [of _ 0])

end
