(* ===== verification/Contracts.thy ===== *)
theory Contracts
  imports Identity
begin

text \<open>
  The aggregates of \<open>internal/contracts/types.go\<close> that the control plane stores (run,
  sprint, decision), the result of a worker, and what the sources use of \<open>encoding/json\<close> on them.

  A \<open>time.Time\<close> is an instant: nanoseconds since the Unix epoch, as an integer. All times
  of the control plane are in UTC, so \<open>.UTC()\<close> is the identity. Versions and sequence
  numbers are integers; the 64-bit \<open>int\<close> of the sources would wrap only after
  \<open>2 ^ 63\<close> commands on one aggregate.

  JSON is modelled at the level of documents. \<open>json.Marshal\<close> writes a structure as an
  object with its tags in field order, leaves out an absent \<open>omitempty\<close> pointer,
  replaces the bytes of a string that are not UTF-8 by U+FFFD, and fails on a time outside
  the years 0 to 9999. \<open>Decode\<close> with \<open>DisallowUnknownFields\<close> reads the tags back.
\<close>

type_synonym time = int

record Run =
  run_id :: string
  run_schema_version :: string
  run_objective :: string
  run_state :: string
  run_version :: int
  run_created_at :: time
  run_updated_at :: time

record Sprint =
  sprint_id :: string
  sprint_schema_version :: string
  sprint_sequence_number :: int
  sprint_title :: string
  sprint_objective :: string
  sprint_status :: string
  sprint_version :: int
  sprint_run_id :: string
  sprint_pending_decision_id :: "string option"
  sprint_created_at :: time
  sprint_updated_at :: time

record Decision =
  decision_id :: string
  decision_schema_version :: string
  decision_sprint_id :: string
  decision_run_id :: string
  decision_action :: string
  decision_risk_class :: string
  decision_status :: string
  decision_version :: int
  decision_requested_by :: string
  decision_decided_by :: "string option"
  decision_reason :: "string option"
  decision_created_at :: time
  decision_updated_at :: time
  decision_decided_at :: "time option"

text \<open>
  What a worker reports and what its supervisor records of one attempt. A slice that is
  \<open>nil\<close> is encoded as \<open>null\<close> and an empty one as \<open>[]\<close>, so a slice is an optional list.
\<close>

record WorkerReport =
  wr_Status :: string
  wr_Summary :: string
  wr_ChangedPaths :: "string list option"
  wr_EvidenceRefs :: "string list option"
  wr_Risks :: "string list option"

record WorkerUsage =
  wu_InputTokens :: int
  wu_CachedInputTokens :: int
  wu_OutputTokens :: int
  wu_ToolCalls :: int

record WorkerResult =
  res_TaskID :: string
  res_AttemptID :: string
  res_RunID :: string
  res_SchemaVersion :: string
  res_Adapter :: string
  res_Status :: string
  res_Retryable :: bool
  res_TerminationReason :: string
  res_StartedAt :: time
  res_FinishedAt :: time
  res_DurationMS :: int
  res_ExitCode :: "int option"
  res_Stdout :: string
  res_Stderr :: string
  res_StdoutSHA256 :: string
  res_StderrSHA256 :: string
  res_Usage :: WorkerUsage
  res_Report :: "WorkerReport option"
  res_EvidenceRefs :: "string list option"

text \<open>\<open>time.Time{}\<close> is midnight, January 1 of the year 1.\<close>

definition zero_time :: time where
  "zero_time = - 62135596800000000000"

definition zero_Run :: Run where
  "zero_Run = \<lparr>run_id = [], run_schema_version = [], run_objective = [], run_state = [],
     run_version = 0, run_created_at = zero_time, run_updated_at = zero_time\<rparr>"

definition zero_Sprint :: Sprint where
  "zero_Sprint = \<lparr>sprint_id = [], sprint_schema_version = [], sprint_sequence_number = 0,
     sprint_title = [], sprint_objective = [], sprint_status = [], sprint_version = 0,
     sprint_run_id = [], sprint_pending_decision_id = None,
     sprint_created_at = zero_time, sprint_updated_at = zero_time\<rparr>"

section \<open>JSON documents\<close>

datatype json = JNull | JBool bool | JInt int | JStr string | JTime time | JArr "json list"
  | JObj "(string \<times> json) list"

text \<open>\<open>Time.MarshalJSON\<close> refuses a year outside 0 to 9999.\<close>

definition json_time_ok :: "time \<Rightarrow> bool" where
  "json_time_ok t \<longleftrightarrow> - 62167219200000000000 \<le> t \<and> t < 253402300800000000000"

definition jstr :: "string \<Rightarrow> json" where
  "jstr s = JStr (to_valid_utf8 s)"

definition omitempty :: "string \<Rightarrow> ('a \<Rightarrow> json) \<Rightarrow> 'a option \<Rightarrow> (string \<times> json) list" where
  "omitempty k f v = (case v of None \<Rightarrow> [] | Some x \<Rightarrow> [(k, f x)])"

definition marshal_Run :: "Run \<Rightarrow> json option" where
  "marshal_Run r =
    (if json_time_ok (run_created_at r) \<and> json_time_ok (run_updated_at r) then
      Some (JObj
        [(''run_id'', jstr (run_id r)), (''schema_version'', jstr (run_schema_version r)),
         (''objective'', jstr (run_objective r)), (''state'', jstr (run_state r)),
         (''version'', JInt (run_version r)), (''created_at'', JTime (run_created_at r)),
         (''updated_at'', JTime (run_updated_at r))])
     else None)"

definition marshal_Sprint :: "Sprint \<Rightarrow> json option" where
  "marshal_Sprint s =
    (if json_time_ok (sprint_created_at s) \<and> json_time_ok (sprint_updated_at s) then
      Some (JObj
        ([(''sprint_id'', jstr (sprint_id s)), (''schema_version'', jstr (sprint_schema_version s)),
          (''sequence_number'', JInt (sprint_sequence_number s)), (''title'', jstr (sprint_title s)),
          (''objective'', jstr (sprint_objective s)), (''status'', jstr (sprint_status s)),
          (''version'', JInt (sprint_version s)), (''run_id'', jstr (sprint_run_id s))]
         @ omitempty ''pending_decision_id'' jstr (sprint_pending_decision_id s)
         @ [(''created_at'', JTime (sprint_created_at s)), (''updated_at'', JTime (sprint_updated_at s))]))
     else None)"

definition marshal_Decision :: "Decision \<Rightarrow> json option" where
  "marshal_Decision d =
    (if json_time_ok (decision_created_at d) \<and> json_time_ok (decision_updated_at d)
        \<and> (case decision_decided_at d of None \<Rightarrow> True | Some t \<Rightarrow> json_time_ok t) then
      Some (JObj
        ([(''decision_id'', jstr (decision_id d)), (''schema_version'', jstr (decision_schema_version d)),
          (''sprint_id'', jstr (decision_sprint_id d)), (''run_id'', jstr (decision_run_id d)),
          (''action'', jstr (decision_action d)), (''risk_class'', jstr (decision_risk_class d)),
          (''status'', jstr (decision_status d)), (''version'', JInt (decision_version d)),
          (''requested_by'', jstr (decision_requested_by d))]
         @ omitempty ''decided_by'' jstr (decision_decided_by d)
         @ omitempty ''reason'' jstr (decision_reason d)
         @ [(''created_at'', JTime (decision_created_at d)), (''updated_at'', JTime (decision_updated_at d))]
         @ omitempty ''decided_at'' JTime (decision_decided_at d)))
     else None)"

text \<open>A pointer or a slice that is not \<open>omitempty\<close> is \<open>null\<close> where it is \<open>nil\<close>.\<close>

definition jnullable :: "('a \<Rightarrow> json) \<Rightarrow> 'a option \<Rightarrow> json" where
  "jnullable f v = (case v of None \<Rightarrow> JNull | Some x \<Rightarrow> f x)"

definition jstrings :: "string list option \<Rightarrow> json" where
  "jstrings = jnullable (\<lambda>ss. JArr (map jstr ss))"

definition marshal_WorkerReport :: "WorkerReport \<Rightarrow> json" where
  "marshal_WorkerReport r = JObj
     [(''status'', jstr (wr_Status r)), (''summary'', jstr (wr_Summary r)),
      (''changed_paths'', jstrings (wr_ChangedPaths r)), (''evidence_refs'', jstrings (wr_EvidenceRefs r)),
      (''risks'', jstrings (wr_Risks r))]"

definition marshal_WorkerUsage :: "WorkerUsage \<Rightarrow> json" where
  "marshal_WorkerUsage u = JObj
     [(''input_tokens'', JInt (wu_InputTokens u)), (''cached_input_tokens'', JInt (wu_CachedInputTokens u)),
      (''output_tokens'', JInt (wu_OutputTokens u)), (''tool_calls'', JInt (wu_ToolCalls u))]"

definition marshal_WorkerResult :: "WorkerResult \<Rightarrow> json option" where
  "marshal_WorkerResult r =
    (if json_time_ok (res_StartedAt r) \<and> json_time_ok (res_FinishedAt r) then
      Some (JObj
        [(''task_id'', jstr (res_TaskID r)), (''attempt_id'', jstr (res_AttemptID r)), (''run_id'', jstr (res_RunID r)),
         (''schema_version'', jstr (res_SchemaVersion r)), (''adapter'', jstr (res_Adapter r)),
         (''status'', jstr (res_Status r)), (''retryable'', JBool (res_Retryable r)),
         (''termination_reason'', jstr (res_TerminationReason r)), (''started_at'', JTime (res_StartedAt r)),
         (''finished_at'', JTime (res_FinishedAt r)), (''duration_ms'', JInt (res_DurationMS r)),
         (''exit_code'', jnullable JInt (res_ExitCode r)), (''stdout'', jstr (res_Stdout r)),
         (''stderr'', jstr (res_Stderr r)), (''stdout_sha256'', jstr (res_StdoutSHA256 r)),
         (''stderr_sha256'', jstr (res_StderrSHA256 r)), (''usage'', marshal_WorkerUsage (res_Usage r)),
         (''report'', jnullable marshal_WorkerReport (res_Report r)), (''evidence_refs'', jstrings (res_EvidenceRefs r))])
     else None)"

text \<open>
  Reading a field: absent or \<open>null\<close> leaves the zero value, a value of another kind is
  a decoding error, and the last of several occurrences wins.
\<close>

definition field :: "(string \<times> json) list \<Rightarrow> string \<Rightarrow> json" where
  "field fs k = (case map_of (rev fs) k of None \<Rightarrow> JNull | Some j \<Rightarrow> j)"

fun read_str :: "json \<Rightarrow> string option" where
  "read_str (JStr s) = Some s" | "read_str JNull = Some []" | "read_str _ = None"

fun read_int :: "json \<Rightarrow> int option" where
  "read_int (JInt i) = Some i" | "read_int JNull = Some 0" | "read_int _ = None"

fun read_time :: "json \<Rightarrow> time option" where
  "read_time (JTime t) = Some t" | "read_time JNull = Some zero_time" | "read_time _ = None"

definition read_ptr :: "(json \<Rightarrow> 'a option) \<Rightarrow> json \<Rightarrow> 'a option option" where
  "read_ptr rd j = (if j = JNull then Some None else map_option Some (rd j))"

fun known_fields :: "string list \<Rightarrow> json \<Rightarrow> (string \<times> json) list option" where
  "known_fields ks (JObj fs) = (if list_all (\<lambda>(k, _). k \<in> set ks) fs then Some fs else None)"
| "known_fields ks JNull = Some []"
| "known_fields ks _ = None"

definition decode_Run :: "json \<Rightarrow> Run option" where
  "decode_Run j =
    Option.bind (known_fields [''run_id'', ''schema_version'', ''objective'', ''state'', ''version'',
      ''created_at'', ''updated_at''] j) (\<lambda>fs.
    Option.bind (read_str (field fs ''run_id'')) (\<lambda>i.
    Option.bind (read_str (field fs ''schema_version'')) (\<lambda>sv.
    Option.bind (read_str (field fs ''objective'')) (\<lambda>ob.
    Option.bind (read_str (field fs ''state'')) (\<lambda>st.
    Option.bind (read_int (field fs ''version'')) (\<lambda>v.
    Option.bind (read_time (field fs ''created_at'')) (\<lambda>c.
    Option.bind (read_time (field fs ''updated_at'')) (\<lambda>u.
      Some \<lparr>run_id = i, run_schema_version = sv, run_objective = ob, run_state = st,
            run_version = v, run_created_at = c, run_updated_at = u\<rparr>))))))))"

definition decode_Sprint :: "json \<Rightarrow> Sprint option" where
  "decode_Sprint j =
    Option.bind (known_fields [''sprint_id'', ''schema_version'', ''sequence_number'', ''title'',
      ''objective'', ''status'', ''version'', ''run_id'', ''pending_decision_id'',
      ''created_at'', ''updated_at''] j) (\<lambda>fs.
    Option.bind (read_str (field fs ''sprint_id'')) (\<lambda>i.
    Option.bind (read_str (field fs ''schema_version'')) (\<lambda>sv.
    Option.bind (read_int (field fs ''sequence_number'')) (\<lambda>n.
    Option.bind (read_str (field fs ''title'')) (\<lambda>t.
    Option.bind (read_str (field fs ''objective'')) (\<lambda>ob.
    Option.bind (read_str (field fs ''status'')) (\<lambda>st.
    Option.bind (read_int (field fs ''version'')) (\<lambda>v.
    Option.bind (read_str (field fs ''run_id'')) (\<lambda>r.
    Option.bind (read_ptr read_str (field fs ''pending_decision_id'')) (\<lambda>p.
    Option.bind (read_time (field fs ''created_at'')) (\<lambda>c.
    Option.bind (read_time (field fs ''updated_at'')) (\<lambda>u.
      Some \<lparr>sprint_id = i, sprint_schema_version = sv, sprint_sequence_number = n, sprint_title = t,
            sprint_objective = ob, sprint_status = st, sprint_version = v, sprint_run_id = r,
            sprint_pending_decision_id = p, sprint_created_at = c, sprint_updated_at = u\<rparr>))))))))))))"

definition decode_Decision :: "json \<Rightarrow> Decision option" where
  "decode_Decision j =
    Option.bind (known_fields [''decision_id'', ''schema_version'', ''sprint_id'', ''run_id'', ''action'',
      ''risk_class'', ''status'', ''version'', ''requested_by'', ''decided_by'', ''reason'',
      ''created_at'', ''updated_at'', ''decided_at''] j) (\<lambda>fs.
    Option.bind (read_str (field fs ''decision_id'')) (\<lambda>i.
    Option.bind (read_str (field fs ''schema_version'')) (\<lambda>sv.
    Option.bind (read_str (field fs ''sprint_id'')) (\<lambda>s.
    Option.bind (read_str (field fs ''run_id'')) (\<lambda>r.
    Option.bind (read_str (field fs ''action'')) (\<lambda>a.
    Option.bind (read_str (field fs ''risk_class'')) (\<lambda>rc.
    Option.bind (read_str (field fs ''status'')) (\<lambda>st.
    Option.bind (read_int (field fs ''version'')) (\<lambda>v.
    Option.bind (read_str (field fs ''requested_by'')) (\<lambda>rb.
    Option.bind (read_ptr read_str (field fs ''decided_by'')) (\<lambda>db.
    Option.bind (read_ptr read_str (field fs ''reason'')) (\<lambda>re.
    Option.bind (read_time (field fs ''created_at'')) (\<lambda>c.
    Option.bind (read_time (field fs ''updated_at'')) (\<lambda>u.
    Option.bind (read_ptr read_time (field fs ''decided_at'')) (\<lambda>da.
      Some \<lparr>decision_id = i, decision_schema_version = sv, decision_sprint_id = s,
            decision_run_id = r, decision_action = a, decision_risk_class = rc,
            decision_status = st, decision_version = v, decision_requested_by = rb,
            decision_decided_by = db, decision_reason = re, decision_created_at = c,
            decision_updated_at = u, decision_decided_at = da\<rparr>)))))))))))))))"

section \<open>What comes back\<close>

definition utf8_Run :: "Run \<Rightarrow> bool" where
  "utf8_Run r \<longleftrightarrow> valid_utf8 (run_id r) \<and> valid_utf8 (run_schema_version r)
     \<and> valid_utf8 (run_objective r) \<and> valid_utf8 (run_state r)"

definition utf8_Sprint :: "Sprint \<Rightarrow> bool" where
  "utf8_Sprint s \<longleftrightarrow> valid_utf8 (sprint_id s) \<and> valid_utf8 (sprint_schema_version s)
     \<and> valid_utf8 (sprint_title s) \<and> valid_utf8 (sprint_objective s) \<and> valid_utf8 (sprint_status s)
     \<and> valid_utf8 (sprint_run_id s) \<and> pred_option valid_utf8 (sprint_pending_decision_id s)"

definition utf8_Decision :: "Decision \<Rightarrow> bool" where
  "utf8_Decision d \<longleftrightarrow> valid_utf8 (decision_id d) \<and> valid_utf8 (decision_schema_version d)
     \<and> valid_utf8 (decision_sprint_id d) \<and> valid_utf8 (decision_run_id d) \<and> valid_utf8 (decision_action d)
     \<and> valid_utf8 (decision_risk_class d) \<and> valid_utf8 (decision_status d)
     \<and> valid_utf8 (decision_requested_by d) \<and> pred_option valid_utf8 (decision_decided_by d)
     \<and> pred_option valid_utf8 (decision_reason d)"

lemma decode_marshal_Run:
  assumes "marshal_Run r = Some j" "utf8_Run r"
  shows "decode_Run j = Some r"
  using assms
  by (auto simp: marshal_Run_def decode_Run_def utf8_Run_def field_def jstr_def split: if_splits)

lemma decode_marshal_Sprint:
  assumes "marshal_Sprint s = Some j" "utf8_Sprint s"
  shows "decode_Sprint j = Some s"
  using assms
  by (cases "sprint_pending_decision_id s")
    (auto simp: marshal_Sprint_def decode_Sprint_def utf8_Sprint_def field_def jstr_def read_ptr_def
      omitempty_def split: if_splits)

lemma decode_marshal_Decision:
  assumes "marshal_Decision d = Some j" "utf8_Decision d"
  shows "decode_Decision j = Some d"
  using assms
  by (cases "decision_decided_by d"; cases "decision_reason d"; cases "decision_decided_at d")
    (auto simp: marshal_Decision_def decode_Decision_def utf8_Decision_def field_def jstr_def read_ptr_def
      omitempty_def split: if_splits)

end
