(* ===== verification/Runstate.thy ===== *)
theory Runstate
  imports Contracts
begin

text \<open>
  The package \<open>internal/runstate\<close>: the run state machine and the in-memory run
  repository.

  An operation of the store takes the reading of the clock it makes and the state of the
  store, and gives its result and the new state. The read-write lock makes every operation
  atomic, so any concurrent use of the store is a sequence of these operations. The hash
  function \<open>sha256\<close> is an argument: every theorem holds for any function in its place.
\<close>

datatype State = StateDraft | StateAwaitingApproval | StateQueued | StatePreparing
  | StateRunning | StateValidating | StateAwaitingDecision | StateCompleted
  | StateCancelling | StateCancelled | StateFailedRetryable | StateFailedTerminal

fun StateString :: "State \<Rightarrow> string" where
  "StateString StateDraft = ''draft''"
| "StateString StateAwaitingApproval = ''awaiting_approval''"
| "StateString StateQueued = ''queued''"
| "StateString StatePreparing = ''preparing''"
| "StateString StateRunning = ''running''"
| "StateString StateValidating = ''validating''"
| "StateString StateAwaitingDecision = ''awaiting_decision''"
| "StateString StateCompleted = ''completed''"
| "StateString StateCancelling = ''cancelling''"
| "StateString StateCancelled = ''cancelled''"
| "StateString StateFailedRetryable = ''failed_retryable''"
| "StateString StateFailedTerminal = ''failed_terminal''"

instantiation State :: enum
begin

definition enum_State :: "State list" where
  "enum_State = [StateDraft, StateAwaitingApproval, StateQueued, StatePreparing, StateRunning,
     StateValidating, StateAwaitingDecision, StateCompleted, StateCancelling, StateCancelled,
     StateFailedRetryable, StateFailedTerminal]"

definition enum_all_State :: "(State \<Rightarrow> bool) \<Rightarrow> bool" where
  "enum_all_State P = list_all P enum_class.enum"

definition enum_ex_State :: "(State \<Rightarrow> bool) \<Rightarrow> bool" where
  "enum_ex_State P = list_ex P enum_class.enum"

instance
proof
  show univ: "UNIV = set (enum_class.enum :: State list)"
  proof (rule set_eqI)
    fix s :: State
    show "s \<in> UNIV \<longleftrightarrow> s \<in> set (enum_class.enum :: State list)"
      by (cases s) (simp_all add: enum_State_def)
  qed
  show "distinct (enum_class.enum :: State list)"
    by (simp add: enum_State_def)
  show "enum_class.enum_all P \<longleftrightarrow> Ball UNIV P" for P :: "State \<Rightarrow> bool"
    by (simp only: enum_all_State_def univ list_all_iff)
  show "enum_class.enum_ex P \<longleftrightarrow> Bex UNIV P" for P :: "State \<Rightarrow> bool"
    by (simp only: enum_ex_State_def univ list_ex_iff)
qed

end

fun allowedTransitions :: "State \<Rightarrow> State list option" where
  "allowedTransitions StateDraft = Some [StateAwaitingApproval, StateCancelling]"
| "allowedTransitions StateAwaitingApproval = Some [StateQueued, StateCancelling]"
| "allowedTransitions StateQueued = Some [StatePreparing, StateCancelling]"
| "allowedTransitions StatePreparing =
     Some [StateRunning, StateCancelling, StateFailedRetryable, StateFailedTerminal]"
| "allowedTransitions StateRunning =
     Some [StateValidating, StateCancelling, StateFailedRetryable, StateFailedTerminal]"
| "allowedTransitions StateValidating =
     Some [StateAwaitingDecision, StateCompleted, StateCancelling, StateFailedRetryable, StateFailedTerminal]"
| "allowedTransitions StateAwaitingDecision =
     Some [StateQueued, StateCompleted, StateCancelling, StateFailedTerminal]"
| "allowedTransitions StateFailedRetryable = Some [StateQueued, StateCancelling]"
| "allowedTransitions StateCancelling = Some [StateCancelled]"
| "allowedTransitions _ = None"

record CommandMetadata =
  IdempotencyKey :: string
  ActorType :: string
  ActorID :: string
  CorrelationID :: string
  CausationID :: "string option"
  AuditToolName :: string

definition ValidateCommandMetadata :: "CommandMetadata \<Rightarrow> error option" where
  "ValidateCommandMetadata metadata =
    (if rune_count (IdempotencyKey metadata) < 8 \<or> rune_count (IdempotencyKey metadata) > 200 then
       Some (New CodeInvalidArgument ''runstate.ValidateCommandMetadata''
         (Msg ''idempotency key length must be between 8 and 200 characters'' []))
     else if ActorType metadata \<notin> {''human'', ''agent'', ''worker'', ''system''} then
       Some (New CodeInvalidArgument ''runstate.ValidateCommandMetadata''
         (Msg ''actor type must be human, agent, worker, or system'' []))
     else if rune_count (ActorID metadata) < 1 \<or> rune_count (ActorID metadata) > 160 then
       Some (New CodeInvalidArgument ''runstate.ValidateCommandMetadata''
         (Msg ''actor ID length must be between 1 and 160 characters'' []))
     else if rune_count (CorrelationID metadata) < 3 \<or> rune_count (CorrelationID metadata) > 160 then
       Some (New CodeInvalidArgument ''runstate.ValidateCommandMetadata''
         (Msg ''correlation ID length must be between 3 and 160 characters'' []))
     else if AuditToolName metadata \<noteq> []
        \<and> (rune_count (AuditToolName metadata) < 3 \<or> rune_count (AuditToolName metadata) > 120) then
       Some (New CodeInvalidArgument ''runstate.ValidateCommandMetadata''
         (Msg ''audit tool name length must be between 3 and 120 characters'' []))
     else if (case CausationID metadata of None \<Rightarrow> False | Some c \<Rightarrow> rune_count c > 160) then
       Some (New CodeInvalidArgument ''runstate.ValidateCommandMetadata''
         (Msg ''causation ID must not exceed 160 characters'' []))
     else None)"

definition ParseState :: "string \<Rightarrow> State result" where
  "ParseState value =
    (case find (\<lambda>s. StateString s = value) enum_class.enum of
       Some state \<Rightarrow> Inr state
     | None \<Rightarrow> Inl (New CodeInvalidArgument ''runstate.ParseState''
         (Msg ''unknown run state %q'' [FStr value])))"

definition CanTransition :: "State \<Rightarrow> State \<Rightarrow> bool" where
  "CanTransition from to = (case allowedTransitions from of
      None \<Rightarrow> False | Some destinations \<Rightarrow> to \<in> set destinations)"

definition Machine_Transition :: "time \<Rightarrow> Run \<Rightarrow> State \<Rightarrow> Run result" where
  "Machine_Transition now run target =
    (case ParseState (run_state run) of
       Inl err \<Rightarrow> Inl err
     | Inr current \<Rightarrow>
         if \<not> CanTransition current target then
           Inl (New CodeConflict ''runstate.Machine.Transition''
             (Msg ''transition %s -> %s is not allowed''
               [FStr (StateString current), FStr (StateString target)]))
         else
           let now = (if now < run_updated_at run then run_updated_at run else now)
           in Inr (run\<lparr>run_state := StateString target, run_version := run_version run + 1,
                       run_updated_at := now\<rparr>))"

definition Terminal :: "State \<Rightarrow> bool" where
  "Terminal state \<longleftrightarrow>
     state = StateCompleted \<or> state = StateCancelled \<or> state = StateFailedTerminal"

section \<open>The in-memory store\<close>

record 'h commandReceipt =
  receipt_requestHash :: 'h
  receipt_run :: Run

record 'h Store =
  runs :: "RunID \<rightharpoonup> Run"
  receipts :: "string \<rightharpoonup> 'h commandReceipt"

definition NewStore :: "'h Store" where
  "NewStore = \<lparr>runs = Map.empty, receipts = Map.empty\<rparr>"

definition validateObjective :: "string \<Rightarrow> error option" where
  "validateObjective objective =
    (if rune_count objective < 3 \<or> rune_count objective > 8000 then
       Some (New CodeInvalidArgument ''runstate.Store.Create''
         (Msg ''objective length must be between 3 and 8000 characters'' []))
     else None)"

definition commandRequestText :: "CommandMetadata \<Rightarrow> string list \<Rightarrow> string" where
  "commandRequestText metadata parts =
    (let causation = (case CausationID metadata of None \<Rightarrow> [] | Some c \<Rightarrow> c)
     in Join (parts @ [ActorType metadata, ActorID metadata, causation]) [CHR 0x00])"

definition commandRequestHash :: "(string \<Rightarrow> 'h) \<Rightarrow> CommandMetadata \<Rightarrow> string list \<Rightarrow> 'h" where
  "commandRequestHash sha256 metadata parts = sha256 (commandRequestText metadata parts)"

text \<open>\<open>replayLocked\<close> answers \<open>(run, found, err)\<close>; here \<open>None\<close> is ``not found''.\<close>

definition replayLocked :: "string \<Rightarrow> string \<Rightarrow> 'h \<Rightarrow> 'h Store \<Rightarrow> Run result option" where
  "replayLocked scope key requestHash s =
    (case receipts s (scope @ [CHR 0x00] @ key) of
       None \<Rightarrow> None
     | Some receipt \<Rightarrow>
         if receipt_requestHash receipt \<noteq> requestHash then
           Some (Inl (New CodeConflict ''runstate.Store.idempotency''
             (Msg ''idempotency key was reused with a different command'' [])))
         else Some (Inr (receipt_run receipt)))"

definition saveReceiptLocked :: "string \<Rightarrow> string \<Rightarrow> 'h \<Rightarrow> Run \<Rightarrow> 'h Store \<Rightarrow> 'h Store" where
  "saveReceiptLocked scope key requestHash run s =
    s\<lparr>receipts := (receipts s)(scope @ [CHR 0x00] @ key \<mapsto>
        \<lparr>receipt_requestHash = requestHash, receipt_run = run\<rparr>)\<rparr>"

definition draftRun :: "time \<Rightarrow> RunID \<Rightarrow> string \<Rightarrow> Run" where
  "draftRun now i objective =
    \<lparr>run_id = i, run_schema_version = ''1.0'', run_objective = objective,
     run_state = StateString StateDraft, run_version = 1,
     run_created_at = now, run_updated_at = now\<rparr>"

definition Store_Create :: "time \<Rightarrow> RunID \<Rightarrow> string \<Rightarrow> 'h Store \<Rightarrow> Run result \<times> 'h Store" where
  "Store_Create now i objective s =
    (case validateObjective objective of
       Some err \<Rightarrow> (Inl err, s)
     | None \<Rightarrow>
         let run = draftRun now i objective in
         if runs s i \<noteq> None then
           (Inl (New CodeConflict ''runstate.Store.Create''
              (Msg ''run %s already exists'' [FStr i])), s)
         else (Inr run, s\<lparr>runs := (runs s)(i \<mapsto> run)\<rparr>))"

definition Store_Get :: "RunID \<Rightarrow> 'h Store \<Rightarrow> Run result" where
  "Store_Get i s = (case runs s i of
      None \<Rightarrow> Inl (New CodeNotFound ''runstate.Store.Get'' (Msg ''run %s was not found'' [FStr i]))
    | Some run \<Rightarrow> Inr run)"

definition Store_Transition ::
    "time \<Rightarrow> RunID \<Rightarrow> int \<Rightarrow> State \<Rightarrow> 'h Store \<Rightarrow> Run result \<times> 'h Store" where
  "Store_Transition now i expectedVersion target s =
    (case runs s i of
       None \<Rightarrow> (Inl (New CodeNotFound ''runstate.Store.Transition''
                  (Msg ''run %s was not found'' [FStr i])), s)
     | Some run \<Rightarrow>
         if run_version run \<noteq> expectedVersion then
           (Inl (New CodeConflict ''runstate.Store.Transition''
              (Msg ''run %s version mismatch: expected %d, current %d''
                [FStr i, FInt expectedVersion, FInt (run_version run)])), s)
         else
           (case Machine_Transition now run target of
              Inl err \<Rightarrow> (Inl err, s)
            | Inr updated \<Rightarrow> (Inr updated, s\<lparr>runs := (runs s)(i \<mapsto> updated)\<rparr>)))"

definition Store_CreateRun ::
    "(string \<Rightarrow> 'h) \<Rightarrow> time \<Rightarrow> RunID \<Rightarrow> string \<Rightarrow> CommandMetadata \<Rightarrow> 'h Store \<Rightarrow> Run result \<times> 'h Store" where
  "Store_CreateRun sha256 now i objective metadata s =
    (case validateObjective objective of
       Some err \<Rightarrow> (Inl err, s)
     | None \<Rightarrow>
    (case ValidateCommandMetadata metadata of
       Some err \<Rightarrow> (Inl err, s)
     | None \<Rightarrow>
         let scope = ''create_run'';
             requestHash = commandRequestHash sha256 metadata [''create_run'', objective]
         in
         (case replayLocked scope (IdempotencyKey metadata) requestHash s of
            Some replay \<Rightarrow> (replay, s)
          | None \<Rightarrow>
              if runs s i \<noteq> None then
                (Inl (New CodeConflict ''runstate.Store.CreateRun''
                   (Msg ''run %s already exists'' [FStr i])), s)
              else
                let run = draftRun now i objective;
                    s = s\<lparr>runs := (runs s)(i \<mapsto> run)\<rparr>
                in (Inr run, saveReceiptLocked scope (IdempotencyKey metadata) requestHash run s))))"

definition Store_GetRun :: "RunID \<Rightarrow> 'h Store \<Rightarrow> Run result" where
  "Store_GetRun i s = Store_Get i s"

definition Store_TransitionRun ::
    "(string \<Rightarrow> 'h) \<Rightarrow> time \<Rightarrow> RunID \<Rightarrow> int \<Rightarrow> State \<Rightarrow> CommandMetadata \<Rightarrow> 'h Store
      \<Rightarrow> Run result \<times> 'h Store" where
  "Store_TransitionRun sha256 now i expectedVersion target metadata s =
    (if expectedVersion < 1 then
       (Inl (New CodeInvalidArgument ''runstate.Store.TransitionRun''
          (Msg ''expected version must be at least 1'' [])), s)
     else
    (case ValidateCommandMetadata metadata of
       Some err \<Rightarrow> (Inl err, s)
     | None \<Rightarrow>
         let scope = ''transition_run:'' @ i;
             requestHash = commandRequestHash sha256 metadata
               [''transition_run'', i, itoa expectedVersion, StateString target]
         in
         (case replayLocked scope (IdempotencyKey metadata) requestHash s of
            Some replay \<Rightarrow> (replay, s)
          | None \<Rightarrow>
         (case runs s i of
            None \<Rightarrow> (Inl (New CodeNotFound ''runstate.Store.TransitionRun''
                       (Msg ''run %s was not found'' [FStr i])), s)
          | Some run \<Rightarrow>
              if run_version run \<noteq> expectedVersion then
                (Inl (New CodeConflict ''runstate.Store.TransitionRun''
                   (Msg ''run %s version mismatch: expected %d, current %d''
                     [FStr i, FInt expectedVersion, FInt (run_version run)])), s)
              else
                (case Machine_Transition now run target of
                   Inl err \<Rightarrow> (Inl err, s)
                 | Inr updated \<Rightarrow>
                     let s = s\<lparr>runs := (runs s)(i \<mapsto> updated)\<rparr>
                     in (Inr updated,
                         saveReceiptLocked scope (IdempotencyKey metadata) requestHash updated s))))))"

section \<open>The state machine\<close>

text \<open>The texts of the states are opaque from here on; distinct states have distinct texts.\<close>

lemma StateString_inject [simp]: "StateString s = StateString t \<longleftrightarrow> s = t"
  by (cases s; cases t) simp_all

lemma StateString_nonempty [simp]: "StateString s \<noteq> []" "[] \<noteq> StateString s"
  by (cases s; simp)+

lemma ParseState_StateString [simp]: "ParseState (StateString s) = Inr s"
  by (cases s) (simp_all add: ParseState_def enum_State_def)

lemma ParseState_Inr_iff [simp]: "ParseState v = Inr s \<longleftrightarrow> v = StateString s"
proof
  assume "ParseState v = Inr s"
  then show "v = StateString s"
    by (auto simp: ParseState_def find_Some_iff split: option.splits)
qed simp

lemma ParseState_Nil [simp]: "ParseState [] = Inl (New CodeInvalidArgument ''runstate.ParseState''
    (Msg ''unknown run state %q'' [FStr []]))"
  by (simp add: ParseState_def enum_State_def)

lemma valid_utf8_StateString [simp]: "valid_utf8 (StateString s)"
  by (rule valid_utf8_ascii) (cases s; simp add: byte_in_def)

declare StateString.simps [simp del]

lemma Terminal_iff_no_transition: "Terminal s \<longleftrightarrow> (\<forall>t. \<not> CanTransition s t)"
  by (cases s) (auto simp: Terminal_def CanTransition_def)

lemma cancel_always_possible:
  "\<not> Terminal s \<Longrightarrow> s \<noteq> StateCancelling \<Longrightarrow> CanTransition s StateCancelling"
  by (cases s) (simp_all add: Terminal_def CanTransition_def)

fun state_path :: "State list \<Rightarrow> bool" where
  "state_path (s # t # p) \<longleftrightarrow> CanTransition s t \<and> state_path (t # p)"
| "state_path _ \<longleftrightarrow> True"

lemma state_path_snoc:
  "state_path (p @ [s, t]) \<longleftrightarrow> state_path (p @ [s]) \<and> CanTransition s t"
  by (induction p rule: state_path.induct) auto

lemma CanTransition_cases:
  "CanTransition s t \<Longrightarrow> s \<in> {StateDraft, StateAwaitingApproval, StateCancelling, StateCancelled} \<Longrightarrow>
   t \<in> {StateDraft, StateAwaitingApproval, StateCancelling, StateCancelled}
   \<or> s = StateAwaitingApproval \<and> t = StateQueued"
  by (auto simp: CanTransition_def)

lemma approved_before_work:
  assumes "state_path (StateDraft # p)"
    and "last (StateDraft # p) \<notin> {StateDraft, StateAwaitingApproval, StateCancelling, StateCancelled}"
  shows "\<exists>pre post. StateDraft # p = pre @ [StateAwaitingApproval, StateQueued] @ post"
  using assms
proof (induction p rule: rev_induct)
  case (snoc t p)
  obtain q s where qs: "StateDraft # p = q @ [s]" by (metis append_butlast_last_id list.distinct(1))
  then have "StateDraft # p @ [t] = q @ [s, t]" by simp
  with snoc.prems(1) qs have path: "state_path (StateDraft # p)" "CanTransition s t"
    using state_path_snoc [of q s t] by (simp_all only:)
  from qs have last: "last (StateDraft # p) = s" by simp
  show ?case
  proof (cases "s \<in> {StateDraft, StateAwaitingApproval, StateCancelling, StateCancelled}")
    case True
    with CanTransition_cases [OF path(2)] snoc.prems(2)
    have "s = StateAwaitingApproval" "t = StateQueued" by auto
    then have "StateDraft # p @ [t] = q @ [StateAwaitingApproval, StateQueued] @ []"
      using qs by (metis append.assoc append_Cons append_Nil append_Nil2)
    then show ?thesis by (simp only: append_Cons) blast
  next
    case False
    then obtain pre post where "StateDraft # p = pre @ [StateAwaitingApproval, StateQueued] @ post"
      using snoc.IH path(1) last by auto
    then have "StateDraft # p @ [t] = pre @ [StateAwaitingApproval, StateQueued] @ post @ [t]" by simp
    then show ?thesis by (simp only: append_Cons) blast
  qed
qed simp

lemma Machine_Transition_Inr_iff:
  "Machine_Transition now run target = Inr run' \<longleftrightarrow>
    (\<exists>current. run_state run = StateString current \<and> CanTransition current target
       \<and> run' = run\<lparr>run_state := StateString target, run_version := run_version run + 1,
                    run_updated_at := max now (run_updated_at run)\<rparr>)"
proof (cases "ParseState (run_state run)")
  case (Inl e)
  then have "run_state run \<noteq> StateString c" for c by auto
  with Inl show ?thesis by (simp add: Machine_Transition_def)
next
  case (Inr c)
  then show ?thesis by (auto simp: Machine_Transition_def max_def)
qed

section \<open>Invariant of the store\<close>

definition run_wf :: "RunID \<Rightarrow> Run \<Rightarrow> bool" where
  "run_wf i r \<longleftrightarrow> run_id r = i \<and> run_schema_version r = ''1.0''
     \<and> 3 \<le> rune_count (run_objective r) \<and> rune_count (run_objective r) \<le> 8000
     \<and> (\<exists>st. run_state r = StateString st) \<and> 1 \<le> run_version r
     \<and> run_created_at r \<le> run_updated_at r"

text \<open>
  \<open>evolves r r'\<close>: the run \<open>r\<close> became \<open>r'\<close> by as many allowed transitions as the version
  number grew, keeping everything that identifies it.
\<close>

definition evolves :: "Run \<Rightarrow> Run \<Rightarrow> bool" where
  "evolves r r' \<longleftrightarrow> run_id r' = run_id r \<and> run_schema_version r' = run_schema_version r
     \<and> run_objective r' = run_objective r
     \<and> run_created_at r' = run_created_at r \<and> run_updated_at r \<le> run_updated_at r'
     \<and> run_version r \<le> run_version r'
     \<and> (\<forall>st. run_state r = StateString st \<longrightarrow> (\<exists>st'. run_state r' = StateString st'
           \<and> (CanTransition ^^ nat (run_version r' - run_version r)) st st'))"

lemma evolves_refl [simp]: "evolves r r"
  by (simp add: evolves_def)

lemma evolves_trans:
  assumes "evolves a b" "evolves b c"
  shows "evolves a c"
proof -
  have "nat (run_version c - run_version a)
      = nat (run_version b - run_version a) + nat (run_version c - run_version b)"
    using assms by (auto simp: evolves_def nat_add_distrib [symmetric])
  then have "(CanTransition ^^ nat (run_version c - run_version a)) st st''"
    if "(CanTransition ^^ nat (run_version b - run_version a)) st st'"
      "(CanTransition ^^ nat (run_version c - run_version b)) st' st''" for st st' st''
    using that by (auto simp: relpowp_add)
  then show ?thesis
    using assms unfolding evolves_def by (metis order.trans)
qed

lemma Machine_Transition_evolves:
  "Machine_Transition now r target = Inr r' \<Longrightarrow> evolves r r' \<and> run_version r' = run_version r + 1"
  by (auto simp: Machine_Transition_Inr_iff evolves_def)

lemma Machine_Transition_wf:
  "Machine_Transition now r target = Inr r' \<Longrightarrow> run_wf i r \<Longrightarrow> run_wf i r'"
  by (auto simp: Machine_Transition_Inr_iff run_wf_def)

lemma validateObjective_None [simp]:
  "validateObjective ob = None \<longleftrightarrow> 3 \<le> rune_count ob \<and> rune_count ob \<le> 8000"
  by (auto simp: validateObjective_def)

lemma draftRun_wf: "validateObjective ob = None \<Longrightarrow> run_wf i (draftRun now i ob)"
  by (auto simp: run_wf_def draftRun_def)

text \<open>The effect of each operation, by its result.\<close>

lemma Store_Create_result:
  assumes "Store_Create now i ob s = (res, t)"
  shows "case res of
     Inl e \<Rightarrow> t = s
   | Inr r \<Rightarrow> r = draftRun now i ob \<and> runs s i = None \<and> validateObjective ob = None
       \<and> t = s\<lparr>runs := (runs s)(i \<mapsto> r)\<rparr>" (is "?P res t")
proof -
  have "case Store_Create now i ob s of (res, t) \<Rightarrow> ?P res t"
    by (auto simp: Store_Create_def Let_def split: option.split)
  then show ?thesis by (simp only: assms prod.case)
qed

lemma Store_Transition_result:
  assumes "Store_Transition now i v target s = (res, t)"
  shows "case res of
     Inl e \<Rightarrow> t = s
   | Inr r' \<Rightarrow> (\<exists>r. runs s i = Some r \<and> run_version r = v \<and> Machine_Transition now r target = Inr r')
       \<and> t = s\<lparr>runs := (runs s)(i \<mapsto> r')\<rparr>" (is "?P res t")
proof -
  have "case Store_Transition now i v target s of (res, t) \<Rightarrow> ?P res t"
    by (auto simp: Store_Transition_def split: option.split sum.split)
  then show ?thesis by (simp only: assms prod.case)
qed

definition create_key :: "CommandMetadata \<Rightarrow> string" where
  "create_key m = ''create_run'' @ [CHR 0x00] @ IdempotencyKey m"

definition create_hash :: "(string \<Rightarrow> 'h) \<Rightarrow> string \<Rightarrow> CommandMetadata \<Rightarrow> 'h" where
  "create_hash sha256 ob m = commandRequestHash sha256 m [''create_run'', ob]"

definition transition_key :: "RunID \<Rightarrow> CommandMetadata \<Rightarrow> string" where
  "transition_key i m = (''transition_run:'' @ i) @ [CHR 0x00] @ IdempotencyKey m"

definition transition_hash ::
    "(string \<Rightarrow> 'h) \<Rightarrow> RunID \<Rightarrow> int \<Rightarrow> State \<Rightarrow> CommandMetadata \<Rightarrow> 'h" where
  "transition_hash sha256 i v target m =
     commandRequestHash sha256 m [''transition_run'', i, itoa v, StateString target]"

lemma replayLocked_None [simp]:
  "replayLocked scope key h s = None \<longleftrightarrow> receipts s (scope @ [CHR 0x00] @ key) = None"
  by (simp add: replayLocked_def split: option.split)

lemma replayLocked_Inr:
  "replayLocked scope key h s = Some (Inr r) \<longleftrightarrow>
   (\<exists>rc. receipts s (scope @ [CHR 0x00] @ key) = Some rc \<and> receipt_requestHash rc = h \<and> receipt_run rc = r)"
  by (auto simp: replayLocked_def split: option.split)

lemma Store_CreateRun_result:
  assumes "Store_CreateRun sha256 now i ob m s = (res, t)"
  shows "case res of
     Inl e \<Rightarrow> t = s
   | Inr r \<Rightarrow> validateObjective ob = None \<and> ValidateCommandMetadata m = None \<and>
      (case receipts s (create_key m) of
         Some rc \<Rightarrow> receipt_requestHash rc = create_hash sha256 ob m \<and> r = receipt_run rc \<and> t = s
       | None \<Rightarrow> r = draftRun now i ob \<and> runs s i = None
           \<and> t = s\<lparr>runs := (runs s)(i \<mapsto> r), receipts := (receipts s)(create_key m \<mapsto>
               \<lparr>receipt_requestHash = create_hash sha256 ob m, receipt_run = r\<rparr>)\<rparr>)" (is "?P res t")
proof -
  have "case Store_CreateRun sha256 now i ob m s of (res, t) \<Rightarrow> ?P res t"
    by (auto simp: Store_CreateRun_def Let_def replayLocked_def saveReceiptLocked_def create_key_def
        create_hash_def split: option.split)
  then show ?thesis by (simp only: assms prod.case)
qed

lemma Store_TransitionRun_result:
  assumes "Store_TransitionRun sha256 now i v target m s = (res, t)"
  shows "case res of
     Inl e \<Rightarrow> t = s
   | Inr r \<Rightarrow> 1 \<le> v \<and> ValidateCommandMetadata m = None \<and>
      (case receipts s (transition_key i m) of
         Some rc \<Rightarrow> receipt_requestHash rc = transition_hash sha256 i v target m
           \<and> r = receipt_run rc \<and> t = s
       | None \<Rightarrow> (\<exists>r0. runs s i = Some r0 \<and> run_version r0 = v \<and> Machine_Transition now r0 target = Inr r)
           \<and> t = s\<lparr>runs := (runs s)(i \<mapsto> r), receipts := (receipts s)(transition_key i m \<mapsto>
               \<lparr>receipt_requestHash = transition_hash sha256 i v target m, receipt_run = r\<rparr>)\<rparr>)" (is "?P res t")
proof -
  have "case Store_TransitionRun sha256 now i v target m s of (res, t) \<Rightarrow> ?P res t"
    by (auto simp: Store_TransitionRun_def Let_def replayLocked_def saveReceiptLocked_def transition_key_def
        transition_hash_def split: option.split sum.split)
  then show ?thesis by (simp only: assms prod.case)
qed

inductive store_step :: "(string \<Rightarrow> 'h) \<Rightarrow> 'h Store \<Rightarrow> 'h Store \<Rightarrow> bool" for sha256 where
  step_Create: "Store_Create now i ob s = (res, t) \<Longrightarrow> store_step sha256 s t"
| step_Transition: "Store_Transition now i v target s = (res, t) \<Longrightarrow> store_step sha256 s t"
| step_CreateRun: "Store_CreateRun sha256 now i ob m s = (res, t) \<Longrightarrow> store_step sha256 s t"
| step_TransitionRun:
    "Store_TransitionRun sha256 now i v target m s = (res, t) \<Longrightarrow> store_step sha256 s t"

text \<open>What no operation may do: forget or rewrite a run or a receipt.\<close>

definition store_extends :: "'h Store \<Rightarrow> 'h Store \<Rightarrow> bool" where
  "store_extends s t \<longleftrightarrow> receipts s \<subseteq>\<^sub>m receipts t
     \<and> (\<forall>i r. runs s i = Some r \<longrightarrow> (\<exists>r'. runs t i = Some r' \<and> evolves r r'))"

lemma store_extends_refl [simp]: "store_extends s s"
  by (auto simp: store_extends_def)

lemma store_extends_trans: "store_extends s t \<Longrightarrow> store_extends t u \<Longrightarrow> store_extends s u"
  unfolding store_extends_def by (meson evolves_trans map_le_trans)

definition store_inv :: "'h Store \<Rightarrow> bool" where
  "store_inv s \<longleftrightarrow> (\<forall>i r. runs s i = Some r \<longrightarrow> run_wf i r)
     \<and> (\<forall>k rc. receipts s k = Some rc \<longrightarrow>
          (\<exists>r. runs s (run_id (receipt_run rc)) = Some r \<and> evolves (receipt_run rc) r))"

lemma store_inv_put:
  assumes "store_inv s" "run_wf i r'" "\<And>r. runs s i = Some r \<Longrightarrow> evolves r r'"
  shows "store_inv (s\<lparr>runs := (runs s)(i \<mapsto> r')\<rparr>)"
  using assms unfolding store_inv_def by simp (metis evolves_trans)

lemma store_inv_run_wf: "store_inv s \<Longrightarrow> runs s i = Some r \<Longrightarrow> run_wf i r"
  by (simp add: store_inv_def)

lemma store_inv_receipt:
  assumes "store_inv s" "runs s i = Some r"
  shows "store_inv (s\<lparr>receipts := (receipts s)(k \<mapsto> \<lparr>receipt_requestHash = h, receipt_run = r\<rparr>)\<rparr>)"
  using assms unfolding store_inv_def run_wf_def by (auto intro!: exI [of _ r])

lemma store_inv_draft:
  "store_inv s \<Longrightarrow> runs s i = None \<Longrightarrow> validateObjective ob = None \<Longrightarrow>
   store_inv (s\<lparr>runs := (runs s)(i \<mapsto> draftRun now i ob)\<rparr>)"
  by (rule store_inv_put) (simp_all add: draftRun_wf)

lemma store_inv_move:
  "store_inv s \<Longrightarrow> runs s i = Some r \<Longrightarrow> Machine_Transition now r target = Inr r' \<Longrightarrow>
   store_inv (s\<lparr>runs := (runs s)(i \<mapsto> r')\<rparr>)"
  using Machine_Transition_wf [OF _ store_inv_run_wf] Machine_Transition_evolves [of now r target r']
  by (intro store_inv_put) auto

lemma store_inv_put_receipt:
  assumes "store_inv (s\<lparr>runs := (runs s)(i \<mapsto> r)\<rparr>)"
  shows "store_inv (s\<lparr>runs := (runs s)(i \<mapsto> r),
    receipts := (receipts s)(k \<mapsto> \<lparr>receipt_requestHash = h, receipt_run = r\<rparr>)\<rparr>)"
  using store_inv_receipt [OF assms, of i r k h] by simp

lemmas store_inv_intros = store_inv_draft store_inv_move store_inv_put_receipt

lemma store_step_extends: "store_step sha256 s t \<Longrightarrow> store_extends s t"
proof (induction rule: store_step.induct)
  case (step_Create now i ob s res t)
  then show ?case
    using Store_Create_result [OF step_Create.hyps]
    by (auto simp: store_extends_def split: prod.splits sum.splits)
next
  case (step_Transition now i v target s res t)
  then show ?case
    using Store_Transition_result [OF step_Transition.hyps]
    by (auto simp: store_extends_def dest: Machine_Transition_evolves split: prod.splits sum.splits)
next
  case (step_CreateRun now i ob m s res t)
  then show ?case
    using Store_CreateRun_result [OF step_CreateRun.hyps]
    by (auto simp: store_extends_def map_le_def split: prod.splits sum.splits option.splits)
next
  case (step_TransitionRun now i v target m s res t)
  then show ?case
    using Store_TransitionRun_result [OF step_TransitionRun.hyps]
    by (auto simp: store_extends_def map_le_def dest: Machine_Transition_evolves
        split: prod.splits sum.splits option.splits)
qed

lemma store_steps_extend: "(store_step sha256)\<^sup>*\<^sup>* s t \<Longrightarrow> store_extends s t"
  by (induction rule: rtranclp_induct) (auto intro: store_extends_trans store_step_extends)

lemma store_step_inv: "store_step sha256 s t \<Longrightarrow> store_inv s \<Longrightarrow> store_inv t"
proof (induction rule: store_step.induct)
  case (step_Create now i ob s res t)
  then show ?case
    using Store_Create_result [OF step_Create.hyps] by (cases res) (auto intro: store_inv_intros)
next
  case (step_Transition now i v target s res t)
  then show ?case
    using Store_Transition_result [OF step_Transition.hyps] by (cases res) (auto intro: store_inv_intros)
next
  case (step_CreateRun now i ob m s res t)
  then show ?case
    using Store_CreateRun_result [OF step_CreateRun.hyps]
    by (cases res; cases "receipts s (create_key m)")
      (auto intro!: store_inv_put_receipt intro: store_inv_draft simp del: validateObjective_None)
next
  case (step_TransitionRun now i v target m s res t)
  then show ?case
    using Store_TransitionRun_result [OF step_TransitionRun.hyps]
    by (cases res; cases "receipts s (transition_key i m)")
      (auto intro!: store_inv_put_receipt intro: store_inv_move)
qed

text \<open>Every state of the store satisfies the invariant.\<close>

interpretation store: step_invariant "\<lambda>s. s = NewStore" "store_step sha256" store_inv for sha256
proof unfold_locales
  show "store_inv s" if "s = NewStore" for s :: "'a Store"
    using that by (simp add: NewStore_def store_inv_def)
qed (rule store_step_inv)

text \<open>Both commands of the repository interface are replayed from their receipts.\<close>

definition receipt_of :: "'h Store \<Rightarrow> string \<Rightarrow> ('h \<times> Run) option" where
  "receipt_of s k = map_option (\<lambda>rc. (receipt_requestHash rc, receipt_run rc)) (receipts s k)"

lemma store_step_receipt_of:
  "store_step sha256 s t \<Longrightarrow> receipt_of s k = Some r \<Longrightarrow> receipt_of t k = Some r"
  by (drule store_step_extends) (auto simp: store_extends_def receipt_of_def dest: map_le_Some)

lemma Store_CreateRun_success:
  "Store_CreateRun sha256 now i ob m s = (Inr v, t) \<Longrightarrow>
   (validateObjective ob = None \<and> ValidateCommandMetadata m = None) \<and>
   (case receipt_of s (create_key m) of
      None \<Rightarrow> receipt_of t (create_key m) = Some (create_hash sha256 ob m, v)
    | Some (h, w) \<Rightarrow> h = create_hash sha256 ob m \<and> w = v
        \<and> receipt_of t (create_key m) = receipt_of s (create_key m))"
  by (drule Store_CreateRun_result) (auto simp: receipt_of_def split: option.splits)

lemma Store_CreateRun_replay:
  "validateObjective ob = None \<Longrightarrow> ValidateCommandMetadata m = None \<Longrightarrow>
   receipt_of s (create_key m) = Some (create_hash sha256 ob m, v) \<Longrightarrow>
   Store_CreateRun sha256 now i ob m s = (Inr v, s)"
  by (auto simp: Store_CreateRun_def Let_def replayLocked_def receipt_of_def create_key_def create_hash_def
      simp del: validateObjective_None)

interpretation create: replayed_command
  "\<lambda>(ob, m) (now, i). Store_CreateRun sha256 now i ob m"
  "\<lambda>s (ob, m). receipt_of s (create_key m)"
  "\<lambda>(ob, m). create_hash sha256 ob m"
  "\<lambda>(ob, m). validateObjective ob = None \<and> ValidateCommandMetadata m = None"
  "\<lambda>_. True" "store_step sha256"
  for sha256
  by unfold_locales
    (auto simp del: validateObjective_None simp: Store_CreateRun_replay
      dest: Store_CreateRun_success store_step_receipt_of split: option.splits)

lemma Store_TransitionRun_success:
  "Store_TransitionRun sha256 now i ver target m s = (Inr v, t) \<Longrightarrow>
   (1 \<le> ver \<and> ValidateCommandMetadata m = None) \<and>
   (case receipt_of s (transition_key i m) of
      None \<Rightarrow> receipt_of t (transition_key i m) = Some (transition_hash sha256 i ver target m, v)
    | Some (h, w) \<Rightarrow> h = transition_hash sha256 i ver target m \<and> w = v
        \<and> receipt_of t (transition_key i m) = receipt_of s (transition_key i m))"
  by (drule Store_TransitionRun_result) (auto simp: receipt_of_def split: option.splits)

lemma Store_TransitionRun_replay:
  "1 \<le> ver \<Longrightarrow> ValidateCommandMetadata m = None \<Longrightarrow>
   receipt_of s (transition_key i m) = Some (transition_hash sha256 i ver target m, v) \<Longrightarrow>
   Store_TransitionRun sha256 now i ver target m s = (Inr v, s)"
  by (auto simp: Store_TransitionRun_def Let_def replayLocked_def receipt_of_def transition_key_def
      transition_hash_def)

interpretation transition: replayed_command
  "\<lambda>(i, ver, target, m) now. Store_TransitionRun sha256 now i ver target m"
  "\<lambda>s (i, ver, target, m). receipt_of s (transition_key i m)"
  "\<lambda>(i, ver, target, m). transition_hash sha256 i ver target m"
  "\<lambda>(i, ver, target, m). 1 \<le> ver \<and> ValidateCommandMetadata m = None"
  "\<lambda>_. True" "store_step sha256"
  for sha256
  by unfold_locales
    (auto simp: Store_TransitionRun_replay dest: Store_TransitionRun_success store_step_receipt_of
      split: option.splits)

section \<open>Properties\<close>

definition nul_free :: "string \<Rightarrow> bool" where
  "nul_free s \<longleftrightarrow> CHR 0x00 \<notin> set s"

definition causation_text :: "CommandMetadata \<Rightarrow> string" where
  "causation_text m = (case CausationID m of None \<Rightarrow> [] | Some c \<Rightarrow> c)"

definition nul_free_metadata :: "CommandMetadata \<Rightarrow> bool" where
  "nul_free_metadata m \<longleftrightarrow> nul_free (ActorType m) \<and> nul_free (ActorID m) \<and> nul_free (causation_text m)"

lemma commandRequestText_inject:
  assumes "list_all nul_free ps" "list_all nul_free qs" "nul_free_metadata m" "nul_free_metadata m'"
    and "commandRequestText m ps = commandRequestText m' qs"
  shows "ps = qs \<and> ActorType m = ActorType m' \<and> ActorID m = ActorID m' \<and> causation_text m = causation_text m'"
proof -
  have "ps @ [ActorType m, ActorID m, causation_text m] = qs @ [ActorType m', ActorID m', causation_text m']"
    using assms
    by (intro Join_inject [where c = "CHR 0x00"])
      (auto simp: commandRequestText_def causation_text_def nul_free_metadata_def nul_free_def list_all_iff)
  then show ?thesis by (auto simp: append_eq_append_conv)
qed

lemma replay_refused:
  "validateObjective ob = None \<Longrightarrow> ValidateCommandMetadata m = None \<Longrightarrow>
   receipt_of s (create_key m) = Some (h, v) \<Longrightarrow> h \<noteq> create_hash sha256 ob m \<Longrightarrow>
   \<exists>e. Store_CreateRun sha256 now i ob m s = (Inl e, s) \<and> CodeOf e = CodeConflict"
  by (auto simp: Store_CreateRun_def Let_def replayLocked_def receipt_of_def create_key_def create_hash_def
      simp del: validateObjective_None)

lemma store_run_evolves:
  "(store_step sha256)\<^sup>*\<^sup>* s t \<Longrightarrow> runs s i = Some r \<Longrightarrow> \<exists>r'. runs t i = Some r' \<and> evolves r r'"
  by (drule store_steps_extend) (simp add: store_extends_def)

text \<open>
  C20. A run does not reach an executing or a finished-by-work state without approval: on
  every path of allowed transitions from \<open>draft\<close> that ends outside \<open>draft\<close>,
  \<open>awaiting_approval\<close>, \<open>cancelling\<close> and \<open>cancelled\<close>, the step from
  \<open>awaiting_approval\<close> to \<open>queued\<close> occurs.
\<close>

theorem work_requires_approval:
  assumes "state_path (StateDraft # p)"
    and "last (StateDraft # p) \<notin> {StateDraft, StateAwaitingApproval, StateCancelling, StateCancelled}"
  shows "\<exists>pre post. StateDraft # p = pre @ [StateAwaitingApproval, StateQueued] @ post"
  using assms by (rule approved_before_work)

theorem work_requires_approval_witness:
  "\<exists>pre post. StateDraft # [StateAwaitingApproval, StateQueued, StatePreparing, StateRunning]
     = pre @ [StateAwaitingApproval, StateQueued] @ post"
  by (rule work_requires_approval) (simp_all add: CanTransition_def)

text \<open>
  C23. The terminal states are exactly those without an outgoing transition, and every other
  state but \<open>cancelling\<close> may be cancelled, so two transitions end any run.
\<close>

theorem terminal_or_cancellable:
  "(Terminal s \<longleftrightarrow> (\<forall>t. \<not> CanTransition s t))
   \<and> (Terminal s \<or> s = StateCancelling \<or> CanTransition s StateCancelling)
   \<and> (\<forall>t. CanTransition StateCancelling t \<longleftrightarrow> t = StateCancelled) \<and> Terminal StateCancelled"
  using Terminal_iff_no_transition cancel_always_possible
  by (auto simp: CanTransition_def Terminal_def)

text \<open>
  C22. In every reachable state of the store each run is well formed (it is stored under its
  own identifier, its state is a known one, its version is positive, it was not updated
  before it was created) and each receipt describes a past version of a stored run.
\<close>

theorem store_reachable_inv:
  assumes "(store_step sha256)\<^sup>*\<^sup>* NewStore s"
  shows "store_inv s"
  using assms by (intro store.inv_reachable) auto

text \<open>
  No history is lost: whatever operations run, a stored run stays stored and its later
  version is reached from the earlier one by exactly as many allowed transitions as the
  version number grew; its objective, creation time and identifier never change and its
  update time never goes back, even if the clock does.
\<close>

theorem store_runs_evolve:
  assumes "(store_step sha256)\<^sup>*\<^sup>* s t" "runs s i = Some r" "run_state r = StateString st"
  shows "\<exists>r' st'. runs t i = Some r' \<and> run_state r' = StateString st'
    \<and> run_version r \<le> run_version r'
    \<and> (CanTransition ^^ nat (run_version r' - run_version r)) st st'
    \<and> run_id r' = run_id r \<and> run_objective r' = run_objective r
    \<and> run_created_at r' = run_created_at r \<and> run_updated_at r \<le> run_updated_at r'"
  using store_run_evolves [OF assms(1,2)] assms(3) by (auto simp: evolves_def)

text \<open>
  A retried transition is answered with the run of the first answer, whatever
  operations ran in between, and changes nothing.
\<close>

theorem transition_retry:
  assumes "Store_TransitionRun sha256 now i v target m s = (Inr r, s')"
    and "(store_step sha256)\<^sup>*\<^sup>* s' t"
  shows "Store_TransitionRun sha256 now' i v target m t = (Inr r, t)"
proof -
  have "fst (Store_TransitionRun sha256 now' i v target m t) = Inr r"
    using transition.retry_same_answer [of sha256 "(i, v, target, m)" now s r s' t now'] assms by simp
  moreover have "receipt_of t (transition_key i m) = Some (transition_hash sha256 i v target m, r)"
    using transition.receipt_kept [OF assms(2), of "(i, v, target, m)"]
      transition.success_recorded [of sha256 "(i, v, target, m)" now s r s'] assms(1) by simp
  ultimately show ?thesis
    using Store_TransitionRun_success [OF assms(1)] Store_TransitionRun_replay by blast
qed

text \<open>
  A retried creation is answered with the run of the first answer, whatever operations
  ran in between and whatever fresh identifier and time the retry carries, and changes
  nothing: one key creates at most one run.
\<close>

theorem create_retry:
  assumes "Store_CreateRun sha256 now i ob m s = (Inr r, s')"
    and "(store_step sha256)\<^sup>*\<^sup>* s' t"
  shows "Store_CreateRun sha256 now' i' ob m t = (Inr r, t)"
proof -
  have "receipt_of t (create_key m) = Some (create_hash sha256 ob m, r)"
    using create.receipt_kept [OF assms(2), of "(ob, m)"]
      create.success_recorded [of sha256 "(ob, m)" "(now, i)" s r s'] assms(1) by simp
  then show ?thesis
    using Store_CreateRun_success [OF assms(1)] Store_CreateRun_replay by blast
qed

text \<open>
  C21. No lost update: once a transition from version \<open>v\<close> has been applied to a run, no
  other transition command expecting version \<open>v\<close> is applied to it, ever; it is refused with
  a conflict and changes nothing.
\<close>

theorem no_lost_update:
  assumes "Store_TransitionRun sha256 now i v target m s = (Inr r, s')"
    and "receipts s (transition_key i m) = None"
    and "(store_step sha256)\<^sup>*\<^sup>* s' t"
    and "receipts t (transition_key i m') = None" and "ValidateCommandMetadata m' = None"
  shows "\<exists>e. Store_TransitionRun sha256 now' i v target' m' t = (Inl e, t) \<and> CodeOf e = CodeConflict"
proof -
  from Store_TransitionRun_result [OF assms(1)] assms(2)
  obtain r0 where "Machine_Transition now r0 target = Inr r" "run_version r0 = v" "runs s' i = Some r"
    and v: "1 \<le> v" by auto
  then have "run_version r = v + 1" and "\<exists>r'. runs t i = Some r' \<and> evolves r r'"
    using Machine_Transition_evolves store_run_evolves [OF assms(3)] by blast+
  then obtain r' where "runs t i = Some r'" "run_version r' \<noteq> v" by (auto simp: evolves_def)
  then show ?thesis
    using v assms(4,5) by (auto simp: Store_TransitionRun_def Let_def replayLocked_def transition_key_def)
qed

text \<open>
  Reusing the idempotency key of a creation for a different one (another objective,
  actor or causation) is refused with a conflict, provided no text of the two commands
  contains a zero byte and the hash does not collide on them.
\<close>

theorem create_key_reuse_refused:
  assumes "Store_CreateRun sha256 now i ob m s = (Inr r, s')"
    and "(store_step sha256)\<^sup>*\<^sup>* s' t"
    and "IdempotencyKey m' = IdempotencyKey m"
    and "(ob', ActorType m', ActorID m', causation_text m') \<noteq> (ob, ActorType m, ActorID m, causation_text m)"
    and "nul_free ob" "nul_free ob'" "nul_free_metadata m" "nul_free_metadata m'"
    and "inj_on sha256 {commandRequestText m [''create_run'', ob], commandRequestText m' [''create_run'', ob']}"
    and "validateObjective ob' = None" and "ValidateCommandMetadata m' = None"
  shows "\<exists>e. Store_CreateRun sha256 now' i' ob' m' t = (Inl e, t) \<and> CodeOf e = CodeConflict"
proof -
  have "receipt_of t (create_key m) = Some (create_hash sha256 ob m, r)"
    using create.receipt_kept [OF assms(2), of "(ob, m)"]
      create.success_recorded [of sha256 "(ob, m)" "(now, i)" s r s'] assms(1) by simp
  then have "receipt_of t (create_key m') = Some (create_hash sha256 ob m, r)"
    by (simp only: create_key_def assms(3))
  moreover have "create_hash sha256 ob m \<noteq> create_hash sha256 ob' m'"
  proof
    assume "create_hash sha256 ob m = create_hash sha256 ob' m'"
    then have "sha256 (commandRequestText m [''create_run'', ob])
        = sha256 (commandRequestText m' [''create_run'', ob'])"
      by (simp only: create_hash_def commandRequestHash_def)
    then have "commandRequestText m [''create_run'', ob] = commandRequestText m' [''create_run'', ob']"
      by (rule inj_onD [OF assms(9)]) simp_all
    moreover have "nul_free ''create_run''" by (simp add: nul_free_def)
    ultimately have "[''create_run'', ob] = [''create_run'', ob'] \<and> ActorType m = ActorType m'
        \<and> ActorID m = ActorID m' \<and> causation_text m = causation_text m'"
      using assms(5-8) by (intro commandRequestText_inject) simp_all
    then show False using assms(4) by simp
  qed
  ultimately show ?thesis by (rule replay_refused [OF assms(10,11)])
qed

text \<open>Concrete commands for the instances below.\<close>

definition sample_metadata :: CommandMetadata where
  "sample_metadata = \<lparr>IdempotencyKey = ''key-0001'', ActorType = ''human'', ActorID = ''ana'',
     CorrelationID = ''corr-1'', CausationID = None, AuditToolName = []\<rparr>"

lemma sample_metadata_sel [simp]:
  "IdempotencyKey sample_metadata = ''key-0001''" "ActorType sample_metadata = ''human''"
  "ActorID sample_metadata = ''ana''" "CorrelationID sample_metadata = ''corr-1''"
  "CausationID sample_metadata = None" "AuditToolName sample_metadata = []"
  by (simp_all add: sample_metadata_def)

lemma rune_count_sample [simp]:
  "rune_count ''key-0001'' = 8" "rune_count ''ana'' = 3" "rune_count ''corr-1'' = 6"
  "rune_count ''plan'' = 4" "rune_count ''other'' = 5" "rune_count ''key-0002'' = 8"
  by (simp_all add: rune_count_ascii byte_in_def)

lemma valid_sample_objective [simp]: "validateObjective ''plan'' = None" "validateObjective ''other'' = None"
  by simp_all

lemma valid_sample [simp]:
  "ValidateCommandMetadata sample_metadata = None"
  "ValidateCommandMetadata (sample_metadata\<lparr>IdempotencyKey := ''key-0002''\<rparr>) = None"
  by (simp_all add: ValidateCommandMetadata_def)

definition sample_store :: "string Store" where
  "sample_store = snd (Store_CreateRun id 5 ''run-1'' ''plan'' sample_metadata NewStore)"

lemma sample_created:
  "Store_CreateRun id 5 ''run-1'' ''plan'' sample_metadata NewStore = (Inr (draftRun 5 ''run-1'' ''plan''), sample_store)"
  by (simp add: sample_store_def Store_CreateRun_def Let_def replayLocked_def NewStore_def)

definition sample_moved :: "Run result \<times> string Store" where
  "sample_moved = Store_TransitionRun id 3 ''run-1'' 1 StateAwaitingApproval sample_metadata sample_store"

lemma sample_moved_eq:
  "\<exists>r. Store_TransitionRun id 3 ''run-1'' 1 StateAwaitingApproval sample_metadata sample_store
     = (Inr r, snd sample_moved) \<and> run_version r = 2 \<and> run_updated_at r = 5"
  by (simp add: sample_moved_def sample_store_def Store_TransitionRun_def Store_CreateRun_def Let_def
      replayLocked_def NewStore_def saveReceiptLocked_def Machine_Transition_def draftRun_def CanTransition_def)

theorem store_reachable_inv_witness: "store_inv sample_store"
proof (rule store_reachable_inv [of id])
  show "(store_step id)\<^sup>*\<^sup>* NewStore sample_store"
    using sample_created by (blast intro: store_step.intros)
qed

theorem transition_retry_witness:
  "\<exists>r. Store_TransitionRun id 9 ''run-1'' 1 StateAwaitingApproval sample_metadata (snd sample_moved)
     = (Inr r, snd sample_moved)"
  using sample_moved_eq transition_retry [OF _ rtranclp.rtrancl_refl] by blast

theorem create_retry_witness:
  "Store_CreateRun id 9 ''run-2'' ''plan'' sample_metadata sample_store
     = (Inr (draftRun 5 ''run-1'' ''plan''), sample_store)"
  by (rule create_retry [OF sample_created rtranclp.rtrancl_refl])

theorem store_runs_evolve_witness:
  "\<exists>r' st'. runs (snd sample_moved) ''run-1'' = Some r' \<and> run_state r' = StateString st'
    \<and> run_version (draftRun 5 ''run-1'' ''plan'') \<le> run_version r'
    \<and> (CanTransition ^^ nat (run_version r' - run_version (draftRun 5 ''run-1'' ''plan''))) StateDraft st'
    \<and> run_id r' = ''run-1'' \<and> run_objective r' = ''plan''
    \<and> run_created_at r' = 5 \<and> 5 \<le> run_updated_at r'"
proof -
  have "(store_step id)\<^sup>*\<^sup>* sample_store (snd sample_moved)"
    using sample_moved_eq by (blast intro: store_step.intros)
  moreover have "runs sample_store ''run-1'' = Some (draftRun 5 ''run-1'' ''plan'')"
    by (simp add: sample_store_def Store_CreateRun_def Let_def replayLocked_def NewStore_def saveReceiptLocked_def)
  ultimately show ?thesis
    using store_runs_evolve [of id sample_store "snd sample_moved" "''run-1''" "draftRun 5 ''run-1'' ''plan''" StateDraft]
    by (simp add: draftRun_def)
qed

theorem no_lost_update_witness:
  "\<exists>e. Store_TransitionRun id 9 ''run-1'' 1 StateCancelling
      (sample_metadata\<lparr>IdempotencyKey := ''key-0002''\<rparr>) (snd sample_moved) = (Inl e, snd sample_moved)
    \<and> CodeOf e = CodeConflict"
proof -
  have "receipts sample_store (transition_key ''run-1'' sample_metadata) = None"
    by (simp add: sample_store_def Store_CreateRun_def Let_def replayLocked_def NewStore_def
        saveReceiptLocked_def transition_key_def)
  moreover have "receipts (snd sample_moved)
      (transition_key ''run-1'' (sample_metadata\<lparr>IdempotencyKey := ''key-0002''\<rparr>)) = None"
    by (simp add: sample_moved_def sample_store_def Store_TransitionRun_def Store_CreateRun_def Let_def
      replayLocked_def NewStore_def saveReceiptLocked_def Machine_Transition_def draftRun_def CanTransition_def
      transition_key_def)
  ultimately show ?thesis
    using sample_moved_eq no_lost_update [OF _ _ rtranclp.rtrancl_refl _ valid_sample(2)] by blast
qed

theorem create_key_reuse_refused_witness:
  "\<exists>e. Store_CreateRun id 9 ''run-2'' ''other'' sample_metadata sample_store = (Inl e, sample_store)
    \<and> CodeOf e = CodeConflict"
  by (rule create_key_reuse_refused [OF sample_created rtranclp.rtrancl_refl])
    (simp_all add: nul_free_def nul_free_metadata_def causation_text_def)

text \<open>
  C24. The request hash does not separate all different commands: the parts are joined with
  a zero byte that neither the objective nor the actor identifier is forbidden to contain.
  Two creations with different objectives by different actors, under the same key, have
  the same request text, and the second is answered with the run of the first, for every
  hash function.
\<close>

theorem create_request_ambiguous:
  "\<exists>ob m ob' m' r s. ob \<noteq> ob' \<and> ActorID m \<noteq> ActorID m' \<and> run_objective r = ob
     \<and> Store_CreateRun sha256 now i ob m NewStore = (Inr r, s)
     \<and> Store_CreateRun sha256 now' i' ob' m' s = (Inr r, s)"
proof -
  let ?Z = "[CHR 0x00]"
  let ?ob = "''plan''" and ?ob' = "''plan'' @ ?Z @ ''human'' @ ?Z @ ''ana''"
  let ?m = "sample_metadata\<lparr>ActorID := ''ana'' @ ?Z @ ''human'' @ ?Z @ ''bob''\<rparr>"
  let ?m' = "sample_metadata\<lparr>ActorID := ''bob''\<rparr>"
  let ?s = "snd (Store_CreateRun sha256 now i ?ob ?m NewStore)"
  have len: "rune_count ?ob' = 14" "rune_count (''ana'' @ ?Z @ ''human'' @ ?Z @ ''bob'') = 13"
    "rune_count ''bob'' = 3"
    by (simp_all add: rune_count_ascii byte_in_def)
  have valid: "ValidateCommandMetadata ?m = None" "ValidateCommandMetadata ?m' = None"
    using len by (simp_all add: ValidateCommandMetadata_def)
  have same_text: "commandRequestText ?m [''create_run'', ?ob] = commandRequestText ?m' [''create_run'', ?ob']"
    by (simp add: commandRequestText_def)
  have first: "Store_CreateRun sha256 now i ?ob ?m NewStore = (Inr (draftRun now i ?ob), ?s)"
    using valid(1) by (simp add: Store_CreateRun_def Let_def replayLocked_def NewStore_def)
  have "receipt_of ?s (create_key ?m') = Some (create_hash sha256 ?ob' ?m', draftRun now i ?ob)"
    using Store_CreateRun_success [OF first] same_text
    by (simp add: receipt_of_def NewStore_def create_key_def create_hash_def commandRequestHash_def)
  then have second: "Store_CreateRun sha256 now' i' ?ob' ?m' ?s = (Inr (draftRun now i ?ob), ?s)"
    using valid(2) len by (intro Store_CreateRun_replay) simp_all
  have "?ob \<noteq> ?ob'" "ActorID ?m \<noteq> ActorID ?m'" "run_objective (draftRun now i ?ob) = ?ob"
    by (simp_all add: draftRun_def)
  with first second show ?thesis
    by - (rule exI [of _ ?ob], rule exI [of _ ?m], rule exI [of _ ?ob'], rule exI [of _ ?m'],
        rule exI [of _ "draftRun now i ?ob"], rule exI [of _ ?s], intro conjI)
qed

end
