(* ===== verification/Control.thy ===== *)
theory Control
  imports Runstate "HOL-Library.Multiset"
begin

text \<open>
  The package \<open>internal/control\<close>: the types of \<open>types.go\<close> and the in-memory
  repository of \<open>memory.go\<close>, which governs sprints, decisions and their runs.

  The maps \<open>decisions\<close>, \<open>runs\<close> and \<open>receipts\<close> are finite maps; \<open>sprints\<close>, over which
  \<open>TransitionRun\<close> iterates, is an association list whose order stands for the
  unspecified iteration order of the Go map. An operation takes the readings of the clock
  it makes, in order: \<open>now 0\<close> is the first. The hash function is an argument.
\<close>

datatype SprintStatus = SprintProposed | SprintAwaitingApproval | SprintApproved | SprintRejected
  | SprintCancelling

fun SprintStatusString :: "SprintStatus \<Rightarrow> string" where
  "SprintStatusString SprintProposed = ''proposed''"
| "SprintStatusString SprintAwaitingApproval = ''awaiting_approval''"
| "SprintStatusString SprintApproved = ''approved''"
| "SprintStatusString SprintRejected = ''rejected''"
| "SprintStatusString SprintCancelling = ''cancelling''"

datatype DecisionStatus = DecisionPending | DecisionApproved | DecisionRejected

fun DecisionStatusString :: "DecisionStatus \<Rightarrow> string" where
  "DecisionStatusString DecisionPending = ''pending''"
| "DecisionStatusString DecisionApproved = ''approved''"
| "DecisionStatusString DecisionRejected = ''rejected''"

definition DecisionActionSubmitSprint :: string where
  "DecisionActionSubmitSprint = ''submit_sprint''"

definition LocalTenantID :: string where
  "LocalTenantID = ''00000000-0000-4000-8000-000000000001''"

definition LocalRepositoryID :: string where
  "LocalRepositoryID = ''00000000-0000-4000-8000-000000000002''"

record Authority =
  auth_tenant_id :: string
  auth_repository_id :: string

record PlanResult =
  plan_sprint :: Sprint
  plan_run :: Run

record SubmissionResult =
  sub_sprint :: Sprint
  sub_decision :: Decision
  sub_run :: Run

record DecisionResult =
  dec_sprint :: Sprint
  dec_decision :: Decision
  dec_run :: Run

record PlanCommand =
  pc_SprintID :: SprintID
  pc_RunID :: RunID
  pc_Title :: string
  pc_Objective :: string

record SubmitCommand =
  sc_SprintID :: SprintID
  sc_DecisionID :: DecisionID
  sc_ExpectedVersion :: int
  sc_RiskClass :: string

record DecideCommand =
  dc_DecisionID :: DecisionID
  dc_ExpectedVersion :: int
  dc_Approve :: bool
  dc_Reason :: string

record AuditRecord =
  audit_ToolName :: string
  audit_Outcome :: string
  audit_ActorType :: string
  audit_ActorID :: string
  audit_CorrelationID :: string
  audit_CausationID :: "string option"
  audit_IdempotencyKey :: string
  audit_CommandScope :: string
  audit_ErrorCode :: string
  audit_Replay :: bool
  audit_OccurredAt :: time

record 'h memoryReceipt =
  mr_requestHash :: 'h
  mr_response :: json

record 'h MemoryRepository =
  sprints :: "(SprintID \<times> Sprint) list"
  decisions :: "DecisionID \<rightharpoonup> Decision"
  mruns :: "RunID \<rightharpoonup> Run"
  mreceipts :: "string \<rightharpoonup> 'h memoryReceipt"
  audits :: "AuditRecord list"
  nextSequence :: int

definition NewMemoryRepository :: "'h MemoryRepository" where
  "NewMemoryRepository = \<lparr>sprints = [], decisions = Map.empty, mruns = Map.empty,
     mreceipts = Map.empty, audits = [], nextSequence = 1\<rparr>"

definition Memory_Authority :: Authority where
  "Memory_Authority = \<lparr>auth_tenant_id = LocalTenantID, auth_repository_id = LocalRepositoryID\<rparr>"

section \<open>Receipts and audit\<close>

text \<open>The string encoding of \<open>json.Marshal\<close>, with HTML escaping on as by default.\<close>

definition json_escape_rune :: "string \<Rightarrow> string" where
  "json_escape_rune r =
    (if \<not> rune_ok r then [CHR 0x5C] @ ''ufffd''
     else if r = bytes [0xE2, 0x80, 0xA8] then [CHR 0x5C] @ ''u2028''
     else if r = bytes [0xE2, 0x80, 0xA9] then [CHR 0x5C] @ ''u2029''
     else case r of
       [c] \<Rightarrow>
         (if c = CHR 0x22 \<or> c = CHR 0x5C then [CHR 0x5C, c]
          else if c = CHR 0x08 then [CHR 0x5C, CHR ''b'']
          else if c = CHR 0x0C then [CHR 0x5C, CHR ''f'']
          else if c = CHR 0x0A then [CHR 0x5C, CHR ''n'']
          else if c = CHR 0x0D then [CHR 0x5C, CHR ''r'']
          else if c = CHR 0x09 then [CHR 0x5C, CHR ''t'']
          else if byte_in 0 0x1F c \<or> c \<in> set ''<>&'' then
            [CHR 0x5C] @ ''u00'' @ [hex_char (of_char c div 16), hex_char (of_char c mod 16)]
          else [c])
     | _ \<Rightarrow> r)"

definition json_quote :: "string \<Rightarrow> string" where
  "json_quote s = [CHR 0x22] @ concat (map json_escape_rune (runes s)) @ [CHR 0x22]"

definition json_string_array :: "string list \<Rightarrow> string" where
  "json_string_array ss = ''['' @ Join (map json_quote ss) '','' @ '']''"

definition controlHash :: "(string \<Rightarrow> 'h) \<Rightarrow> CommandMetadata \<Rightarrow> string list \<Rightarrow> 'h" where
  "controlHash sha256 metadata parts =
    (let causation = (case CausationID metadata of None \<Rightarrow> [] | Some c \<Rightarrow> c);
         parts = parts @ [ActorType metadata, ActorID metadata, causation];
         parts = (if AuditToolName metadata \<noteq> [] then parts @ [AuditToolName metadata] else parts)
     in sha256 (json_string_array parts))"

definition marshal_PlanResult :: "PlanResult \<Rightarrow> json option" where
  "marshal_PlanResult p =
    Option.bind (marshal_Sprint (plan_sprint p)) (\<lambda>s.
    Option.bind (marshal_Run (plan_run p)) (\<lambda>r.
      Some (JObj [(''sprint'', s), (''run'', r)])))"

definition decode_PlanResult :: "json \<Rightarrow> PlanResult option" where
  "decode_PlanResult j =
    Option.bind (known_fields [''sprint'', ''run''] j) (\<lambda>fs.
    Option.bind (decode_Sprint (field fs ''sprint'')) (\<lambda>s.
    Option.bind (decode_Run (field fs ''run'')) (\<lambda>r.
      Some \<lparr>plan_sprint = s, plan_run = r\<rparr>)))"

definition marshal_triple :: "Sprint \<Rightarrow> Decision \<Rightarrow> Run \<Rightarrow> json option" where
  "marshal_triple sp d r =
    Option.bind (marshal_Sprint sp) (\<lambda>s.
    Option.bind (marshal_Decision d) (\<lambda>d.
    Option.bind (marshal_Run r) (\<lambda>r.
      Some (JObj [(''sprint'', s), (''decision'', d), (''run'', r)]))))"

definition decode_triple :: "(Sprint \<Rightarrow> Decision \<Rightarrow> Run \<Rightarrow> 'a) \<Rightarrow> json \<Rightarrow> 'a option" where
  "decode_triple mk j =
    Option.bind (known_fields [''sprint'', ''decision'', ''run''] j) (\<lambda>fs.
    Option.bind (decode_Sprint (field fs ''sprint'')) (\<lambda>s.
    Option.bind (decode_Decision (field fs ''decision'')) (\<lambda>d.
    Option.bind (decode_Run (field fs ''run'')) (\<lambda>r. Some (mk s d r)))))"

definition marshal_SubmissionResult :: "SubmissionResult \<Rightarrow> json option" where
  "marshal_SubmissionResult x = marshal_triple (sub_sprint x) (sub_decision x) (sub_run x)"

definition decode_SubmissionResult :: "json \<Rightarrow> SubmissionResult option" where
  "decode_SubmissionResult =
    decode_triple (\<lambda>s d r. \<lparr>sub_sprint = s, sub_decision = d, sub_run = r\<rparr>)"

definition marshal_DecisionResult :: "DecisionResult \<Rightarrow> json option" where
  "marshal_DecisionResult x = marshal_triple (dec_sprint x) (dec_decision x) (dec_run x)"

definition decode_DecisionResult :: "json \<Rightarrow> DecisionResult option" where
  "decode_DecisionResult =
    decode_triple (\<lambda>s d r. \<lparr>dec_sprint = s, dec_decision = d, dec_run = r\<rparr>)"

definition receiptKey :: "string \<Rightarrow> string \<Rightarrow> string" where
  "receiptKey scope key = scope @ [CHR 0x00] @ key"

definition replayMemory ::
    "(json \<Rightarrow> 'a option) \<Rightarrow> string \<Rightarrow> string \<Rightarrow> 'h \<Rightarrow> 'h MemoryRepository \<Rightarrow> 'a result option" where
  "replayMemory decode scope key requestHash s =
    (case mreceipts s (receiptKey scope key) of
       None \<Rightarrow> None
     | Some receipt \<Rightarrow>
         if mr_requestHash receipt \<noteq> requestHash then
           Some (Inl (New CodeConflict ''control.MemoryRepository.idempotency''
             (Msg ''idempotency key was reused with a different command'' [])))
         else (case decode (mr_response receipt) of
             None \<Rightarrow> Some (Inl (WrapErr CodeInternal ''control.MemoryRepository.idempotency''
                         (Msg ''decode replay'' []) (Errorf ''json: decode'' [])))
           | Some response \<Rightarrow> Some (Inr response)))"

definition saveMemoryReceipt ::
    "string \<Rightarrow> string \<Rightarrow> 'h \<Rightarrow> json option \<Rightarrow> 'h MemoryRepository \<Rightarrow> 'h MemoryRepository result" where
  "saveMemoryReceipt scope key requestHash response s =
    (case response of
       None \<Rightarrow> Inl (WrapErr CodeInternal ''control.MemoryRepository.idempotency''
                 (Msg ''encode replay receipt'' []) (Errorf ''json: encode'' []))
     | Some data \<Rightarrow> Inr (s\<lparr>mreceipts := (mreceipts s)(receiptKey scope key \<mapsto>
           \<lparr>mr_requestHash = requestHash, mr_response = data\<rparr>)\<rparr>))"

definition appendSuccessAuditLocked ::
    "time \<Rightarrow> CommandMetadata \<Rightarrow> string \<Rightarrow> bool \<Rightarrow> 'h MemoryRepository \<Rightarrow> 'h MemoryRepository" where
  "appendSuccessAuditLocked now metadata commandScope replay s =
    (if AuditToolName metadata = [] then s
     else s\<lparr>audits := audits s @
        [\<lparr>audit_ToolName = AuditToolName metadata, audit_Outcome = ''succeeded'',
          audit_ActorType = ActorType metadata, audit_ActorID = ActorID metadata,
          audit_CorrelationID = CorrelationID metadata, audit_CausationID = CausationID metadata,
          audit_IdempotencyKey = IdempotencyKey metadata, audit_CommandScope = commandScope,
          audit_ErrorCode = [], audit_Replay = replay, audit_OccurredAt = now\<rparr>]\<rparr>)"

section \<open>Operations\<close>

text \<open>
  Each governed command validates its metadata, looks for a receipt of its idempotency key,
  performs its work, stores a receipt and appends an audit record, all under the lock of the
  repository. The work of a command is its \<open>Locked\<close> definition: an error, or the result with
  the changed repository.
\<close>

definition planSprintLocked ::
    "(nat \<Rightarrow> time) \<Rightarrow> PlanCommand \<Rightarrow> 'h MemoryRepository \<Rightarrow> (PlanResult \<times> 'h MemoryRepository) result" where
  "planSprintLocked now command s =
    (if map_of (sprints s) (pc_SprintID command) \<noteq> None then
       Inl (New CodeConflict ''control.MemoryRepository.PlanSprint''
         (Msg ''sprint already exists'' []))
     else if mruns s (pc_RunID command) \<noteq> None then
       Inl (New CodeConflict ''control.MemoryRepository.PlanSprint''
         (Msg ''run already exists'' []))
     else
       let sprint = \<lparr>sprint_id = pc_SprintID command, sprint_schema_version = ''1.0'',
             sprint_sequence_number = nextSequence s, sprint_title = pc_Title command,
             sprint_objective = pc_Objective command,
             sprint_status = SprintStatusString SprintProposed, sprint_version = 1,
             sprint_run_id = pc_RunID command, sprint_pending_decision_id = None,
             sprint_created_at = now 0, sprint_updated_at = now 0\<rparr>;
           run = draftRun (now 0) (pc_RunID command) (pc_Objective command)
       in Inr (\<lparr>plan_sprint = sprint, plan_run = run\<rparr>,
            s\<lparr>nextSequence := nextSequence s + 1,
              sprints := AList.update (pc_SprintID command) sprint (sprints s),
              mruns := (mruns s)(pc_RunID command \<mapsto> run)\<rparr>))"

definition PlanSprint ::
    "(string \<Rightarrow> 'h) \<Rightarrow> (nat \<Rightarrow> time) \<Rightarrow> PlanCommand \<Rightarrow> CommandMetadata \<Rightarrow> 'h MemoryRepository
      \<Rightarrow> PlanResult result \<times> 'h MemoryRepository" where
  "PlanSprint sha256 now command metadata s =
    (case ValidateCommandMetadata metadata of
       Some err \<Rightarrow> (Inl err, s)
     | None \<Rightarrow>
         let requestHash = controlHash sha256 metadata 
               [''plan_sprint'', pc_Title command, pc_Objective command];
             scope = ''plan_sprint''
         in
         (case replayMemory decode_PlanResult scope (IdempotencyKey metadata) requestHash s of
            Some (Inl err) \<Rightarrow> (Inl err, s)
          | Some (Inr replay) \<Rightarrow>
              (Inr replay, appendSuccessAuditLocked (now 0) metadata scope True s)
          | None \<Rightarrow>
         (case planSprintLocked now command s of
            Inl err \<Rightarrow> (Inl err, s)
          | Inr (result, s) \<Rightarrow>
         (case saveMemoryReceipt scope (IdempotencyKey metadata) requestHash
                 (marshal_PlanResult result) s of
            Inl err \<Rightarrow> (Inl err, s)
          | Inr s \<Rightarrow>
              (Inr result, appendSuccessAuditLocked (now 1) metadata scope False s)))))"

definition GetSprint :: "SprintID \<Rightarrow> 'h MemoryRepository \<Rightarrow> Sprint result" where
  "GetSprint i s = (case map_of (sprints s) i of
      None \<Rightarrow> Inl (New CodeNotFound ''control.MemoryRepository.GetSprint''
                (Msg ''sprint %s was not found'' [FStr i]))
    | Some sprint \<Rightarrow> Inr sprint)"

definition submitSprintLocked ::
    "(nat \<Rightarrow> time) \<Rightarrow> SubmitCommand \<Rightarrow> CommandMetadata \<Rightarrow> 'h MemoryRepository
      \<Rightarrow> (SubmissionResult \<times> 'h MemoryRepository) result" where
  "submitSprintLocked now command metadata s =
    (case map_of (sprints s) (sc_SprintID command) of
       None \<Rightarrow> Inl (New CodeNotFound ''control.MemoryRepository.SubmitSprint''
                 (Msg ''sprint was not found'' []))
     | Some sprint \<Rightarrow>
         if sprint_version sprint \<noteq> sc_ExpectedVersion command
            \<or> sprint_status sprint \<noteq> SprintStatusString SprintProposed then
           Inl (New CodeConflict ''control.MemoryRepository.SubmitSprint''
             (Msg ''sprint is not a matching proposed version'' []))
         else
    (case ParseRunID (sprint_run_id sprint) of
       Inl err \<Rightarrow> Inl (WrapErr CodeInternal ''control.MemoryRepository.SubmitSprint''
                    (Msg ''stored run ID is invalid'' []) err)
     | Inr runID \<Rightarrow>
         let run = (case mruns s runID of Some run \<Rightarrow> run | None \<Rightarrow> zero_Run) in
    (case Machine_Transition (now 0) run StateAwaitingApproval of
       Inl err \<Rightarrow> Inl err
     | Inr updatedRun \<Rightarrow>
         let now1 = (if now 1 < sprint_updated_at sprint then sprint_updated_at sprint else now 1);
             sprint = sprint\<lparr>sprint_status := SprintStatusString SprintAwaitingApproval,
               sprint_version := sprint_version sprint + 1, sprint_updated_at := now1,
               sprint_pending_decision_id := Some (sc_DecisionID command)\<rparr>;
             decision = \<lparr>decision_id = sc_DecisionID command, decision_schema_version = ''1.0'',
               decision_sprint_id = sprint_id sprint, decision_run_id = sprint_run_id sprint,
               decision_action = DecisionActionSubmitSprint,
               decision_risk_class = sc_RiskClass command,
               decision_status = DecisionStatusString DecisionPending, decision_version = 1,
               decision_requested_by = ActorID metadata, decision_decided_by = None,
               decision_reason = None, decision_created_at = now1, decision_updated_at = now1,
               decision_decided_at = None\<rparr>
         in Inr (\<lparr>sub_sprint = sprint, sub_decision = decision, sub_run = updatedRun\<rparr>,
              s\<lparr>sprints := AList.update (sc_SprintID command) sprint (sprints s),
                mruns := (mruns s)(runID \<mapsto> updatedRun),
                decisions := (decisions s)(sc_DecisionID command \<mapsto> decision)\<rparr>))))"

definition SubmitSprint ::
    "(string \<Rightarrow> 'h) \<Rightarrow> (nat \<Rightarrow> time) \<Rightarrow> SubmitCommand \<Rightarrow> CommandMetadata \<Rightarrow> 'h MemoryRepository
      \<Rightarrow> SubmissionResult result \<times> 'h MemoryRepository" where
  "SubmitSprint sha256 now command metadata s =
    (case ValidateCommandMetadata metadata of
       Some err \<Rightarrow> (Inl err, s)
     | None \<Rightarrow>
         let requestHash = controlHash sha256 metadata 
               [''submit_sprint'', sc_SprintID command, itoa (sc_ExpectedVersion command),
                sc_RiskClass command];
             scope = ''submit_sprint:'' @ sc_SprintID command
         in
         (case replayMemory decode_SubmissionResult scope (IdempotencyKey metadata) requestHash s of
            Some (Inl err) \<Rightarrow> (Inl err, s)
          | Some (Inr replay) \<Rightarrow>
              (Inr replay, appendSuccessAuditLocked (now 0) metadata scope True s)
          | None \<Rightarrow>
         (case submitSprintLocked now command metadata s of
            Inl err \<Rightarrow> (Inl err, s)
          | Inr (result, s) \<Rightarrow>
         (case saveMemoryReceipt scope (IdempotencyKey metadata) requestHash
                 (marshal_SubmissionResult result) s of
            Inl err \<Rightarrow> (Inl err, s)
          | Inr s \<Rightarrow>
              (Inr result, appendSuccessAuditLocked (now 2) metadata scope False s)))))"

definition resolveDecisionLocked ::
    "(nat \<Rightarrow> time) \<Rightarrow> DecideCommand \<Rightarrow> CommandMetadata \<Rightarrow> 'h MemoryRepository
      \<Rightarrow> (DecisionResult \<times> 'h MemoryRepository) result" where
  "resolveDecisionLocked now command metadata s =
    (case decisions s (dc_DecisionID command) of
       None \<Rightarrow> Inl (New CodeNotFound ''control.MemoryRepository.ResolveDecision''
                 (Msg ''decision was not found'' []))
     | Some decision \<Rightarrow>
         if decision_version decision \<noteq> dc_ExpectedVersion command
            \<or> decision_status decision \<noteq> DecisionStatusString DecisionPending then
           Inl (New CodeConflict ''control.MemoryRepository.ResolveDecision''
             (Msg ''decision is not a matching pending version'' []))
         else
    (case ParseSprintID (decision_sprint_id decision) of
       Inl err \<Rightarrow> Inl (WrapErr CodeInternal ''control.MemoryRepository.ResolveDecision''
                    (Msg ''stored sprint ID is invalid'' []) err)
     | Inr sprintID \<Rightarrow>
    (case ParseRunID (decision_run_id decision) of
       Inl err \<Rightarrow> Inl (WrapErr CodeInternal ''control.MemoryRepository.ResolveDecision''
                    (Msg ''stored run ID is invalid'' []) err)
     | Inr runID \<Rightarrow>
         let sprint = (case map_of (sprints s) sprintID of Some sp \<Rightarrow> sp | None \<Rightarrow> zero_Sprint);
             run = (case mruns s runID of Some run \<Rightarrow> run | None \<Rightarrow> zero_Run);
             target = (if dc_Approve command then StateQueued else StateCancelling);
             decisionStatus = (if dc_Approve command then DecisionApproved else DecisionRejected);
             sprintStatus = (if dc_Approve command then SprintApproved else SprintRejected)
         in
    (case Machine_Transition (now 0) run target of
       Inl err \<Rightarrow> Inl err
     | Inr updatedRun \<Rightarrow>
         let now1 = (if now 1 < decision_updated_at decision then decision_updated_at decision
                     else now 1);
             decision = decision\<lparr>decision_status := DecisionStatusString decisionStatus,
               decision_version := decision_version decision + 1, decision_updated_at := now1,
               decision_decided_at := Some now1, decision_decided_by := Some (ActorID metadata),
               decision_reason := Some (dc_Reason command)\<rparr>;
             sprint = sprint\<lparr>sprint_status := SprintStatusString sprintStatus,
               sprint_version := sprint_version sprint + 1, sprint_updated_at := now1,
               sprint_pending_decision_id := None\<rparr>
         in Inr (\<lparr>dec_sprint = sprint, dec_decision = decision, dec_run = updatedRun\<rparr>,
              s\<lparr>decisions := (decisions s)(dc_DecisionID command \<mapsto> decision),
                sprints := AList.update sprintID sprint (sprints s),
                mruns := (mruns s)(runID \<mapsto> updatedRun)\<rparr>)))))"

definition ResolveDecision ::
    "(string \<Rightarrow> 'h) \<Rightarrow> (nat \<Rightarrow> time) \<Rightarrow> DecideCommand \<Rightarrow> CommandMetadata \<Rightarrow> 'h MemoryRepository
      \<Rightarrow> DecisionResult result \<times> 'h MemoryRepository" where
  "ResolveDecision sha256 now command metadata s =
    (case ValidateCommandMetadata metadata of
       Some err \<Rightarrow> (Inl err, s)
     | None \<Rightarrow>
         let requestHash = controlHash sha256 metadata 
               [''resolve_decision'', dc_DecisionID command, itoa (dc_ExpectedVersion command),
                (if dc_Approve command then ''true'' else ''false''), dc_Reason command];
             scope = ''resolve_decision:'' @ dc_DecisionID command
         in
         (case replayMemory decode_DecisionResult scope (IdempotencyKey metadata) requestHash s of
            Some (Inl err) \<Rightarrow> (Inl err, s)
          | Some (Inr replay) \<Rightarrow>
              (Inr replay, appendSuccessAuditLocked (now 0) metadata scope True s)
          | None \<Rightarrow>
         (case resolveDecisionLocked now command metadata s of
            Inl err \<Rightarrow> (Inl err, s)
          | Inr (result, s) \<Rightarrow>
         (case saveMemoryReceipt scope (IdempotencyKey metadata) requestHash
                 (marshal_DecisionResult result) s of
            Inl err \<Rightarrow> (Inl err, s)
          | Inr s \<Rightarrow>
              (Inr result, appendSuccessAuditLocked (now 2) metadata scope False s)))))"

definition GetRun :: "RunID \<Rightarrow> 'h MemoryRepository \<Rightarrow> Run result" where
  "GetRun i s = (case mruns s i of
      None \<Rightarrow> Inl (New CodeNotFound ''control.MemoryRepository.GetRun''
                (Msg ''run %s was not found'' [FStr i]))
    | Some run \<Rightarrow> Inr run)"

definition isPrivilegedResumeTransition :: "string \<Rightarrow> State \<Rightarrow> bool" where
  "isPrivilegedResumeTransition source target \<longleftrightarrow>
     (source = StateString StateFailedRetryable \<and> target = StateQueued) \<or>
     (source = StateString StateAwaitingDecision \<and> target = StateQueued)"

text \<open>
  The loop of \<open>TransitionRun\<close> over the sprints stops at the first sprint of the run: an
  error, or the sprint to be cancelled with its identifier, \<open>([], zero_Sprint)\<close> if none.
\<close>

definition linkedSprint ::
    "RunID \<Rightarrow> State \<Rightarrow> (SprintID \<times> Sprint) list \<Rightarrow> (SprintID \<times> Sprint) result" where
  "linkedSprint i target sps =
    (case find (\<lambda>(sid, sp). sprint_run_id sp = i) sps of
       None \<Rightarrow> Inr ([], zero_Sprint)
     | Some (sid, sp) \<Rightarrow>
         if sprint_status sp = SprintStatusString SprintAwaitingApproval
            \<or> sprint_pending_decision_id sp \<noteq> None then
           Inl (New CodeConflict ''control.MemoryRepository.TransitionRun''
             (Msg ''resolve the pending decision before transitioning its run'' []))
         else if sprint_status sp = SprintStatusString SprintProposed \<and> target \<noteq> StateCancelling then
           Inl (New CodeConflict ''control.MemoryRepository.TransitionRun''
             (Msg ''submit the proposed Sprint before transitioning its run'' []))
         else if target = StateCancelling then Inr (sid, sp)
         else Inr ([], zero_Sprint))"

definition transitionRunLocked ::
    "(nat \<Rightarrow> time) \<Rightarrow> RunID \<Rightarrow> int \<Rightarrow> State \<Rightarrow> 'h MemoryRepository
      \<Rightarrow> (Run \<times> 'h MemoryRepository) result" where
  "transitionRunLocked now i expectedVersion target s =
    (case mruns s i of
       None \<Rightarrow> Inl (New CodeNotFound ''control.MemoryRepository.TransitionRun''
                 (Msg ''run was not found'' []))
     | Some run \<Rightarrow>
         if run_version run \<noteq> expectedVersion then
           Inl (New CodeConflict ''control.MemoryRepository.TransitionRun''
             (Msg ''run version mismatch'' []))
         else if isPrivilegedResumeTransition (run_state run) target then
           Inl (New CodePermissionDenied ''control.MemoryRepository.TransitionRun''
             (Msg ''resume transitions require the governed ResumeRun command'' []))
         else
    (case linkedSprint i target (sprints s) of
       Inl err \<Rightarrow> Inl err
     | Inr (linkedSprintID, linked) \<Rightarrow>
    (case Machine_Transition (now 0) run target of
       Inl err \<Rightarrow> Inl err
     | Inr updated \<Rightarrow>
         let s = s\<lparr>mruns := (mruns s)(i \<mapsto> updated)\<rparr>
         in Inr (updated,
              if linkedSprintID \<noteq> []
                 \<and> (sprint_status linked = SprintStatusString SprintProposed
                    \<or> sprint_status linked = SprintStatusString SprintApproved) then
                s\<lparr>sprints := AList.update linkedSprintID
                   (linked\<lparr>sprint_status := SprintStatusString SprintCancelling,
                      sprint_version := sprint_version linked + 1,
                      sprint_updated_at := run_updated_at updated\<rparr>) (sprints s)\<rparr>
              else s))))"

definition TransitionRun ::
    "(string \<Rightarrow> 'h) \<Rightarrow> (nat \<Rightarrow> time) \<Rightarrow> RunID \<Rightarrow> int \<Rightarrow> State \<Rightarrow> CommandMetadata \<Rightarrow> 'h MemoryRepository
      \<Rightarrow> Run result \<times> 'h MemoryRepository" where
  "TransitionRun sha256 now i expectedVersion target metadata s =
    (case ValidateCommandMetadata metadata of
       Some err \<Rightarrow> (Inl err, s)
     | None \<Rightarrow>
         let requestHash = controlHash sha256 metadata 
               [''transition_run'', i, itoa expectedVersion, StateString target];
             scope = ''transition_run:'' @ i
         in
         (case replayMemory decode_Run scope (IdempotencyKey metadata) requestHash s of
            Some (Inl err) \<Rightarrow> (Inl err, s)
          | Some (Inr replay) \<Rightarrow>
              (Inr replay, appendSuccessAuditLocked (now 0) metadata scope True s)
          | None \<Rightarrow>
         (case transitionRunLocked now i expectedVersion target s of
            Inl err \<Rightarrow> (Inl err, s)
          | Inr (result, s) \<Rightarrow>
         (case saveMemoryReceipt scope (IdempotencyKey metadata) requestHash
                 (marshal_Run result) s of
            Inl err \<Rightarrow> (Inl err, s)
          | Inr s \<Rightarrow>
              (Inr result, appendSuccessAuditLocked (now 1) metadata scope False s)))))"

definition resumeTarget :: "Run \<Rightarrow> State result" where
  "resumeTarget run =
    (if run_state run = StateString StateFailedRetryable then Inr StateQueued
     else if run_state run = StateString StateAwaitingDecision then Inr StateQueued
     else Inl (New CodeConflict ''control.resumeTarget''
       (Msg ''only failed_retryable or awaiting_decision runs can resume'' [])))"

definition resumeRunLocked ::
    "(nat \<Rightarrow> time) \<Rightarrow> RunID \<Rightarrow> int \<Rightarrow> 'h MemoryRepository
      \<Rightarrow> (Run \<times> 'h MemoryRepository) result" where
  "resumeRunLocked now i expectedVersion s =
    (case mruns s i of
       None \<Rightarrow> Inl (New CodeNotFound ''control.MemoryRepository.ResumeRun''
                 (Msg ''run was not found'' []))
     | Some run \<Rightarrow>
         if run_version run \<noteq> expectedVersion then
           Inl (New CodeConflict ''control.MemoryRepository.ResumeRun''
             (Msg ''run version mismatch'' []))
         else
    (case resumeTarget run of
       Inl err \<Rightarrow> Inl err
     | Inr target \<Rightarrow>
    (case Machine_Transition (now 0) run target of
       Inl err \<Rightarrow> Inl err
     | Inr updated \<Rightarrow> Inr (updated, s\<lparr>mruns := (mruns s)(i \<mapsto> updated)\<rparr>))))"

definition ResumeRun ::
    "(string \<Rightarrow> 'h) \<Rightarrow> (nat \<Rightarrow> time) \<Rightarrow> RunID \<Rightarrow> int \<Rightarrow> CommandMetadata \<Rightarrow> 'h MemoryRepository
      \<Rightarrow> Run result \<times> 'h MemoryRepository" where
  "ResumeRun sha256 now i expectedVersion metadata s =
    (if expectedVersion < 1 then
       (Inl (New CodeInvalidArgument ''control.MemoryRepository.ResumeRun''
          (Msg ''expected version must be positive'' [])), s)
     else
    (case ValidateCommandMetadata metadata of
       Some err \<Rightarrow> (Inl err, s)
     | None \<Rightarrow>
         let requestHash = controlHash sha256 metadata [''resume_run'', i, itoa expectedVersion];
             scope = ''resume_run:'' @ i
         in
         (case replayMemory decode_Run scope (IdempotencyKey metadata) requestHash s of
            Some (Inl err) \<Rightarrow> (Inl err, s)
          | Some (Inr replay) \<Rightarrow>
              (Inr replay, appendSuccessAuditLocked (now 0) metadata scope True s)
          | None \<Rightarrow>
         (case resumeRunLocked now i expectedVersion s of
            Inl err \<Rightarrow> (Inl err, s)
          | Inr (result, s) \<Rightarrow>
         (case saveMemoryReceipt scope (IdempotencyKey metadata) requestHash
                 (marshal_Run result) s of
            Inl err \<Rightarrow> (Inl err, s)
          | Inr s \<Rightarrow>
              (Inr result, appendSuccessAuditLocked (now 1) metadata scope False s))))))"

definition RecordToolAudit :: "time \<Rightarrow> AuditRecord \<Rightarrow> 'h MemoryRepository
    \<Rightarrow> unit result \<times> 'h MemoryRepository" where
  "RecordToolAudit now rec s =
    (if audit_ToolName rec = [] \<or> audit_CorrelationID rec = [] \<or> audit_ActorID rec = [] then
       (Inl (New CodeInvalidArgument ''control.MemoryRepository.RecordToolAudit''
          (Msg ''tool, actor, and correlation are required'' [])), s)
     else
       let rec = (if audit_OccurredAt rec = zero_time then rec\<lparr>audit_OccurredAt := now\<rparr> else rec)
       in (Inr (), s\<lparr>audits := audits s @ [rec]\<rparr>))"

definition AuditRecords :: "'h MemoryRepository \<Rightarrow> AuditRecord list" where
  "AuditRecords s = audits s"

section \<open>The shape of a governed command\<close>

lemma SprintStatusString_inject [simp]: "SprintStatusString a = SprintStatusString b \<longleftrightarrow> a = b"
  by (cases a; cases b) simp_all

lemma DecisionStatusString_inject [simp]: "DecisionStatusString a = DecisionStatusString b \<longleftrightarrow> a = b"
  by (cases a; cases b) simp_all

lemma valid_utf8_SprintStatusString [simp]: "valid_utf8 (SprintStatusString a)"
  by (rule valid_utf8_ascii) (cases a; simp add: byte_in_def)

lemma valid_utf8_DecisionStatusString [simp]: "valid_utf8 (DecisionStatusString b)"
  by (rule valid_utf8_ascii) (cases b; simp add: byte_in_def)

declare SprintStatusString.simps [simp del] DecisionStatusString.simps [simp del]

definition governed ::
    "(json \<Rightarrow> 'a option) \<Rightarrow> ('a \<Rightarrow> json option) \<Rightarrow> string \<Rightarrow> 'h \<Rightarrow> time \<Rightarrow> time \<Rightarrow> CommandMetadata
      \<Rightarrow> ('h MemoryRepository \<Rightarrow> ('a \<times> 'h MemoryRepository) result) \<Rightarrow> 'h MemoryRepository
      \<Rightarrow> 'a result \<times> 'h MemoryRepository" where
  "governed decode encode scope h replayed_at done_at m work s =
    (case ValidateCommandMetadata m of
       Some err \<Rightarrow> (Inl err, s)
     | None \<Rightarrow>
    (case replayMemory decode scope (IdempotencyKey m) h s of
       Some (Inl err) \<Rightarrow> (Inl err, s)
     | Some (Inr replay) \<Rightarrow> (Inr replay, appendSuccessAuditLocked replayed_at m scope True s)
     | None \<Rightarrow>
    (case work s of
       Inl err \<Rightarrow> (Inl err, s)
     | Inr (result, s) \<Rightarrow>
    (case saveMemoryReceipt scope (IdempotencyKey m) h (encode result) s of
       Inl err \<Rightarrow> (Inl err, s)
     | Inr s \<Rightarrow> (Inr result, appendSuccessAuditLocked done_at m scope False s)))))"

definition plan_hash :: "(string \<Rightarrow> 'h) \<Rightarrow> PlanCommand \<Rightarrow> CommandMetadata \<Rightarrow> 'h" where
  "plan_hash sha256 c m = controlHash sha256 m [''plan_sprint'', pc_Title c, pc_Objective c]"

definition submit_hash :: "(string \<Rightarrow> 'h) \<Rightarrow> SubmitCommand \<Rightarrow> CommandMetadata \<Rightarrow> 'h" where
  "submit_hash sha256 c m = controlHash sha256 m
     [''submit_sprint'', sc_SprintID c, itoa (sc_ExpectedVersion c), sc_RiskClass c]"

definition resolve_hash :: "(string \<Rightarrow> 'h) \<Rightarrow> DecideCommand \<Rightarrow> CommandMetadata \<Rightarrow> 'h" where
  "resolve_hash sha256 c m = controlHash sha256 m
     [''resolve_decision'', dc_DecisionID c, itoa (dc_ExpectedVersion c),
      (if dc_Approve c then ''true'' else ''false''), dc_Reason c]"

definition move_hash :: "(string \<Rightarrow> 'h) \<Rightarrow> RunID \<Rightarrow> int \<Rightarrow> State \<Rightarrow> CommandMetadata \<Rightarrow> 'h" where
  "move_hash sha256 i v target m = controlHash sha256 m
     [''transition_run'', i, itoa v, StateString target]"

definition resume_hash :: "(string \<Rightarrow> 'h) \<Rightarrow> RunID \<Rightarrow> int \<Rightarrow> CommandMetadata \<Rightarrow> 'h" where
  "resume_hash sha256 i v m = controlHash sha256 m [''resume_run'', i, itoa v]"

definition plan_scope :: string where
  "plan_scope = ''plan_sprint''"

definition submit_scope :: "SprintID \<Rightarrow> string" where
  "submit_scope i = ''submit_sprint:'' @ i"

definition resolve_scope :: "DecisionID \<Rightarrow> string" where
  "resolve_scope i = ''resolve_decision:'' @ i"

definition move_scope :: "RunID \<Rightarrow> string" where
  "move_scope i = ''transition_run:'' @ i"

definition resume_scope :: "RunID \<Rightarrow> string" where
  "resume_scope i = ''resume_run:'' @ i"

lemmas hash_defs = plan_scope_def submit_scope_def resolve_scope_def move_scope_def resume_scope_def
  plan_hash_def submit_hash_def resolve_hash_def move_hash_def resume_hash_def

lemma PlanSprint_governed:
  "PlanSprint sha256 now c m = governed decode_PlanResult marshal_PlanResult plan_scope
     (plan_hash sha256 c m) (now 0) (now 1) m (planSprintLocked now c)"
  by (rule ext) (simp only: PlanSprint_def governed_def Let_def hash_defs)

lemma SubmitSprint_governed:
  "SubmitSprint sha256 now c m = governed decode_SubmissionResult marshal_SubmissionResult
     (submit_scope (sc_SprintID c)) (submit_hash sha256 c m) (now 0) (now 2) m
     (submitSprintLocked now c m)"
  by (rule ext) (simp only: SubmitSprint_def governed_def Let_def hash_defs)

lemma ResolveDecision_governed:
  "ResolveDecision sha256 now c m = governed decode_DecisionResult marshal_DecisionResult
     (resolve_scope (dc_DecisionID c)) (resolve_hash sha256 c m) (now 0) (now 2) m
     (resolveDecisionLocked now c m)"
  by (rule ext) (simp only: ResolveDecision_def governed_def Let_def hash_defs)

lemma TransitionRun_governed:
  "TransitionRun sha256 now i v target m = governed decode_Run marshal_Run
     (move_scope i) (move_hash sha256 i v target m) (now 0) (now 1) m
     (transitionRunLocked now i v target)"
  by (rule ext) (simp only: TransitionRun_def governed_def Let_def hash_defs)

lemma ResumeRun_governed:
  "1 \<le> v \<Longrightarrow> ResumeRun sha256 now i v m = governed decode_Run marshal_Run
     (resume_scope i) (resume_hash sha256 i v m) (now 0) (now 1) m
     (resumeRunLocked now i v)"
  by (rule ext) (simp only: ResumeRun_def governed_def Let_def hash_defs linorder_not_less [symmetric] if_False)

lemma ResumeRun_refused: "v < 1 \<Longrightarrow> \<exists>e. ResumeRun sha256 now i v m s = (Inl e, s)"
  by (simp add: ResumeRun_def)

lemmas governed_ops = PlanSprint_governed SubmitSprint_governed ResolveDecision_governed
  TransitionRun_governed ResumeRun_governed

text \<open>Receipts and audit records do not touch what is governed.\<close>

definition same_governed :: "'h MemoryRepository \<Rightarrow> 'h MemoryRepository \<Rightarrow> bool" where
  "same_governed s t \<longleftrightarrow> sprints t = sprints s \<and> decisions t = decisions s \<and> mruns t = mruns s
     \<and> nextSequence t = nextSequence s"

lemma appendSuccessAuditLocked_simps [simp]:
  "sprints (appendSuccessAuditLocked now m scope b s) = sprints s"
  "decisions (appendSuccessAuditLocked now m scope b s) = decisions s"
  "mruns (appendSuccessAuditLocked now m scope b s) = mruns s"
  "nextSequence (appendSuccessAuditLocked now m scope b s) = nextSequence s"
  "mreceipts (appendSuccessAuditLocked now m scope b s) = mreceipts s"
  by (simp_all add: appendSuccessAuditLocked_def)

lemma governed_result:
  assumes "governed decode encode scope h at1 at2 m work s = (res, t)"
  shows "same_governed s t \<and> mreceipts t = mreceipts s
     \<and> (case res of Inl _ \<Rightarrow> t = s
        | Inr r \<Rightarrow> ValidateCommandMetadata m = None
           \<and> (\<exists>rc. mreceipts s (receiptKey scope (IdempotencyKey m)) = Some rc
                 \<and> mr_requestHash rc = h \<and> decode (mr_response rc) = Some r)
           \<and> t = appendSuccessAuditLocked at1 m scope True s)
   \<or> (\<exists>r u. work s = Inr (r, u) \<and> same_governed u t
       \<and> ValidateCommandMetadata m = None
       \<and> mreceipts s (receiptKey scope (IdempotencyKey m)) = None
       \<and> (case encode r of
            None \<Rightarrow> (\<exists>e. res = Inl e) \<and> t = u
          | Some j \<Rightarrow> res = Inr r
             \<and> mreceipts t = (mreceipts u)(receiptKey scope (IdempotencyKey m) \<mapsto>
                \<lparr>mr_requestHash = h, mr_response = j\<rparr>)
             \<and> audits t = audits (appendSuccessAuditLocked at2 m scope False u)))" (is "?P res t")
proof -
  have "case governed decode encode scope h at1 at2 m work s of (res, t) \<Rightarrow> ?P res t"
    by (auto simp: governed_def same_governed_def replayMemory_def saveMemoryReceipt_def
        appendSuccessAuditLocked_def split: option.split sum.split)
  then show ?thesis by (simp only: assms prod.case)
qed

section \<open>Governance invariant\<close>

definition decided :: "DecisionStatus \<Rightarrow> Sprint \<Rightarrow> (DecisionID \<rightharpoonup> Decision) \<Rightarrow> bool" where
  "decided st sp D \<longleftrightarrow> (\<exists>d x. D d = Some x \<and> decision_status x = DecisionStatusString st
     \<and> decision_sprint_id x = sprint_id sp \<and> decision_run_id x = sprint_run_id sp
     \<and> decision_action x = DecisionActionSubmitSprint
     \<and> decision_decided_by x \<noteq> None \<and> decision_decided_at x \<noteq> None)"

text \<open>
  The status of a sprint determines the states its run may be in and the decision that
  must be on record.
\<close>

definition agrees :: "(DecisionID \<rightharpoonup> Decision) \<Rightarrow> Sprint \<Rightarrow> Run \<Rightarrow> bool" where
  "agrees D sp r \<longleftrightarrow> (\<exists>ss rs. sprint_status sp = SprintStatusString ss \<and> run_state r = StateString rs \<and>
     (case ss of
        SprintProposed \<Rightarrow> rs = StateDraft \<and> sprint_pending_decision_id sp = None
      | SprintAwaitingApproval \<Rightarrow> rs = StateAwaitingApproval \<and>
          (\<exists>d x. sprint_pending_decision_id sp = Some d \<and> D d = Some x
             \<and> decision_status x = DecisionStatusString DecisionPending
             \<and> decision_sprint_id x = sprint_id sp \<and> decision_run_id x = sprint_run_id sp
             \<and> decision_action x = DecisionActionSubmitSprint)
      | SprintApproved \<Rightarrow>
          rs \<notin> {StateDraft, StateAwaitingApproval, StateCancelling, StateCancelled}
          \<and> sprint_pending_decision_id sp = None \<and> decided DecisionApproved sp D
      | SprintRejected \<Rightarrow> rs \<in> {StateCancelling, StateCancelled}
          \<and> sprint_pending_decision_id sp = None \<and> decided DecisionRejected sp D
      | SprintCancelling \<Rightarrow> rs \<in> {StateCancelling, StateCancelled}
          \<and> sprint_pending_decision_id sp = None))"

definition governed_inv ::
    "(SprintID \<rightharpoonup> Sprint) \<Rightarrow> (DecisionID \<rightharpoonup> Decision) \<Rightarrow> (RunID \<rightharpoonup> Run) \<Rightarrow> int \<Rightarrow> bool" where
  "governed_inv F D M n \<longleftrightarrow>
     (\<forall>i sp. F i = Some sp \<longrightarrow> i \<noteq> [] \<and> sprint_id sp = i
        \<and> 1 \<le> sprint_sequence_number sp \<and> sprint_sequence_number sp < n
        \<and> (\<exists>r. M (sprint_run_id sp) = Some r \<and> agrees D sp r))
   \<and> (\<forall>i j sp sq. F i = Some sp \<longrightarrow> F j = Some sq \<longrightarrow>
        sprint_run_id sp = sprint_run_id sq \<or> sprint_sequence_number sp = sprint_sequence_number sq \<longrightarrow> i = j)
   \<and> (\<forall>k r. M k = Some r \<longrightarrow> run_id r = k \<and> (\<exists>i sp. F i = Some sp \<and> sprint_run_id sp = k))
   \<and> (\<forall>d x. D d = Some x \<longrightarrow> decision_id x = d
        \<and> (decision_status x = DecisionStatusString DecisionPending \<longrightarrow>
            (\<exists>sp. F (decision_sprint_id x) = Some sp \<and> sprint_pending_decision_id sp = Some d)))"

definition control_inv :: "'h MemoryRepository \<Rightarrow> bool" where
  "control_inv s \<longleftrightarrow> distinct (map fst (sprints s)) \<and> nextSequence s = 1 + int (length (sprints s))
     \<and> governed_inv (map_of (sprints s)) (decisions s) (mruns s) (nextSequence s)"

lemma governed_invD:
  assumes "governed_inv F D M n"
  shows "F i = Some sp \<Longrightarrow> i \<noteq> [] \<and> sprint_id sp = i
        \<and> 1 \<le> sprint_sequence_number sp \<and> sprint_sequence_number sp < n"
    and "F i = Some sp \<Longrightarrow> \<exists>r. M (sprint_run_id sp) = Some r \<and> agrees D sp r"
    and "F i = Some sp \<Longrightarrow> F j = Some sq \<Longrightarrow> sprint_run_id sp = sprint_run_id sq \<Longrightarrow> i = j"
    and "F i = Some sp \<Longrightarrow> F j = Some sq \<Longrightarrow>
           sprint_sequence_number sp = sprint_sequence_number sq \<Longrightarrow> i = j"
    and "M k = Some r \<Longrightarrow> run_id r = k \<and> (\<exists>i sp. F i = Some sp \<and> sprint_run_id sp = k)"
    and "D d = Some x \<Longrightarrow> decision_id x = d"
    and "D d = Some x \<Longrightarrow> decision_status x = DecisionStatusString DecisionPending \<Longrightarrow>
           \<exists>sp. F (decision_sprint_id x) = Some sp \<and> sprint_pending_decision_id sp = Some d"
  using assms unfolding governed_inv_def by blast+

lemma agrees_mono:
  assumes "agrees D sp r" "\<And>d x. D d = Some x \<Longrightarrow> decision_sprint_id x = sprint_id sp \<Longrightarrow> D' d = Some x"
  shows "agrees D' sp r"
proof -
  have "decided st sp D'" if "decided st sp D" for st
    using that assms(2) unfolding decided_def by blast
  then show ?thesis
    using assms unfolding agrees_def by (fastforce split: SprintStatus.splits)
qed

lemma governed_inv_update:
  assumes inv: "governed_inv F D M n" and sp: "F i = Some sp"
    and same: "sprint_id sp' = i" "sprint_run_id sp' = sprint_run_id sp"
      "sprint_sequence_number sp' = sprint_sequence_number sp"
    and run: "run_id r' = sprint_run_id sp" and agr: "agrees D' sp' r'"
    and others: "\<And>d x. D d = Some x \<Longrightarrow> decision_sprint_id x \<noteq> i \<Longrightarrow> D' d = Some x"
    and dec: "\<And>d x. D' d = Some x \<Longrightarrow> decision_id x = d \<and>
        (decision_status x = DecisionStatusString DecisionPending \<longrightarrow>
          D d = Some x \<and> decision_sprint_id x \<noteq> i
          \<or> decision_sprint_id x = i \<and> sprint_pending_decision_id sp' = Some d)"
  shows "governed_inv (F(i \<mapsto> sp')) D' (M(sprint_run_id sp \<mapsto> r')) n"
  unfolding governed_inv_def
proof (intro conjI allI impI, goal_cases)
  case (5 j sq)
  show ?case
  proof (cases "j = i")
    case True
    with 5 agr same show ?thesis by simp
  next
    case False
    with 5 have sq: "F j = Some sq" by simp
    obtain q where q: "M (sprint_run_id sq) = Some q" "agrees D sq q"
      using governed_invD(2) [OF inv sq] by blast
    have j: "sprint_id sq \<noteq> i" using governed_invD(1) [OF inv sq] False by simp
    have "agrees D' sq q"
      by (rule agrees_mono [OF q(2)], rule others) (use j in simp_all)
    moreover have "sprint_run_id sq \<noteq> sprint_run_id sp"
      using governed_invD(3) [OF inv sp sq] False by auto
    ultimately show ?thesis using q(1) by simp
  qed
next
  case (6 a b sa sb)
  have "\<exists>sq. F j = Some sq \<and> sprint_run_id sq = sprint_run_id sj
      \<and> sprint_sequence_number sq = sprint_sequence_number sj"
    if "(F(i \<mapsto> sp')) j = Some sj" for j sj
    using that sp same by (cases "j = i") auto
  from this [OF 6(1)] this [OF 6(2)] 6(3) show ?case
    using governed_invD(3,4) [OF inv] by metis
next
  case (8 k r)
  show ?case
  proof (cases "k = sprint_run_id sp")
    case False
    with 8 obtain j sq where "F j = Some sq" "sprint_run_id sq = k"
      using governed_invD(5) [OF inv, of k r] by auto
    with False sp show ?thesis by (intro exI [of _ j] exI [of _ sq]) auto
  qed (use same in auto)
next
  case (10 d x)
  with dec [of d x] governed_invD(7) [OF inv, of d x] show ?case by auto
next
  case (7 k r)
  then show ?case using run governed_invD(5) [OF inv, of k r] by (auto split: if_splits)
next
  case (9 d x)
  then show ?case using dec by blast
qed (use governed_invD(1) [OF inv] sp same in \<open>fastforce split: if_splits\<close>)+

lemma governed_inv_plan:
  assumes inv: "governed_inv F D M n" and fresh: "F i = None" "M k = None"
    and i: "i \<noteq> []" and sp: "sprint_id sp = i" "sprint_run_id sp = k" "sprint_sequence_number sp = n"
    and n: "1 \<le> n"
    and run: "run_id r = k" and agr: "agrees D sp r"
  shows "governed_inv (F(i \<mapsto> sp)) D (M(k \<mapsto> r)) (n + 1)"
  unfolding governed_inv_def
proof (intro conjI allI impI, goal_cases)
  case (5 j sq)
  then show ?case using agr sp fresh governed_invD(2) [OF inv, of j sq] by (cases "j = i") auto
next
  case (6 a b sa sb)
  have "sprint_run_id sq \<noteq> k \<and> sprint_sequence_number sq < n" if "F j = Some sq" for j sq
    using governed_invD(1,2) [OF inv that] fresh by auto
  with 6 sp show ?case
    using governed_invD(3,4) [OF inv] by (cases "a = i"; cases "b = i") (auto; metis less_irrefl)+
next
  case (8 l q)
  show ?case
  proof (cases "l = k")
    case False
    with 8 obtain j sq where "F j = Some sq" "sprint_run_id sq = l"
      using governed_invD(5) [OF inv, of l q] by auto
    with fresh show ?thesis by (intro exI [of _ j] exI [of _ sq]) auto
  qed (use sp in auto)
next
  case (10 d x)
  then show ?case using fresh governed_invD(7) [OF inv, of d x] by (cases "decision_sprint_id x = i") auto
qed (use governed_invD(1,5,6) [OF inv] i sp n run in \<open>fastforce split: if_splits\<close>)+

text \<open>The work of each command keeps the invariant.\<close>

lemma control_invD:
  assumes "control_inv s"
  shows "distinct (map fst (sprints s))" "nextSequence s = 1 + int (length (sprints s))"
    "governed_inv (map_of (sprints s)) (decisions s) (mruns s) (nextSequence s)"
  using assms unfolding control_inv_def by blast+

lemma length_AList_update:
  "length (AList.update k v xs) = (if map_of xs k = None then Suc (length xs) else length xs)"
  by (induction xs) (auto split: if_splits)

lemma control_inv_same_governed: "same_governed s t \<Longrightarrow> control_inv t \<longleftrightarrow> control_inv s"
  by (simp add: same_governed_def control_inv_def)

lemma control_inv_init: "control_inv NewMemoryRepository"
  by (simp add: control_inv_def NewMemoryRepository_def governed_inv_def)

lemma control_inv_put:
  assumes "control_inv s" "map_of (sprints s) i = Some sp"
    "governed_inv ((map_of (sprints s))(i \<mapsto> sp')) D' M' (nextSequence s)"
  shows "control_inv (s\<lparr>sprints := AList.update i sp' (sprints s), decisions := D', mruns := M'\<rparr>)"
  using assms control_invD [OF assms(1)]
  by (simp add: control_inv_def length_AList_update distinct_update update_conv')

lemma plan_inv:
  assumes "planSprintLocked now c s = Inr (r, u)" "control_inv s" "pc_SprintID c \<noteq> []"
  shows "control_inv u"
proof -
  let ?sp = "\<lparr>sprint_id = pc_SprintID c, sprint_schema_version = ''1.0'',
     sprint_sequence_number = nextSequence s, sprint_title = pc_Title c,
     sprint_objective = pc_Objective c, sprint_status = SprintStatusString SprintProposed,
     sprint_version = 1, sprint_run_id = pc_RunID c, sprint_pending_decision_id = None,
     sprint_created_at = now 0, sprint_updated_at = now 0\<rparr>"
  let ?r = "draftRun (now 0) (pc_RunID c) (pc_Objective c)"
  have fresh: "map_of (sprints s) (pc_SprintID c) = None" "mruns s (pc_RunID c) = None"
    and u: "u = s\<lparr>nextSequence := nextSequence s + 1,
       sprints := AList.update (pc_SprintID c) ?sp (sprints s),
       mruns := (mruns s)(pc_RunID c \<mapsto> ?r)\<rparr>"
    using assms(1) by (auto simp: planSprintLocked_def Let_def split: if_splits)
  have "agrees (decisions s) ?sp ?r"
    unfolding agrees_def draftRun_def
    by (intro exI [of _ SprintProposed] exI [of _ StateDraft]) simp
  then have "governed_inv ((map_of (sprints s))(pc_SprintID c \<mapsto> ?sp)) (decisions s)
      ((mruns s)(pc_RunID c \<mapsto> ?r)) (nextSequence s + 1)"
    using control_invD(2) [OF assms(2)] assms(3)
    by (intro governed_inv_plan [OF control_invD(3) [OF assms(2)] fresh]) (simp_all add: draftRun_def)
  then show ?thesis
    using control_invD(1,2) [OF assms(2)] fresh
    by (simp add: u control_inv_def length_AList_update distinct_update update_conv')
qed

lemma ParseRunID_Inr: "ParseRunID a = Inr b \<Longrightarrow> b = a"
  by (simp add: ParseRunID_def split: if_splits)

lemma ParseSprintID_Inr: "ParseSprintID a = Inr b \<Longrightarrow> b = a"
  by (simp add: ParseSprintID_def split: if_splits)

lemma Machine_Transition_run_id: "Machine_Transition now r target = Inr r' \<Longrightarrow>
    run_id r' = run_id r \<and> run_state r' = StateString target"
  by (auto simp: Machine_Transition_Inr_iff)

lemma submit_inv:
  assumes "submitSprintLocked now c m s = Inr (r, u)" "control_inv s"
    "decisions s (sc_DecisionID c) = None"
  shows "control_inv u"
proof -
  note inv = control_invD(3) [OF assms(2)]
  obtain sp rid r0 r1 where sp: "map_of (sprints s) (sc_SprintID c) = Some sp"
      "sprint_status sp = SprintStatusString SprintProposed" "ParseRunID (sprint_run_id sp) = Inr rid"
    and r0: "r0 = (case mruns s rid of Some run \<Rightarrow> run | None \<Rightarrow> zero_Run)"
      "Machine_Transition (now 0) r0 StateAwaitingApproval = Inr r1"
    using assms(1) unfolding submitSprintLocked_def Let_def
    by (auto split: option.splits if_splits sum.splits)
  note rid = ParseRunID_Inr [OF sp(3)]
  obtain r2 where r2: "mruns s (sprint_run_id sp) = Some r2" "agrees (decisions s) sp r2"
    using governed_invD(2) [OF inv sp(1)] by blast
  define t where "t = (if now 1 < sprint_updated_at sp then sprint_updated_at sp else now 1)"
  define sp' where "sp' = sp\<lparr>sprint_status := SprintStatusString SprintAwaitingApproval,
    sprint_version := sprint_version sp + 1, sprint_updated_at := t,
    sprint_pending_decision_id := Some (sc_DecisionID c)\<rparr>"
  define d where "d = \<lparr>decision_id = sc_DecisionID c, decision_schema_version = ''1.0'',
    decision_sprint_id = sprint_id sp, decision_run_id = sprint_run_id sp,
    decision_action = DecisionActionSubmitSprint, decision_risk_class = sc_RiskClass c,
    decision_status = DecisionStatusString DecisionPending, decision_version = 1,
    decision_requested_by = ActorID m, decision_decided_by = None, decision_reason = None,
    decision_created_at = t, decision_updated_at = t, decision_decided_at = None\<rparr>"
  let ?D = "(decisions s)(sc_DecisionID c \<mapsto> d)"
  have u: "u = s\<lparr>sprints := AList.update (sc_SprintID c) sp' (sprints s),
      decisions := ?D, mruns := (mruns s)(sprint_run_id sp \<mapsto> r1)\<rparr>"
    using assms(1) sp r0 rid
    by (auto simp: submitSprintLocked_def Let_def sp'_def d_def t_def split: if_splits)
  have pend: "sprint_pending_decision_id sp = None"
    using r2(2) sp(2) by (auto simp: agrees_def)
  have "agrees ?D sp' r1"
    unfolding agrees_def
    by (intro exI [of _ SprintAwaitingApproval] exI [of _ StateAwaitingApproval])
      (use Machine_Transition_run_id [OF r0(2)] in \<open>simp add: sp'_def d_def\<close>)
  then have "governed_inv ((map_of (sprints s))(sc_SprintID c \<mapsto> sp')) ?D
      ((mruns s)(sprint_run_id sp \<mapsto> r1)) (nextSequence s)"
  proof (rule governed_inv_update [OF inv sp(1), rotated 4])
    show "?D e = Some x" if "decisions s e = Some x" for e x
      using that assms(3) by auto
    show "decision_id x = e \<and> (decision_status x = DecisionStatusString DecisionPending \<longrightarrow>
        decisions s e = Some x \<and> decision_sprint_id x \<noteq> sc_SprintID c
        \<or> decision_sprint_id x = sc_SprintID c \<and> sprint_pending_decision_id sp' = Some e)"
      if "?D e = Some x" for e x
      using that governed_invD(1) [OF inv sp(1)] governed_invD(6,7) [OF inv, of e x] pend sp(1)
      by (auto simp: d_def sp'_def split: if_splits)
  qed (use governed_invD(1) [OF inv sp(1)] Machine_Transition_run_id [OF r0(2)] r0(1) r2(1) rid
      governed_invD(5) [OF inv r2(1)] in \<open>auto simp: sp'_def\<close>)
  then show ?thesis unfolding u by (rule control_inv_put [OF assms(2) sp(1)])
qed


lemma agrees_pending:
  assumes "agrees D sp r" "sprint_pending_decision_id sp = Some d"
  shows "run_state r = StateString StateAwaitingApproval \<and> (\<exists>x. D d = Some x
    \<and> decision_sprint_id x = sprint_id sp \<and> decision_run_id x = sprint_run_id sp
    \<and> decision_action x = DecisionActionSubmitSprint)"
proof -
  obtain ss where "sprint_status sp = SprintStatusString ss"
    using assms(1) by (auto simp: agrees_def)
  with assms show ?thesis by (cases ss) (auto simp: agrees_def)
qed

lemma resolve_inv:
  assumes "resolveDecisionLocked now c m s = Inr (r, u)" "control_inv s"
  shows "control_inv u"
proof -
  note inv = control_invD(3) [OF assms(2)]
  let ?ap = "dc_Approve c" and ?k = "dc_DecisionID c"
  define target where "target = (if ?ap then StateQueued else StateCancelling)"
  obtain x sid rid sp0 r0 r1 where x: "decisions s ?k = Some x"
      "decision_status x = DecisionStatusString DecisionPending"
      "ParseSprintID (decision_sprint_id x) = Inr sid" "ParseRunID (decision_run_id x) = Inr rid"
    and r0: "r0 = (case mruns s rid of Some run \<Rightarrow> run | None \<Rightarrow> zero_Run)"
      "Machine_Transition (now 0) r0 target = Inr r1"
    using assms(1) unfolding resolveDecisionLocked_def Let_def target_def
    by (auto split: option.splits if_splits sum.splits)
  note ids = ParseSprintID_Inr [OF x(3)] ParseRunID_Inr [OF x(4)]
  obtain sp where sp: "map_of (sprints s) sid = Some sp" "sprint_pending_decision_id sp = Some ?k"
    using governed_invD(7) [OF inv x(1,2)] ids by auto
  obtain r2 where r2: "mruns s (sprint_run_id sp) = Some r2" "agrees (decisions s) sp r2"
    using governed_invD(2) [OF inv sp(1)] by blast
  have link: "decision_run_id x = sprint_run_id sp" "sprint_id sp = sid"
      "decision_action x = DecisionActionSubmitSprint"
    using agrees_pending [OF r2(2) sp(2)] x(1) governed_invD(1) [OF inv sp(1)] by auto
  define t where "t = (if now 1 < decision_updated_at x then decision_updated_at x else now 1)"
  define x' where "x' = x\<lparr>decision_status := DecisionStatusString (if ?ap then DecisionApproved else DecisionRejected),
    decision_version := decision_version x + 1, decision_updated_at := t,
    decision_decided_at := Some t, decision_decided_by := Some (ActorID m),
    decision_reason := Some (dc_Reason c)\<rparr>"
  define sp' where "sp' = sp\<lparr>sprint_status := SprintStatusString (if ?ap then SprintApproved else SprintRejected),
    sprint_version := sprint_version sp + 1, sprint_updated_at := t, sprint_pending_decision_id := None\<rparr>"
  let ?D = "(decisions s)(?k \<mapsto> x')"
  have u: "u = s\<lparr>sprints := AList.update sid sp' (sprints s),
      decisions := ?D, mruns := (mruns s)(sprint_run_id sp \<mapsto> r1)\<rparr>"
    using assms(1) x sp(1) r0 ids link
    by (auto simp: resolveDecisionLocked_def Let_def sp'_def x'_def t_def target_def split: if_splits)
  have "decided (if ?ap then DecisionApproved else DecisionRejected) sp' ?D"
    unfolding decided_def
    by (intro exI [of _ ?k] exI [of _ x']) (use ids link in \<open>simp add: x'_def sp'_def\<close>)
  then have "agrees ?D sp' r1"
    unfolding agrees_def
    by (intro exI [of _ "if ?ap then SprintApproved else SprintRejected"] exI [of _ target])
      (use Machine_Transition_run_id [OF r0(2)] in \<open>cases ?ap; simp add: sp'_def target_def\<close>)
  then have "governed_inv ((map_of (sprints s))(sid \<mapsto> sp')) ?D
      ((mruns s)(sprint_run_id sp \<mapsto> r1)) (nextSequence s)"
  proof (rule governed_inv_update [OF inv sp(1), rotated 4])
    show "?D e = Some y" if "decisions s e = Some y" "decision_sprint_id y \<noteq> sid" for e y
      using that x(1) ids by auto
    show "decision_id y = e \<and> (decision_status y = DecisionStatusString DecisionPending \<longrightarrow>
        decisions s e = Some y \<and> decision_sprint_id y \<noteq> sid
        \<or> decision_sprint_id y = sid \<and> sprint_pending_decision_id sp' = Some e)"
      if "?D e = Some y" for e y
      using that governed_invD(6) [OF inv x(1)] governed_invD(6,7) [OF inv, of e y] sp
      by (auto simp: x'_def split: if_splits)
  qed (use link Machine_Transition_run_id [OF r0(2)] r0(1) r2(1) ids
      governed_invD(5) [OF inv r2(1)] in \<open>auto simp: sp'_def\<close>)
  then show ?thesis unfolding u by (rule control_inv_put [OF assms(2) sp(1)])
qed

text \<open>
  In a repository that satisfies the invariant the loop over the sprints finds the one
  sprint of the run, whatever the iteration order.
\<close>

definition unique_links :: "(SprintID \<times> Sprint) list \<Rightarrow> bool" where
  "unique_links sps \<longleftrightarrow> distinct (map fst sps) \<and>
     (\<forall>a sp b sq. (a, sp) \<in> set sps \<longrightarrow> (b, sq) \<in> set sps \<longrightarrow> sprint_run_id sp = sprint_run_id sq \<longrightarrow> a = b)"

lemma unique_linksD:
  "unique_links sps \<Longrightarrow> distinct (map fst sps)"
  "unique_links sps \<Longrightarrow> (a, sp) \<in> set sps \<Longrightarrow> (b, sq) \<in> set sps \<Longrightarrow>
     sprint_run_id sp = sprint_run_id sq \<Longrightarrow> a = b"
  unfolding unique_links_def by blast+

lemma unique_links_Cons: "unique_links (x # sps) \<Longrightarrow> unique_links sps"
  unfolding unique_links_def list.map distinct.simps list.set by blast

lemma control_inv_unique_links:
  assumes "control_inv s"
  shows "unique_links (sprints s)"
  unfolding unique_links_def
proof (intro conjI allI impI)
  note inv = control_invD [OF assms]
  show "distinct (map fst (sprints s))" by (rule inv)
  show "a = b" if "(a, sp) \<in> set (sprints s)" "(b, sq) \<in> set (sprints s)"
      "sprint_run_id sp = sprint_run_id sq" for a sp b sq
    by (rule governed_invD(3) [OF inv(3) _ _ that(3)]; rule map_of_is_SomeI [OF inv(1)]; rule that)
qed

lemma find_linked:
  assumes "unique_links sps"
  shows "find (\<lambda>(sid, sp). sprint_run_id sp = i) sps = Some (sid, sp) \<longleftrightarrow>
    map_of sps sid = Some sp \<and> sprint_run_id sp = i"
  using assms
proof (induction sps)
  case (Cons a sps)
  note IH = Cons.IH [OF unique_links_Cons [OF Cons.prems]]
  obtain k sq where a: "a = (k, sq)" by fastforce
  have k: "map_of sps k = None"
    using unique_linksD(1) [OF Cons.prems] by (simp add: a map_of_eq_None_iff)
  show ?case
  proof (cases "sprint_run_id sq = i")
    case True
    have "k = sid" if "map_of sps sid = Some sp" "sprint_run_id sp = i"
      by (rule unique_linksD(2) [OF Cons.prems, of _ sq _ sp])
        (use map_of_SomeD [OF that(1)] that(2) True in \<open>simp_all add: a\<close>)
    with True k show ?thesis by (auto simp: a)
  next
    case False
    with IH k show ?thesis by (auto simp: a)
  qed
qed simp

definition cancelled_with :: "State \<Rightarrow> Run \<Rightarrow> Sprint \<Rightarrow> Sprint" where
  "cancelled_with target r sp =
    (if target = StateCancelling \<and> (sprint_status sp = SprintStatusString SprintProposed
         \<or> sprint_status sp = SprintStatusString SprintApproved)
     then sp\<lparr>sprint_status := SprintStatusString SprintCancelling,
             sprint_version := sprint_version sp + 1, sprint_updated_at := run_updated_at r\<rparr>
     else sp)"

lemma cancelled_with_simps [simp]:
  "sprint_id (cancelled_with target r sp) = sprint_id sp"
  "sprint_run_id (cancelled_with target r sp) = sprint_run_id sp"
  "sprint_sequence_number (cancelled_with target r sp) = sprint_sequence_number sp"
  "sprint_pending_decision_id (cancelled_with target r sp) = sprint_pending_decision_id sp"
  by (simp_all add: cancelled_with_def)

lemma decided_irrelevant:
  "sprint_id sp = sprint_id sq \<Longrightarrow> sprint_run_id sp = sprint_run_id sq \<Longrightarrow>
   decided st sp D = decided st sq D"
  by (simp add: decided_def)

lemma agrees_move:
  assumes "agrees D sp r" "Machine_Transition now r target = Inr r'"
    "sprint_status sp \<noteq> SprintStatusString SprintAwaitingApproval"
    "sprint_status sp = SprintStatusString SprintProposed \<longrightarrow> target = StateCancelling"
  shows "agrees D (cancelled_with target r' sp) r'"
proof -
  obtain ss rs where ss: "sprint_status sp = SprintStatusString ss" "run_state r = StateString rs"
    using assms(1) by (auto simp: agrees_def)
  have can: "CanTransition rs target" "run_state r' = StateString target"
    using assms(2) ss by (auto simp: Machine_Transition_Inr_iff)
  define ss' where "ss' = (if target = StateCancelling \<and> ss \<in> {SprintProposed, SprintApproved}
      then SprintCancelling else ss)"
  have st: "sprint_status (cancelled_with target r' sp) = SprintStatusString ss'"
    using ss by (auto simp: cancelled_with_def ss'_def)
  have dec: "decided x (cancelled_with target r' sp) D = decided x sp D" for x
    by (rule decided_irrelevant) simp_all
  show ?thesis
    using assms(1,3,4) ss can
    unfolding agrees_def st dec cancelled_with_simps
    by (intro exI [of _ ss'] exI [of _ target]; cases ss; cases rs)
      (auto simp: ss'_def CanTransition_def)
qed

lemma linkedSprint_inv:
  assumes "control_inv s" "mruns s i = Some r" "linkedSprint i target (sprints s) = Inr (lid, linked)"
  obtains sid sp where "map_of (sprints s) sid = Some sp" "sprint_run_id sp = i"
    "sid \<noteq> []" "agrees (decisions s) sp r"
    "sprint_status sp \<noteq> SprintStatusString SprintAwaitingApproval" "sprint_pending_decision_id sp = None"
    "sprint_status sp = SprintStatusString SprintProposed \<longrightarrow> target = StateCancelling"
    "(lid, linked) = (if target = StateCancelling then (sid, sp) else ([], zero_Sprint))"
proof -
  note inv = control_invD(3) [OF assms(1)]
  obtain sid sp where sp: "map_of (sprints s) sid = Some sp" "sprint_run_id sp = i"
    using governed_invD(5) [OF inv assms(2)] by blast
  then have "find (\<lambda>(sid, sp). sprint_run_id sp = i) (sprints s) = Some (sid, sp)"
    using find_linked [OF control_inv_unique_links [OF assms(1)]] by blast
  with assms(3) show thesis
    using governed_invD(1,2) [OF inv sp(1)] assms(2) sp
    by (intro that [OF sp]) (auto simp: linkedSprint_def split: if_splits)
qed

lemma transition_inv:
  assumes "transitionRunLocked now i v target s = Inr (r, u)" "control_inv s"
  shows "control_inv u"
proof -
  note inv = control_invD(3) [OF assms(2)]
  obtain r0 lid linked where r0: "mruns s i = Some r0" "Machine_Transition (now 0) r0 target = Inr r"
    and link: "linkedSprint i target (sprints s) = Inr (lid, linked)"
    and u: "u = (if lid \<noteq> [] \<and> (sprint_status linked = SprintStatusString SprintProposed
                    \<or> sprint_status linked = SprintStatusString SprintApproved) then
         s\<lparr>mruns := (mruns s)(i \<mapsto> r), sprints := AList.update lid
            (linked\<lparr>sprint_status := SprintStatusString SprintCancelling,
               sprint_version := sprint_version linked + 1,
               sprint_updated_at := run_updated_at r\<rparr>) (sprints s)\<rparr>
       else s\<lparr>mruns := (mruns s)(i \<mapsto> r)\<rparr>)"
    using assms(1) unfolding transitionRunLocked_def Let_def
    by (auto split: option.splits if_splits sum.splits prod.splits)
  obtain sid sp where sp: "map_of (sprints s) sid = Some sp" "sprint_run_id sp = i"
    "sid \<noteq> []" "agrees (decisions s) sp r0"
    "sprint_status sp \<noteq> SprintStatusString SprintAwaitingApproval" "sprint_pending_decision_id sp = None"
    "sprint_status sp = SprintStatusString SprintProposed \<longrightarrow> target = StateCancelling"
    "(lid, linked) = (if target = StateCancelling then (sid, sp) else ([], zero_Sprint))"
    by (rule linkedSprint_inv [OF assms(2) r0(1) link])
  let ?sp = "cancelled_with target r sp"
  have gov: "governed_inv ((map_of (sprints s))(sid \<mapsto> ?sp)) (decisions s)
      ((mruns s)(sprint_run_id sp \<mapsto> r)) (nextSequence s)"
  proof (rule governed_inv_update [OF inv sp(1)])
    show "agrees (decisions s) ?sp r" by (rule agrees_move [OF sp(4) r0(2) sp(5,7)])
    show "decision_id x = d \<and> (decision_status x = DecisionStatusString DecisionPending \<longrightarrow>
          decisions s d = Some x \<and> decision_sprint_id x \<noteq> sid
          \<or> decision_sprint_id x = sid \<and> sprint_pending_decision_id ?sp = Some d)"
      if "decisions s d = Some x" for d x
      using governed_invD(6,7) [OF inv that] that sp by auto
  qed (use governed_invD(1) [OF inv sp(1)] governed_invD(5) [OF inv r0(1)]
        Machine_Transition_run_id [OF r0(2)] sp(2) in simp_all)
  show ?thesis
  proof (cases "?sp = sp")
    case True
    then have "u = s\<lparr>mruns := (mruns s)(i \<mapsto> r)\<rparr>"
      using u sp(8) by (auto simp: cancelled_with_def split: if_splits dest!: arg_cong [where f = sprint_status])
    with gov True sp(1,2) control_invD(1,2) [OF assms(2)] show ?thesis
      by (simp add: control_inv_def fun_upd_idem)
  next
    case False
    then have u': "u = s\<lparr>sprints := AList.update sid ?sp (sprints s), decisions := decisions s,
        mruns := (mruns s)(sprint_run_id sp \<mapsto> r)\<rparr>"
      using u sp by (auto simp: cancelled_with_def split: if_splits)
    show ?thesis unfolding u' by (rule control_inv_put [OF assms(2) sp(1) gov])
  qed
qed

lemma agrees_resumable:
  assumes "agrees D sp r"
    "run_state r \<in> {StateString StateFailedRetryable, StateString StateAwaitingDecision}"
  shows "sprint_status sp = SprintStatusString SprintApproved \<and> sprint_pending_decision_id sp = None"
proof -
  obtain ss where "sprint_status sp = SprintStatusString ss"
    using assms(1) by (auto simp: agrees_def)
  with assms show ?thesis by (cases ss) (auto simp: agrees_def)
qed

lemma resume_inv:
  assumes "resumeRunLocked now i v s = Inr (r, u)" "control_inv s"
  shows "control_inv u"
proof -
  note inv = control_invD(3) [OF assms(2)]
  obtain r0 where r0: "mruns s i = Some r0" "Machine_Transition (now 0) r0 StateQueued = Inr r"
      "run_state r0 \<in> {StateString StateFailedRetryable, StateString StateAwaitingDecision}"
    and u: "u = s\<lparr>mruns := (mruns s)(i \<mapsto> r)\<rparr>"
    using assms(1) unfolding resumeRunLocked_def resumeTarget_def
    by (auto split: option.splits if_splits sum.splits)
  obtain sid sp where sp: "map_of (sprints s) sid = Some sp" "sprint_run_id sp = i"
    using governed_invD(5) [OF inv r0(1)] by blast
  with r0(1) have agr: "agrees (decisions s) sp r0"
    using governed_invD(2) [OF inv sp(1)] by simp
  have st: "sprint_status sp = SprintStatusString SprintApproved \<and> sprint_pending_decision_id sp = None"
    by (rule agrees_resumable [OF agr r0(3)])
  have same: "cancelled_with StateQueued r sp = sp" by (simp add: cancelled_with_def)
  have "governed_inv ((map_of (sprints s))(sid \<mapsto> sp)) (decisions s)
      ((mruns s)(sprint_run_id sp \<mapsto> r)) (nextSequence s)"
  proof (rule governed_inv_update [OF inv sp(1)])
    show "agrees (decisions s) sp r" using agrees_move [OF agr r0(2)] same st by simp
    show "decision_id x = d \<and> (decision_status x = DecisionStatusString DecisionPending \<longrightarrow>
          decisions s d = Some x \<and> decision_sprint_id x \<noteq> sid
          \<or> decision_sprint_id x = sid \<and> sprint_pending_decision_id sp = Some d)"
      if "decisions s d = Some x" for d x
      using governed_invD(6,7) [OF inv that] that sp(1) st by auto
  qed (use governed_invD(1) [OF inv sp(1)] governed_invD(5) [OF inv r0(1)]
        Machine_Transition_run_id [OF r0(2)] sp(2) in simp_all)
  with sp(1,2) control_invD(1,2) [OF assms(2)] show ?thesis
    by (simp add: u control_inv_def fun_upd_idem)
qed

section \<open>Reachable repositories\<close>

text \<open>
  The commands reach the repository through \<open>Service\<close>, which generates the identifiers: a
  sprint identifier is not empty, and the identifier of a new decision is fresh. The second
  is an assumption on the generator: the in-memory repository does not look for an earlier
  decision of that identifier and would replace it by a pending one, where the durable
  repository is protected by the primary key of the table.
\<close>

lemma submit_replaces_decision:
  "submitSprintLocked now c m s = Inr (r, u) \<Longrightarrow> decisions u (sc_DecisionID c) = Some (sub_decision r)
     \<and> decision_status (sub_decision r) = DecisionStatusString DecisionPending"
  by (auto simp: submitSprintLocked_def Let_def split: option.splits if_splits sum.splits)

inductive control_step :: "(string \<Rightarrow> 'h) \<Rightarrow> 'h MemoryRepository \<Rightarrow> 'h MemoryRepository \<Rightarrow> bool"
  for sha256 where
  step_Plan: "PlanSprint sha256 now pc m s = (resp, t) \<Longrightarrow> pc_SprintID pc \<noteq> [] \<Longrightarrow>
     control_step sha256 s t"
| step_Submit: "SubmitSprint sha256 now sc m s = (ress, t) \<Longrightarrow>
     decisions s (sc_DecisionID sc) = None \<Longrightarrow> control_step sha256 s t"
| step_Resolve: "ResolveDecision sha256 now dc m s = (resd, t) \<Longrightarrow> control_step sha256 s t"
| step_Move: "TransitionRun sha256 now i v target m s = (resr, t) \<Longrightarrow> control_step sha256 s t"
| step_Resume: "ResumeRun sha256 now i v m s = (resr, t) \<Longrightarrow> control_step sha256 s t"
| step_Audit: "RecordToolAudit at rec s = (resa, t) \<Longrightarrow> control_step sha256 s t"

lemma governed_preserves:
  assumes "governed decode encode scope h at1 at2 m work s = (res, t)"
    and refl: "same_governed s t \<Longrightarrow> mreceipts t = mreceipts s \<Longrightarrow> P"
    and work: "\<And>r u. work s = Inr (r, u) \<Longrightarrow> mreceipts u = mreceipts s"
    and kept: "\<And>r u. work s = Inr (r, u) \<Longrightarrow> same_governed u t \<Longrightarrow> mreceipts s \<subseteq>\<^sub>m mreceipts t \<Longrightarrow> P"
  shows "P"
  using governed_result [OF assms(1)]
proof (elim disjE conjE exE)
  fix r u
  assume w: "work s = Inr (r, u)" "same_governed u t"
    and none: "mreceipts s (receiptKey scope (IdempotencyKey m)) = None"
    and enc: "case encode r of None \<Rightarrow> (\<exists>e. res = Inl e) \<and> t = u
          | Some j \<Rightarrow> res = Inr r
             \<and> mreceipts t = (mreceipts u)(receiptKey scope (IdempotencyKey m) \<mapsto>
                \<lparr>mr_requestHash = h, mr_response = j\<rparr>)
             \<and> audits t = audits (appendSuccessAuditLocked at2 m scope False u)"
  have "mreceipts s \<subseteq>\<^sub>m mreceipts t"
    using enc none work [OF w(1)] by (auto simp: map_le_def split: option.splits)
  then show "P" by (rule kept [OF w])
qed (rule refl)

lemma Locked_receipts:
  "planSprintLocked now pc s = Inr (a, u) \<Longrightarrow> mreceipts u = mreceipts s"
  "submitSprintLocked now sc m s = Inr (b, u) \<Longrightarrow> mreceipts u = mreceipts s"
  "resolveDecisionLocked now dc m s = Inr (c, u) \<Longrightarrow> mreceipts u = mreceipts s"
  "transitionRunLocked now i v target s = Inr (d, u) \<Longrightarrow> mreceipts u = mreceipts s"
  "resumeRunLocked now i v s = Inr (e, u) \<Longrightarrow> mreceipts u = mreceipts s"
  by (auto simp: planSprintLocked_def submitSprintLocked_def resolveDecisionLocked_def
      transitionRunLocked_def resumeRunLocked_def Let_def
      split: if_splits option.splits sum.splits prod.splits)

lemma control_step_work [consumes 1, case_names same plan submit resolve move resume]:
  assumes "control_step sha256 s t"
    and same: "same_governed s t \<Longrightarrow> mreceipts t = mreceipts s \<Longrightarrow> P"
    and "\<And>now c r u. planSprintLocked now c s = Inr (r, u) \<Longrightarrow> pc_SprintID c \<noteq> [] \<Longrightarrow>
      same_governed u t \<Longrightarrow> mreceipts s \<subseteq>\<^sub>m mreceipts t \<Longrightarrow> P"
    and "\<And>now c m r u. submitSprintLocked now c m s = Inr (r, u) \<Longrightarrow> decisions s (sc_DecisionID c) = None \<Longrightarrow>
      same_governed u t \<Longrightarrow> mreceipts s \<subseteq>\<^sub>m mreceipts t \<Longrightarrow> P"
    and "\<And>now c m r u. resolveDecisionLocked now c m s = Inr (r, u) \<Longrightarrow>
      same_governed u t \<Longrightarrow> mreceipts s \<subseteq>\<^sub>m mreceipts t \<Longrightarrow> P"
    and "\<And>now i v target r u. transitionRunLocked now i v target s = Inr (r, u) \<Longrightarrow>
      same_governed u t \<Longrightarrow> mreceipts s \<subseteq>\<^sub>m mreceipts t \<Longrightarrow> P"
    and "\<And>now i v r u. resumeRunLocked now i v s = Inr (r, u) \<Longrightarrow>
      same_governed u t \<Longrightarrow> mreceipts s \<subseteq>\<^sub>m mreceipts t \<Longrightarrow> P"
  shows P
  using assms(1)
proof cases
  case (step_Plan now pc m resp)
  then show ?thesis
    unfolding PlanSprint_governed by (elim governed_preserves) (auto intro: same assms(3) Locked_receipts)
next
  case (step_Submit now sc m ress)
  then show ?thesis
    unfolding SubmitSprint_governed by (elim governed_preserves) (auto intro: same assms(4) Locked_receipts)
next
  case (step_Resolve now dc m resd)
  then show ?thesis
    unfolding ResolveDecision_governed by (elim governed_preserves) (auto intro: same assms(5) Locked_receipts)
next
  case (step_Move now i v target m resr)
  then show ?thesis
    unfolding TransitionRun_governed by (elim governed_preserves) (auto intro: same assms(6) Locked_receipts)
next
  case (step_Resume now i v m resr)
  then show ?thesis
  proof (cases "v < 1")
    case False
    then show ?thesis
      using step_Resume unfolding ResumeRun_governed [OF leI [OF False]]
      by (elim governed_preserves) (auto intro: same assms(7) Locked_receipts)
  qed (use ResumeRun_refused [of v sha256 now i m s] in \<open>auto intro!: same simp: same_governed_def\<close>)
next
  case (step_Audit at rec resa)
  then show ?thesis
    by (auto intro!: same simp: RecordToolAudit_def same_governed_def Let_def split: if_splits)
qed

lemma control_step_inv: "control_step sha256 s t \<Longrightarrow> control_inv s \<Longrightarrow> control_inv t"
  by (erule control_step_work)
    (simp_all add: control_inv_same_governed plan_inv submit_inv resolve_inv transition_inv resume_inv)

interpretation control: step_invariant "\<lambda>s. s = NewMemoryRepository" "control_step sha256" control_inv
  for sha256
  by unfold_locales (simp add: control_inv_init, rule control_step_inv)

lemma control_step_receipts: "control_step sha256 s t \<Longrightarrow> mreceipts s \<subseteq>\<^sub>m mreceipts t"
  by (erule control_step_work) simp_all

text \<open>What no command may do: forget a record, or rewrite what was decided.\<close>

definition decision_kept :: "Decision \<Rightarrow> Decision \<Rightarrow> bool" where
  "decision_kept x x' \<longleftrightarrow> x' = x \<or> decision_status x = DecisionStatusString DecisionPending
     \<and> decision_status x' \<noteq> DecisionStatusString DecisionPending
     \<and> decision_sprint_id x' = decision_sprint_id x \<and> decision_run_id x' = decision_run_id x
     \<and> decision_risk_class x' = decision_risk_class x
     \<and> decision_requested_by x' = decision_requested_by x"

definition sprint_kept :: "Sprint \<Rightarrow> Sprint \<Rightarrow> bool" where
  "sprint_kept sp sp' \<longleftrightarrow> sprint_run_id sp' = sprint_run_id sp \<and> sprint_title sp' = sprint_title sp
     \<and> sprint_objective sp' = sprint_objective sp
     \<and> sprint_sequence_number sp' = sprint_sequence_number sp
     \<and> (sp' = sp \<or> sprint_version sp < sprint_version sp')"

lemma kept_order [simp]:
  "reflp evolves" "transp evolves" "reflp decision_kept" "transp decision_kept"
  "reflp sprint_kept" "transp sprint_kept"
  by (auto simp: reflp_def decision_kept_def sprint_kept_def intro!: transpI intro: evolves_trans)

definition control_extends :: "'h MemoryRepository \<Rightarrow> 'h MemoryRepository \<Rightarrow> bool" where
  "control_extends s t \<longleftrightarrow> map_evolves evolves (mruns s) (mruns t)
     \<and> map_evolves decision_kept (decisions s) (decisions t)
     \<and> map_evolves sprint_kept (map_of (sprints s)) (map_of (sprints t))"

lemma control_extends_refl [simp]: "control_extends s s"
  by (simp add: control_extends_def map_evolves_refl)

lemma control_extends_trans: "control_extends s t \<Longrightarrow> control_extends t u \<Longrightarrow> control_extends s u"
  unfolding control_extends_def by (blast intro: map_evolves_trans kept_order)

lemma control_extends_same: "same_governed t u \<Longrightarrow> control_extends s t \<Longrightarrow> control_extends s u"
  by (simp add: control_extends_def same_governed_def)

lemma plan_extends: "planSprintLocked now c s = Inr (r, u) \<Longrightarrow> control_extends s u"
  by (auto simp: planSprintLocked_def Let_def control_extends_def update_conv'
      intro!: map_evolves_refl map_evolves_upd split: if_splits)

lemma Machine_Transition_zero [simp]: "Machine_Transition now zero_Run target \<noteq> Inr r'"
  by (simp add: Machine_Transition_def zero_Run_def)

lemma map_evolves_moved:
  "Machine_Transition now r target = Inr r' \<Longrightarrow> m k = Some r \<Longrightarrow> map_evolves evolves m (m(k \<mapsto> r'))"
  by (rule map_evolves_upd) (auto dest: Machine_Transition_evolves)

lemma Machine_Transition_evolves1: "Machine_Transition now r target = Inr r' \<Longrightarrow> evolves r r'"
  using Machine_Transition_evolves by blast

lemma linkedSprint_map_of:
  assumes "linkedSprint i target (sprints s) = Inr (lid, linked)" "control_inv s" "lid \<noteq> []"
  shows "map_of (sprints s) lid = Some linked"
  using assms find_linked [OF control_inv_unique_links [OF assms(2)]]
  by (auto simp: linkedSprint_def split: option.splits if_splits)

lemma submit_extends:
  assumes "submitSprintLocked now c m s = Inr (r, u)" "decisions s (sc_DecisionID c) = None"
  shows "control_extends s u"
  using assms
  by (auto simp: submitSprintLocked_def Let_def control_extends_def update_conv' sprint_kept_def
      intro!: map_evolves_upd split: if_splits sum.splits option.splits)
    (rule Machine_Transition_evolves1, assumption)+

lemma resolve_extends:
  assumes "resolveDecisionLocked now c m s = Inr (r, u)"
  shows "control_extends s u"
  using assms
  by (auto simp: resolveDecisionLocked_def Let_def control_extends_def update_conv' sprint_kept_def
      decision_kept_def intro!: map_evolves_upd split: if_splits sum.splits option.splits)
    (rule Machine_Transition_evolves1, assumption)+

lemma transition_extends:
  assumes "transitionRunLocked now i v target s = Inr (r, u)" "control_inv s"
  shows "control_extends s u"
proof -
  obtain r0 lid linked where r0: "mruns s i = Some r0" "Machine_Transition (now 0) r0 target = Inr r"
    and link: "linkedSprint i target (sprints s) = Inr (lid, linked)"
    and u: "mruns u = (mruns s)(i \<mapsto> r)" "decisions u = decisions s"
      "sprints u = sprints s \<or> lid \<noteq> [] \<and> sprints u = AList.update lid
            (linked\<lparr>sprint_status := SprintStatusString SprintCancelling,
               sprint_version := sprint_version linked + 1,
               sprint_updated_at := run_updated_at r\<rparr>) (sprints s)"
    using assms(1) unfolding transitionRunLocked_def Let_def
    by (auto split: option.splits if_splits sum.splits prod.splits)
  have "map_evolves sprint_kept (map_of (sprints s)) (map_of (sprints u))"
    using u(3) linkedSprint_map_of [OF link assms(2)]
    by (auto simp: update_conv' sprint_kept_def intro!: map_evolves_upd map_evolves_refl)
  with map_evolves_moved [of "now 0" r0 target r "mruns s" i] r0 u(1,2) show ?thesis
    by (simp add: control_extends_def map_evolves_refl)
qed

lemma resume_extends:
  assumes "resumeRunLocked now i v s = Inr (r, u)"
  shows "control_extends s u"
  using assms
  by (auto simp: resumeRunLocked_def control_extends_def
      intro!: map_evolves_refl split: if_splits sum.splits option.splits intro: map_evolves_moved)

lemma control_step_extends: "control_step sha256 s t \<Longrightarrow> control_inv s \<Longrightarrow> control_extends s t"
  by (erule control_step_work; drule (1) control_extends_same [OF _ control_extends_refl]
        control_extends_same [OF _ plan_extends] control_extends_same [OF _ submit_extends]
        control_extends_same [OF _ resolve_extends] control_extends_same [OF _ transition_extends]
        control_extends_same [OF _ resume_extends]; assumption?)

lemma control_steps_extend:
  assumes "(control_step sha256)\<^sup>*\<^sup>* s t" "control_inv s"
  shows "control_extends s t"
  using assms
proof (induction rule: rtranclp_induct)
  case (step t u)
  then show ?case
    using control.inv_steps control_step_extends control_extends_trans by blast
qed simp

section \<open>Receipts\<close>

definition mem_receipt :: "(json \<Rightarrow> 'a option) \<Rightarrow> 'h MemoryRepository \<Rightarrow> string \<Rightarrow> CommandMetadata \<Rightarrow> ('h \<times> 'a) option" where
  "mem_receipt decode s scope m =
     Option.bind (mreceipts s (receiptKey scope (IdempotencyKey m)))
       (\<lambda>rc. map_option (Pair (mr_requestHash rc)) (decode (mr_response rc)))"

lemma mem_receipt_kept:
  "control_step sha256 s t \<Longrightarrow> mem_receipt decode s scope m = Some r \<Longrightarrow> mem_receipt decode t scope m = Some r"
  by (drule control_step_receipts) (auto simp: mem_receipt_def bind_eq_Some_conv dest: map_le_Some)

lemma governed_success:
  assumes run: "governed decode encode scope h at1 at2 m work s = (Inr v, t)"
    and exact: "\<And>v j. encode v = Some j \<Longrightarrow> good v \<Longrightarrow> decode j = Some v"
  shows "ValidateCommandMetadata m = None \<and> (case mem_receipt decode s scope m of
      None \<Rightarrow> good v \<longrightarrow> mem_receipt decode t scope m = Some (h, v)
    | Some (h', w) \<Rightarrow> h' = h \<and> w = v \<and> mem_receipt decode t scope m = mem_receipt decode s scope m)"
  using governed_result [OF run]
proof (elim disjE conjE exE)
  fix r u
  assume *: "ValidateCommandMetadata m = None"
    "mreceipts s (receiptKey scope (IdempotencyKey m)) = None"
    "case encode r of None \<Rightarrow> (\<exists>e. Inr v = Inl e) \<and> t = u
          | Some j \<Rightarrow> Inr v = (Inr r :: 'a result)
             \<and> mreceipts t = (mreceipts u)(receiptKey scope (IdempotencyKey m) \<mapsto>
                \<lparr>mr_requestHash = h, mr_response = j\<rparr>)
             \<and> audits t = audits (appendSuccessAuditLocked at2 m scope False u)"
  then show ?thesis
    using exact by (cases "encode r") (auto simp: mem_receipt_def)
qed (auto simp: mem_receipt_def)

lemma governed_replay:
  "ValidateCommandMetadata m = None \<Longrightarrow> mem_receipt decode s scope m = Some (h, v) \<Longrightarrow>
   fst (governed decode encode scope h at1 at2 m work s) = Inr v"
  by (auto simp: governed_def replayMemory_def mem_receipt_def bind_eq_Some_conv)

definition utf8_PlanResult :: "PlanResult \<Rightarrow> bool" where
  "utf8_PlanResult p \<longleftrightarrow> utf8_Sprint (plan_sprint p) \<and> utf8_Run (plan_run p)"

definition utf8_SubmissionResult :: "SubmissionResult \<Rightarrow> bool" where
  "utf8_SubmissionResult p \<longleftrightarrow> utf8_Sprint (sub_sprint p) \<and> utf8_Decision (sub_decision p) \<and> utf8_Run (sub_run p)"

definition utf8_DecisionResult :: "DecisionResult \<Rightarrow> bool" where
  "utf8_DecisionResult p \<longleftrightarrow> utf8_Sprint (dec_sprint p) \<and> utf8_Decision (dec_decision p) \<and> utf8_Run (dec_run p)"

lemma decode_marshal_PlanResult:
  "marshal_PlanResult p = Some j \<Longrightarrow> utf8_PlanResult p \<Longrightarrow> decode_PlanResult j = Some p"
  by (auto simp: marshal_PlanResult_def decode_PlanResult_def utf8_PlanResult_def bind_eq_Some_conv
      field_def decode_marshal_Run decode_marshal_Sprint)

lemma decode_marshal_triple:
  "marshal_triple s d r = Some j \<Longrightarrow> utf8_Sprint s \<Longrightarrow> utf8_Decision d \<Longrightarrow> utf8_Run r \<Longrightarrow>
   decode_triple mk j = Some (mk s d r)"
  by (auto simp: marshal_triple_def decode_triple_def bind_eq_Some_conv
      field_def decode_marshal_Run decode_marshal_Sprint decode_marshal_Decision)

lemma decode_marshal_SubmissionResult:
  "marshal_SubmissionResult p = Some j \<Longrightarrow> utf8_SubmissionResult p \<Longrightarrow> decode_SubmissionResult j = Some p"
  by (simp add: marshal_SubmissionResult_def decode_SubmissionResult_def utf8_SubmissionResult_def
      decode_marshal_triple)

lemma decode_marshal_DecisionResult:
  "marshal_DecisionResult p = Some j \<Longrightarrow> utf8_DecisionResult p \<Longrightarrow> decode_DecisionResult j = Some p"
  by (simp add: marshal_DecisionResult_def decode_DecisionResult_def utf8_DecisionResult_def
      decode_marshal_triple)

lemmas plan_success = governed_success [where decode = decode_PlanResult and encode = marshal_PlanResult
    and good = utf8_PlanResult, OF _ decode_marshal_PlanResult]

lemmas submit_success = governed_success [where decode = decode_SubmissionResult and encode = marshal_SubmissionResult
    and good = utf8_SubmissionResult, OF _ decode_marshal_SubmissionResult]

lemmas resolve_success = governed_success [where decode = decode_DecisionResult and encode = marshal_DecisionResult
    and good = utf8_DecisionResult, OF _ decode_marshal_DecisionResult]

lemmas run_success = governed_success [where decode = decode_Run and encode = marshal_Run
    and good = utf8_Run, OF _ decode_marshal_Run]

interpretation plan: replayed_command
  "\<lambda>(title, objective, m) (now, sid, rid). PlanSprint sha256 now
      \<lparr>pc_SprintID = sid, pc_RunID = rid, pc_Title = title, pc_Objective = objective\<rparr> m"
  "\<lambda>s (title, objective, m). mem_receipt decode_PlanResult s plan_scope m"
  "\<lambda>(title, objective, m). plan_hash sha256
      \<lparr>pc_SprintID = [], pc_RunID = [], pc_Title = title, pc_Objective = objective\<rparr> m"
  "\<lambda>(title, objective, m). ValidateCommandMetadata m = None"
  utf8_PlanResult "control_step sha256"
  for sha256
proof (unfold_locales, goal_cases)
  case (1 c n s v t)
  then show ?case by (cases c; cases n) (auto simp: PlanSprint_governed plan_hash_def dest!: plan_success split: option.splits)
next
  case (2 c s v n)
  then show ?case by (cases c; cases n) (auto simp: PlanSprint_governed plan_hash_def intro: governed_replay)
next
  case (3 s t c r)
  then show ?case by (cases c) (auto intro: mem_receipt_kept)
qed

interpretation submit: replayed_command
  "\<lambda>(sid, ver, risk, m) (now, did). SubmitSprint sha256 now
      \<lparr>sc_SprintID = sid, sc_DecisionID = did, sc_ExpectedVersion = ver, sc_RiskClass = risk\<rparr> m"
  "\<lambda>s (sid, ver, risk, m). mem_receipt decode_SubmissionResult s (submit_scope sid) m"
  "\<lambda>(sid, ver, risk, m). submit_hash sha256
      \<lparr>sc_SprintID = sid, sc_DecisionID = [], sc_ExpectedVersion = ver, sc_RiskClass = risk\<rparr> m"
  "\<lambda>(sid, ver, risk, m). ValidateCommandMetadata m = None"
  utf8_SubmissionResult "control_step sha256"
  for sha256
proof (unfold_locales, goal_cases)
  case (1 c n s v t)
  then show ?case by (cases c; cases n) (auto simp: SubmitSprint_governed submit_hash_def dest!: submit_success split: option.splits)
next
  case (2 c s v n)
  then show ?case by (cases c; cases n) (auto simp: SubmitSprint_governed submit_hash_def intro: governed_replay)
next
  case (3 s t c r)
  then show ?case by (cases c) (auto intro: mem_receipt_kept)
qed

interpretation resolve: replayed_command
  "\<lambda>(dc, m) now. ResolveDecision sha256 now dc m"
  "\<lambda>s (dc, m). mem_receipt decode_DecisionResult s (resolve_scope (dc_DecisionID dc)) m"
  "\<lambda>(dc, m). resolve_hash sha256 dc m"
  "\<lambda>(dc, m). ValidateCommandMetadata m = None"
  utf8_DecisionResult "control_step sha256"
  for sha256
proof (unfold_locales, goal_cases)
  case (1 c n s v t)
  then show ?case by (cases c) (auto simp: ResolveDecision_governed resolve_hash_def dest!: resolve_success split: option.splits)
next
  case (2 c s v n)
  then show ?case by (cases c) (auto simp: ResolveDecision_governed resolve_hash_def intro: governed_replay)
next
  case (3 s t c r)
  then show ?case by (cases c) (auto intro: mem_receipt_kept)
qed

interpretation move: replayed_command
  "\<lambda>(i, ver, target, m) now. TransitionRun sha256 now i ver target m"
  "\<lambda>s (i, ver, target, m). mem_receipt decode_Run s (move_scope i) m"
  "\<lambda>(i, ver, target, m). move_hash sha256 i ver target m"
  "\<lambda>(i, ver, target, m). ValidateCommandMetadata m = None"
  utf8_Run "control_step sha256"
  for sha256
proof (unfold_locales, goal_cases)
  case (1 c n s v t)
  then show ?case by (cases c) (auto simp: TransitionRun_governed move_hash_def dest!: run_success split: option.splits)
next
  case (2 c s v n)
  then show ?case by (cases c) (auto simp: TransitionRun_governed move_hash_def intro: governed_replay)
next
  case (3 s t c r)
  then show ?case by (cases c) (auto intro: mem_receipt_kept)
qed

lemma ResumeRun_Inr: "ResumeRun sha256 now i ver m s = (Inr v, t) \<Longrightarrow> 1 \<le> ver"
  by (rule ccontr) (use ResumeRun_refused [of ver sha256 now i m s] in auto)

interpretation resume: replayed_command
  "\<lambda>(i, ver, m) now. ResumeRun sha256 now i ver m"
  "\<lambda>s (i, ver, m). mem_receipt decode_Run s (resume_scope i) m"
  "\<lambda>(i, ver, m). resume_hash sha256 i ver m"
  "\<lambda>(i, ver, m). 1 \<le> ver \<and> ValidateCommandMetadata m = None"
  utf8_Run "control_step sha256"
  for sha256
proof (unfold_locales, goal_cases)
  case (1 c n s v t)
  then obtain i ver m where c: "c = (i, ver, m)" and run: "ResumeRun sha256 n i ver m s = (Inr v, t)"
    by (cases c) auto
  note ver = ResumeRun_Inr [OF run]
  show ?case
    using run_success [OF run [unfolded ResumeRun_governed [OF ver]]] ver unfolding c prod.case by simp
next
  case (2 c s v n)
  then show ?case by (cases c) (auto simp: ResumeRun_governed resume_hash_def intro: governed_replay)
next
  case (3 s t c r)
  then show ?case by (cases c) (auto intro: mem_receipt_kept)
qed

lemma governed_first:
  assumes "work s = Inr (r, u)" "encode r = Some j" "ValidateCommandMetadata m = None"
    "receiptKey scope (IdempotencyKey m) \<notin> dom (mreceipts s)"
  shows "\<exists>t. governed decode encode scope h at1 at2 m work s = (Inr r, t) \<and> same_governed u t
    \<and> dom (mreceipts t) = insert (receiptKey scope (IdempotencyKey m)) (dom (mreceipts u))"
proof -
  have "mreceipts s (receiptKey scope (IdempotencyKey m)) = None" using assms(4) by blast
  with assms(1-3) show ?thesis
    by (simp add: governed_def replayMemory_def saveMemoryReceipt_def same_governed_def)
qed

section \<open>Properties\<close>

text \<open>A concrete history for the instances below: a sprint is planned, submitted and approved.\<close>

definition sample_sid :: SprintID where
  "sample_sid = ''sprint_00000000-0000-4000-8000-000000000001''"

definition sample_rid :: RunID where
  "sample_rid = ''run_00000000-0000-4000-8000-000000000002''"

definition sample_did :: DecisionID where
  "sample_did = ''decision_00000000-0000-4000-8000-000000000003''"

lemma sample_ids_parse [simp]:
  "ParseSprintID sample_sid = Inr sample_sid" "ParseRunID sample_rid = Inr sample_rid"
  "ParseDecisionID sample_did = Inr sample_did"
  by code_simp+

lemma sample_sid_nonempty [simp]: "sample_sid \<noteq> []"
  by (simp add: sample_sid_def)

definition sample_tool :: "string \<Rightarrow> CommandMetadata" where
  "sample_tool tool = sample_metadata\<lparr>AuditToolName := tool\<rparr>"

lemma sample_tool_sel [simp]:
  "IdempotencyKey (sample_tool tool) = ''key-0001''" "ActorType (sample_tool tool) = ''human''"
  "ActorID (sample_tool tool) = ''ana''" "CorrelationID (sample_tool tool) = ''corr-1''"
  "CausationID (sample_tool tool) = None" "AuditToolName (sample_tool tool) = tool"
  by (simp_all add: sample_tool_def)

lemma sample_tool_valid [simp]:
  "ValidateCommandMetadata (sample_tool ''forja.plan_sprint'') = None"
  "ValidateCommandMetadata (sample_tool ''forja.submit_sprint'') = None"
  "ValidateCommandMetadata (sample_tool ''forja.approve_decision'') = None"
  by (simp_all add: ValidateCommandMetadata_def rune_count_ascii byte_in_def)

definition sample_plan :: PlanCommand where
  "sample_plan = \<lparr>pc_SprintID = sample_sid, pc_RunID = sample_rid, pc_Title = ''title'',
     pc_Objective = ''plan''\<rparr>"

definition sample_submit :: SubmitCommand where
  "sample_submit = \<lparr>sc_SprintID = sample_sid, sc_DecisionID = sample_did, sc_ExpectedVersion = 1,
     sc_RiskClass = ''high''\<rparr>"

definition sample_approve :: DecideCommand where
  "sample_approve = \<lparr>dc_DecisionID = sample_did, dc_ExpectedVersion = 1, dc_Approve = True,
     dc_Reason = ''okay''\<rparr>"

definition sample_planned :: "string MemoryRepository" where
  "sample_planned = snd (PlanSprint id (\<lambda>_. 5) sample_plan (sample_tool ''forja.plan_sprint'') NewMemoryRepository)"

definition sample_submitted :: "string MemoryRepository" where
  "sample_submitted = snd (SubmitSprint id (\<lambda>_. 6) sample_submit (sample_tool ''forja.submit_sprint'') sample_planned)"

definition sample_approved :: "string MemoryRepository" where
  "sample_approved = snd (ResolveDecision id (\<lambda>_. 7) sample_approve (sample_tool ''forja.approve_decision'') sample_submitted)"

definition sample_sprint :: Sprint where
  "sample_sprint = \<lparr>sprint_id = sample_sid, sprint_schema_version = ''1.0'',
     sprint_sequence_number = 1, sprint_title = ''title'', sprint_objective = ''plan'',
     sprint_status = SprintStatusString SprintProposed, sprint_version = 1,
     sprint_run_id = sample_rid, sprint_pending_decision_id = None,
     sprint_created_at = 5, sprint_updated_at = 5\<rparr>"

definition sample_run :: Run where
  "sample_run = draftRun 5 sample_rid ''plan''"

definition sample_decision :: Decision where
  "sample_decision = \<lparr>decision_id = sample_did, decision_schema_version = ''1.0'',
     decision_sprint_id = sample_sid, decision_run_id = sample_rid,
     decision_action = DecisionActionSubmitSprint, decision_risk_class = ''high'',
     decision_status = DecisionStatusString DecisionPending, decision_version = 1,
     decision_requested_by = ''ana'', decision_decided_by = None, decision_reason = None,
     decision_created_at = 6, decision_updated_at = 6, decision_decided_at = None\<rparr>"

lemma json_time_small: "0 \<le> t \<Longrightarrow> t < 253402300800000000000 \<Longrightarrow> json_time_ok t"
  by (simp add: json_time_ok_def)

lemmas sample_marshal = marshal_PlanResult_def marshal_SubmissionResult_def marshal_DecisionResult_def
  marshal_triple_def marshal_Run_def marshal_Sprint_def marshal_Decision_def json_time_small omitempty_def

lemma sample_receipt_keys:
  "receiptKey (submit_scope i) k \<noteq> receiptKey plan_scope k"
  "receiptKey (resolve_scope i) k \<noteq> receiptKey plan_scope k"
  "receiptKey (resolve_scope i) k \<noteq> receiptKey (submit_scope j) k"
  by (simp_all add: receiptKey_def plan_scope_def submit_scope_def resolve_scope_def)

lemma sample_planned_eq:
  "PlanSprint id (\<lambda>_. 5) sample_plan (sample_tool ''forja.plan_sprint'') NewMemoryRepository =
     (Inr \<lparr>plan_sprint = sample_sprint, plan_run = sample_run\<rparr>, sample_planned)
   \<and> sprints sample_planned = [(sample_sid, sample_sprint)] \<and> decisions sample_planned = Map.empty
   \<and> mruns sample_planned = [sample_rid \<mapsto> sample_run]
   \<and> dom (mreceipts sample_planned) = {receiptKey plan_scope ''key-0001''}"
proof -
  let ?u = "\<lparr>sprints = [(sample_sid, sample_sprint)], decisions = Map.empty,
      mruns = [sample_rid \<mapsto> sample_run], mreceipts = Map.empty, audits = [],
      nextSequence = 2\<rparr> :: string MemoryRepository"
  have work: "planSprintLocked (\<lambda>_. 5) sample_plan NewMemoryRepository
      = Inr (\<lparr>plan_sprint = sample_sprint, plan_run = sample_run\<rparr>, ?u)"
    by (simp add: planSprintLocked_def sample_plan_def NewMemoryRepository_def Let_def sample_sprint_def
        sample_run_def)
  obtain j where "marshal_PlanResult \<lparr>plan_sprint = sample_sprint, plan_run = sample_run\<rparr> = Some j"
    by (simp add: sample_marshal sample_sprint_def sample_run_def draftRun_def)
  from governed_first [where encode = marshal_PlanResult
      and work = "planSprintLocked (\<lambda>_. 5) sample_plan", OF work this, of
      "sample_tool ''forja.plan_sprint''" plan_scope
      decode_PlanResult "plan_hash id sample_plan (sample_tool ''forja.plan_sprint'')" 5 5]
  obtain t where "PlanSprint id (\<lambda>_. 5) sample_plan (sample_tool ''forja.plan_sprint'') NewMemoryRepository =
      (Inr \<lparr>plan_sprint = sample_sprint, plan_run = sample_run\<rparr>, t)" "same_governed ?u t"
      "dom (mreceipts t) = {receiptKey plan_scope ''key-0001''}"
    unfolding PlanSprint_governed by (auto simp: NewMemoryRepository_def)
  then show ?thesis by (simp add: sample_planned_def same_governed_def)
qed

definition sample_submission :: SubmissionResult where
  "sample_submission = \<lparr>sub_sprint = sample_sprint\<lparr>
       sprint_status := SprintStatusString SprintAwaitingApproval, sprint_version := 2,
       sprint_updated_at := 6, sprint_pending_decision_id := Some sample_did\<rparr>,
     sub_decision = sample_decision,
     sub_run = sample_run\<lparr>run_state := StateString StateAwaitingApproval, run_version := 2,
       run_updated_at := 6\<rparr>\<rparr>"

lemma sample_submitted_eq:
  "SubmitSprint id (\<lambda>_. 6) sample_submit (sample_tool ''forja.submit_sprint'') sample_planned =
     (Inr sample_submission, sample_submitted)
   \<and> sprints sample_submitted = [(sample_sid, sub_sprint sample_submission)]
   \<and> decisions sample_submitted = [sample_did \<mapsto> sample_decision]
   \<and> mruns sample_submitted = [sample_rid \<mapsto> sub_run sample_submission]
   \<and> dom (mreceipts sample_submitted)
       = {receiptKey (submit_scope sample_sid) ''key-0001'', receiptKey plan_scope ''key-0001''}"
proof -
  note p = sample_planned_eq [THEN conjunct2]
  have work: "submitSprintLocked (\<lambda>_. 6) sample_submit (sample_tool ''forja.submit_sprint'') sample_planned
      = Inr (sample_submission, sample_planned\<lparr>sprints := [(sample_sid, sub_sprint sample_submission)],
         decisions := [sample_did \<mapsto> sample_decision], mruns := [sample_rid \<mapsto> sub_run sample_submission]\<rparr>)"
    by (simp add: submitSprintLocked_def sample_submit_def p Let_def sample_sprint_def sample_run_def
        sample_decision_def draftRun_def sample_submission_def Machine_Transition_def CanTransition_def)
  obtain j where "marshal_SubmissionResult sample_submission = Some j"
    by (simp add: sample_marshal sample_sprint_def sample_run_def draftRun_def sample_submission_def
        sample_decision_def)
  from governed_first [where encode = marshal_SubmissionResult
      and work = "submitSprintLocked (\<lambda>_. 6) sample_submit (sample_tool ''forja.submit_sprint'')", OF work this, of
      "sample_tool ''forja.submit_sprint''" "submit_scope (sc_SprintID sample_submit)" decode_SubmissionResult
      "submit_hash id sample_submit (sample_tool ''forja.submit_sprint'')" 6 6]
  obtain t where "SubmitSprint id (\<lambda>_. 6) sample_submit (sample_tool ''forja.submit_sprint'') sample_planned =
      (Inr sample_submission, t)" "same_governed (sample_planned\<lparr>
         sprints := [(sample_sid, sub_sprint sample_submission)],
         decisions := [sample_did \<mapsto> sample_decision],
         mruns := [sample_rid \<mapsto> sub_run sample_submission]\<rparr>) t"
      "dom (mreceipts t)
       = {receiptKey (submit_scope sample_sid) ''key-0001'', receiptKey plan_scope ''key-0001''}"
    unfolding SubmitSprint_governed by (auto simp: p sample_receipt_keys sample_submit_def)
  then show ?thesis by (simp add: sample_submitted_def same_governed_def)
qed

definition sample_resolution :: DecisionResult where
  "sample_resolution = \<lparr>dec_sprint = sample_sprint\<lparr>
       sprint_status := SprintStatusString SprintApproved, sprint_version := 3,
       sprint_updated_at := 7, sprint_pending_decision_id := None\<rparr>,
     dec_decision = sample_decision\<lparr>decision_status := DecisionStatusString DecisionApproved,
       decision_version := 2, decision_updated_at := 7, decision_decided_at := Some 7,
       decision_decided_by := Some ''ana'', decision_reason := Some ''okay''\<rparr>,
     dec_run = sample_run\<lparr>run_state := StateString StateQueued, run_version := 3,
       run_updated_at := 7\<rparr>\<rparr>"

lemma sample_approved_eq:
  "ResolveDecision id (\<lambda>_. 7) sample_approve (sample_tool ''forja.approve_decision'') sample_submitted =
     (Inr sample_resolution, sample_approved)
   \<and> sprints sample_approved = [(sample_sid, dec_sprint sample_resolution)]
   \<and> decisions sample_approved = [sample_did \<mapsto> dec_decision sample_resolution]
   \<and> mruns sample_approved = [sample_rid \<mapsto> dec_run sample_resolution]
   \<and> dom (mreceipts sample_approved) = {receiptKey (resolve_scope sample_did) ''key-0001'',
       receiptKey (submit_scope sample_sid) ''key-0001'', receiptKey plan_scope ''key-0001''}"
proof -
  note p = sample_submitted_eq [THEN conjunct2]
  have work: "resolveDecisionLocked (\<lambda>_. 7) sample_approve (sample_tool ''forja.approve_decision'') sample_submitted
      = Inr (sample_resolution, sample_submitted\<lparr>sprints := [(sample_sid, dec_sprint sample_resolution)],
         decisions := [sample_did \<mapsto> dec_decision sample_resolution],
         mruns := [sample_rid \<mapsto> dec_run sample_resolution]\<rparr>)"
    by (simp add: resolveDecisionLocked_def sample_approve_def p Let_def sample_sprint_def sample_run_def
        sample_decision_def draftRun_def sample_submission_def sample_resolution_def Machine_Transition_def
        CanTransition_def)
  obtain j where "marshal_DecisionResult sample_resolution = Some j"
    by (simp add: sample_marshal sample_sprint_def sample_run_def draftRun_def sample_resolution_def
        sample_decision_def)
  from governed_first [where encode = marshal_DecisionResult
      and work = "resolveDecisionLocked (\<lambda>_. 7) sample_approve (sample_tool ''forja.approve_decision'')", OF work this, of
      "sample_tool ''forja.approve_decision''" "resolve_scope (dc_DecisionID sample_approve)" decode_DecisionResult
      "resolve_hash id sample_approve (sample_tool ''forja.approve_decision'')" 7 7]
  obtain t where "ResolveDecision id (\<lambda>_. 7) sample_approve (sample_tool ''forja.approve_decision'') sample_submitted
       = (Inr sample_resolution, t)"
      "same_governed (sample_submitted\<lparr>sprints := [(sample_sid, dec_sprint sample_resolution)],
         decisions := [sample_did \<mapsto> dec_decision sample_resolution],
         mruns := [sample_rid \<mapsto> dec_run sample_resolution]\<rparr>) t"
      "dom (mreceipts t) = {receiptKey (resolve_scope sample_did) ''key-0001'',
         receiptKey (submit_scope sample_sid) ''key-0001'', receiptKey plan_scope ''key-0001''}"
    unfolding ResolveDecision_governed by (auto simp: p sample_receipt_keys sample_approve_def)
  then show ?thesis by (simp add: sample_approved_def same_governed_def)
qed

lemmas sample_simps [simp] = sample_planned_eq [THEN conjunct2] sample_submitted_eq [THEN conjunct2]
  sample_approved_eq [THEN conjunct2]

lemma sample_steps:
  "control_step id NewMemoryRepository sample_planned" "control_step id sample_planned sample_submitted"
  "control_step id sample_submitted sample_approved"
proof -
  show "control_step id NewMemoryRepository sample_planned"
    by (rule step_Plan [OF sample_planned_eq [THEN conjunct1]]) (simp add: sample_plan_def)
  show "control_step id sample_planned sample_submitted"
    by (rule step_Submit [OF sample_submitted_eq [THEN conjunct1]]) simp
  show "control_step id sample_submitted sample_approved"
    by (rule step_Resolve [OF sample_approved_eq [THEN conjunct1]])
qed

lemma sample_reachable:
  "(control_step id)\<^sup>*\<^sup>* NewMemoryRepository sample_planned"
  "(control_step id)\<^sup>*\<^sup>* NewMemoryRepository sample_submitted"
  "(control_step id)\<^sup>*\<^sup>* NewMemoryRepository sample_approved"
proof -
  show "(control_step id)\<^sup>*\<^sup>* NewMemoryRepository sample_planned"
    by (rule r_into_rtranclp) (rule sample_steps(1))
  then show "(control_step id)\<^sup>*\<^sup>* NewMemoryRepository sample_submitted"
    by (rule rtranclp.rtrancl_into_rtrancl) (rule sample_steps(2))
  then show "(control_step id)\<^sup>*\<^sup>* NewMemoryRepository sample_approved"
    by (rule rtranclp.rtrancl_into_rtrancl) (rule sample_steps(3))
qed

lemma unique_links_mset:
  assumes "unique_links sps" "mset sqs = mset sps"
  shows "unique_links sqs"
proof -
  have "mset (map fst sqs) = mset (map fst sps)" using assms(2) by simp
  then have "distinct (map fst sqs)"
    using unique_linksD(1) [OF assms(1)] by (metis mset_eq_imp_distinct_iff)
  moreover have "set sqs = set sps" using assms(2) by (rule mset_eq_setD)
  ultimately show ?thesis using assms(1) unfolding unique_links_def by blast
qed

lemma map_of_mset:
  assumes "distinct (map fst sps)" "mset sqs = mset sps"
  shows "map_of sqs = map_of sps"
proof -
  have "distinct (map fst sqs)"
    using assms by (metis mset_eq_imp_distinct_iff mset_map)
  moreover have "set sqs = set sps" using assms(2) by (rule mset_eq_setD)
  ultimately show ?thesis using assms(1) by (intro map_of_inject_set [THEN iffD2])
qed

lemma linkedSprint_order:
  assumes "unique_links sps" "unique_links sqs" "map_of sqs = map_of sps"
  shows "linkedSprint i target sqs = linkedSprint i target sps"
proof -
  have "find (\<lambda>(sid, sp). sprint_run_id sp = i) sqs = find (\<lambda>(sid, sp). sprint_run_id sp = i) sps" (is "?f = ?g")
  proof (rule option.expand)
    show "(?f = None) = (?g = None)"
      using find_linked [OF assms(1), of i] find_linked [OF assms(2), of i] assms(3) by (metis not_None_eq surj_pair)
    show "the ?f = the ?g" if "?f \<noteq> None" "?g \<noteq> None"
      using find_linked [OF assms(1), of i] find_linked [OF assms(2), of i] assms(3) that
      by (metis not_None_eq surj_pair)
  qed
  then show ?thesis by (simp only: linkedSprint_def)
qed

lemma agrees_working:
  assumes "agrees D sp r" "run_state r = StateString st"
    "st \<notin> {StateDraft, StateAwaitingApproval, StateCancelling, StateCancelled}"
  shows "sprint_status sp = SprintStatusString SprintApproved \<and> decided DecisionApproved sp D"
proof -
  obtain ss where "sprint_status sp = SprintStatusString ss"
    using assms(1) by (auto simp: agrees_def)
  with assms show ?thesis by (cases ss) (auto simp: agrees_def)
qed

text \<open>
  C13. The governance invariant holds in every reachable repository: sprints are stored
  under their own identifiers with unique sequence numbers below the next one, sprints and
  runs correspond one to one, pending decisions and pending sprints point at each other,
  and the status of a sprint agrees with the state of its run and the decisions on record.
\<close>

theorem control_reachable_inv:
  assumes "(control_step sha256)\<^sup>*\<^sup>* NewMemoryRepository s"
  shows "control_inv s"
  using assms by (intro control.inv_reachable) auto

theorem control_reachable_inv_witness: "control_inv sample_approved"
  by (rule control_reachable_inv [OF sample_reachable(3)])

text \<open>
  C7. No work without approval: in every reachable repository, a run that left \<open>draft\<close> and
  \<open>awaiting_approval\<close> without being cancelled belongs to an approved sprint, and the
  repository holds the approved decision of that sprint and run, with the actor who took
  it and the time.
\<close>

theorem running_work_was_approved:
  assumes "(control_step sha256)\<^sup>*\<^sup>* NewMemoryRepository s"
    and "mruns s i = Some r" "run_state r = StateString st"
    and "st \<notin> {StateDraft, StateAwaitingApproval, StateCancelling, StateCancelled}"
  shows "\<exists>sid sp d x. map_of (sprints s) sid = Some sp \<and> sprint_run_id sp = i
    \<and> sprint_status sp = SprintStatusString SprintApproved
    \<and> decisions s d = Some x \<and> decision_sprint_id x = sid \<and> decision_run_id x = i
    \<and> decision_status x = DecisionStatusString DecisionApproved
    \<and> decision_decided_by x \<noteq> None \<and> decision_decided_at x \<noteq> None"
proof -
  have "control_inv s" using assms(1) by (intro control.inv_reachable) auto
  note inv = control_invD(3) [OF this]
  obtain sid sp where sp: "map_of (sprints s) sid = Some sp" "sprint_run_id sp = i"
    using governed_invD(5) [OF inv assms(2)] by blast
  have agr: "agrees (decisions s) sp r"
    using governed_invD(2) [OF inv sp(1)] sp(2) assms(2) by simp
  have "sprint_status sp = SprintStatusString SprintApproved \<and> decided DecisionApproved sp (decisions s)"
    by (rule agrees_working [OF agr assms(3,4)])
  then show ?thesis
    using sp governed_invD(1) [OF inv sp(1)] unfolding decided_def by blast
qed

theorem running_work_was_approved_witness:
  "\<exists>sid sp d x. map_of (sprints sample_approved) sid = Some sp \<and> sprint_run_id sp = sample_rid
    \<and> sprint_status sp = SprintStatusString SprintApproved
    \<and> decisions sample_approved d = Some x \<and> decision_sprint_id x = sid \<and> decision_run_id x = sample_rid
    \<and> decision_status x = DecisionStatusString DecisionApproved
    \<and> decision_decided_by x \<noteq> None \<and> decision_decided_at x \<noteq> None"
  by (rule running_work_was_approved [OF sample_reachable(3), where st = StateQueued
        and r = "dec_run sample_resolution"])
    (simp_all add: sample_resolution_def)

text \<open>
  C15. No history is lost: from a reachable repository on, sprints, runs and decisions stay
  stored, runs evolve along the state machine, sprints keep their run, title, objective and
  sequence number and change only with a higher version, and a decision changes only once,
  from pending to decided.
\<close>

theorem control_history_kept:
  assumes "(control_step sha256)\<^sup>*\<^sup>* NewMemoryRepository s" "(control_step sha256)\<^sup>*\<^sup>* s t"
  shows "control_extends s t"
  by (rule control_steps_extend [OF assms(2)], rule control.inv_reachable [OF _ assms(1)]) simp

theorem control_history_kept_witness: "control_extends sample_planned sample_approved"
proof (rule control_history_kept [OF sample_reachable(1)])
  show "(control_step id)\<^sup>*\<^sup>* sample_planned sample_approved"
    by (rule converse_rtranclp_into_rtranclp, rule sample_steps(2), rule r_into_rtranclp, rule sample_steps(3))
qed

text \<open>
  C10. A decision is final: once it is decided, whatever commands run, no later command
  changes it, and resolving it again (approving what was rejected, or the reverse) changes
  no sprint, decision or run.
\<close>

theorem decision_is_final:
  assumes "(control_step sha256)\<^sup>*\<^sup>* NewMemoryRepository s" "(control_step sha256)\<^sup>*\<^sup>* s t"
    and "decisions s d = Some x" "decision_status x \<noteq> DecisionStatusString DecisionPending"
    and "ResolveDecision sha256 now c m t = (res, u)" "dc_DecisionID c = d"
  shows "decisions t d = Some x \<and> same_governed t u"
proof -
  have "control_extends s t"
    by (rule control_steps_extend [OF assms(2)], rule control.inv_reachable [OF _ assms(1)]) simp
  then have x: "decisions t d = Some x"
    using assms(3,4) by (auto simp: control_extends_def decision_kept_def dest: map_evolvesD)
  then have "resolveDecisionLocked now c m t \<noteq> Inr (r, v)" for r v
    using assms(4,6) by (simp add: resolveDecisionLocked_def)
  then have "same_governed t u"
    using governed_result [OF assms(5) [unfolded ResolveDecision_governed]] by blast
  with x show ?thesis by blast
qed

theorem decision_is_final_witness:
  "decisions sample_approved sample_did = Some (dec_decision sample_resolution)
   \<and> same_governed sample_approved
      (snd (ResolveDecision id (\<lambda>_. 9) (sample_approve\<lparr>dc_Approve := False, dc_ExpectedVersion := 2\<rparr>)
        sample_metadata sample_approved))"
  by (rule decision_is_final [OF sample_reachable(3) rtranclp.rtrancl_refl _ _ prod.collapse [symmetric]])
    (simp_all add: sample_resolution_def sample_approve_def)

definition not_queued :: "RunID \<Rightarrow> 'a \<times> 'h MemoryRepository \<Rightarrow> bool" where
  "not_queued k out \<longleftrightarrow> (\<exists>b. mruns (snd out) k = Some b \<and> run_state b \<noteq> StateString StateQueued)"

lemma governed_not_queued:
  assumes "mruns s k = Some a" "run_state a \<noteq> StateString StateQueued"
    and "\<And>r u. work s = Inr (r, u) \<Longrightarrow> not_queued k (r, u)"
  shows "not_queued k (governed decode encode scope h at1 at2 m work s)"
  using governed_result [OF prod.collapse [of "governed decode encode scope h at1 at2 m work s", symmetric]] assms
  by (fastforce simp: not_queued_def same_governed_def)

lemma Locked_not_queued:
  assumes a: "mruns s k = Some a" "run_state a \<in> {StateString StateFailedRetryable, StateString StateAwaitingDecision}"
  shows "planSprintLocked now pc s = Inr (r1, u) \<Longrightarrow> not_queued k (r1, u)"
    and "submitSprintLocked now sc m s = Inr (r2, u) \<Longrightarrow> not_queued k (r2, u)"
    and "transitionRunLocked now i v target s = Inr (r3, u) \<Longrightarrow> not_queued k (r3, u)"
    and "resumeRunLocked now j v s = Inr (r4, u) \<Longrightarrow> j \<noteq> k \<Longrightarrow> not_queued k (r4, u)"
  using a
  by (auto simp: not_queued_def planSprintLocked_def submitSprintLocked_def transitionRunLocked_def
      resumeRunLocked_def Let_def isPrivilegedResumeTransition_def Machine_Transition_Inr_iff
      split: option.splits if_splits sum.splits prod.splits)

lemma resolve_not_queued:
  assumes "mruns s k = Some a" "run_state a \<in> {StateString StateFailedRetryable, StateString StateAwaitingDecision}"
    and "control_inv s" "resolveDecisionLocked now dc m s = Inr (r, u)"
  shows "not_queued k (r, u)"
proof -
  note inv = control_invD(3) [OF assms(3)]
  obtain x where x: "decisions s (dc_DecisionID dc) = Some x"
      "decision_status x = DecisionStatusString DecisionPending"
    and u: "\<And>j. j \<noteq> decision_run_id x \<Longrightarrow> mruns u j = mruns s j"
    using assms(4) unfolding resolveDecisionLocked_def Let_def
    by (auto split: option.splits if_splits sum.splits dest!: ParseRunID_Inr)
  obtain sp where sp: "map_of (sprints s) (decision_sprint_id x) = Some sp"
      "sprint_pending_decision_id sp = Some (dc_DecisionID dc)"
    using governed_invD(7) [OF inv x] by blast
  obtain r2 where r2: "mruns s (sprint_run_id sp) = Some r2" "agrees (decisions s) sp r2"
    using governed_invD(2) [OF inv sp(1)] by blast
  with agrees_pending [OF r2(2) sp(2)] x(1) assms(1,2) have "k \<noteq> decision_run_id x" by auto
  with u assms(1,2) show ?thesis by (auto simp: not_queued_def)
qed

lemma resumeRunLocked_resumes:
  assumes "mruns s k = Some a" "run_state a \<in> {StateString StateFailedRetryable, StateString StateAwaitingDecision}"
  shows "\<exists>b u. resumeRunLocked now k (run_version a) s = Inr (b, u) \<and> mruns u k = Some b
    \<and> run_state b = StateString StateQueued \<and> run_version b = run_version a + 1"
proof -
  obtain c where c: "run_state a = StateString c" "CanTransition c StateQueued"
    using assms(2) by (auto simp: CanTransition_def)
  then have "\<exists>b. Machine_Transition (now 0) a StateQueued = Inr b
      \<and> run_state b = StateString StateQueued \<and> run_version b = run_version a + 1"
    by (simp add: Machine_Transition_def Let_def)
  with assms show ?thesis by (auto simp: resumeRunLocked_def resumeTarget_def)
qed

text \<open>
  C17. Resuming is governed. In every reachable repository a run in \<open>failed_retryable\<close> or
  \<open>awaiting_decision\<close> is queued again by no plan, submission, resolved decision, transition
  or audit record, and by no \<open>ResumeRun\<close> of another run; a valid \<open>ResumeRun\<close> of the run
  at its version, under a key that was not used, queues it.
\<close>

theorem only_resume_requeues:
  assumes "(control_step sha256)\<^sup>*\<^sup>* NewMemoryRepository s" "mruns s k = Some a"
    and "run_state a \<in> {StateString StateFailedRetryable, StateString StateAwaitingDecision}"
  shows "not_queued k (PlanSprint sha256 now pc m s)
   \<and> not_queued k (SubmitSprint sha256 now sc m s)
   \<and> not_queued k (ResolveDecision sha256 now dc m s)
   \<and> not_queued k (TransitionRun sha256 now i v target m s)
   \<and> not_queued k (RecordToolAudit at rec s)
   \<and> (j \<noteq> k \<longrightarrow> not_queued k (ResumeRun sha256 now j v m s))
   \<and> (ValidateCommandMetadata m = None \<and> 1 \<le> run_version a
       \<and> mreceipts s (receiptKey (resume_scope k) (IdempotencyKey m)) = None \<longrightarrow>
      (\<exists>b. mruns (snd (ResumeRun sha256 now k (run_version a) m s)) k = Some b
         \<and> run_state b = StateString StateQueued \<and> run_version b = run_version a + 1))"
proof (intro conjI impI)
  note inv = control.inv_reachable [OF _ assms(1), simplified]
  have nq: "run_state a \<noteq> StateString StateQueued" using assms(3) by auto
  note idle = governed_not_queued [OF assms(2) nq] and work = Locked_not_queued [OF assms(2,3)]
  show "not_queued k (PlanSprint sha256 now pc m s)"
    "not_queued k (SubmitSprint sha256 now sc m s)"
    "not_queued k (TransitionRun sha256 now i v target m s)"
    unfolding governed_ops(1,2,4) by (rule idle; rule work; assumption)+
  show "not_queued k (ResolveDecision sha256 now dc m s)"
    unfolding governed_ops(3) by (rule idle) (rule resolve_not_queued [OF assms(2,3) inv])
  show "not_queued k (RecordToolAudit at rec s)"
    using assms(2) nq by (simp add: RecordToolAudit_def not_queued_def Let_def)
  show "not_queued k (ResumeRun sha256 now j v m s)" if "j \<noteq> k"
  proof (cases "v < 1")
    case True
    with assms(2) nq show ?thesis by (simp add: ResumeRun_def not_queued_def)
  next
    case False
    show ?thesis unfolding governed_ops(5) [OF leI [OF False]] by (rule idle) (rule work(4) [OF _ that])
  qed
  show "\<exists>b. mruns (snd (ResumeRun sha256 now k (run_version a) m s)) k = Some b
         \<and> run_state b = StateString StateQueued \<and> run_version b = run_version a + 1"
    if fresh: "ValidateCommandMetadata m = None \<and> 1 \<le> run_version a
       \<and> mreceipts s (receiptKey (resume_scope k) (IdempotencyKey m)) = None"
  proof -
    obtain b u where b: "resumeRunLocked now k (run_version a) s = Inr (b, u)" "mruns u k = Some b"
        "run_state b = StateString StateQueued" "run_version b = run_version a + 1"
      using resumeRunLocked_resumes [OF assms(2,3)] by blast
    with fresh show ?thesis
      by (simp add: ResumeRun_governed governed_def replayMemory_def saveMemoryReceipt_def split: option.split)
  qed
qed

definition sample_preparing :: "string MemoryRepository" where
  "sample_preparing = snd (TransitionRun id (\<lambda>_. 8) sample_rid 3 StatePreparing sample_metadata sample_approved)"

definition sample_failed :: "string MemoryRepository" where
  "sample_failed = snd (TransitionRun id (\<lambda>_. 9) sample_rid 4 StateFailedRetryable
     (sample_metadata\<lparr>IdempotencyKey := ''key-0002''\<rparr>) sample_preparing)"

lemma TransitionRun_first:
  assumes "transitionRunLocked now i v target s = Inr (r, u)" "marshal_Run r \<noteq> None"
    "ValidateCommandMetadata m = None" "receiptKey (move_scope i) (IdempotencyKey m) \<notin> dom (mreceipts s)"
    "t = snd (TransitionRun sha256 now i v target m s)"
  shows "mruns t = mruns u \<and> sprints t = sprints u
     \<and> dom (mreceipts t) = insert (receiptKey (move_scope i) (IdempotencyKey m)) (dom (mreceipts u))"
proof -
  obtain j where "marshal_Run r = Some j" using assms(2) by blast
  from governed_first [where encode = marshal_Run and work = "transitionRunLocked now i v target",
      OF assms(1) this assms(3,4), of decode_Run "move_hash sha256 i v target m" "now 0" "now 1"]
  show ?thesis unfolding assms(5) TransitionRun_governed by (elim exE conjE) (simp add: same_governed_def)
qed

lemma sample_failed_eq:
  "mruns sample_failed = [sample_rid \<mapsto> sample_run\<lparr>run_state := StateString StateFailedRetryable,
     run_version := 5, run_updated_at := 9\<rparr>]"
  "receiptKey (resume_scope sample_rid) ''key-0001'' \<notin> dom (mreceipts sample_failed)"
proof -
  let ?r1 = "sample_run\<lparr>run_state := StateString StatePreparing, run_version := 4, run_updated_at := 8\<rparr>"
  let ?r2 = "sample_run\<lparr>run_state := StateString StateFailedRetryable, run_version := 5, run_updated_at := 9\<rparr>"
  note work = transitionRunLocked_def isPrivilegedResumeTransition_def linkedSprint_def Machine_Transition_def
    CanTransition_def sample_resolution_def sample_sprint_def sample_run_def draftRun_def
  note keys = receiptKey_def move_scope_def resume_scope_def resolve_scope_def
    submit_scope_def plan_scope_def
  have m: "marshal_Run ?r1 \<noteq> None" "marshal_Run ?r2 \<noteq> None"
    by (simp_all add: marshal_Run_def json_time_small sample_run_def draftRun_def)
  have "transitionRunLocked (\<lambda>_. 8) sample_rid 3 StatePreparing sample_approved
      = Inr (?r1, sample_approved\<lparr>mruns := [sample_rid \<mapsto> ?r1]\<rparr>)"
    by (simp add: work)
  from TransitionRun_first [OF this m(1) _ _ sample_preparing_def]
  have 1: "mruns sample_preparing = [sample_rid \<mapsto> ?r1]" "sprints sample_preparing = sprints sample_approved"
    "dom (mreceipts sample_preparing) = insert (receiptKey (move_scope sample_rid) ''key-0001'') (dom (mreceipts sample_approved))"
    by (simp_all add: keys)
  have "transitionRunLocked (\<lambda>_. 9) sample_rid 4 StateFailedRetryable sample_preparing
      = Inr (?r2, sample_preparing\<lparr>mruns := [sample_rid \<mapsto> ?r2]\<rparr>)"
    by (simp add: work 1)
  from TransitionRun_first [OF this m(2) _ _ sample_failed_def]
  show "mruns sample_failed = [sample_rid \<mapsto> ?r2]"
    "receiptKey (resume_scope sample_rid) ''key-0001'' \<notin> dom (mreceipts sample_failed)"
    by (simp_all add: 1 keys)
qed

lemma sample_failed_reachable: "(control_step id)\<^sup>*\<^sup>* NewMemoryRepository sample_failed"
proof -
  have "control_step id sample_approved sample_preparing" "control_step id sample_preparing sample_failed"
    unfolding sample_preparing_def sample_failed_def by (rule step_Move [OF prod.collapse [symmetric]])+
  with sample_reachable(3) show ?thesis by (blast intro: rtranclp.rtrancl_into_rtrancl)
qed

theorem only_resume_requeues_witness:
  "not_queued sample_rid (TransitionRun id (\<lambda>_. 9) sample_rid 5 StateQueued sample_metadata sample_failed)
   \<and> (\<exists>b. mruns (snd (ResumeRun id (\<lambda>_. 9) sample_rid 5 sample_metadata sample_failed)) sample_rid = Some b
        \<and> run_state b = StateString StateQueued)"
proof -
  have "mreceipts sample_failed (receiptKey (resume_scope sample_rid) ''key-0001'') = None"
    using sample_failed_eq(2) by blast
  with only_resume_requeues [OF sample_failed_reachable, of sample_rid "sample_run\<lparr>run_state :=
      StateString StateFailedRetryable, run_version := 5, run_updated_at := 9\<rparr>" "\<lambda>_. 9" _ sample_metadata _ _
      sample_rid 5 StateQueued] sample_failed_eq(1)
  show ?thesis by simp blast
qed

text \<open>
  A transition does not depend on the order in which Go iterates over the map of
  sprints: in a reachable repository, with the sprints in any other order, the answer is
  the same and so are the sprints (by identifier), the decisions, the runs, the receipts and
  the audit trail afterwards.
\<close>

theorem transition_order_independent:
  assumes "(control_step sha256)\<^sup>*\<^sup>* NewMemoryRepository s" "mset sps = mset (sprints s)"
    and "TransitionRun sha256 now i v target m s = (res, t)"
    and "TransitionRun sha256 now i v target m (s\<lparr>sprints := sps\<rparr>) = (res', t')"
  shows "res' = res \<and> map_of (sprints t') = map_of (sprints t) \<and> decisions t' = decisions t
    \<and> mruns t' = mruns t \<and> mreceipts t' = mreceipts t \<and> audits t' = audits t"
proof -
  have "control_inv s" using assms(1) by (intro control.inv_reachable) auto
  then have u: "unique_links (sprints s)" by (rule control_inv_unique_links)
  have u': "unique_links sps"
    by (rule unique_links_mset [OF u assms(2)])
  have m: "map_of sps = map_of (sprints s)"
    by (rule map_of_mset [OF unique_linksD(1) [OF u] assms(2)])
  have "linkedSprint i target sps = linkedSprint i target (sprints s)"
    by (rule linkedSprint_order [OF u u' m])
  then have "case (TransitionRun sha256 now i v target m s,
        TransitionRun sha256 now i v target m (s\<lparr>sprints := sps\<rparr>)) of
      ((res, t), (res', t')) \<Rightarrow> res' = res \<and> map_of (sprints t') = map_of (sprints t)
        \<and> decisions t' = decisions t \<and> mruns t' = mruns t \<and> mreceipts t' = mreceipts t \<and> audits t' = audits t"
    using m
    by (auto simp: TransitionRun_def Let_def replayMemory_def transitionRunLocked_def saveMemoryReceipt_def
        appendSuccessAuditLocked_def update_conv' split: option.split sum.split prod.split)
  then show ?thesis by (simp only: assms(3,4) prod.case)
qed

definition sample_two :: "string MemoryRepository" where
  "sample_two = snd (PlanSprint id (\<lambda>_. 8) (sample_plan\<lparr>pc_SprintID := ''sprint_b'', pc_RunID := ''run_b''\<rparr>)
     (sample_metadata\<lparr>IdempotencyKey := ''key-0002''\<rparr>) sample_approved)"

theorem transition_order_independent_witness:
  "fst (TransitionRun id (\<lambda>_. 9) sample_rid 3 StatePreparing sample_metadata
      (sample_two\<lparr>sprints := rev (sprints sample_two)\<rparr>))
   = fst (TransitionRun id (\<lambda>_. 9) sample_rid 3 StatePreparing sample_metadata sample_two)"
proof -
  have "control_step id sample_approved sample_two"
    unfolding sample_two_def by (rule step_Plan [OF prod.collapse [symmetric]]) simp
  with sample_reachable(3) have "(control_step id)\<^sup>*\<^sup>* NewMemoryRepository sample_two"
    by (rule rtranclp.rtrancl_into_rtrancl)
  from transition_order_independent [OF this _ prod.collapse [symmetric] prod.collapse [symmetric]]
  show ?thesis by simp
qed

definition audit_exact ::
    "CommandMetadata \<Rightarrow> string \<Rightarrow> 'h MemoryRepository \<Rightarrow> 'a result \<times> 'h MemoryRepository \<Rightarrow> bool" where
  "audit_exact m scope s out \<longleftrightarrow> (case out of
     (Inl e, t) \<Rightarrow> audits t = audits s
   | (Inr r, t) \<Rightarrow> (if AuditToolName m = [] then audits t = audits s
       else \<exists>at. audits t = audits s @ [\<lparr>audit_ToolName = AuditToolName m, audit_Outcome = ''succeeded'',
          audit_ActorType = ActorType m, audit_ActorID = ActorID m, audit_CorrelationID = CorrelationID m,
          audit_CausationID = CausationID m, audit_IdempotencyKey = IdempotencyKey m,
          audit_CommandScope = scope, audit_ErrorCode = [],
          audit_Replay = (mreceipts s (receiptKey scope (IdempotencyKey m)) \<noteq> None),
          audit_OccurredAt = at\<rparr>]))"

lemma Locked_audits:
  "planSprintLocked now pc s = Inr (a, u) \<Longrightarrow> audits u = audits s"
  "submitSprintLocked now sc m s = Inr (b, u) \<Longrightarrow> audits u = audits s"
  "resolveDecisionLocked now dc m s = Inr (c, u) \<Longrightarrow> audits u = audits s"
  "transitionRunLocked now i v target s = Inr (d, u) \<Longrightarrow> audits u = audits s"
  "resumeRunLocked now i v s = Inr (e, u) \<Longrightarrow> audits u = audits s"
  by (auto simp: planSprintLocked_def submitSprintLocked_def resolveDecisionLocked_def
      transitionRunLocked_def resumeRunLocked_def Let_def
      split: if_splits option.splits sum.splits prod.splits)

lemma governed_audit_exact:
  assumes "\<And>r u. work s = Inr (r, u) \<Longrightarrow> audits u = audits s"
  shows "audit_exact m scope s (governed decode encode scope h at1 at2 m work s)"
  using assms
  by (auto simp: audit_exact_def governed_def replayMemory_def saveMemoryReceipt_def
      appendSuccessAuditLocked_def split: option.split sum.split)

lemma audit_exact_ops:
  "audit_exact m plan_scope s (PlanSprint sha256 now pc m s)"
  "audit_exact m (submit_scope (sc_SprintID sc)) s (SubmitSprint sha256 now sc m s)"
  "audit_exact m (resolve_scope (dc_DecisionID dc)) s (ResolveDecision sha256 now dc m s)"
  "audit_exact m (move_scope i) s (TransitionRun sha256 now i v target m s)"
  "audit_exact m (resume_scope i) s (ResumeRun sha256 now i v m s)"
proof -
  show "audit_exact m (resume_scope i) s (ResumeRun sha256 now i v m s)"
  proof (cases "v < 1")
    case True
    then show ?thesis using ResumeRun_refused [of v sha256 now i m s] by (auto simp: audit_exact_def)
  next
    case False
    show ?thesis
      unfolding ResumeRun_governed [OF leI [OF False]] by (rule governed_audit_exact) (rule Locked_audits)
  qed
qed (unfold governed_ops(1-4); rule governed_audit_exact; rule Locked_audits; assumption)+

text \<open>
  C16. The audit trail is exact. Each of the five commands appends exactly one success
  record when it succeeds and its metadata names a tool, stating the tool, the actor, the
  correlation and causation, the idempotency key and the scope, and whether the answer was
  a replay; a command that fails, or names no tool, appends nothing.
\<close>

theorem commands_audited_exactly:
  "audit_exact m plan_scope s (PlanSprint sha256 now pc m s)
   \<and> audit_exact m (submit_scope (sc_SprintID sc)) s (SubmitSprint sha256 now sc m s)
   \<and> audit_exact m (resolve_scope (dc_DecisionID dc)) s (ResolveDecision sha256 now dc m s)
   \<and> audit_exact m (move_scope i) s (TransitionRun sha256 now i v target m s)
   \<and> audit_exact m (resume_scope i) s (ResumeRun sha256 now i v m s)"
  by (intro conjI audit_exact_ops)

text \<open>
  C18. A retried decision is answered with the first answer, whatever ran in between,
  provided the texts of the answer are valid UTF-8 (the receipt is JSON). The retry changes
  no sprint, decision, run or receipt; the one thing it adds is the audit record of the
  replay, where the command names a tool.
\<close>

theorem resolve_retry:
  assumes "ResolveDecision sha256 now c m s = (Inr r, s')" "utf8_DecisionResult r"
    and "(control_step sha256)\<^sup>*\<^sup>* s' t"
    and "ResolveDecision sha256 now' c m t = (res, u)"
  shows "res = Inr r \<and> same_governed t u \<and> mreceipts u = mreceipts t
     \<and> (if AuditToolName m = [] then audits u = audits t
        else \<exists>rec. audits u = audits t @ [rec] \<and> audit_Replay rec \<and> audit_Outcome rec = ''succeeded''
           \<and> audit_ToolName rec = AuditToolName m \<and> audit_ActorID rec = ActorID m
           \<and> audit_IdempotencyKey rec = IdempotencyKey m)"
proof -
  have rec: "mem_receipt decode_DecisionResult t (resolve_scope (dc_DecisionID c)) m
      = Some (resolve_hash sha256 c m, r)"
    using resolve.receipt_kept [OF assms(3), of "(c, m)"]
      resolve.success_recorded [of sha256 "(c, m)" now s r s'] assms(1,2) by simp
  then have known: "mreceipts t (receiptKey (resolve_scope (dc_DecisionID c)) (IdempotencyKey m)) \<noteq> None"
    by (auto simp: mem_receipt_def bind_eq_Some_conv)
  moreover have res: "res = Inr r"
    using resolve.retry_same_answer [of sha256 "(c, m)" now s r s' t now'] assms by simp
  ultimately have "same_governed t u \<and> mreceipts u = mreceipts t"
    using governed_result [OF assms(4) [unfolded ResolveDecision_governed]] by (elim disjE conjE exE) simp_all
  with res known audit_exact_ops(3) [of m c t sha256 now'] show ?thesis
    by (auto simp: assms(4) audit_exact_def split: if_splits)
qed

theorem resolve_retry_witness:
  "\<exists>u rec. ResolveDecision id (\<lambda>_. 9) sample_approve (sample_tool ''forja.approve_decision'') sample_approved = (Inr sample_resolution, u)
     \<and> same_governed sample_approved u \<and> audits u = audits sample_approved @ [rec] \<and> audit_Replay rec"
proof -
  have "utf8_DecisionResult sample_resolution"
    by (simp add: utf8_DecisionResult_def sample_resolution_def utf8_Sprint_def utf8_Decision_def utf8_Run_def
        sample_sprint_def sample_decision_def sample_run_def draftRun_def sample_sid_def sample_rid_def
        sample_did_def DecisionActionSubmitSprint_def valid_utf8_ascii byte_in_def)
  from resolve_retry [OF sample_approved_eq [THEN conjunct1] this rtranclp.rtrancl_refl prod.collapse [symmetric]]
  show ?thesis by (simp (no_asm_use)) (metis prod.collapse)
qed

text \<open>
  A retried plan is answered with the sprint and run of the first answer, whatever ran
  in between and whatever fresh identifiers the retry carries, and creates nothing: one key
  plans at most one sprint.
\<close>

theorem plan_retry:
  assumes "PlanSprint sha256 now c m s = (Inr r, s')" "utf8_PlanResult r"
    and "(control_step sha256)\<^sup>*\<^sup>* s' t"
    and "PlanSprint sha256 now' (c\<lparr>pc_SprintID := sid, pc_RunID := rid\<rparr>) m t = (res, u)"
  shows "res = Inr r \<and> same_governed t u \<and> mreceipts u = mreceipts t"
proof -
  let ?c = "(pc_Title c, pc_Objective c, m)"
  have eqs: "\<lparr>pc_SprintID = pc_SprintID c, pc_RunID = pc_RunID c, pc_Title = pc_Title c,
      pc_Objective = pc_Objective c\<rparr> = c"
    "\<lparr>pc_SprintID = sid, pc_RunID = rid, pc_Title = pc_Title c, pc_Objective = pc_Objective c\<rparr>
      = c\<lparr>pc_SprintID := sid, pc_RunID := rid\<rparr>"
    by simp_all
  have "mem_receipt decode_PlanResult t plan_scope m \<noteq> None"
    using plan.receipt_kept [OF assms(3), of ?c]
      plan.success_recorded [of sha256 ?c "(now, pc_SprintID c, pc_RunID c)" s r s'] assms(1,2) eqs by simp
  then have "mreceipts t (receiptKey plan_scope (IdempotencyKey m)) \<noteq> None"
    by (auto simp: mem_receipt_def bind_eq_Some_conv)
  moreover have "res = Inr r"
    using plan.retry_same_answer [of sha256 ?c "(now, pc_SprintID c, pc_RunID c)" s r s' t "(now', sid, rid)"]
      assms eqs by simp
  ultimately show ?thesis
    using governed_result [OF assms(4) [unfolded PlanSprint_governed]] by (elim disjE conjE exE) simp_all
qed

theorem plan_retry_witness:
  "fst (PlanSprint id (\<lambda>_. 9) (sample_plan\<lparr>pc_SprintID := ''sprint_b'', pc_RunID := ''run_b''\<rparr>)
     (sample_tool ''forja.plan_sprint'')
     sample_approved) = Inr \<lparr>plan_sprint = sample_sprint, plan_run = sample_run\<rparr>"
proof -
  have "utf8_PlanResult \<lparr>plan_sprint = sample_sprint, plan_run = sample_run\<rparr>"
    by (simp add: utf8_PlanResult_def utf8_Sprint_def utf8_Run_def
        sample_sprint_def sample_run_def draftRun_def sample_sid_def sample_rid_def valid_utf8_ascii byte_in_def)
  moreover have "(control_step id)\<^sup>*\<^sup>* sample_planned sample_approved"
    by (rule converse_rtranclp_into_rtranclp, rule sample_steps(2), rule r_into_rtranclp, rule sample_steps(3))
  ultimately show ?thesis
    using plan_retry [OF sample_planned_eq [THEN conjunct1] _ _ prod.collapse [symmetric]] by blast
qed

end
