(* ===== verification/ControlService.thy ===== *)
theory ControlService
  imports Control
begin

text \<open>
  The application service of \<open>internal/control/service.go\<close>: principals, permissions, input
  validation, and the operations that forward to a repository.

  The interface \<open>Repository\<close> of \<open>types.go\<close> is a record of operations on a state \<open>'s\<close>; the
  in-memory repository is one value of it. The three identifier generators of \<open>Service\<close> are
  the identifiers (or errors) they deliver on the call at hand. A Go \<open>Permission\<close> is any
  string, so it is a string here.
\<close>

type_synonym Permission = string

definition PermissionPlan :: Permission where "PermissionPlan = ''sprint:plan''"
definition PermissionRead :: Permission where "PermissionRead = ''control:read''"
definition PermissionSubmit :: Permission where "PermissionSubmit = ''sprint:submit''"
definition PermissionDecide :: Permission where "PermissionDecide = ''decision:decide''"
definition PermissionCancel :: Permission where "PermissionCancel = ''run:cancel''"
definition PermissionResume :: Permission where "PermissionResume = ''run:resume''"
definition PermissionLegacyRunWrite :: Permission where "PermissionLegacyRunWrite = ''legacy_run:write''"
definition PermissionMemoryPromote :: Permission where "PermissionMemoryPromote = ''memory:promote''"

definition auditToolPlanSprint :: string where "auditToolPlanSprint = ''forja.plan_sprint''"
definition auditToolSubmitSprint :: string where "auditToolSubmitSprint = ''forja.submit_sprint''"
definition auditToolApproveDecision :: string where "auditToolApproveDecision = ''forja.approve_decision''"
definition auditToolRejectDecision :: string where "auditToolRejectDecision = ''forja.reject_decision''"
definition auditToolCancelRun :: string where "auditToolCancelRun = ''forja.cancel_run''"
definition auditToolResumeRun :: string where "auditToolResumeRun = ''forja.resume_run''"

definition AllPermissions :: "Permission list" where
  "AllPermissions = [PermissionPlan, PermissionRead, PermissionSubmit, PermissionDecide,
     PermissionCancel, PermissionResume, PermissionLegacyRunWrite]"

record Principal =
  pr_ActorType :: string
  pr_ActorID :: string
  pr_TenantID :: string
  pr_RepositoryID :: string
  pr_Permissions :: "Permission set"

definition validPermission :: "Permission \<Rightarrow> bool" where
  "validPermission permission \<longleftrightarrow>
     permission = PermissionMemoryPromote \<or> permission \<in> set AllPermissions"

fun grantPermissions :: "Permission list \<Rightarrow> Principal \<Rightarrow> Principal result" where
  "grantPermissions [] prin = Inr prin"
| "grantPermissions (permission # permissions) prin =
    (if \<not> validPermission permission then
       Inl (New CodeInvalidArgument ''control.NewPrincipal''
         (Msg ''unknown permission %q'' [FStr permission]))
     else if permission = PermissionMemoryPromote
        \<and> (pr_ActorType prin = ''agent'' \<or> pr_ActorType prin = ''worker'') then
       Inl (New CodePermissionDenied ''control.NewPrincipal''
         (Msg ''agents and workers cannot hold memory promotion authority'' []))
     else grantPermissions permissions
       (prin\<lparr>pr_Permissions := insert permission (pr_Permissions prin)\<rparr>))"

definition NewScopedPrincipal ::
    "string \<Rightarrow> string \<Rightarrow> string \<Rightarrow> string \<Rightarrow> Permission list \<Rightarrow> Principal result" where
  "NewScopedPrincipal actorType actorID tenantID repositoryID permissions =
    (let prin = \<lparr>pr_ActorType = TrimSpace actorType, pr_ActorID = TrimSpace actorID,
           pr_TenantID = TrimSpace tenantID, pr_RepositoryID = TrimSpace repositoryID,
           pr_Permissions = {}\<rparr>
     in
     if pr_ActorType prin \<noteq> ''human'' \<and> pr_ActorType prin \<noteq> ''agent''
        \<and> pr_ActorType prin \<noteq> ''worker'' \<and> pr_ActorType prin \<noteq> ''system'' then
       Inl (New CodeUnauthenticated ''control.NewPrincipal''
         (Msg ''actor type is not an authenticated Forja identity'' []))
     else if rune_count (pr_ActorID prin) < 1 \<or> rune_count (pr_ActorID prin) > 160 then
       Inl (New CodeUnauthenticated ''control.NewPrincipal''
         (Msg ''actor ID length must be between 1 and 160 characters'' []))
     else if pr_TenantID prin = [] \<or> pr_RepositoryID prin = [] then
       Inl (New CodeUnauthenticated ''control.NewScopedPrincipal''
         (Msg ''tenant and repository authority are required'' []))
     else grantPermissions permissions prin)"

definition NewPrincipal :: "string \<Rightarrow> string \<Rightarrow> Permission list \<Rightarrow> Principal result" where
  "NewPrincipal actorType actorID permissions =
     NewScopedPrincipal actorType actorID LocalTenantID LocalRepositoryID permissions"

record CommandContext =
  cc_IdempotencyKey :: string
  cc_CorrelationID :: string
  cc_CausationID :: "string option"

record PlanSprintInput =
  pi_Title :: string
  pi_Objective :: string
  pi_Command :: CommandContext

record SubmitSprintInput =
  si_SprintID :: string
  si_ExpectedVersion :: int
  si_RiskClass :: string
  si_Command :: CommandContext

record ResolveDecisionInput =
  ri_DecisionID :: string
  ri_ExpectedVersion :: int
  ri_Reason :: string
  ri_Command :: CommandContext

record TransitionInput =
  ti_RunID :: string
  ti_ExpectedVersion :: int
  ti_Command :: CommandContext

section \<open>The repository interface\<close>

record 's Repository =
  repo_Authority :: Authority
  repo_PlanSprint :: "PlanCommand \<Rightarrow> CommandMetadata \<Rightarrow> 's \<Rightarrow> PlanResult result \<times> 's"
  repo_GetSprint :: "SprintID \<Rightarrow> 's \<Rightarrow> Sprint result"
  repo_SubmitSprint :: "SubmitCommand \<Rightarrow> CommandMetadata \<Rightarrow> 's \<Rightarrow> SubmissionResult result \<times> 's"
  repo_ResolveDecision :: "DecideCommand \<Rightarrow> CommandMetadata \<Rightarrow> 's \<Rightarrow> DecisionResult result \<times> 's"
  repo_GetRun :: "RunID \<Rightarrow> 's \<Rightarrow> Run result"
  repo_TransitionRun :: "RunID \<Rightarrow> int \<Rightarrow> State \<Rightarrow> CommandMetadata \<Rightarrow> 's \<Rightarrow> Run result \<times> 's"
  repo_ResumeRun :: "RunID \<Rightarrow> int \<Rightarrow> CommandMetadata \<Rightarrow> 's \<Rightarrow> Run result \<times> 's"
  repo_RecordToolAudit :: "AuditRecord \<Rightarrow> 's \<Rightarrow> unit result \<times> 's"

definition memoryRepository :: "(string \<Rightarrow> 'h) \<Rightarrow> (nat \<Rightarrow> time) \<Rightarrow> 'h MemoryRepository Repository" where
  "memoryRepository sha256 now = \<lparr>repo_Authority = Memory_Authority,
     repo_PlanSprint = PlanSprint sha256 now, repo_GetSprint = GetSprint,
     repo_SubmitSprint = SubmitSprint sha256 now, repo_ResolveDecision = ResolveDecision sha256 now,
     repo_GetRun = GetRun, repo_TransitionRun = TransitionRun sha256 now,
     repo_ResumeRun = ResumeRun sha256 now, repo_RecordToolAudit = RecordToolAudit (now 0)\<rparr>"

record 's Service =
  repository :: "'s Repository"
  newSprintID :: "SprintID result"
  newDecisionID :: "DecisionID result"
  newRunID :: "RunID result"

section \<open>Validation and authorization\<close>

definition authorizeScope :: "'s Service \<Rightarrow> Principal \<Rightarrow> error option" where
  "authorizeScope s prin =
    (let authority = repo_Authority (repository s) in
     if pr_TenantID prin \<noteq> auth_tenant_id authority
        \<or> pr_RepositoryID prin \<noteq> auth_repository_id authority then
       Some (New CodePermissionDenied ''control.authorizeScope''
         (Msg ''principal authority does not match the bound repository'' []))
     else None)"

definition authorize :: "'s Service \<Rightarrow> Principal \<Rightarrow> Permission \<Rightarrow> error option" where
  "authorize s prin permission =
    (if pr_ActorID prin = [] \<or> pr_ActorType prin = [] then
       Some (New CodeUnauthenticated ''control.authorize''
         (Msg ''authenticated principal is required'' []))
     else if permission \<notin> pr_Permissions prin then
       Some (New CodePermissionDenied ''control.authorize''
         (Msg ''permission %q is required'' [FStr permission]))
     else authorizeScope s prin)"

definition metadata :: "Principal \<Rightarrow> CommandContext \<Rightarrow> string list \<Rightarrow> CommandMetadata result" where
  "metadata prin command auditToolName =
    (let toolName = (case auditToolName of [] \<Rightarrow> [] | t # _ \<Rightarrow> t);
         value = \<lparr>IdempotencyKey = TrimSpace (cc_IdempotencyKey command),
           ActorType = pr_ActorType prin, ActorID = pr_ActorID prin,
           CorrelationID = TrimSpace (cc_CorrelationID command),
           CausationID = cc_CausationID command, AuditToolName = toolName\<rparr>
     in case ValidateCommandMetadata value of Some err \<Rightarrow> Inl err | None \<Rightarrow> Inr value)"

definition validateTitle :: "string \<Rightarrow> error option" where
  "validateTitle value =
    (if rune_count (TrimSpace value) < 1 \<or> rune_count (TrimSpace value) > 500 then
       Some (New CodeInvalidArgument ''control.validateTitle''
         (Msg ''title length must be between 1 and 500 characters'' []))
     else None)"

definition control_validateObjective :: "string \<Rightarrow> error option" where
  "control_validateObjective value =
    (if rune_count (TrimSpace value) < 3 \<or> rune_count (TrimSpace value) > 8000 then
       Some (New CodeInvalidArgument ''control.validateObjective''
         (Msg ''objective length must be between 3 and 8000 characters'' []))
     else None)"

definition validateRiskClass :: "string \<Rightarrow> error option" where
  "validateRiskClass value =
    (if value \<in> {''low'', ''medium'', ''high'', ''critical''} then None
     else Some (New CodeInvalidArgument ''control.validateRiskClass''
       (Msg ''risk class must be low, medium, high, or critical'' [])))"

definition isMutatingAuditTool :: "string \<Rightarrow> bool" where
  "isMutatingAuditTool tool \<longleftrightarrow> tool \<in> {auditToolPlanSprint, auditToolSubmitSprint,
     auditToolApproveDecision, auditToolRejectDecision, auditToolCancelRun, auditToolResumeRun}"

section \<open>Operations\<close>

definition Service_PlanSprint ::
    "'s Service \<Rightarrow> Principal \<Rightarrow> PlanSprintInput \<Rightarrow> 's \<Rightarrow> PlanResult result \<times> 's" where
  "Service_PlanSprint s prin input st =
    (case authorize s prin PermissionPlan of Some err \<Rightarrow> (Inl err, st) | None \<Rightarrow>
    (case validateTitle (pi_Title input) of Some err \<Rightarrow> (Inl err, st) | None \<Rightarrow>
    (case control_validateObjective (pi_Objective input) of Some err \<Rightarrow> (Inl err, st) | None \<Rightarrow>
    (case metadata prin (pi_Command input) [auditToolPlanSprint] of Inl err \<Rightarrow> (Inl err, st) | Inr m \<Rightarrow>
    (case newSprintID s of
       Inl err \<Rightarrow> (Inl (WrapErr CodeInternal ''control.PlanSprint'' (Msg ''generate sprint ID'' []) err), st)
     | Inr sprintID \<Rightarrow>
    (case newRunID s of
       Inl err \<Rightarrow> (Inl (WrapErr CodeInternal ''control.PlanSprint'' (Msg ''generate run ID'' []) err), st)
     | Inr runID \<Rightarrow>
         repo_PlanSprint (repository s)
           \<lparr>pc_SprintID = sprintID, pc_RunID = runID, pc_Title = TrimSpace (pi_Title input),
            pc_Objective = TrimSpace (pi_Objective input)\<rparr> m st))))))"

definition Service_GetSprint ::
    "'s Service \<Rightarrow> Principal \<Rightarrow> string \<Rightarrow> CommandContext \<Rightarrow> 's \<Rightarrow> Sprint result" where
  "Service_GetSprint s prin sprintID command st =
    (case authorize s prin PermissionRead of Some err \<Rightarrow> Inl err | None \<Rightarrow>
    (case metadata prin command [] of Inl err \<Rightarrow> Inl err | Inr _ \<Rightarrow>
    (case ParseSprintID sprintID of
       Inl err \<Rightarrow> Inl (WrapErr CodeInvalidArgument ''control.GetSprint'' (Msg ''parse sprint ID'' []) err)
     | Inr i \<Rightarrow> repo_GetSprint (repository s) i st)))"

definition Service_SubmitSprint ::
    "'s Service \<Rightarrow> Principal \<Rightarrow> SubmitSprintInput \<Rightarrow> 's \<Rightarrow> SubmissionResult result \<times> 's" where
  "Service_SubmitSprint s prin input st =
    (case authorize s prin PermissionSubmit of Some err \<Rightarrow> (Inl err, st) | None \<Rightarrow>
    (case ParseSprintID (si_SprintID input) of
       Inl err \<Rightarrow> (Inl (WrapErr CodeInvalidArgument ''control.SubmitSprint'' (Msg ''parse sprint ID'' []) err), st)
     | Inr i \<Rightarrow>
         if si_ExpectedVersion input < 1 then
           (Inl (New CodeInvalidArgument ''control.SubmitSprint''
              (Msg ''expected version must be positive'' [])), st)
         else
    (case validateRiskClass (si_RiskClass input) of Some err \<Rightarrow> (Inl err, st) | None \<Rightarrow>
    (case metadata prin (si_Command input) [auditToolSubmitSprint] of Inl err \<Rightarrow> (Inl err, st) | Inr m \<Rightarrow>
    (case newDecisionID s of
       Inl err \<Rightarrow> (Inl (WrapErr CodeInternal ''control.SubmitSprint'' (Msg ''generate decision ID'' []) err), st)
     | Inr decisionID \<Rightarrow>
         repo_SubmitSprint (repository s)
           \<lparr>sc_SprintID = i, sc_DecisionID = decisionID, sc_ExpectedVersion = si_ExpectedVersion input,
            sc_RiskClass = si_RiskClass input\<rparr> m st)))))"

definition Service_ResolveDecision ::
    "'s Service \<Rightarrow> Principal \<Rightarrow> ResolveDecisionInput \<Rightarrow> bool \<Rightarrow> 's \<Rightarrow> DecisionResult result \<times> 's" where
  "Service_ResolveDecision s prin input approve st =
    (case authorize s prin PermissionDecide of Some err \<Rightarrow> (Inl err, st) | None \<Rightarrow>
    (case ParseDecisionID (ri_DecisionID input) of
       Inl err \<Rightarrow> (Inl (WrapErr CodeInvalidArgument ''control.ResolveDecision'' (Msg ''parse decision ID'' []) err), st)
     | Inr i \<Rightarrow>
         if ri_ExpectedVersion input < 1 then
           (Inl (New CodeInvalidArgument ''control.ResolveDecision''
              (Msg ''expected version must be positive'' [])), st)
         else
           let reason = TrimSpace (ri_Reason input) in
           if rune_count reason < 3 \<or> rune_count reason > 2000 then
             (Inl (New CodeInvalidArgument ''control.ResolveDecision''
                (Msg ''reason length must be between 3 and 2000 characters'' [])), st)
           else
             let auditTool = (if approve then auditToolApproveDecision else auditToolRejectDecision) in
    (case metadata prin (ri_Command input) [auditTool] of Inl err \<Rightarrow> (Inl err, st) | Inr m \<Rightarrow>
         repo_ResolveDecision (repository s)
           \<lparr>dc_DecisionID = i, dc_ExpectedVersion = ri_ExpectedVersion input, dc_Approve = approve,
            dc_Reason = reason\<rparr> m st)))"

definition Service_GetRun ::
    "'s Service \<Rightarrow> Principal \<Rightarrow> string \<Rightarrow> CommandContext \<Rightarrow> 's \<Rightarrow> Run result" where
  "Service_GetRun s prin runID command st =
    (case authorize s prin PermissionRead of Some err \<Rightarrow> Inl err | None \<Rightarrow>
    (case metadata prin command [] of Inl err \<Rightarrow> Inl err | Inr _ \<Rightarrow>
    (case ParseRunID runID of
       Inl err \<Rightarrow> Inl (WrapErr CodeInvalidArgument ''control.GetRun'' (Msg ''parse run ID'' []) err)
     | Inr i \<Rightarrow> repo_GetRun (repository s) i st)))"

definition Service_transition ::
    "'s Service \<Rightarrow> Principal \<Rightarrow> TransitionInput \<Rightarrow> Permission \<Rightarrow> State \<Rightarrow> 's \<Rightarrow> Run result \<times> 's" where
  "Service_transition s prin input permission target st =
    (case authorize s prin permission of Some err \<Rightarrow> (Inl err, st) | None \<Rightarrow>
    (case ParseRunID (ti_RunID input) of
       Inl err \<Rightarrow> (Inl (WrapErr CodeInvalidArgument ''control.transition'' (Msg ''parse run ID'' []) err), st)
     | Inr i \<Rightarrow>
         if ti_ExpectedVersion input < 1 then
           (Inl (New CodeInvalidArgument ''control.transition''
              (Msg ''expected version must be positive'' [])), st)
         else
           let auditTool = (if target = StateCancelling then auditToolCancelRun else []) in
    (case metadata prin (ti_Command input) [auditTool] of Inl err \<Rightarrow> (Inl err, st) | Inr m \<Rightarrow>
         repo_TransitionRun (repository s) i (ti_ExpectedVersion input) target m st)))"

definition Service_CancelRun ::
    "'s Service \<Rightarrow> Principal \<Rightarrow> TransitionInput \<Rightarrow> 's \<Rightarrow> Run result \<times> 's" where
  "Service_CancelRun s prin input =
     Service_transition s prin input PermissionCancel StateCancelling"

definition Service_ResumeRun ::
    "'s Service \<Rightarrow> Principal \<Rightarrow> TransitionInput \<Rightarrow> 's \<Rightarrow> Run result \<times> 's" where
  "Service_ResumeRun s prin input st =
    (case authorize s prin PermissionResume of Some err \<Rightarrow> (Inl err, st) | None \<Rightarrow>
         if ti_ExpectedVersion input < 1 then
           (Inl (New CodeInvalidArgument ''control.ResumeRun''
              (Msg ''expected version must be positive'' [])), st)
         else
    (case ParseRunID (ti_RunID input) of
       Inl err \<Rightarrow> (Inl (WrapErr CodeInvalidArgument ''control.ResumeRun'' (Msg ''parse run ID'' []) err), st)
     | Inr i \<Rightarrow>
    (case metadata prin (ti_Command input) [auditToolResumeRun] of Inl err \<Rightarrow> (Inl err, st) | Inr m \<Rightarrow>
         repo_ResumeRun (repository s) i (ti_ExpectedVersion input) m st)))"

definition Service_RecordToolAudit ::
    "'s Service \<Rightarrow> Principal \<Rightarrow> AuditRecord \<Rightarrow> 's \<Rightarrow> unit result \<times> 's" where
  "Service_RecordToolAudit s prin rec st =
    (if pr_ActorID prin = [] then
       (Inl (New CodeUnauthenticated ''control.RecordToolAudit'' (Msg ''principal is required'' [])), st)
     else
    (case (if audit_Outcome rec = ''denied'' then
             (if audit_ErrorCode rec \<noteq> CodeString CodePermissionDenied then
                Some (New CodeInvalidArgument ''control.RecordToolAudit''
                  (Msg ''denied audits require the permission_denied error code'' []))
              else None)
           else authorizeScope s prin) of
       Some err \<Rightarrow> (Inl err, st)
     | None \<Rightarrow>
         if audit_Replay rec then
           (Inl (New CodeInvalidArgument ''control.RecordToolAudit''
              (Msg ''replay audits are emitted only by the idempotent repository path'' [])), st)
         else if audit_Outcome rec = ''succeeded'' \<and> isMutatingAuditTool (audit_ToolName rec) then
           (Inl (New CodeInvalidArgument ''control.RecordToolAudit''
              (Msg ''mutating success audits must commit atomically with their domain command'' [])), st)
         else repo_RecordToolAudit (repository s)
           (rec\<lparr>audit_ActorType := pr_ActorType prin, audit_ActorID := pr_ActorID prin\<rparr>) st))"

section \<open>The contract between the service and a repository\<close>

text \<open>What a successful command writes to the audit trail.\<close>

definition success_records :: "CommandMetadata \<Rightarrow> AuditRecord list \<Rightarrow> bool" where
  "success_records m rs \<longleftrightarrow>
     (\<forall>r \<in> set rs. audit_ActorID r = ActorID m \<and> audit_ToolName r = AuditToolName m)"

text \<open>
  The repositories the service is bound to, one for each behaviour of the clock, all
  working on the states \<open>'s\<close>. \<open>deciders\<close> are the actors recorded as having taken a
  decision, \<open>trail\<close> is the audit trail, and \<open>fresh\<close> says that a decision identifier is unused.
\<close>

locale governed_repository =
  fixes repos :: "'s Repository set"
    and inv :: "'s \<Rightarrow> bool"
    and fresh :: "'s \<Rightarrow> DecisionID \<Rightarrow> bool"
    and deciders :: "'s \<Rightarrow> string set"
    and trail :: "'s \<Rightarrow> AuditRecord list"
  assumes plan_law: "repo \<in> repos \<Longrightarrow> inv s \<Longrightarrow> pc_SprintID pc \<noteq> [] \<Longrightarrow>
        repo_PlanSprint repo pc m s = (resp, t) \<Longrightarrow>
        inv t \<and> deciders t \<subseteq> deciders s \<and> (\<exists>rs. trail t = trail s @ rs \<and> success_records m rs)"
    and submit_law: "repo \<in> repos \<Longrightarrow> inv s \<Longrightarrow> fresh s (sc_DecisionID sc) \<Longrightarrow>
        repo_SubmitSprint repo sc m s = (ress, t) \<Longrightarrow>
        inv t \<and> deciders t \<subseteq> deciders s \<and> (\<exists>rs. trail t = trail s @ rs \<and> success_records m rs)"
    and resolve_law: "repo \<in> repos \<Longrightarrow> inv s \<Longrightarrow> repo_ResolveDecision repo dc m s = (resd, t) \<Longrightarrow>
        inv t \<and> deciders t \<subseteq> insert (ActorID m) (deciders s)
        \<and> (\<exists>rs. trail t = trail s @ rs \<and> success_records m rs)"
    and transition_law: "repo \<in> repos \<Longrightarrow> inv s \<Longrightarrow> repo_TransitionRun repo i v target m s = (resr, t) \<Longrightarrow>
        inv t \<and> deciders t \<subseteq> deciders s \<and> (\<exists>rs. trail t = trail s @ rs \<and> success_records m rs)"
    and resume_law: "repo \<in> repos \<Longrightarrow> inv s \<Longrightarrow> repo_ResumeRun repo i v m s = (resr, t) \<Longrightarrow>
        inv t \<and> deciders t \<subseteq> deciders s \<and> (\<exists>rs. trail t = trail s @ rs \<and> success_records m rs)"
    and audit_law: "repo \<in> repos \<Longrightarrow> inv s \<Longrightarrow> repo_RecordToolAudit repo rec s = (resa, t) \<Longrightarrow>
        inv t \<and> deciders t \<subseteq> deciders s
        \<and> (\<exists>rs. trail t = trail s @ rs \<and> (\<forall>r \<in> set rs. \<exists>at. r = rec\<lparr>audit_OccurredAt := at\<rparr>))"

text \<open>
  One call of the service. \<open>G\<close> are the permissions granted: an actor acts through principals
  whose permissions are among those granted to it. Identifiers come from \<open>identity\<close>, so a
  sprint identifier is not empty, and a decision identifier is fresh.
\<close>

inductive service_step :: "'s Repository set \<Rightarrow> ('s \<Rightarrow> DecisionID \<Rightarrow> bool) \<Rightarrow> (string \<times> Permission) set
    \<Rightarrow> 's \<Rightarrow> 's \<Rightarrow> bool" for repos fresh G where
  call_Plan: "repository sv \<in> repos \<Longrightarrow> \<forall>q \<in> pr_Permissions p. (pr_ActorID p, q) \<in> G \<Longrightarrow>
     newSprintID sv \<noteq> Inr [] \<Longrightarrow> Service_PlanSprint sv p pin s = (resp, t) \<Longrightarrow> service_step repos fresh G s t"
| call_Submit: "repository sv \<in> repos \<Longrightarrow> \<forall>q \<in> pr_Permissions p. (pr_ActorID p, q) \<in> G \<Longrightarrow>
     \<forall>d. newDecisionID sv = Inr d \<longrightarrow> fresh s d \<Longrightarrow> Service_SubmitSprint sv p sin s = (ress, t) \<Longrightarrow>
     service_step repos fresh G s t"
| call_Resolve: "repository sv \<in> repos \<Longrightarrow> \<forall>q \<in> pr_Permissions p. (pr_ActorID p, q) \<in> G \<Longrightarrow>
     Service_ResolveDecision sv p rin ok s = (resd, t) \<Longrightarrow> service_step repos fresh G s t"
| call_Cancel: "repository sv \<in> repos \<Longrightarrow> \<forall>q \<in> pr_Permissions p. (pr_ActorID p, q) \<in> G \<Longrightarrow>
     Service_CancelRun sv p tin s = (resr, t) \<Longrightarrow> service_step repos fresh G s t"
| call_Resume: "repository sv \<in> repos \<Longrightarrow> \<forall>q \<in> pr_Permissions p. (pr_ActorID p, q) \<in> G \<Longrightarrow>
     Service_ResumeRun sv p tin s = (resr, t) \<Longrightarrow> service_step repos fresh G s t"
| call_Audit: "repository sv \<in> repos \<Longrightarrow> \<forall>q \<in> pr_Permissions p. (pr_ActorID p, q) \<in> G \<Longrightarrow>
     Service_RecordToolAudit sv p rec s = (resa, t) \<Longrightarrow> service_step repos fresh G s t"

definition toolPermission :: "string \<Rightarrow> Permission" where
  "toolPermission tool =
    (if tool = auditToolPlanSprint then PermissionPlan
     else if tool = auditToolSubmitSprint then PermissionSubmit
     else if tool = auditToolApproveDecision \<or> tool = auditToolRejectDecision then PermissionDecide
     else if tool = auditToolCancelRun then PermissionCancel
     else PermissionResume)"

lemma toolPermission_simps [simp]:
  "toolPermission auditToolPlanSprint = PermissionPlan"
  "toolPermission auditToolSubmitSprint = PermissionSubmit"
  "toolPermission auditToolApproveDecision = PermissionDecide"
  "toolPermission auditToolRejectDecision = PermissionDecide"
  "toolPermission auditToolCancelRun = PermissionCancel"
  "toolPermission auditToolResumeRun = PermissionResume"
  by (simp_all add: toolPermission_def auditToolPlanSprint_def auditToolSubmitSprint_def
      auditToolApproveDecision_def auditToolRejectDecision_def auditToolCancelRun_def auditToolResumeRun_def)

definition trail_sound :: "(string \<times> Permission) set \<Rightarrow> AuditRecord list \<Rightarrow> bool" where
  "trail_sound G rs \<longleftrightarrow> (\<forall>r \<in> set rs. audit_Outcome r = ''succeeded'' \<and> isMutatingAuditTool (audit_ToolName r)
     \<longrightarrow> (audit_ActorID r, toolPermission (audit_ToolName r)) \<in> G)"

lemma trail_sound_append [simp]: "trail_sound G (rs @ qs) \<longleftrightarrow> trail_sound G rs \<and> trail_sound G qs"
  by (auto simp: trail_sound_def)

lemma success_records_sound:
  "success_records m rs \<Longrightarrow> (ActorID m, toolPermission (AuditToolName m)) \<in> G \<Longrightarrow> trail_sound G rs"
  by (simp add: success_records_def trail_sound_def)

lemma authorize_None: "authorize sv p q = None \<Longrightarrow>
    q \<in> pr_Permissions p \<and> pr_ActorID p \<noteq> [] \<and> pr_TenantID p = auth_tenant_id (repo_Authority (repository sv))
    \<and> pr_RepositoryID p = auth_repository_id (repo_Authority (repository sv))"
  by (auto simp: authorize_def authorizeScope_def Let_def split: if_splits)

lemma metadata_Inr: "metadata p c (tool # ts) = Inr m \<Longrightarrow> ActorID m = pr_ActorID p \<and> AuditToolName m = tool"
  by (auto simp: metadata_def Let_def split: option.splits)

text \<open>Every operation either leaves the state alone or calls the repository as an authorized actor.\<close>

definition acts_as :: "Principal \<Rightarrow> string \<Rightarrow> CommandMetadata \<Rightarrow> bool" where
  "acts_as p tool m \<longleftrightarrow> ActorID m = pr_ActorID p \<and> AuditToolName m = tool
     \<and> toolPermission tool \<in> pr_Permissions p"

lemma acts_asI:
  "authorize sv p (toolPermission tool) = None \<Longrightarrow> metadata p c [tool] = Inr m \<Longrightarrow> acts_as p tool m"
  by (auto simp: acts_as_def dest: authorize_None metadata_Inr)

lemma Service_PlanSprint_result:
  assumes "Service_PlanSprint sv p pin st = (res, t)"
  shows "t = st \<or> (\<exists>m i c. acts_as p auditToolPlanSprint m \<and> newSprintID sv = Inr i \<and> pc_SprintID c = i
    \<and> repo_PlanSprint (repository sv) c m st = (res, t))"
  using assms acts_asI [of sv p auditToolPlanSprint "pi_Command pin"]
  by (auto simp: Service_PlanSprint_def split: option.splits sum.splits)

lemma Service_SubmitSprint_result:
  assumes "Service_SubmitSprint sv p sin st = (res, t)"
  shows "t = st \<or> (\<exists>m c. acts_as p auditToolSubmitSprint m \<and> newDecisionID sv = Inr (sc_DecisionID c)
    \<and> repo_SubmitSprint (repository sv) c m st = (res, t))"
  using assms acts_asI [of sv p auditToolSubmitSprint "si_Command sin"]
  by (auto simp: Service_SubmitSprint_def split: option.splits sum.splits if_splits)

lemma Service_ResolveDecision_result:
  assumes "Service_ResolveDecision sv p rin ok st = (res, t)"
  shows "t = st \<or> (\<exists>m c tool. acts_as p tool m \<and> toolPermission tool = PermissionDecide
    \<and> repo_ResolveDecision (repository sv) c m st = (res, t))"
  using assms acts_asI [of sv p auditToolApproveDecision "ri_Command rin"]
    acts_asI [of sv p auditToolRejectDecision "ri_Command rin"]
  by (auto simp: Service_ResolveDecision_def Let_def split: option.splits sum.splits if_splits)
    (metis toolPermission_simps(3,4))+

lemma Service_CancelRun_result:
  assumes "Service_CancelRun sv p tin st = (res, t)"
  shows "t = st \<or> (\<exists>m i v. acts_as p auditToolCancelRun m
    \<and> repo_TransitionRun (repository sv) i v StateCancelling m st = (res, t))"
  using assms acts_asI [of sv p auditToolCancelRun "ti_Command tin"]
  by (auto simp: Service_CancelRun_def Service_transition_def Let_def split: option.splits sum.splits if_splits)

lemma Service_ResumeRun_result:
  assumes "Service_ResumeRun sv p tin st = (res, t)"
  shows "t = st \<or> (\<exists>m i v. acts_as p auditToolResumeRun m
    \<and> repo_ResumeRun (repository sv) i v m st = (res, t))"
  using assms acts_asI [of sv p auditToolResumeRun "ti_Command tin"]
  by (auto simp: Service_ResumeRun_def split: option.splits sum.splits if_splits)

lemma Service_RecordToolAudit_result:
  assumes "Service_RecordToolAudit sv p rec st = (res, t)"
  shows "t = st \<or> \<not> (audit_Outcome rec = ''succeeded'' \<and> isMutatingAuditTool (audit_ToolName rec))
    \<and> \<not> audit_Replay rec
    \<and> repo_RecordToolAudit (repository sv)
        (rec\<lparr>audit_ActorType := pr_ActorType p, audit_ActorID := pr_ActorID p\<rparr>) st = (res, t)"
  using assms by (auto simp: Service_RecordToolAudit_def split: option.splits if_splits)

context governed_repository
begin

definition service_ok :: "(string \<times> Permission) set \<Rightarrow> 's \<Rightarrow> bool" where
  "service_ok G s \<longleftrightarrow> inv s \<and> (\<forall>a \<in> deciders s. (a, PermissionDecide) \<in> G) \<and> trail_sound G (trail s)"

lemma acted_ok:
  assumes "service_ok G s" "acts_as p tool m" "\<forall>q \<in> pr_Permissions p. (pr_ActorID p, q) \<in> G"
    and "inv t \<and> deciders t \<subseteq> D \<and> (\<exists>rs. trail t = trail s @ rs \<and> success_records m rs)"
    and "D \<subseteq> deciders s \<or> D \<subseteq> insert (ActorID m) (deciders s) \<and> toolPermission tool = PermissionDecide"
  shows "service_ok G t"
proof -
  have g: "(ActorID m, toolPermission (AuditToolName m)) \<in> G" "toolPermission tool \<in> pr_Permissions p"
    using assms(2,3) by (auto simp: acts_as_def)
  obtain rs where rs: "trail t = trail s @ rs" "success_records m rs" using assms(4) by blast
  have "trail_sound G (trail t)"
    using assms(1) success_records_sound [OF rs(2) g(1)] by (simp add: rs(1) service_ok_def)
  moreover have "\<forall>a \<in> deciders t. (a, PermissionDecide) \<in> G"
    using assms unfolding service_ok_def acts_as_def by auto
  ultimately show ?thesis using assms(4) unfolding service_ok_def by blast
qed

lemma service_step_ok:
  assumes "service_step repos fresh G s t" "service_ok G s"
  shows "service_ok G t"
  using assms(1)
proof cases
  case (call_Plan sv p pin resp)
  then show ?thesis
    using Service_PlanSprint_result [OF call_Plan(4)] assms(2) acted_ok [OF assms(2)] plan_law
    unfolding service_ok_def by (metis subset_refl)
next
  case (call_Submit sv p sin ress)
  then show ?thesis
    using Service_SubmitSprint_result [OF call_Submit(4)] assms(2) acted_ok [OF assms(2)] submit_law
    unfolding service_ok_def by (metis subset_refl)
next
  case (call_Resolve sv p rin ok resd)
  then show ?thesis
    using Service_ResolveDecision_result [OF call_Resolve(3)] assms(2) acted_ok [OF assms(2)] resolve_law
    unfolding service_ok_def by (metis subset_refl)
next
  case (call_Cancel sv p tin resr)
  then show ?thesis
    using Service_CancelRun_result [OF call_Cancel(3)] assms(2) acted_ok [OF assms(2)] transition_law
    unfolding service_ok_def by (metis subset_refl)
next
  case (call_Resume sv p tin resr)
  then show ?thesis
    using Service_ResumeRun_result [OF call_Resume(3)] assms(2) acted_ok [OF assms(2)] resume_law
    unfolding service_ok_def by (metis subset_refl)
next
  case (call_Audit sv p rec resa)
  show ?thesis
    using Service_RecordToolAudit_result [OF call_Audit(3)]
  proof (elim disjE conjE)
    assume rec: "\<not> (audit_Outcome rec = ''succeeded'' \<and> isMutatingAuditTool (audit_ToolName rec))"
      and run: "repo_RecordToolAudit (repository sv)
        (rec\<lparr>audit_ActorType := pr_ActorType p, audit_ActorID := pr_ActorID p\<rparr>) s = (resa, t)"
    have "inv s" using assms(2) by (simp add: service_ok_def)
    from audit_law [OF call_Audit(1) this run] obtain rs where rs: "inv t" "deciders t \<subseteq> deciders s"
        "trail t = trail s @ rs"
        "\<forall>r \<in> set rs. \<exists>at. r = rec\<lparr>audit_ActorType := pr_ActorType p, audit_ActorID := pr_ActorID p,
           audit_OccurredAt := at\<rparr>"
      by auto
    have "trail_sound G rs"
      unfolding trail_sound_def
    proof
      fix r assume "r \<in> set rs"
      then obtain at where "r = rec\<lparr>audit_ActorType := pr_ActorType p, audit_ActorID := pr_ActorID p,
           audit_OccurredAt := at\<rparr>"
        using rs(4) by blast
      with rec show "audit_Outcome r = ''succeeded'' \<and> isMutatingAuditTool (audit_ToolName r)
          \<longrightarrow> (audit_ActorID r, toolPermission (audit_ToolName r)) \<in> G" by simp blast
    qed
    with rs assms(2) show ?thesis by (auto simp: service_ok_def)
  qed (use assms(2) in simp)
qed

lemma service_steps_ok: "(service_step repos fresh G)\<^sup>*\<^sup>* s t \<Longrightarrow> service_ok G s \<Longrightarrow> service_ok G t"
  by (induction rule: rtranclp_induct) (auto intro: service_step_ok)

end

section \<open>The in-memory repository keeps the contract\<close>

definition memory_repositories :: "(string \<Rightarrow> 'h) \<Rightarrow> 'h MemoryRepository Repository set" where
  "memory_repositories sha256 = range (memoryRepository sha256)"

definition memory_deciders :: "'h MemoryRepository \<Rightarrow> string set" where
  "memory_deciders s = {a. \<exists>d x. decisions s d = Some x \<and> decision_decided_by x = Some a}"

lemma memory_deciders_mono: "decisions t = decisions s \<Longrightarrow> memory_deciders t = memory_deciders s"
  by (simp add: memory_deciders_def)

lemma memory_deciders_upd:
  "decisions t = (decisions s)(d \<mapsto> x) \<Longrightarrow> memory_deciders t \<subseteq> set_option (decision_decided_by x) \<union> memory_deciders s"
  by (auto simp: memory_deciders_def split: if_splits)

lemma Locked_decisions:
  "planSprintLocked now pc s = Inr (a, u) \<Longrightarrow> decisions u = decisions s"
  "submitSprintLocked now sc m s = Inr (b, u) \<Longrightarrow>
     decisions u = (decisions s)(sc_DecisionID sc \<mapsto> sub_decision b) \<and> decision_decided_by (sub_decision b) = None"
  "resolveDecisionLocked now dc m s = Inr (c, u) \<Longrightarrow>
     decisions u = (decisions s)(dc_DecisionID dc \<mapsto> dec_decision c)
     \<and> decision_decided_by (dec_decision c) = Some (ActorID m)"
  "transitionRunLocked now i v target s = Inr (d, u) \<Longrightarrow> decisions u = decisions s"
  "resumeRunLocked now i v s = Inr (e, u) \<Longrightarrow> decisions u = decisions s"
  by (auto simp: planSprintLocked_def submitSprintLocked_def resolveDecisionLocked_def
      transitionRunLocked_def resumeRunLocked_def Let_def
      split: if_splits option.splits sum.splits prod.splits)

lemma Locked_deciders:
  "planSprintLocked now pc s = Inr (a, u) \<Longrightarrow> memory_deciders u \<subseteq> memory_deciders s"
  "submitSprintLocked now sc m s = Inr (b, u) \<Longrightarrow> memory_deciders u \<subseteq> memory_deciders s"
  "resolveDecisionLocked now dc m s = Inr (c, u) \<Longrightarrow> memory_deciders u \<subseteq> insert (ActorID m) (memory_deciders s)"
  "transitionRunLocked now i v target s = Inr (d, u) \<Longrightarrow> memory_deciders u \<subseteq> memory_deciders s"
  "resumeRunLocked now i v s = Inr (e, u) \<Longrightarrow> memory_deciders u \<subseteq> memory_deciders s"
  subgoal by (drule Locked_decisions(1), drule memory_deciders_mono) simp
  subgoal by (drule Locked_decisions(2), elim conjE, drule memory_deciders_upd) simp
  subgoal by (drule Locked_decisions(3), elim conjE, drule memory_deciders_upd) simp
  subgoal by (drule Locked_decisions(4), drule memory_deciders_mono) simp
  subgoal by (drule Locked_decisions(5), drule memory_deciders_mono) simp
  done

lemma governed_deciders:
  assumes "governed decode encode scope h at1 at2 m work s = (res, t)"
    and "\<And>r u. work s = Inr (r, u) \<Longrightarrow> mreceipts u = mreceipts s"
    and "\<And>r u. work s = Inr (r, u) \<Longrightarrow> memory_deciders u \<subseteq> D" "memory_deciders s \<subseteq> D"
  shows "memory_deciders t \<subseteq> D"
  using assms(1)
proof (rule governed_preserves)
  show "memory_deciders t \<subseteq> D" if "same_governed s t"
    using that assms(4) by (simp add: same_governed_def memory_deciders_def)
  show "memory_deciders t \<subseteq> D" if "work s = Inr (r, u)" "same_governed u t" for r u
    using that assms(3) [OF that(1)] by (simp add: same_governed_def memory_deciders_def)
qed (rule assms(2))

lemma audit_exact_records:
  assumes "audit_exact m scope s (res, t)"
  shows "\<exists>rs. audits t = audits s @ rs \<and> success_records m rs"
proof (cases res)
  case (Inl e)
  with assms show ?thesis by (simp add: audit_exact_def success_records_def)
next
  case (Inr r)
  with assms show ?thesis
    by (cases "AuditToolName m = []") (auto simp: audit_exact_def success_records_def)
qed


lemma audit_restamped: "\<exists>at. rec = rec\<lparr>audit_OccurredAt := at\<rparr>"
  by (rule exI [of _ "audit_OccurredAt rec"]) simp

interpretation memory: governed_repository "memory_repositories sha256" control_inv
  "\<lambda>s d. decisions s d = None" memory_deciders audits
  for sha256
proof (unfold_locales, goal_cases)
  case (1 repo s pc m resp t)
  then obtain now where run: "PlanSprint sha256 now pc m s = (resp, t)"
    by (auto simp: memory_repositories_def memoryRepository_def)
  have "control_inv t" by (rule control_step_inv [OF step_Plan [OF run 1(3)] 1(2)])
  moreover have "memory_deciders t \<subseteq> memory_deciders s"
    by (rule governed_deciders [OF run [unfolded PlanSprint_governed]]) (auto dest: Locked_receipts Locked_deciders)
  moreover have "audit_exact m plan_scope s (resp, t)" using audit_exact_ops(1) run by metis
  ultimately show ?case using audit_exact_records by blast
next
  case (2 repo s sc m ress t)
  then obtain now where run: "SubmitSprint sha256 now sc m s = (ress, t)"
    by (auto simp: memory_repositories_def memoryRepository_def)
  have "control_inv t" by (rule control_step_inv [OF step_Submit [OF run 2(3)] 2(2)])
  moreover have "memory_deciders t \<subseteq> memory_deciders s"
    by (rule governed_deciders [OF run [unfolded SubmitSprint_governed]]) (auto dest: Locked_receipts Locked_deciders)
  moreover have "audit_exact m (submit_scope (sc_SprintID sc)) s (ress, t)" using audit_exact_ops(2) run by metis
  ultimately show ?case using audit_exact_records by blast
next
  case (3 repo s dc m resd t)
  then obtain now where run: "ResolveDecision sha256 now dc m s = (resd, t)"
    by (auto simp: memory_repositories_def memoryRepository_def)
  have "control_inv t" by (rule control_step_inv [OF step_Resolve [OF run] 3(2)])
  moreover have "memory_deciders t \<subseteq> insert (ActorID m) (memory_deciders s)"
    by (rule governed_deciders [OF run [unfolded ResolveDecision_governed]]) (auto dest: Locked_receipts Locked_deciders)
  moreover have "audit_exact m (resolve_scope (dc_DecisionID dc)) s (resd, t)" using audit_exact_ops(3) run by metis
  ultimately show ?case using audit_exact_records by blast
next
  case (4 repo s i v target m resr t)
  then obtain now where run: "TransitionRun sha256 now i v target m s = (resr, t)"
    by (auto simp: memory_repositories_def memoryRepository_def)
  have "control_inv t" by (rule control_step_inv [OF step_Move [OF run] 4(2)])
  moreover have "memory_deciders t \<subseteq> memory_deciders s"
    by (rule governed_deciders [OF run [unfolded TransitionRun_governed]]) (auto dest: Locked_receipts Locked_deciders)
  moreover have "audit_exact m (move_scope i) s (resr, t)" using audit_exact_ops(4) run by metis
  ultimately show ?case using audit_exact_records by blast
next
  case (5 repo s i v m resr t)
  then obtain now where run: "ResumeRun sha256 now i v m s = (resr, t)"
    by (auto simp: memory_repositories_def memoryRepository_def)
  have "control_inv t" by (rule control_step_inv [OF step_Resume [OF run] 5(2)])
  moreover have "memory_deciders t \<subseteq> memory_deciders s"
  proof (cases "v < 1")
    case True
    then show ?thesis using ResumeRun_refused [of v sha256 now i m s] run by auto
  next
    case False
    show ?thesis
      by (rule governed_deciders [OF run [unfolded ResumeRun_governed [OF leI [OF False]]]])
        (auto dest: Locked_receipts Locked_deciders)
  qed
  moreover have "audit_exact m (resume_scope i) s (resr, t)" using audit_exact_ops(5) run by metis
  ultimately show ?case using audit_exact_records by blast
next
  case (6 repo s rec resa t)
  then obtain now where run: "RecordToolAudit (now 0) rec s = (resa, t)"
    by (auto simp: memory_repositories_def memoryRepository_def)
  have "control_inv t" by (rule control_step_inv [OF step_Audit [OF run] 6(2)])
  moreover have "memory_deciders t = memory_deciders s"
    by (rule memory_deciders_mono) (use run in \<open>auto simp: RecordToolAudit_def Let_def split: if_splits\<close>)
  moreover have "\<exists>rs. audits t = audits s @ rs \<and> (\<forall>r \<in> set rs. \<exists>at. r = rec\<lparr>audit_OccurredAt := at\<rparr>)"
    using run by (auto simp: RecordToolAudit_def Let_def audit_restamped split: if_splits)
  ultimately show ?case by blast
qed

section \<open>Properties\<close>

lemma grantPermissions_Inr:
  assumes "grantPermissions qs p = Inr p'"
    "pr_ActorType p \<in> {''agent'', ''worker''} \<longrightarrow> PermissionMemoryPromote \<notin> pr_Permissions p"
  shows "p' = p\<lparr>pr_Permissions := pr_Permissions p \<union> set qs\<rparr> \<and> (\<forall>q \<in> set qs. validPermission q)
    \<and> (pr_ActorType p \<in> {''agent'', ''worker''} \<longrightarrow> PermissionMemoryPromote \<notin> pr_Permissions p')"
  using assms
proof (induction qs arbitrary: p)
  case (Cons q qs)
  let ?p = "p\<lparr>pr_Permissions := insert q (pr_Permissions p)\<rparr>"
  have g: "grantPermissions qs ?p = Inr p'" "validPermission q"
    and "pr_ActorType ?p \<in> {''agent'', ''worker''} \<longrightarrow> PermissionMemoryPromote \<notin> pr_Permissions ?p"
    using Cons.prems by (auto split: if_splits)
  from Cons.IH [OF g(1) this(3)] g(2) show ?case by auto
qed simp

text \<open>
  C19. A principal holds exactly the permissions it was created with, all of them known
  ones; its actor type is one of the four, its actor identifier has between 1 and 160
  characters, and an agent or worker never holds the permission to promote memory.
\<close>

theorem principal_authority:
  assumes "NewScopedPrincipal actorType actorID tenantID repositoryID permissions = Inr p"
  shows "pr_Permissions p = set permissions \<and> (\<forall>q \<in> set permissions. validPermission q)
    \<and> pr_ActorType p \<in> {''human'', ''agent'', ''worker'', ''system''}
    \<and> 1 \<le> rune_count (pr_ActorID p) \<and> rune_count (pr_ActorID p) \<le> 160
    \<and> pr_TenantID p \<noteq> [] \<and> pr_RepositoryID p \<noteq> []
    \<and> \<not> (pr_ActorType p \<in> {''agent'', ''worker''} \<and> PermissionMemoryPromote \<in> pr_Permissions p)"
proof -
  let ?p = "\<lparr>pr_ActorType = TrimSpace actorType, pr_ActorID = TrimSpace actorID,
      pr_TenantID = TrimSpace tenantID, pr_RepositoryID = TrimSpace repositoryID, pr_Permissions = {}\<rparr>"
  have g: "grantPermissions permissions ?p = Inr p"
    and base: "pr_ActorType ?p \<in> {''human'', ''agent'', ''worker'', ''system''}"
      "1 \<le> rune_count (pr_ActorID ?p) \<and> rune_count (pr_ActorID ?p) \<le> 160"
      "pr_TenantID ?p \<noteq> [] \<and> pr_RepositoryID ?p \<noteq> []"
    using assms by (auto simp: NewScopedPrincipal_def Let_def split: if_splits)
  from grantPermissions_Inr [OF g] base show ?thesis by auto
qed

definition sample_principal :: Principal where
  "sample_principal = \<lparr>pr_ActorType = ''human'', pr_ActorID = ''ana'', pr_TenantID = LocalTenantID,
     pr_RepositoryID = LocalRepositoryID, pr_Permissions = set AllPermissions\<rparr>"

lemma TrimSpace_ana: "TrimSpace ''human'' = ''human''" "TrimSpace ''ana'' = ''ana''"
  "TrimSpace LocalTenantID = LocalTenantID" "TrimSpace LocalRepositoryID = LocalRepositoryID"
  by (rule TrimSpace_printable; simp add: byte_in_def LocalTenantID_def LocalRepositoryID_def)+

lemma Local_nonempty: "LocalTenantID \<noteq> []" "LocalRepositoryID \<noteq> []"
  by (simp_all add: LocalTenantID_def LocalRepositoryID_def)

lemma sample_principal_new: "NewPrincipal ''human'' ''ana'' AllPermissions = Inr sample_principal"
  by (simp add: NewPrincipal_def NewScopedPrincipal_def Let_def TrimSpace_ana AllPermissions_def
      validPermission_def sample_principal_def Local_nonempty
      PermissionMemoryPromote_def insert_commute)

theorem principal_authority_witness:
  "pr_Permissions sample_principal = set AllPermissions
   \<and> \<not> (pr_ActorType sample_principal \<in> {''agent'', ''worker''}
       \<and> PermissionMemoryPromote \<in> pr_Permissions sample_principal)"
  using principal_authority [OF sample_principal_new [unfolded NewPrincipal_def]] by blast

definition bound_to :: "'s Service \<Rightarrow> Principal \<Rightarrow> bool" where
  "bound_to sv p \<longleftrightarrow> pr_TenantID p = auth_tenant_id (repo_Authority (repository sv))
     \<and> pr_RepositoryID p = auth_repository_id (repo_Authority (repository sv))"

definition access_error :: "error \<Rightarrow> bool" where
  "access_error e \<longleftrightarrow> CodeOf e = CodeUnauthenticated \<or> CodeOf e = CodePermissionDenied"

lemma authorize_refuses:
  "q \<notin> pr_Permissions p \<or> \<not> bound_to sv p \<Longrightarrow> \<exists>e. authorize sv p q = Some e \<and> access_error e"
  by (auto simp: authorize_def authorizeScope_def Let_def bound_to_def access_error_def)

text \<open>
  C12. Without the permission, or bound to another tenant or repository, a principal reads
  no sprint or run and changes none: each of the five commands and the two reads is refused,
  with an authentication or permission error, before the repository is called. Recording an
  audit needs no permission: it is refused to a principal without a name and, unless it
  records a denial, to one of another scope. The record of a denial (which a principal of
  another scope may leave) must carry the permission code and not claim a replay, and goes
  to the audit trail under the caller's own identity, whatever actor it names.
\<close>

theorem unauthorized_refused:
  "(PermissionPlan \<notin> pr_Permissions p \<or> \<not> bound_to sv p \<longrightarrow>
      (\<exists>e. Service_PlanSprint sv p pin s = (Inl e, s) \<and> access_error e))
   \<and> (PermissionSubmit \<notin> pr_Permissions p \<or> \<not> bound_to sv p \<longrightarrow>
      (\<exists>e. Service_SubmitSprint sv p sin s = (Inl e, s) \<and> access_error e))
   \<and> (PermissionDecide \<notin> pr_Permissions p \<or> \<not> bound_to sv p \<longrightarrow>
      (\<exists>e. Service_ResolveDecision sv p rin ok s = (Inl e, s) \<and> access_error e))
   \<and> (PermissionCancel \<notin> pr_Permissions p \<or> \<not> bound_to sv p \<longrightarrow>
      (\<exists>e. Service_CancelRun sv p tin s = (Inl e, s) \<and> access_error e))
   \<and> (PermissionResume \<notin> pr_Permissions p \<or> \<not> bound_to sv p \<longrightarrow>
      (\<exists>e. Service_ResumeRun sv p tin s = (Inl e, s) \<and> access_error e))
   \<and> (PermissionRead \<notin> pr_Permissions p \<or> \<not> bound_to sv p \<longrightarrow>
      (\<exists>e. Service_GetSprint sv p sid c s = Inl e \<and> access_error e)
      \<and> (\<exists>e. Service_GetRun sv p rid c s = Inl e \<and> access_error e))
   \<and> (pr_ActorID p = [] \<or> \<not> bound_to sv p \<and> audit_Outcome rec \<noteq> ''denied'' \<longrightarrow>
      (\<exists>e. Service_RecordToolAudit sv p rec s = (Inl e, s) \<and> access_error e))
   \<and> (pr_ActorID p \<noteq> [] \<and> audit_Outcome rec = ''denied'' \<longrightarrow>
      (if audit_ErrorCode rec = CodeString CodePermissionDenied \<and> \<not> audit_Replay rec
       then Service_RecordToolAudit sv p rec s = repo_RecordToolAudit (repository sv)
          (rec\<lparr>audit_ActorType := pr_ActorType p, audit_ActorID := pr_ActorID p\<rparr>) s
       else \<exists>e. Service_RecordToolAudit sv p rec s = (Inl e, s) \<and> CodeOf e = CodeInvalidArgument))"
proof (intro conjI)
  show "pr_ActorID p = [] \<or> \<not> bound_to sv p \<and> audit_Outcome rec \<noteq> ''denied'' \<longrightarrow>
      (\<exists>e. Service_RecordToolAudit sv p rec s = (Inl e, s) \<and> access_error e)"
    by (auto simp: Service_RecordToolAudit_def authorizeScope_def bound_to_def Let_def access_error_def)
  show "pr_ActorID p \<noteq> [] \<and> audit_Outcome rec = ''denied'' \<longrightarrow>
      (if audit_ErrorCode rec = CodeString CodePermissionDenied \<and> \<not> audit_Replay rec
       then Service_RecordToolAudit sv p rec s = repo_RecordToolAudit (repository sv)
          (rec\<lparr>audit_ActorType := pr_ActorType p, audit_ActorID := pr_ActorID p\<rparr>) s
       else \<exists>e. Service_RecordToolAudit sv p rec s = (Inl e, s) \<and> CodeOf e = CodeInvalidArgument)"
    by (simp add: Service_RecordToolAudit_def)
qed (intro impI conjI; drule authorize_refuses; elim exE conjE;
      simp add: Service_PlanSprint_def Service_SubmitSprint_def Service_ResolveDecision_def
        Service_CancelRun_def Service_transition_def Service_ResumeRun_def Service_GetSprint_def
        Service_GetRun_def)+

text \<open>A concrete history through the service: the one of the repository.\<close>

definition sample_service :: "(nat \<Rightarrow> time) \<Rightarrow> string MemoryRepository Service" where
  "sample_service now = \<lparr>repository = memoryRepository id now, newSprintID = Inr sample_sid,
     newDecisionID = Inr sample_did, newRunID = Inr sample_rid\<rparr>"

definition sample_context :: CommandContext where
  "sample_context = \<lparr>cc_IdempotencyKey = ''key-0001'', cc_CorrelationID = ''corr-1'', cc_CausationID = None\<rparr>"

definition sample_grants :: "(string \<times> Permission) set" where
  "sample_grants = {''ana''} \<times> set AllPermissions"

lemma TrimSpace_sample [simp]: "TrimSpace ''key-0001'' = ''key-0001''" "TrimSpace ''corr-1'' = ''corr-1''"
  "TrimSpace ''title'' = ''title''" "TrimSpace ''plan'' = ''plan''" "TrimSpace ''okay'' = ''okay''"
  by (rule TrimSpace_printable; simp add: byte_in_def)+

lemma rune_count_sample2 [simp]: "rune_count ''title'' = 5" "rune_count ''okay'' = 4"
  by (simp_all add: rune_count_ascii byte_in_def)

lemma sample_metadata_of:
  "ValidateCommandMetadata (sample_tool tool) = None \<Longrightarrow>
   metadata sample_principal sample_context [tool] = Inr (sample_tool tool)"
  by (simp add: metadata_def sample_principal_def sample_context_def sample_tool_def sample_metadata_def)

lemma sample_authorized:
  "q \<in> set AllPermissions \<Longrightarrow> authorize (sample_service now) sample_principal q = None"
  by (simp add: authorize_def authorizeScope_def sample_principal_def sample_service_def memoryRepository_def
      Memory_Authority_def)

lemma sample_granted: "\<forall>q \<in> pr_Permissions sample_principal. (pr_ActorID sample_principal, q) \<in> sample_grants"
  by (simp add: sample_principal_def sample_grants_def)

abbreviation memory_service_step where
  "memory_service_step sha256 \<equiv> service_step (memory_repositories sha256) (\<lambda>s d. decisions s d = None)"

lemma sample_repository: "repository (sample_service now) \<in> memory_repositories id"
  by (simp add: sample_service_def memory_repositories_def)

lemma sample_call_plan: "memory_service_step id sample_grants NewMemoryRepository sample_planned"
proof (rule call_Plan [OF sample_repository sample_granted, of "\<lambda>_. 5"])
  show "newSprintID (sample_service (\<lambda>_. 5)) \<noteq> Inr []" by (simp add: sample_service_def)
  have "Service_PlanSprint (sample_service (\<lambda>_. 5)) sample_principal
      \<lparr>pi_Title = ''title'', pi_Objective = ''plan'', pi_Command = sample_context\<rparr> NewMemoryRepository
    = PlanSprint id (\<lambda>_. 5) sample_plan (sample_tool ''forja.plan_sprint'') NewMemoryRepository"
    by (simp add: Service_PlanSprint_def sample_authorized AllPermissions_def validateTitle_def
        control_validateObjective_def auditToolPlanSprint_def sample_metadata_of sample_plan_def)
      (simp add: sample_service_def memoryRepository_def)
  then show "Service_PlanSprint (sample_service (\<lambda>_. 5)) sample_principal
      \<lparr>pi_Title = ''title'', pi_Objective = ''plan'', pi_Command = sample_context\<rparr> NewMemoryRepository
    = (Inr \<lparr>plan_sprint = sample_sprint, plan_run = sample_run\<rparr>, sample_planned)"
    using sample_planned_eq by simp
qed

lemma sample_call_submit: "memory_service_step id sample_grants sample_planned sample_submitted"
proof (rule call_Submit [where sv = "sample_service (\<lambda>_. 6)", OF sample_repository sample_granted])
  let ?in = "\<lparr>si_SprintID = sample_sid, si_ExpectedVersion = 1, si_RiskClass = ''high'',
      si_Command = sample_context\<rparr>"
  show "\<forall>d. newDecisionID (sample_service (\<lambda>_. 6)) = Inr d \<longrightarrow> decisions sample_planned d = None" by simp
  have "Service_SubmitSprint (sample_service (\<lambda>_. 6)) sample_principal ?in sample_planned
    = SubmitSprint id (\<lambda>_. 6) sample_submit (sample_tool ''forja.submit_sprint'') sample_planned"
    by (simp add: Service_SubmitSprint_def sample_authorized AllPermissions_def validateRiskClass_def
        auditToolSubmitSprint_def sample_metadata_of sample_submit_def)
      (simp add: sample_service_def memoryRepository_def)
  then show "Service_SubmitSprint (sample_service (\<lambda>_. 6)) sample_principal ?in sample_planned
    = (Inr sample_submission, sample_submitted)"
    using sample_submitted_eq by simp
qed

lemma sample_call_approve: "memory_service_step id sample_grants sample_submitted sample_approved"
proof (rule call_Resolve [OF sample_repository sample_granted, of "\<lambda>_. 7"])
  let ?in = "\<lparr>ri_DecisionID = sample_did, ri_ExpectedVersion = 1, ri_Reason = ''okay'',
      ri_Command = sample_context\<rparr>"
  have "Service_ResolveDecision (sample_service (\<lambda>_. 7)) sample_principal ?in True sample_submitted
    = ResolveDecision id (\<lambda>_. 7) sample_approve (sample_tool ''forja.approve_decision'') sample_submitted"
    by (simp add: Service_ResolveDecision_def sample_authorized AllPermissions_def
        auditToolApproveDecision_def sample_metadata_of sample_approve_def)
      (simp add: sample_service_def memoryRepository_def)
  then show "Service_ResolveDecision (sample_service (\<lambda>_. 7)) sample_principal ?in True sample_submitted
    = (Inr sample_resolution, sample_approved)"
    using sample_approved_eq by simp
qed

lemma sample_service_reachable:
  "(memory_service_step id sample_grants)\<^sup>*\<^sup>* NewMemoryRepository sample_approved"
  by (rule converse_rtranclp_into_rtranclp, rule sample_call_plan,
      rule converse_rtranclp_into_rtranclp, rule sample_call_submit,
      rule r_into_rtranclp, rule sample_call_approve)

lemma service_reachable_ok:
  assumes "(memory_service_step sha256 G)\<^sup>*\<^sup>* NewMemoryRepository s"
  shows "memory.service_ok G s"
proof (rule memory.service_steps_ok [OF assms])
  show "memory.service_ok G NewMemoryRepository"
    unfolding memory.service_ok_def
    by (simp add: control_inv_init) (simp add: NewMemoryRepository_def memory_deciders_def trail_sound_def)
qed

text \<open>
  C1. End to end, work needs the approval of an actor who was granted the permission to
  decide: in every state the service can bring the in-memory repository to, from calls by
  principals whose permissions are among the grants \<open>G\<close>, a run past \<open>awaiting_approval\<close>
  that is not being cancelled has an approved decision taken by an actor with the grant
  \<open>decision:decide\<close>.
\<close>

theorem work_approved_by_granted_actor:
  assumes "(memory_service_step sha256 G)\<^sup>*\<^sup>* NewMemoryRepository s"
    and "mruns s i = Some r" "run_state r = StateString st"
    and "st \<notin> {StateDraft, StateAwaitingApproval, StateCancelling, StateCancelled}"
  shows "\<exists>d x a. decisions s d = Some x \<and> decision_run_id x = i
    \<and> decision_status x = DecisionStatusString DecisionApproved
    \<and> decision_decided_by x = Some a \<and> (a, PermissionDecide) \<in> G"
proof -
  have ok: "control_inv s" "\<forall>a \<in> memory_deciders s. (a, PermissionDecide) \<in> G"
    using service_reachable_ok [OF assms(1)] unfolding memory.service_ok_def by blast+
  note inv = control_invD(3) [OF ok(1)]
  obtain sid sp where sp: "map_of (sprints s) sid = Some sp" "sprint_run_id sp = i"
    using governed_invD(5) [OF inv assms(2)] by blast
  have "agrees (decisions s) sp r"
    using governed_invD(2) [OF inv sp(1)] sp(2) assms(2) by simp
  from agrees_working [OF this assms(3,4)] obtain d x a where "decisions s d = Some x"
      "decision_run_id x = i" "decision_status x = DecisionStatusString DecisionApproved"
      "decision_decided_by x = Some a"
    using sp(2) by (auto simp: decided_def)
  with ok(2) show ?thesis unfolding memory_deciders_def by blast
qed

theorem work_approved_by_granted_actor_witness:
  "\<exists>d x a. decisions sample_approved d = Some x \<and> decision_run_id x = sample_rid
    \<and> decision_status x = DecisionStatusString DecisionApproved
    \<and> decision_decided_by x = Some a \<and> (a, PermissionDecide) \<in> sample_grants"
  by (rule work_approved_by_granted_actor [OF sample_service_reachable, where st = StateQueued
        and r = "dec_run sample_resolution"])
    (simp_all add: sample_resolution_def)

text \<open>
  C11. The audit trail cannot be forged through the service: in every reachable state, a
  success record of a mutating tool names an actor who was granted the permission of that
  tool; recording one by hand is refused.
\<close>

theorem audit_trail_sound:
  assumes "(memory_service_step sha256 G)\<^sup>*\<^sup>* NewMemoryRepository s"
    and "r \<in> set (AuditRecords s)" "audit_Outcome r = ''succeeded''" "isMutatingAuditTool (audit_ToolName r)"
  shows "(audit_ActorID r, toolPermission (audit_ToolName r)) \<in> G"
  using service_reachable_ok [OF assms(1)] assms(2-)
  unfolding memory.service_ok_def trail_sound_def AuditRecords_def by blast

lemma sample_approve_audited:
  "\<exists>r \<in> set (AuditRecords sample_approved). audit_Outcome r = ''succeeded''
     \<and> audit_ToolName r = auditToolApproveDecision"
proof -
  have "audit_exact (sample_tool ''forja.approve_decision'') (resolve_scope sample_did) sample_submitted
      (Inr sample_resolution, sample_approved)"
    using audit_exact_ops(3) [of "sample_tool ''forja.approve_decision''" sample_approve sample_submitted id "\<lambda>_. 7"]
      sample_approved_eq [THEN conjunct1] by (simp add: sample_approve_def)
  then show ?thesis by (auto simp: audit_exact_def AuditRecords_def auditToolApproveDecision_def)
qed

theorem audit_trail_sound_witness:
  "\<exists>r \<in> set (AuditRecords sample_approved). audit_ToolName r = auditToolApproveDecision
     \<and> (audit_ActorID r, PermissionDecide) \<in> sample_grants"
proof -
  obtain r where r: "r \<in> set (AuditRecords sample_approved)" "audit_Outcome r = ''succeeded''"
      "audit_ToolName r = auditToolApproveDecision"
    using sample_approve_audited by blast
  then have "isMutatingAuditTool (audit_ToolName r)" by (simp add: isMutatingAuditTool_def)
  from audit_trail_sound [OF sample_service_reachable r(1,2) this] r show ?thesis by auto
qed

theorem unauthorized_refused_witness:
  "\<exists>e. Service_PlanSprint (sample_service (\<lambda>_. 5)) (sample_principal\<lparr>pr_Permissions := {}\<rparr>)
      \<lparr>pi_Title = ''title'', pi_Objective = ''plan'', pi_Command = sample_context\<rparr> NewMemoryRepository
    = (Inl e, NewMemoryRepository) \<and> access_error e"
  by (rule unauthorized_refused [THEN conjunct1, rule_format]) simp

end
