(* ===== verification/Leases.thy ===== *)
theory Leases
  imports Contracts
begin

text \<open>
  The durable leases of \<open>internal/postgres/leases.go\<close>.

  A table is an association list from its primary key to the rest of the row; an SQL
  statement of the code is what it does to the tables. What PostgreSQL decides on its own is an argument, the
  environment of a call: the readings of \<open>clock_timestamp()\<close>, the order of the rows a query
  returns, which statement fails and how (keyed by the operation name the code wraps the
  error with), and whether a commit that reported an error took effect. The advisory locks
  serialize calls on the same resource, so a call is one step; a call that fails before its
  commit leaves the tables as they were. Database times are in microseconds, Go durations
  in nanoseconds.
\<close>

type_synonym pgtime = int
type_synonym duration = int

record LeaseKey =
  lk_TenantID :: string
  lk_RepositoryID :: string
  lk_ResourceType :: string
  lk_ResourceID :: string

record Lease = LeaseKey +
  le_OwnerID :: string
  le_FencingToken :: int
  le_AcquiredAt :: pgtime
  le_ExpiresAt :: pgtime

record LeaseProof = LeaseKey +
  lp_OwnerID :: string
  lp_FencingToken :: int

section \<open>The database\<close>

record LeaseRow =
  lr_owner_id :: string
  lr_fencing_token :: int
  lr_acquired_at :: pgtime
  lr_expires_at :: pgtime
  lr_updated_at :: pgtime

record 'd LeaseSetRow =
  ls_owner_id :: string
  ls_member_digest :: 'd
  ls_state :: string
  ls_acquired_at :: pgtime
  ls_expires_at :: pgtime
  ls_updated_at :: pgtime
  ls_authorized_ttl_us :: int

type_synonym set_key = "string \<times> string \<times> string"
type_synonym member_row = "(string \<times> string) \<times> int"

text \<open>
  A set is identified by tenant, repository and set identifier; a member of a set by
  resource type and resource identifier, with its fencing token.
\<close>

record 'd LeaseDB =
  leases :: "(LeaseKey \<times> LeaseRow) list"
  lease_sets :: "(set_key \<times> 'd LeaseSetRow) list"
  members :: "((set_key \<times> (string \<times> string)) \<times> int) list"

text \<open>\<open>EXISTS\<close> over the rows of a table.\<close>

definition table_ex :: "('k \<Rightarrow> 'v \<Rightarrow> bool) \<Rightarrow> ('k \<times> 'v) list \<Rightarrow> bool" where
  "table_ex P t \<longleftrightarrow> list_ex (\<lambda>k. case map_of t k of Some v \<Rightarrow> P k v | None \<Rightarrow> False) (map fst t)"

lemma table_ex_iff: "table_ex P t \<longleftrightarrow> (\<exists>k v. map_of t k = Some v \<and> P k v)"
proof
  assume "table_ex P t"
  then show "\<exists>k v. map_of t k = Some v \<and> P k v"
    by (auto simp: table_ex_def list_ex_iff split: option.splits)
next
  assume "\<exists>k v. map_of t k = Some v \<and> P k v"
  then obtain k v where kv: "map_of t k = Some v" "P k v" by blast
  then have "(k, v) \<in> set t" by (auto dest: map_of_SomeD)
  with kv show "table_ex P t"
    by (auto simp: table_ex_def list_ex_iff intro!: bexI [of _ "(k, v)"])
qed

datatype PgError = PgError string | OtherDBError

text \<open>
  \<open>db_clock env n\<close> is the reading \<open>n\<close> of the clock by a statement on one row,
  \<open>db_row_clock env n row\<close> the reading of statement \<open>n\<close> at one of the rows it scans.
\<close>

record DBEnv =
  db_clock :: "nat \<Rightarrow> pgtime"
  db_row_clock :: "nat \<Rightarrow> string list \<Rightarrow> pgtime"
  db_error :: "string \<Rightarrow> PgError option"
  db_order :: "member_row list \<Rightarrow> member_row list"
  db_commit_applied :: bool

record LeaseStore =
  st_tenantID :: string
  st_repositoryID :: string

fun databaseError :: "string \<Rightarrow> PgError \<Rightarrow> error" where
  "databaseError operation (PgError code) =
    (if code \<in> {''23505'', ''23503'', ''40001'', ''40P01''} then
       WrapErr CodeConflict operation (Msg ''database conflict'' []) (Errorf ''pg'' [FStr code])
     else if code \<in> {''23514'', ''22P02''} then
       WrapErr CodeInvalidArgument operation (Msg ''database rejected input'' []) (Errorf ''pg'' [FStr code])
     else WrapErr CodeUnavailable operation (Msg ''database operation failed'' []) (Errorf ''pg'' [FStr code]))"
| "databaseError operation OtherDBError =
     WrapErr CodeUnavailable operation (Msg ''database operation failed'' []) (Errorf ''db'' [])"

text \<open>A statement, or the error it failed with.\<close>

definition db_call :: "DBEnv \<Rightarrow> string \<Rightarrow> 'a result \<Rightarrow> 'a result" where
  "db_call env operation k =
    (case db_error env operation of Some err \<Rightarrow> Inl (databaseError operation err) | None \<Rightarrow> k)"

text \<open>
  A statement with text parameters: PostgreSQL refuses text that is not valid UTF-8 or
  contains a zero byte.
\<close>

definition pg_text_ok :: "string \<Rightarrow> bool" where
  "pg_text_ok t \<longleftrightarrow> valid_utf8 t \<and> CHR 0x00 \<notin> set t"

definition db_exec :: "DBEnv \<Rightarrow> string \<Rightarrow> string list \<Rightarrow> 'a result \<Rightarrow> 'a result" where
  "db_exec env operation texts k =
    (if list_all pg_text_ok texts then db_call env operation k
     else Inl (databaseError operation (PgError ''22021'')))"

text \<open>
  The end of a transaction: the work either failed, and is rolled back, or delivered a
  result and new tables, which are committed.
\<close>

definition db_commit :: "DBEnv \<Rightarrow> string \<Rightarrow> ('a \<times> 's) result \<Rightarrow> 's \<Rightarrow> 'a result \<times> 's" where
  "db_commit env operation work s =
    (case work of
       Inl err \<Rightarrow> (Inl err, s)
     | Inr (r, t) \<Rightarrow>
         (case db_error env operation of
            Some err \<Rightarrow> (Inl (databaseError operation err), if db_commit_applied env then t else s)
          | None \<Rightarrow> (Inr r, t)))"

text \<open>
  The constraints of the table \<open>leases\<close>: \<open>expires_at >= acquired_at\<close>, and a fencing token
  that is positive and a \<open>bigint\<close>.
\<close>

definition check_lease_row :: "LeaseRow \<Rightarrow> PgError option" where
  "check_lease_row row =
    (if lr_fencing_token row > 2 ^ 63 - 1 then Some (PgError ''22003'')
     else if lr_fencing_token row \<le> 0 \<or> lr_expires_at row < lr_acquired_at row then Some (PgError ''23514'')
     else None)"

definition write_lease :: "string \<Rightarrow> LeaseKey \<Rightarrow> LeaseRow \<Rightarrow> 'd LeaseDB \<Rightarrow> 'd LeaseDB result" where
  "write_lease operation key row s =
    (case check_lease_row row of
       Some err \<Rightarrow> Inl (databaseError operation err)
     | None \<Rightarrow> Inr (s\<lparr>leases := AList.update key row (leases s)\<rparr>))"

section \<open>Validation\<close>

definition leaseTypes :: "string set" where
  "leaseTypes = {''worker'', ''scheduler'', ''file'', ''worktree'', ''artifact''}"

definition deliveryLeaseTypes :: "string set" where
  "deliveryLeaseTypes = {''artifact'', ''file'', ''worktree''}"

definition Millisecond :: duration where "Millisecond = 1000000"
definition Second :: duration where "Second = 1000000000"
definition Day :: duration where "Day = 24 * 3600 * Second"

text \<open>\<open>intervalString\<close>: whole seconds and the remaining whole microseconds, as an interval.\<close>

definition intervalString :: "duration \<Rightarrow> pgtime" where
  "intervalString d = (d div Second) * 1000000 + (d mod Second) div 1000"

definition bindLeaseKey :: "LeaseStore \<Rightarrow> LeaseKey \<Rightarrow> LeaseKey" where
  "bindLeaseKey s key =
    (if lk_RepositoryID key = [] then key\<lparr>lk_RepositoryID := st_repositoryID s\<rparr> else key)"

definition validateLeaseKey :: "LeaseKey \<Rightarrow> string \<Rightarrow> string \<Rightarrow> error option" where
  "validateLeaseKey key tenantID repositoryID =
    (if lk_TenantID key = [] \<or> lk_TenantID key \<noteq> tenantID \<or> lk_RepositoryID key = []
        \<or> lk_RepositoryID key \<noteq> repositoryID \<or> rune_count (lk_ResourceID key) < 1
        \<or> rune_count (lk_ResourceID key) > 500 then
       Some (New CodeInvalidArgument ''postgres.validateLeaseKey''
         (Msg ''lease authority must match the store and resource ID must contain at most 500 characters'' []))
     else if lk_ResourceType key \<notin> leaseTypes then
       Some (New CodeInvalidArgument ''postgres.validateLeaseKey''
         (Msg ''resource type must be worker, scheduler, file, worktree, or artifact'' []))
     else None)"

definition validateLeaseInput ::
    "LeaseKey \<Rightarrow> string \<Rightarrow> duration \<Rightarrow> string \<Rightarrow> string \<Rightarrow> error option" where
  "validateLeaseInput key ownerID ttl tenantID repositoryID =
    (case validateLeaseKey key tenantID repositoryID of
       Some err \<Rightarrow> Some err
     | None \<Rightarrow>
         if rune_count ownerID < 1 \<or> rune_count ownerID > 500 then
           Some (New CodeInvalidArgument ''postgres.validateLeaseInput''
             (Msg ''owner ID length must be between 1 and 500 characters'' []))
         else if ttl < Millisecond \<or> ttl > Day then
           Some (New CodeInvalidArgument ''postgres.validateLeaseInput''
             (Msg ''lease TTL must be between one millisecond and 24 hours'' []))
         else None)"

definition validateStandaloneLeaseType :: "string \<Rightarrow> error option" where
  "validateStandaloneLeaseType resourceType =
    (if resourceType \<in> deliveryLeaseTypes then
       Some (New CodeInvalidArgument ''postgres.validateStandaloneLeaseType''
         (Msg ''file, worktree, and artifact resources require atomic lease-set authority'' []))
     else None)"

section \<open>Operations\<close>

definition lease_of :: "LeaseKey \<Rightarrow> LeaseRow \<Rightarrow> Lease" where
  "lease_of key row =
    \<lparr>lk_TenantID = lk_TenantID key, lk_RepositoryID = lk_RepositoryID key,
     lk_ResourceType = lk_ResourceType key, lk_ResourceID = lk_ResourceID key,
     le_OwnerID = lr_owner_id row, le_FencingToken = lr_fencing_token row,
     le_AcquiredAt = lr_acquired_at row, le_ExpiresAt = lr_expires_at row\<rparr>"

definition proof_key :: "LeaseProof \<Rightarrow> LeaseKey" where
  "proof_key p = \<lparr>lk_TenantID = lk_TenantID p, lk_RepositoryID = lk_RepositoryID p,
     lk_ResourceType = lk_ResourceType p, lk_ResourceID = lk_ResourceID p\<rparr>"

text \<open>The statements address a row by the tenant of the key and the repository of the store.\<close>

definition row_key :: "LeaseKey \<Rightarrow> string \<Rightarrow> LeaseKey" where
  "row_key key repositoryID = key\<lparr>lk_RepositoryID := repositoryID\<rparr>"

definition VerifyLease ::
    "DBEnv \<Rightarrow> LeaseStore \<Rightarrow> LeaseProof \<Rightarrow> duration \<Rightarrow> 'd LeaseDB \<Rightarrow> Lease result" where
  "VerifyLease env s lproof minimumRemaining db =
    (let key = bindLeaseKey s (proof_key lproof) in
     case validateLeaseInput key (lp_OwnerID lproof) Millisecond (st_tenantID s) (st_repositoryID s) of
       Some err \<Rightarrow> Inl err
     | None \<Rightarrow>
         if lp_FencingToken lproof < 1 \<or> minimumRemaining < 0 \<or> minimumRemaining > Day then
           Inl (New CodeInvalidArgument ''postgres.VerifyLease''
             (Msg ''positive fencing token and a bounded minimum horizon are required'' []))
         else db_exec env ''postgres.VerifyLease'' [lk_ResourceType key, lk_ResourceID key, lp_OwnerID lproof]
           (case map_of (leases db) (row_key key (st_repositoryID s)) of
              Some row \<Rightarrow>
                if lr_owner_id row = lp_OwnerID lproof \<and> lr_fencing_token row = lp_FencingToken lproof
                   \<and> lr_expires_at row > db_clock env 0 + intervalString minimumRemaining then
                  Inr (lease_of key row)
                else Inl (New CodeConflict ''postgres.VerifyLease''
                  (Msg ''lease is expired, replaced, or shorter than the required horizon'' []))
            | None \<Rightarrow> Inl (New CodeConflict ''postgres.VerifyLease''
                (Msg ''lease is expired, replaced, or shorter than the required horizon'' []))))"

definition lockLeaseResource :: "DBEnv \<Rightarrow> 'a result \<Rightarrow> 'a result" where
  "lockLeaseResource env k =
     db_call env ''postgres.lockLeaseResource.migration_barrier''
       (db_call env ''postgres.lockLeaseResource'' k)"

text \<open>
  \<open>getLeaseForUpdate\<close>: the lease and whether it is active, \<open>None\<close> if there is none. The
  second argument is the index of the clock reading it makes.
\<close>

definition getLeaseForUpdate ::
    "DBEnv \<Rightarrow> nat \<Rightarrow> LeaseKey \<Rightarrow> string \<Rightarrow> 'd LeaseDB \<Rightarrow> (LeaseRow \<times> bool) option result" where
  "getLeaseForUpdate env n key repositoryID db =
     db_exec env ''postgres.getLeaseForUpdate'' [lk_ResourceType key, lk_ResourceID key]
       (Inr (map_option (\<lambda>row. (row, lr_expires_at row > db_clock env n))
         (map_of (leases db) (row_key key repositoryID))))"

text \<open>Clock readings: 0 in \<open>getLeaseForUpdate\<close>, then one for each \<open>clock_timestamp()\<close> of the write.\<close>

definition acquireLeaseTx ::
    "DBEnv \<Rightarrow> LeaseStore \<Rightarrow> LeaseKey \<Rightarrow> string \<Rightarrow> duration \<Rightarrow> 'd LeaseDB \<Rightarrow> (Lease \<times> 'd LeaseDB) result" where
  "acquireLeaseTx env s key ownerID ttl db =
    db_call env ''postgres.AcquireLease.begin'' (lockLeaseResource env
      (case getLeaseForUpdate env 0 key (st_repositoryID s) db of
         Inl err \<Rightarrow> Inl err
       | Inr None \<Rightarrow>
           let row = \<lparr>lr_owner_id = ownerID, lr_fencing_token = 1, lr_acquired_at = db_clock env 1,
                 lr_expires_at = db_clock env 2 + intervalString ttl, lr_updated_at = db_clock env 3\<rparr>
           in db_exec env ''postgres.AcquireLease.write'' [lk_ResourceType key, lk_ResourceID key, ownerID]
             (case write_lease ''postgres.AcquireLease.write'' (row_key key (st_repositoryID s)) row db of
                Inl err \<Rightarrow> Inl err
              | Inr db' \<Rightarrow> Inr (lease_of key row, db'))
       | Inr (Some (current, active)) \<Rightarrow>
           if active \<and> lr_owner_id current \<noteq> ownerID then
             Inl (New CodeConflict ''postgres.AcquireLease''
               (Msg ''lease is owned by %s until %s''
                 [FStr (lr_owner_id current), FInt (lr_expires_at current)]))
           else if active then Inr (lease_of key current, db)
           else
             let row = current\<lparr>lr_owner_id := ownerID, lr_fencing_token := lr_fencing_token current + 1,
                   lr_acquired_at := db_clock env 1, lr_expires_at := db_clock env 2 + intervalString ttl,
                   lr_updated_at := db_clock env 3\<rparr>
             in db_exec env ''postgres.AcquireLease.write'' [lk_ResourceType key, lk_ResourceID key, ownerID]
               (case write_lease ''postgres.AcquireLease.write'' (row_key key (st_repositoryID s)) row db of
                  Inl err \<Rightarrow> Inl err
                | Inr db' \<Rightarrow> Inr (lease_of key row, db'))))"

definition AcquireLease ::
    "DBEnv \<Rightarrow> LeaseStore \<Rightarrow> LeaseKey \<Rightarrow> string \<Rightarrow> duration \<Rightarrow> 'd LeaseDB \<Rightarrow> Lease result \<times> 'd LeaseDB" where
  "AcquireLease env s key ownerID ttl db =
    (let key = bindLeaseKey s key in
     case validateStandaloneLeaseType (lk_ResourceType key) of Some err \<Rightarrow> (Inl err, db) | None \<Rightarrow>
     (case validateLeaseInput key ownerID ttl (st_tenantID s) (st_repositoryID s) of
        Some err \<Rightarrow> (Inl err, db)
      | None \<Rightarrow>
          db_commit env ''postgres.AcquireLease.commit'' (acquireLeaseTx env s key ownerID ttl db) db))"

definition rejectActiveLeaseSetMember ::
    "DBEnv \<Rightarrow> nat \<Rightarrow> LeaseKey \<Rightarrow> int \<Rightarrow> 'd LeaseDB \<Rightarrow> 'a result \<Rightarrow> 'a result" where
  "rejectActiveLeaseSetMember env n key fencingToken db k =
    db_exec env ''postgres.rejectActiveLeaseSetMember'' [lk_ResourceType key, lk_ResourceID key]
      (if table_ex (\<lambda>(set_key, resource) token. token = fencingToken
              \<and> fst set_key = lk_TenantID key \<and> fst (snd set_key) = lk_RepositoryID key
              \<and> resource = (lk_ResourceType key, lk_ResourceID key)
              \<and> (case map_of (lease_sets db) set_key of None \<Rightarrow> False
                 | Some row \<Rightarrow> ls_state row = ''active'' \<and> ls_expires_at row > db_row_clock env n [snd (snd set_key)]))
            (members db) then
         Inl (New CodeConflict ''postgres.rejectActiveLeaseSetMember''
           (Msg ''active lease-set members must be mutated through the set authority'' []))
       else k)"

definition renewLeaseTx ::
    "DBEnv \<Rightarrow> LeaseStore \<Rightarrow> LeaseKey \<Rightarrow> string \<Rightarrow> int \<Rightarrow> duration \<Rightarrow> 'd LeaseDB \<Rightarrow> (Lease \<times> 'd LeaseDB) result" where
  "renewLeaseTx env s key ownerID fencingToken ttl db =
    db_call env ''postgres.RenewLease.begin'' (lockLeaseResource env
      (rejectActiveLeaseSetMember env 0 key fencingToken db
        (db_exec env ''postgres.RenewLease'' [lk_ResourceType key, lk_ResourceID key, ownerID]
          (case map_of (leases db) (row_key key (st_repositoryID s)) of
             Some row \<Rightarrow>
               if lr_owner_id row = ownerID \<and> lr_fencing_token row = fencingToken
                  \<and> lr_expires_at row > db_clock env 1 then
                 let row = row\<lparr>lr_expires_at := db_clock env 2 + intervalString ttl,
                       lr_updated_at := db_clock env 3\<rparr>
                 in (case write_lease ''postgres.RenewLease'' (row_key key (st_repositoryID s)) row db of
                       Inl err \<Rightarrow> Inl err
                     | Inr db' \<Rightarrow> Inr (lease_of key row, db'))
               else Inl (New CodeConflict ''postgres.RenewLease''
                 (Msg ''lease is expired, replaced, or owned by another worker'' []))
           | None \<Rightarrow> Inl (New CodeConflict ''postgres.RenewLease''
               (Msg ''lease is expired, replaced, or owned by another worker'' []))))))"

definition RenewLease ::
    "DBEnv \<Rightarrow> LeaseStore \<Rightarrow> LeaseKey \<Rightarrow> string \<Rightarrow> int \<Rightarrow> duration \<Rightarrow> 'd LeaseDB \<Rightarrow> Lease result \<times> 'd LeaseDB" where
  "RenewLease env s key ownerID fencingToken ttl db =
    (let key = bindLeaseKey s key in
     case validateLeaseInput key ownerID ttl (st_tenantID s) (st_repositoryID s) of
       Some err \<Rightarrow> (Inl err, db)
     | None \<Rightarrow>
         if fencingToken < 1 then
           (Inl (New CodeInvalidArgument ''postgres.RenewLease''
              (Msg ''fencing token must be positive'' [])), db)
         else db_commit env ''postgres.RenewLease.commit''
           (renewLeaseTx env s key ownerID fencingToken ttl db) db)"

definition releaseLeaseTx ::
    "DBEnv \<Rightarrow> LeaseStore \<Rightarrow> LeaseKey \<Rightarrow> string \<Rightarrow> int \<Rightarrow> 'd LeaseDB \<Rightarrow> (unit \<times> 'd LeaseDB) result" where
  "releaseLeaseTx env s key ownerID fencingToken db =
    db_call env ''postgres.ReleaseLease.begin'' (lockLeaseResource env
      (rejectActiveLeaseSetMember env 0 key fencingToken db
        (db_exec env ''postgres.ReleaseLease'' [lk_ResourceType key, lk_ResourceID key, ownerID]
          (case map_of (leases db) (row_key key (st_repositoryID s)) of
             Some row \<Rightarrow>
               if lr_owner_id row = ownerID \<and> lr_fencing_token row = fencingToken
                  \<and> lr_expires_at row > db_clock env 1 then
                 let row = row\<lparr>lr_expires_at := max (db_clock env 2) (lr_acquired_at row),
                       lr_updated_at := db_clock env 3\<rparr>
                 in (case write_lease ''postgres.ReleaseLease'' (row_key key (st_repositoryID s)) row db of
                       Inl err \<Rightarrow> Inl err
                     | Inr db' \<Rightarrow> Inr ((), db'))
               else Inl (New CodeConflict ''postgres.ReleaseLease''
                 (Msg ''lease is expired, replaced, or owned by another worker'' []))
           | None \<Rightarrow> Inl (New CodeConflict ''postgres.ReleaseLease''
               (Msg ''lease is expired, replaced, or owned by another worker'' []))))))"

definition ReleaseLease ::
    "DBEnv \<Rightarrow> LeaseStore \<Rightarrow> LeaseKey \<Rightarrow> string \<Rightarrow> int \<Rightarrow> 'd LeaseDB \<Rightarrow> unit result \<times> 'd LeaseDB" where
  "ReleaseLease env s key ownerID fencingToken db =
    (let key = bindLeaseKey s key in
     case validateLeaseKey key (st_tenantID s) (st_repositoryID s) of
       Some err \<Rightarrow> (Inl err, db)
     | None \<Rightarrow>
         if ownerID = [] \<or> fencingToken < 1 then
           (Inl (New CodeInvalidArgument ''postgres.ReleaseLease''
              (Msg ''owner ID and positive fencing token are required'' [])), db)
         else db_commit env ''postgres.ReleaseLease.commit''
           (releaseLeaseTx env s key ownerID fencingToken db) db)"

section \<open>Statements and transactions\<close>

lemma db_call_Inr [simp]: "db_call env op k = Inr x \<longleftrightarrow> db_error env op = None \<and> k = Inr x"
  by (simp add: db_call_def split: option.split)

lemma db_exec_Inr [simp]:
  "db_exec env op ts k = Inr x \<longleftrightarrow> list_all pg_text_ok ts \<and> db_error env op = None \<and> k = Inr x"
  by (simp add: db_exec_def)

lemma db_commit_Inr:
  "db_commit env op work s = (Inr r, t) \<longleftrightarrow> work = Inr (r, t) \<and> db_error env op = None"
  by (auto simp: db_commit_def split: sum.splits option.splits)

lemma db_commit_state:
  assumes "P s" and "\<And>r t. work = Inr (r, t) \<Longrightarrow> P t"
  shows "P (snd (db_commit env op work s))"
  using assms by (auto simp: db_commit_def split: sum.splits option.splits)

lemma write_lease_Inr:
  "write_lease op key row s = Inr s' \<longleftrightarrow>
     check_lease_row row = None \<and> s' = s\<lparr>leases := AList.update key row (leases s)\<rparr>"
  by (auto simp: write_lease_def split: option.split)

lemma check_lease_rowD:
  "check_lease_row row = None \<Longrightarrow>
     0 < lr_fencing_token row \<and> lr_fencing_token row \<le> 2 ^ 63 - 1 \<and> lr_acquired_at row \<le> lr_expires_at row"
  by (auto simp: check_lease_row_def split: if_splits)

lemma getLeaseForUpdate_Inr:
  "getLeaseForUpdate env n key repositoryID db = Inr found \<longleftrightarrow>
     pg_text_ok (lk_ResourceType key) \<and> pg_text_ok (lk_ResourceID key)
   \<and> db_error env ''postgres.getLeaseForUpdate'' = None
   \<and> found = map_option (\<lambda>row. (row, lr_expires_at row > db_clock env n))
        (map_of (leases db) (row_key key repositoryID))"
  by (auto simp: getLeaseForUpdate_def)

lemma row_key_same [simp]: "lk_RepositoryID key = repositoryID \<Longrightarrow> row_key key repositoryID = key"
  by (simp add: row_key_def)

lemma lk_row_key [simp]:
  "lk_TenantID (row_key key r) = lk_TenantID key" "lk_RepositoryID (row_key key r) = r"
  "lk_ResourceType (row_key key r) = lk_ResourceType key" "lk_ResourceID (row_key key r) = lk_ResourceID key"
  by (simp_all add: row_key_def)

lemma validateLeaseKeyD:
  assumes "validateLeaseKey key tenantID repositoryID = None"
  shows "lk_TenantID key = tenantID" "lk_RepositoryID key = repositoryID" "lk_ResourceType key \<in> leaseTypes"
    "lk_ResourceID key \<noteq> []"
  using assms by (auto simp: validateLeaseKey_def split: if_splits)

lemma validateLeaseInputD:
  assumes "validateLeaseInput key ownerID ttl tenantID repositoryID = None"
  shows "validateLeaseKey key tenantID repositoryID = None" "Millisecond \<le> ttl" "ttl \<le> Day" "ownerID \<noteq> []"
  using assms by (auto simp: validateLeaseInput_def split: option.splits if_splits)

section \<open>What each operation writes\<close>

text \<open>
  A row is replaced by one that is fenced from it: the fencing token does not decrease,
  and where it is the same token the lease is the same grant.
\<close>

definition fenced :: "LeaseRow \<Rightarrow> LeaseRow \<Rightarrow> bool" where
  "fenced row row' \<longleftrightarrow> lr_fencing_token row \<le> lr_fencing_token row'
   \<and> (lr_fencing_token row' = lr_fencing_token row \<longrightarrow>
        lr_owner_id row' = lr_owner_id row \<and> lr_acquired_at row' = lr_acquired_at row)"

lemma reflp_fenced: "reflp fenced"
  by (simp add: reflp_def fenced_def)

lemma transp_fenced: "transp fenced"
  by (auto simp: transp_def fenced_def)

abbreviation lease_rows :: "'d LeaseDB \<Rightarrow> LeaseKey \<rightharpoonup> LeaseRow" where
  "lease_rows db \<equiv> map_of (leases db)"

text \<open>
  A statement grants a lease (a new row, or an expired one with the next token) or changes
  the expiry of a live one.
\<close>

inductive granted :: "DBEnv \<Rightarrow> nat \<Rightarrow> string \<Rightarrow> LeaseRow option \<Rightarrow> LeaseRow \<Rightarrow> bool" where
  fresh: "lr_owner_id row' = ownerID \<Longrightarrow> lr_fencing_token row' = 1 \<Longrightarrow> granted env n ownerID None row'"
| again: "lr_owner_id row' = ownerID \<Longrightarrow> lr_fencing_token row' = lr_fencing_token row + 1
    \<Longrightarrow> lr_expires_at row \<le> db_clock env n \<Longrightarrow> granted env n ownerID (Some row) row'"

inductive_simps granted_simps: "granted env n ownerID found row'"

inductive kept :: "string \<Rightarrow> int \<Rightarrow> pgtime \<Rightarrow> LeaseRow option \<Rightarrow> LeaseRow \<Rightarrow> bool" where
  "lr_owner_id row = ownerID \<Longrightarrow> lr_fencing_token row = token \<Longrightarrow> lr_expires_at row > now
    \<Longrightarrow> lr_owner_id row' = ownerID \<Longrightarrow> lr_fencing_token row' = token
    \<Longrightarrow> lr_acquired_at row' = lr_acquired_at row \<Longrightarrow> kept ownerID token now (Some row) row'"

inductive_simps kept_simps: "kept ownerID token now found row'"

lemma acquireLeaseTx_Inr:
  assumes "acquireLeaseTx env s key ownerID ttl db = Inr (l, db')" "lk_RepositoryID key = st_repositoryID s"
  shows "(\<exists>row. lease_rows db key = Some row \<and> lr_owner_id row = ownerID \<and> lr_expires_at row > db_clock env 0
            \<and> l = lease_of key row \<and> db' = db)
       \<or> (\<exists>row'. db' = db\<lparr>leases := AList.update key row' (leases db)\<rparr> \<and> l = lease_of key row'
            \<and> granted env 0 ownerID (lease_rows db key) row' \<and> check_lease_row row' = None
            \<and> lr_acquired_at row' = db_clock env 1 \<and> lr_expires_at row' = db_clock env 2 + intervalString ttl
            \<and> pg_text_ok ownerID \<and> pg_text_ok (lk_ResourceID key))"
  using assms
  by (auto simp: acquireLeaseTx_def lockLeaseResource_def getLeaseForUpdate_Inr write_lease_Inr granted_simps
      Let_def not_less split: sum.splits option.splits if_splits)

lemma rejectActiveLeaseSetMember_Inr:
  assumes "rejectActiveLeaseSetMember env n key token db k = Inr x"
  shows "k = Inr x" "\<forall>sk row. map_of (members db) (sk, (lk_ResourceType key, lk_ResourceID key)) = Some token
      \<longrightarrow> fst sk = lk_TenantID key \<longrightarrow> fst (snd sk) = lk_RepositoryID key \<longrightarrow> map_of (lease_sets db) sk = Some row
      \<longrightarrow> ls_state row = ''active'' \<longrightarrow> ls_expires_at row \<le> db_row_clock env n [snd (snd sk)]"
  using assms by (auto simp: rejectActiveLeaseSetMember_def table_ex_iff not_less split: if_splits option.splits)

lemma renewLeaseTx_Inr:
  assumes "renewLeaseTx env s key ownerID token ttl db = Inr (l, db')" "lk_RepositoryID key = st_repositoryID s"
  shows "\<exists>row'. db' = db\<lparr>leases := AList.update key row' (leases db)\<rparr> \<and> l = lease_of key row'
      \<and> kept ownerID token (db_clock env 1) (lease_rows db key) row' \<and> check_lease_row row' = None
      \<and> lr_expires_at row' = db_clock env 2 + intervalString ttl"
  using assms
  by (auto simp: renewLeaseTx_def lockLeaseResource_def write_lease_Inr kept_simps Let_def
      dest!: rejectActiveLeaseSetMember_Inr(1) split: sum.splits option.splits if_splits)

lemma releaseLeaseTx_Inr:
  assumes "releaseLeaseTx env s key ownerID token db = Inr (u, db')" "lk_RepositoryID key = st_repositoryID s"
  shows "\<exists>row'. db' = db\<lparr>leases := AList.update key row' (leases db)\<rparr>
      \<and> kept ownerID token (db_clock env 1) (lease_rows db key) row' \<and> check_lease_row row' = None
      \<and> lr_expires_at row' = max (db_clock env 2) (lr_acquired_at row')"
  using assms
  by (auto simp: releaseLeaseTx_def lockLeaseResource_def write_lease_Inr kept_simps Let_def
      dest!: rejectActiveLeaseSetMember_Inr(1) split: sum.splits option.splits if_splits)


text \<open>The states a call of a standalone operation can leave behind.\<close>

inductive lease_change :: "DBEnv \<Rightarrow> 'd LeaseDB \<Rightarrow> 'd LeaseDB \<Rightarrow> bool" for env where
  unchanged: "lease_change env db db"
| grant: "granted env 0 ownerID (lease_rows db key) row' \<Longrightarrow> lk_ResourceType key \<notin> deliveryLeaseTypes
    \<Longrightarrow> pg_text_ok ownerID \<Longrightarrow> pg_text_ok (lk_ResourceID key) \<Longrightarrow> check_lease_row row' = None \<Longrightarrow> db' = db\<lparr>leases := AList.update key row' (leases db)\<rparr>
    \<Longrightarrow> lease_change env db db'"
| keep: "kept ownerID token (db_clock env 1) (lease_rows db key) row'
    \<Longrightarrow> check_lease_row row' = None \<Longrightarrow> db' = db\<lparr>leases := AList.update key row' (leases db)\<rparr>
    \<Longrightarrow> lease_change env db db'"

lemma AcquireLease_change: "lease_change env db (snd (AcquireLease env s key ownerID ttl db))"
proof -
  let ?key = "bindLeaseKey s key"
  have "lease_change env db db'" if "acquireLeaseTx env s ?key ownerID ttl db = Inr (l, db')"
      "validateLeaseInput ?key ownerID ttl (st_tenantID s) (st_repositoryID s) = None"
      "lk_ResourceType ?key \<notin> deliveryLeaseTypes" for l db'
    using acquireLeaseTx_Inr [OF that(1)] validateLeaseKeyD(2) [OF validateLeaseInputD(1) [OF that(2)]] that(3)
    by (metis lease_change.intros(1,2))
  then show ?thesis
    by (simp add: AcquireLease_def Let_def validateStandaloneLeaseType_def lease_change.unchanged
        db_commit_state [where P = "lease_change env db"] split: option.split)
qed

lemma RenewLease_change: "lease_change env db (snd (RenewLease env s key ownerID token ttl db))"
proof -
  let ?key = "bindLeaseKey s key"
  have "lease_change env db db'" if "renewLeaseTx env s ?key ownerID token ttl db = Inr (l, db')"
      "validateLeaseInput ?key ownerID ttl (st_tenantID s) (st_repositoryID s) = None" for l db'
    using renewLeaseTx_Inr [OF that(1)] validateLeaseKeyD(2) [OF validateLeaseInputD(1) [OF that(2)]]
    by (metis lease_change.intros(3))
  then show ?thesis
    by (simp add: RenewLease_def Let_def lease_change.unchanged
        db_commit_state [where P = "lease_change env db"] split: option.split)
qed

lemma ReleaseLease_change: "lease_change env db (snd (ReleaseLease env s key ownerID token db))"
proof -
  let ?key = "bindLeaseKey s key"
  have "lease_change env db db'" if "releaseLeaseTx env s ?key ownerID token db = Inr (l, db')"
      "validateLeaseKey ?key (st_tenantID s) (st_repositoryID s) = None" for l db'
    using releaseLeaseTx_Inr [OF that(1)] validateLeaseKeyD(2) [OF that(2)]
    by (metis lease_change.intros(3))
  then show ?thesis
    by (simp add: ReleaseLease_def Let_def lease_change.unchanged
        db_commit_state [where P = "lease_change env db"] split: option.split)
qed

lemma granted_fenced: "granted env n ownerID (Some row) row' \<Longrightarrow> fenced row row'"
  by (auto simp: granted_simps fenced_def)

lemma kept_fenced: "kept ownerID token now (Some row) row' \<Longrightarrow> fenced row row'"
  by (auto simp: kept_simps fenced_def)

definition leases_fenced :: "'d LeaseDB \<Rightarrow> 'd LeaseDB \<Rightarrow> bool" where
  "leases_fenced db db' \<longleftrightarrow> map_evolves fenced (lease_rows db) (lease_rows db')"

lemma leases_fenced_refl: "leases_fenced db db"
  by (simp add: leases_fenced_def map_evolves_refl reflp_fenced)

lemma leases_fenced_trans: "leases_fenced db1 db2 \<Longrightarrow> leases_fenced db2 db3 \<Longrightarrow> leases_fenced db1 db3"
  unfolding leases_fenced_def by (rule map_evolves_trans [OF transp_fenced])

lemma leases_fenced_update:
  assumes "\<And>row. lease_rows db key = Some row \<Longrightarrow> fenced row row'"
  shows "leases_fenced db (db\<lparr>leases := AList.update key row' (leases db)\<rparr>)"
  using assms reflp_fenced by (simp add: leases_fenced_def update_conv' map_evolves_upd)

lemma lease_change_fenced: "lease_change env db db' \<Longrightarrow> leases_fenced db db'"
proof (induction rule: lease_change.induct)
  case (grant ownerID db key row' db')
  then show ?case using leases_fenced_update [of db key row'] by (metis granted_fenced)
next
  case (keep ownerID token db key row' db')
  then show ?case using leases_fenced_update [of db key row'] by (metis kept_fenced)
qed (rule leases_fenced_refl)

section \<open>Correctness of standalone leases\<close>

definition db_quiet :: "DBEnv \<Rightarrow> bool" where
  "db_quiet env \<longleftrightarrow> (\<forall>op. db_error env op = None)"

lemma db_quietD [simp]: "db_quiet env \<Longrightarrow> db_error env op = None"
  by (simp add: db_quiet_def)

lemma db_call_quiet [simp]: "db_quiet env \<Longrightarrow> db_call env op k = k"
  by (simp add: db_call_def)

lemma db_exec_quiet [simp]: "db_quiet env \<Longrightarrow> list_all pg_text_ok ts \<Longrightarrow> db_exec env op ts k = k"
  by (simp add: db_exec_def)

definition lease_proof :: "Lease \<Rightarrow> LeaseProof" where
  "lease_proof l = \<lparr>lk_TenantID = lk_TenantID l, lk_RepositoryID = lk_RepositoryID l,
     lk_ResourceType = lk_ResourceType l, lk_ResourceID = lk_ResourceID l,
     lp_OwnerID = le_OwnerID l, lp_FencingToken = le_FencingToken l\<rparr>"

lemma proof_key_lease_of [simp]: "proof_key (lease_proof (lease_of key row)) = key"
  by (simp add: proof_key_def lease_proof_def lease_of_def)

lemma lease_proof_fields [simp]:
  "lp_OwnerID (lease_proof l) = le_OwnerID l" "lp_FencingToken (lease_proof l) = le_FencingToken l"
  by (simp_all add: lease_proof_def)

lemma lease_of_fields [simp]:
  "le_OwnerID (lease_of key row) = lr_owner_id row" "le_FencingToken (lease_of key row) = lr_fencing_token row"
  "le_AcquiredAt (lease_of key row) = lr_acquired_at row" "le_ExpiresAt (lease_of key row) = lr_expires_at row"
  by (simp_all add: lease_of_def)

lemma VerifyLease_Inr:
  "VerifyLease env s p m db = Inr l \<longleftrightarrow>
     (let key = bindLeaseKey s (proof_key p) in
      validateLeaseInput key (lp_OwnerID p) Millisecond (st_tenantID s) (st_repositoryID s) = None
    \<and> 1 \<le> lp_FencingToken p \<and> 0 \<le> m \<and> m \<le> Day
    \<and> list_all pg_text_ok [lk_ResourceType key, lk_ResourceID key, lp_OwnerID p]
    \<and> db_error env ''postgres.VerifyLease'' = None
    \<and> (\<exists>row. lease_rows db key = Some row \<and> lr_owner_id row = lp_OwnerID p
          \<and> lr_fencing_token row = lp_FencingToken p
          \<and> lr_expires_at row > db_clock env 0 + intervalString m \<and> l = lease_of key row))"
  (is "?L \<longleftrightarrow> ?R")
proof -
  have "row_key key (st_repositoryID s) = key"
    if "validateLeaseInput key owner Millisecond (st_tenantID s) (st_repositoryID s) = None" for key owner
    using validateLeaseKeyD(2) [OF validateLeaseInputD(1) [OF that]] by simp
  then show ?thesis
    by (auto simp: VerifyLease_def Let_def split: option.splits if_splits)
qed

lemma leaseTypes_text: "resourceType \<in> leaseTypes \<Longrightarrow> pg_text_ok resourceType"
  by (auto simp: leaseTypes_def pg_text_ok_def intro!: valid_utf8_ascii) (auto simp: byte_in_def)

lemma bindLeaseKey_id: "lk_RepositoryID key \<noteq> [] \<Longrightarrow> bindLeaseKey s key = key"
  by (simp add: bindLeaseKey_def)

lemma validateLeaseInput_ms:
  "validateLeaseInput key ownerID ttl t r = None \<Longrightarrow> validateLeaseInput key ownerID Millisecond t r = None"
  by (auto simp: validateLeaseInput_def Millisecond_def Day_def Second_def split: option.splits if_splits)

lemma validateLeaseKey_repository: "validateLeaseKey key t r = None \<Longrightarrow> lk_RepositoryID key \<noteq> []"
  by (auto simp: validateLeaseKey_def split: if_splits)

lemma intervalString_0 [simp]: "intervalString 0 = 0"
  by (simp add: intervalString_def)

lemma AcquireLease_Inr:
  assumes "AcquireLease env s key ownerID ttl db = (Inr l, db')"
  defines "k \<equiv> bindLeaseKey s key"
  shows "acquireLeaseTx env s k ownerID ttl db = Inr (l, db')"
    "validateLeaseInput k ownerID ttl (st_tenantID s) (st_repositoryID s) = None"
    "lk_RepositoryID k = st_repositoryID s"
proof -
  show "acquireLeaseTx env s k ownerID ttl db = Inr (l, db')" and
    v: "validateLeaseInput k ownerID ttl (st_tenantID s) (st_repositoryID s) = None"
    using assms by (auto simp: AcquireLease_def Let_def db_commit_Inr split: option.splits)
  show "lk_RepositoryID k = st_repositoryID s"
    by (rule validateLeaseKeyD(2) [OF validateLeaseInputD(1) [OF v]])
qed

lemma acquireLeaseTx_stored:
  assumes "acquireLeaseTx env s key ownerID ttl db = Inr (l, db')" "lk_RepositoryID key = st_repositoryID s"
  shows "\<exists>row. lease_rows db' key = Some row \<and> l = lease_of key row \<and> lr_owner_id row = ownerID"
  using acquireLeaseTx_Inr [OF assms] by (auto simp: update_conv' granted_simps)

lemma acquireLeaseTx_excluded:
  assumes "lease_rows db key = Some row" "lr_expires_at row > db_clock env 0" "lr_owner_id row \<noteq> ownerID"
    and "lk_RepositoryID key = st_repositoryID s"
  shows "\<exists>err. acquireLeaseTx env s key ownerID ttl db = Inl err"
proof (cases "acquireLeaseTx env s key ownerID ttl db")
  case (Inr r)
  then show ?thesis
    using acquireLeaseTx_Inr [of env s key ownerID ttl db "fst r" "snd r"] assms by (auto simp: granted_simps)
qed simp

text \<open>The rows of the table \<open>leases\<close> satisfy its constraints.\<close>

definition lease_table_ok :: "'d LeaseDB \<Rightarrow> bool" where
  "lease_table_ok db \<longleftrightarrow> (\<forall>k row. lease_rows db k = Some row \<longrightarrow>
     check_lease_row row = None \<and> pg_text_ok (lr_owner_id row) \<and> pg_text_ok (lk_ResourceID k))"

lemma lease_table_okD:
  assumes "lease_table_ok db" "lease_rows db k = Some row"
  shows "check_lease_row row = None" "pg_text_ok (lr_owner_id row)" "pg_text_ok (lk_ResourceID k)"
  using assms by (auto simp: lease_table_ok_def)

lemma lease_table_ok_update:
  assumes "lease_table_ok db" "check_lease_row row = None" "pg_text_ok (lr_owner_id row)" "pg_text_ok (lk_ResourceID k)"
  shows "lease_table_ok (db\<lparr>leases := AList.update k row (leases db)\<rparr>)"
  using assms by (simp add: lease_table_ok_def update_conv')

lemma lease_change_table_ok: "lease_change env db db' \<Longrightarrow> lease_table_ok db \<Longrightarrow> lease_table_ok db'"
proof (induction rule: lease_change.induct)
  case (grant ownerID db key row' db')
  then show ?case using lease_table_ok_update by (fastforce simp: granted_simps)
next
  case (keep ownerID token db key row' db')
  then show ?case using lease_table_ok_update lease_table_okD by (fastforce simp: kept_simps)
qed

text \<open>
  C32. Exclusion: while a lease is active for one owner, an acquisition of the same
  resource by another owner fails and changes nothing.
\<close>

theorem active_lease_excludes:
  assumes "lease_rows db (bindLeaseKey s key) = Some row" "lr_expires_at row > db_clock env 0"
    and "lr_owner_id row \<noteq> ownerID"
  shows "\<exists>err. AcquireLease env s key ownerID ttl db = (Inl err, db)"
proof (cases "validateStandaloneLeaseType (lk_ResourceType (bindLeaseKey s key)) = None
    \<and> validateLeaseInput (bindLeaseKey s key) ownerID ttl (st_tenantID s) (st_repositoryID s) = None")
  case True
  then obtain err where "acquireLeaseTx env s (bindLeaseKey s key) ownerID ttl db = Inl err"
    using acquireLeaseTx_excluded [OF assms] validateLeaseKeyD(2) validateLeaseInputD(1) by blast
  with True show ?thesis by (simp add: AcquireLease_def db_commit_def)
qed (auto simp: AcquireLease_def Let_def split: option.split)

text \<open>
  C33. An acquired lease is a proof of authority: while it has not expired, and the database
  answers, verification of the granted owner and fencing token returns the same lease.
\<close>

theorem acquired_lease_verifies:
  assumes "AcquireLease env s key ownerID ttl db = (Inr l, db')" "lease_table_ok db"
    and "db_quiet env'" "db_clock env' 0 < le_ExpiresAt l"
  shows "VerifyLease env' s (lease_proof l) 0 db' = Inr l"
proof -
  let ?k = "bindLeaseKey s key"
  note a = AcquireLease_Inr [OF assms(1)]
  obtain row where row: "lease_rows db' ?k = Some row" "l = lease_of ?k row" "lr_owner_id row = ownerID"
    using acquireLeaseTx_stored [OF a(1,3)] by blast
  have "lease_table_ok db'"
    using lease_change_table_ok [OF AcquireLease_change assms(2), of env s key ownerID ttl] assms(1) by simp
  note ok = lease_table_okD [OF this row(1)]
  have "pg_text_ok (lk_ResourceType ?k)"
    by (rule leaseTypes_text [OF validateLeaseKeyD(3) [OF validateLeaseInputD(1) [OF a(2)]]])
  then show ?thesis
    using row assms(3,4) ok check_lease_rowD [OF ok(1)] validateLeaseInput_ms [OF a(2)]
      bindLeaseKey_id [OF validateLeaseKey_repository [OF validateLeaseInputD(1) [OF a(2)]], of s]
    by (simp add: VerifyLease_Inr Day_def Second_def)
qed

section \<open>A sample lease\<close>

definition sample_env :: "pgtime \<Rightarrow> DBEnv" where
  "sample_env now = \<lparr>db_clock = \<lambda>_. now, db_row_clock = \<lambda>_ _. now, db_error = \<lambda>_. None,
     db_order = \<lambda>rows. rows, db_commit_applied = True\<rparr>"

definition empty_db :: "'d LeaseDB" where
  "empty_db = \<lparr>leases = [], lease_sets = [], members = []\<rparr>"

definition sample_lease_store :: LeaseStore where
  "sample_lease_store = \<lparr>st_tenantID = ''tenant'', st_repositoryID = ''repo''\<rparr>"

definition sample_key :: "string \<Rightarrow> string \<Rightarrow> LeaseKey" where
  "sample_key ty i = \<lparr>lk_TenantID = ''tenant'', lk_RepositoryID = ''repo'', lk_ResourceType = ty, lk_ResourceID = i\<rparr>"

definition sample_row :: LeaseRow where
  "sample_row = \<lparr>lr_owner_id = ''alice'', lr_fencing_token = 1, lr_acquired_at = 0, lr_expires_at = 1000000,
     lr_updated_at = 0\<rparr>"

definition sample_leased :: "unit LeaseDB" where
  "sample_leased = empty_db\<lparr>leases := [(sample_key ''worker'' ''w1'', sample_row)]\<rparr>"

lemma sample_acquire:
  "AcquireLease (sample_env 0) sample_lease_store (sample_key ''worker'' ''w1'') ''alice'' Second empty_db
     = (Inr (lease_of (sample_key ''worker'' ''w1'') sample_row), sample_leased)"
  by code_simp

lemma sample_env_fields [simp]:
  "db_clock (sample_env now) n = now" "db_row_clock (sample_env now) n r = now" "db_error (sample_env now) op = None"
  "db_order (sample_env now) rows = rows" "db_quiet (sample_env now)"
  by (simp_all add: sample_env_def db_quiet_def)

lemma empty_db_fields [simp]: "leases empty_db = []" "lease_sets empty_db = []" "members empty_db = []"
  by (simp_all add: empty_db_def)

theorem active_lease_excludes_witness:
  "\<exists>err. AcquireLease (sample_env 7) sample_lease_store (sample_key ''worker'' ''w1'') ''bob'' Second sample_leased
     = (Inl err, sample_leased)"
  by (rule active_lease_excludes [where row = sample_row])
    (simp_all add: sample_leased_def sample_row_def bindLeaseKey_def sample_key_def)

theorem acquired_lease_verifies_witness:
  "VerifyLease (sample_env 7) sample_lease_store (lease_proof (lease_of (sample_key ''worker'' ''w1'') sample_row)) 0
     sample_leased = Inr (lease_of (sample_key ''worker'' ''w1'') sample_row)"
  by (rule acquired_lease_verifies [OF sample_acquire]) (simp_all add: lease_table_ok_def sample_row_def)

end
