(* ===== verification/LeaseSets.thy ===== *)
theory LeaseSets
  imports Leases
begin

text \<open>
  Atomic lease sets of delivery resources, \<open>internal/postgres/lease_sets.go\<close>.

  A lease set is an immutable collection of file, artifact and worktree leases granted,
  renewed and released together. The hash of the member digest is an argument.
\<close>

section \<open>Scopes\<close>

text \<open>\<open>path.Clean\<close> and \<open>path.IsAbs\<close>, on the components between slashes.\<close>

definition path_IsAbs :: "string \<Rightarrow> bool" where
  "path_IsAbs p \<longleftrightarrow> prefix ''/'' p"

fun clean_components :: "bool \<Rightarrow> string list \<Rightarrow> string list \<Rightarrow> string list" where
  "clean_components rooted out [] = rev out"
| "clean_components rooted out (c # cs) =
    (if c = [] \<or> c = ''.'' then clean_components rooted out cs
     else if c = ''..'' then
       (if out \<noteq> [] \<and> hd out \<noteq> ''..'' then clean_components rooted (tl out) cs
        else if rooted then clean_components rooted out cs
        else clean_components rooted (c # out) cs)
     else clean_components rooted (c # out) cs)"

definition path_Clean :: "string \<Rightarrow> string" where
  "path_Clean p =
    (let cs = clean_components (path_IsAbs p) [] (Split p (CHR ''/'')) in
     if path_IsAbs p then ''/'' @ Join cs ''/''
     else if cs = [] then ''.'' else Join cs ''/'')"

definition invalidLeaseSetError :: "string \<Rightarrow> error" where
  "invalidLeaseSetError message = New CodeInvalidArgument ''postgres.leaseSet'' (Msg message [])"

definition conflictError :: "string \<Rightarrow> message \<Rightarrow> error" where
  "conflictError operation message = New CodeConflict operation message"

definition leaseScopesOverlap :: "string \<Rightarrow> string \<Rightarrow> bool" where
  "leaseScopesOverlap left right \<longleftrightarrow>
     left = right \<or> prefix (right @ ''/'') left \<or> prefix (left @ ''/'') right"

definition validateLeaseScopePath :: "string \<Rightarrow> error option" where
  "validateLeaseScopePath value =
    (if value = [] \<or> value = ''.'' \<or> value = ''..'' \<or> path_IsAbs value \<or> path_Clean value \<noteq> value
        \<or> prefix ''../'' value \<or> CHR 0x5C \<in> set value \<or> CHR 0x00 \<in> set value then
       Some (invalidLeaseSetError ''file and artifact resources must be canonical repository-relative paths'')
     else None)"

definition leaseScopeAndAncestors :: "string \<Rightarrow> string list" where
  "leaseScopeAndAncestors scope =
    (let parts = Split scope (CHR ''/'')
     in map (\<lambda>index. Join (take (index + 1) parts) ''/'') [0..<length parts])"

section \<open>Keys, digests and validation\<close>

definition lease_key :: "LeaseKey \<Rightarrow> string" where
  "lease_key key = lk_ResourceType key @ [CHR 0x00] @ lk_ResourceID key"

text \<open>\<open>slices.SortFunc\<close> with \<open>compareLeaseKeys\<close>: by the bytes of type, zero, identifier.\<close>

definition sortLeaseKeys :: "LeaseKey list \<Rightarrow> LeaseKey list" where
  "sortLeaseKeys keys = sort_key lease_key keys"

definition leaseMemberText :: "LeaseKey list \<Rightarrow> string" where
  "leaseMemberText keys =
     concat (map (\<lambda>key. lk_ResourceType key @ [CHR 0x00] @ lk_ResourceID key @ [CHR 0x0A]) keys)"

definition leaseMemberDigest :: "(string \<Rightarrow> 'd) \<Rightarrow> LeaseKey list \<Rightarrow> 'd" where
  "leaseMemberDigest sha256 keys = sha256 (leaseMemberText keys)"

definition is_writable :: "LeaseKey \<Rightarrow> bool" where
  "is_writable key \<longleftrightarrow> lk_ResourceType key = ''file'' \<or> lk_ResourceType key = ''artifact''"

text \<open>The loop of \<open>validateLeaseSetInput\<close> over the keys, with the variables it carries.\<close>

record SetInput =
  in_normalized :: "LeaseKey list"
  in_seenInput :: "string list"
  in_declaredWritable :: "LeaseKey list"
  in_worktreeCount :: nat

definition addResources :: "LeaseKey \<Rightarrow> string list \<Rightarrow> LeaseKey list \<Rightarrow> LeaseKey list" where
  "addResources key resourceIDs normalized =
     foldl (\<lambda>acc resourceID. let expanded = key\<lparr>lk_ResourceID := resourceID\<rparr> in
        if lease_key expanded \<in> lease_key ` set acc then acc else acc @ [expanded])
       normalized resourceIDs"

fun validateKeys :: "LeaseStore \<Rightarrow> LeaseKey list \<Rightarrow> SetInput \<Rightarrow> SetInput result" where
  "validateKeys s [] st = Inr st"
| "validateKeys s (input # keys) st =
    (let key = bindLeaseKey s input in
     case validateLeaseKey key (st_tenantID s) (st_repositoryID s) of Some err \<Rightarrow> Inl err | None \<Rightarrow>
     if lk_ResourceType key \<notin> deliveryLeaseTypes then
       Inl (invalidLeaseSetError ''lease sets may contain only file, worktree, and artifact resources'')
     else
       let st = (if lk_ResourceType key = ''worktree''
                 then st\<lparr>in_worktreeCount := in_worktreeCount st + 1\<rparr> else st) in
       if lease_key key \<in> set (in_seenInput st) then
         Inl (invalidLeaseSetError ''lease set resources must be unique'')
       else
         let st = st\<lparr>in_seenInput := lease_key key # in_seenInput st\<rparr> in
         if is_writable key then
           (case validateLeaseScopePath (lk_ResourceID key) of Some err \<Rightarrow> Inl err | None \<Rightarrow>
            if \<exists>previous \<in> set (in_declaredWritable st). lk_ResourceType previous \<noteq> lk_ResourceType key
                 \<and> leaseScopesOverlap (lk_ResourceID previous) (lk_ResourceID key) then
              Inl (invalidLeaseSetError ''file and artifact lease scopes must not overlap'')
            else validateKeys s keys
              (st\<lparr>in_declaredWritable := in_declaredWritable st @ [key],
                  in_normalized := addResources key (leaseScopeAndAncestors (lk_ResourceID key)) (in_normalized st)\<rparr>))
         else validateKeys s keys
           (st\<lparr>in_normalized := addResources key [lk_ResourceID key] (in_normalized st)\<rparr>))"

definition validateLeaseSetInput ::
    "(string \<Rightarrow> 'd) \<Rightarrow> LeaseStore \<Rightarrow> string \<Rightarrow> LeaseKey list \<Rightarrow> string \<Rightarrow> duration \<Rightarrow> (LeaseKey list \<times> 'd) result" where
  "validateLeaseSetInput sha256 s leaseSetID keys ownerID ttl =
    (if rune_count leaseSetID < 1 \<or> rune_count leaseSetID > 500 then
       Inl (invalidLeaseSetError ''lease set ID length must be between 1 and 500 characters'')
     else if rune_count ownerID < 1 \<or> rune_count ownerID > 500 then
       Inl (invalidLeaseSetError ''owner ID length must be between 1 and 500 characters'')
     else if ttl < Millisecond \<or> ttl > Day \<or> ttl mod 1000 \<noteq> 0 then
       Inl (invalidLeaseSetError
         ''lease TTL must be a whole number of microseconds between one millisecond and 24 hours'')
     else if length keys < 1 \<or> length keys > 1024 then
       Inl (invalidLeaseSetError ''lease set must contain between 1 and 1024 resources'')
     else
    (case validateKeys s keys \<lparr>in_normalized = [], in_seenInput = [], in_declaredWritable = [],
            in_worktreeCount = 0\<rparr> of
       Inl err \<Rightarrow> Inl err
     | Inr st \<Rightarrow>
         if in_worktreeCount st \<noteq> 1 then
           Inl (invalidLeaseSetError ''lease set requires exactly one worktree resource'')
         else if length (in_normalized st) > 1024 then
           Inl (invalidLeaseSetError ''expanded lease set exceeds 1024 resources'')
         else
           let normalized = sortLeaseKeys (in_normalized st)
           in Inr (normalized, leaseMemberDigest sha256 normalized)))"

record LeaseSet =
  lset_LeaseSetID :: string
  lset_OwnerID :: string
  lset_Leases :: "Lease list"
  lset_AcquiredAt :: pgtime
  lset_ExpiresAt :: pgtime

definition key_of_lease :: "Lease \<Rightarrow> LeaseKey" where
  "key_of_lease l = \<lparr>lk_TenantID = lk_TenantID l, lk_RepositoryID = lk_RepositoryID l,
     lk_ResourceType = lk_ResourceType l, lk_ResourceID = lk_ResourceID l\<rparr>"

definition rekey_lease :: "LeaseKey \<Rightarrow> Lease \<Rightarrow> Lease" where
  "rekey_lease key l = \<lparr>lk_TenantID = lk_TenantID key, lk_RepositoryID = lk_RepositoryID key,
     lk_ResourceType = lk_ResourceType key, lk_ResourceID = lk_ResourceID key,
     le_OwnerID = le_OwnerID l, le_FencingToken = le_FencingToken l,
     le_AcquiredAt = le_AcquiredAt l, le_ExpiresAt = le_ExpiresAt l\<rparr>"

text \<open>The loop of \<open>validateLeaseSetProof\<close>: the keys, the proofs by key, the worktrees.\<close>

fun validateProofs :: "LeaseStore \<Rightarrow> Lease list \<Rightarrow> LeaseKey list \<times> (string \<times> Lease) list \<times> nat
    \<Rightarrow> (LeaseKey list \<times> (string \<times> Lease) list \<times> nat) result" where
  "validateProofs s [] st = Inr st"
| "validateProofs s (lease # ls) (keys, proofByKey, worktreeCount) =
    (let key = bindLeaseKey s (key_of_lease lease) in
     case validateLeaseKey key (st_tenantID s) (st_repositoryID s) of Some err \<Rightarrow> Inl err | None \<Rightarrow>
     if lk_ResourceType key \<notin> deliveryLeaseTypes then
       Inl (invalidLeaseSetError ''lease set proofs may contain only file, worktree, and artifact resources'')
     else
     (case (if is_writable key then validateLeaseScopePath (lk_ResourceID key) else None) of
        Some err \<Rightarrow> Inl err
      | None \<Rightarrow>
          let worktreeCount = (if lk_ResourceType key = ''worktree'' then worktreeCount + 1 else worktreeCount) in
          if map_of proofByKey (lease_key key) \<noteq> None then
            Inl (invalidLeaseSetError ''lease set proof resources must be unique'')
          else validateProofs s ls
            (keys @ [key], AList.update (lease_key key) lease proofByKey, worktreeCount)))"

fun orderProofs :: "(string \<times> Lease) list \<Rightarrow> LeaseKey list \<Rightarrow> Lease list result" where
  "orderProofs proofByKey [] = Inr []"
| "orderProofs proofByKey (key # keys) =
    (case map_of proofByKey (lease_key key) of
       None \<Rightarrow> Inl (invalidLeaseSetError ''all lease set fencing tokens must be positive'')
     | Some lproof \<Rightarrow>
         if le_FencingToken lproof < 1 then
           Inl (invalidLeaseSetError ''all lease set fencing tokens must be positive'')
         else (case orderProofs proofByKey keys of
             Inl err \<Rightarrow> Inl err
           | Inr proofs \<Rightarrow> Inr (rekey_lease key lproof # proofs)))"

definition validateLeaseSetProof ::
    "(string \<Rightarrow> 'd) \<Rightarrow> LeaseStore \<Rightarrow> LeaseSet \<Rightarrow> duration \<Rightarrow> (LeaseKey list \<times> Lease list \<times> 'd) result" where
  "validateLeaseSetProof sha256 s leaseSet ttl =
    (if rune_count (lset_LeaseSetID leaseSet) < 1 \<or> rune_count (lset_LeaseSetID leaseSet) > 500 then
       Inl (invalidLeaseSetError ''lease set ID length must be between 1 and 500 characters'')
     else if rune_count (lset_OwnerID leaseSet) < 1 \<or> rune_count (lset_OwnerID leaseSet) > 500 then
       Inl (invalidLeaseSetError ''owner ID length must be between 1 and 500 characters'')
     else if ttl < Millisecond \<or> ttl > Day then
       Inl (invalidLeaseSetError ''lease TTL must be between one millisecond and 24 hours'')
     else if length (lset_Leases leaseSet) < 1 \<or> length (lset_Leases leaseSet) > 1024 then
       Inl (invalidLeaseSetError ''lease set proof must contain between 1 and 1024 resources'')
     else
    (case validateProofs s (lset_Leases leaseSet) ([], [], 0) of
       Inl err \<Rightarrow> Inl err
     | Inr (keys, proofByKey, worktreeCount) \<Rightarrow>
         if worktreeCount \<noteq> 1 then
           Inl (invalidLeaseSetError ''lease set proof requires exactly one worktree resource'')
         else
           let keys = sortLeaseKeys keys in
           (case orderProofs proofByKey keys of
              Inl err \<Rightarrow> Inl err
            | Inr proofs \<Rightarrow> Inr (keys, proofs, leaseMemberDigest sha256 keys))))"

text \<open>\<open>contracts.ValidateDeliveryAttemptID\<close>.\<close>

definition attemptIDPattern :: "(char \<Rightarrow> bool) list" where
  "attemptIDPattern = char_classes ''attempt_'' @ uuid_pattern"

definition ValidateDeliveryAttemptID :: "string \<Rightarrow> error option" where
  "ValidateDeliveryAttemptID attemptID =
    (if \<not> MatchString attemptIDPattern attemptID then
       Some (Errorf ''attempt ID is not a canonical attempt-prefixed UUIDv4'' [])
     else None)"

section \<open>Transactions\<close>

text \<open>The text functions \<open>char_length\<close> and \<open>substring\<close> of SQL count characters.\<close>

definition pg_substring :: "string \<Rightarrow> int \<Rightarrow> string" where
  "pg_substring t n = concat (take (nat n) (runes t))"

definition hasActiveWritablePathLease ::
    "DBEnv \<Rightarrow> nat \<Rightarrow> LeaseKey \<Rightarrow> 'd LeaseDB \<Rightarrow> bool result" where
  "hasActiveWritablePathLease env n key db =
    db_exec env ''postgres.hasActiveWritablePathLease'' [lk_ResourceID key]
      (Inr (table_ex (\<lambda>k row. lk_TenantID k = lk_TenantID key \<and> lk_RepositoryID k = lk_RepositoryID key
          \<and> (lk_ResourceType k = ''file'' \<or> lk_ResourceType k = ''artifact'')
          \<and> (lk_ResourceID k = lk_ResourceID key
             \<or> pg_substring (lk_ResourceID k) (rune_count (lk_ResourceID key) + 1) = lk_ResourceID key @ ''/''
             \<or> pg_substring (lk_ResourceID key) (rune_count (lk_ResourceID k) + 1) = lk_ResourceID k @ ''/'')
          \<and> lr_expires_at row > db_row_clock env n [lk_ResourceType k, lk_ResourceID k]) (leases db)))"

definition set_key :: "LeaseStore \<Rightarrow> string \<Rightarrow> set_key" where
  "set_key s leaseSetID = (st_tenantID s, st_repositoryID s, leaseSetID)"

text \<open>
  \<open>storedLeaseSet\<close> is the row and \<open>databaseNow\<close>, the reading 0 of the clock;
  \<open>authorizedTTL\<close> is in nanoseconds.
\<close>

definition loadLeaseSetForUpdate ::
    "DBEnv \<Rightarrow> LeaseStore \<Rightarrow> string \<Rightarrow> 'd LeaseDB \<Rightarrow> ('d LeaseSetRow \<times> pgtime) option result" where
  "loadLeaseSetForUpdate env s leaseSetID db =
    db_exec env ''postgres.loadLeaseSetForUpdate'' [leaseSetID]
      (Inr (map_option (\<lambda>row. (row, db_clock env 0)) (map_of (lease_sets db) (set_key s leaseSetID))))"

definition authorizedTTL :: "'d LeaseSetRow \<Rightarrow> duration" where
  "authorizedTTL row = ls_authorized_ttl_us row * 1000"

definition leaseSetDurationsMatch :: "'d LeaseSetRow \<Rightarrow> (Lease \<times> pgtime) list \<Rightarrow> bool" where
  "leaseSetDurationsMatch stored ms \<longleftrightarrow>
     (ls_expires_at stored - ls_updated_at stored) * 1000 = authorizedTTL stored
   \<and> (\<forall>(lease, memberUpdatedAt) \<in> set ms.
        le_AcquiredAt lease = ls_acquired_at stored \<and> le_ExpiresAt lease = ls_expires_at stored
        \<and> memberUpdatedAt = ls_updated_at stored
        \<and> (le_ExpiresAt lease - memberUpdatedAt) * 1000 = authorizedTTL stored)"

definition member_rows :: "LeaseStore \<Rightarrow> string \<Rightarrow> 'd LeaseDB \<Rightarrow> member_row list" where
  "member_rows s leaseSetID db =
     map (\<lambda>((k, resource), token). (resource, token))
       (filter (\<lambda>((k, resource), token). k = set_key s leaseSetID) (members db))"

definition member_key :: "LeaseStore \<Rightarrow> string \<times> string \<Rightarrow> LeaseKey" where
  "member_key s resource = \<lparr>lk_TenantID = st_tenantID s, lk_RepositoryID = st_repositoryID s,
     lk_ResourceType = fst resource, lk_ResourceID = snd resource\<rparr>"

text \<open>The join of the members with their leases, and the scan of its rows.\<close>

fun scanMembers :: "DBEnv \<Rightarrow> nat \<Rightarrow> LeaseStore \<Rightarrow> string \<Rightarrow> 'd LeaseDB \<Rightarrow> member_row list
    \<Rightarrow> (Lease \<times> pgtime) list result" where
  "scanMembers env n s ownerID db [] = Inr []"
| "scanMembers env n s ownerID db ((resource, memberToken) # rows) =
    (case map_of (leases db) (member_key s resource) of
       None \<Rightarrow> scanMembers env n s ownerID db rows
     | Some row \<Rightarrow>
         if \<not> lr_expires_at row > db_row_clock env n [fst resource, snd resource]
            \<or> lr_owner_id row \<noteq> ownerID \<or> lr_fencing_token row \<noteq> memberToken then
           Inl (conflictError ''postgres.loadAndVerifyLeaseSetMembers''
             (Msg ''lease set member is stale or replaced'' []))
         else (case scanMembers env n s ownerID db rows of
             Inl err \<Rightarrow> Inl err
           | Inr ms \<Rightarrow> Inr ((lease_of (member_key s resource) row, lr_updated_at row) # ms)))"

fun checkMembers :: "LeaseKey list \<Rightarrow> Lease list option \<Rightarrow> (Lease \<times> pgtime) list \<Rightarrow> error option" where
  "checkMembers [] proofs ms = None"
| "checkMembers (key # keys) proofs ms =
    (case ms of
       [] \<Rightarrow> None
     | (lease, _) # ms' \<Rightarrow>
         if key_of_lease lease \<noteq> key then
           Some (conflictError ''postgres.loadAndVerifyLeaseSetMembers''
             (Msg ''lease set membership disagrees with authority'' []))
         else (case proofs of
             None \<Rightarrow> checkMembers keys None ms'
           | Some [] \<Rightarrow> checkMembers keys (Some []) ms'
           | Some (p # ps) \<Rightarrow>
               if le_FencingToken lease \<noteq> le_FencingToken p then
                 Some (conflictError ''postgres.loadAndVerifyLeaseSetMembers''
                   (Msg ''lease set fencing proof is stale'' []))
               else checkMembers keys (Some ps) ms'))"

definition loadAndVerifyLeaseSetMembers ::
    "DBEnv \<Rightarrow> LeaseStore \<Rightarrow> string \<Rightarrow> string \<Rightarrow> LeaseKey list \<Rightarrow> Lease list option \<Rightarrow> 'd LeaseDB
      \<Rightarrow> (Lease \<times> pgtime) list result" where
  "loadAndVerifyLeaseSetMembers env s leaseSetID ownerID keys expectedProofs db =
    db_exec env ''postgres.loadAndVerifyLeaseSetMembers.query'' [leaseSetID]
      (case scanMembers env 1 s ownerID db (db_order env (member_rows s leaseSetID db)) of
         Inl err \<Rightarrow> Inl err
       | Inr ms \<Rightarrow>
           db_call env ''postgres.loadAndVerifyLeaseSetMembers.rows''
             (if length ms \<noteq> length keys then
                Inl (conflictError ''postgres.loadAndVerifyLeaseSetMembers''
                  (Msg ''lease set membership is incomplete'' []))
              else
                let ms = sort_key (\<lambda>m. lease_key (key_of_lease (fst m))) ms
                in case checkMembers keys expectedProofs ms of
                     Some err \<Rightarrow> Inl err | None \<Rightarrow> Inr ms))"

definition lockLeaseSetAndMembers :: "DBEnv \<Rightarrow> 'a result \<Rightarrow> 'a result" where
  "lockLeaseSetAndMembers env k =
     db_call env ''postgres.lockLeaseSetAndMembers.migration_barrier''
       (db_call env ''postgres.lockLeaseSetAndMembers'' k)"

text \<open>
  The rows the caller presents are verified against the stored set: it is active, has the
  owner and the digest, lives longer than the minimum, and the durations agree.
\<close>

definition verifyLeaseSetAuthorityWithMinimum ::
    "DBEnv \<Rightarrow> LeaseStore \<Rightarrow> LeaseSet \<Rightarrow> LeaseKey list \<Rightarrow> Lease list \<Rightarrow> 'd \<Rightarrow> duration \<Rightarrow> duration
      \<Rightarrow> 'd LeaseDB \<Rightarrow> LeaseSet result" where
  "verifyLeaseSetAuthorityWithMinimum env s leaseSet keys proofs digest minimumRemaining expectedTTL db =
    (case loadLeaseSetForUpdate env s (lset_LeaseSetID leaseSet) db of
       Inl err \<Rightarrow> Inl err
     | Inr stored \<Rightarrow>
         if minimumRemaining < 0 then
           Inl (invalidLeaseSetError ''minimum remaining lease duration cannot be negative'')
         else if expectedTTL < 0 then
           Inl (invalidLeaseSetError ''expected lease duration cannot be negative'')
         else
    (case stored of
       None \<Rightarrow> Inl (conflictError ''postgres.verifyLeaseSetAuthority''
                 (Msg ''lease set is missing, stale, or replaced'' []))
     | Some (row, databaseNow) \<Rightarrow>
         if ls_state row \<noteq> ''active'' \<or> ls_owner_id row \<noteq> lset_OwnerID leaseSet
            \<or> ls_member_digest row \<noteq> digest
            \<or> \<not> ls_expires_at row * 1000 > databaseNow * 1000 + minimumRemaining
            \<or> authorizedTTL row < Millisecond \<or> authorizedTTL row > Day
            \<or> (ls_expires_at row - ls_updated_at row) * 1000 \<noteq> authorizedTTL row
            \<or> (expectedTTL > 0 \<and> authorizedTTL row \<noteq> expectedTTL) then
           Inl (conflictError ''postgres.verifyLeaseSetAuthority''
             (Msg ''lease set is missing, stale, or replaced'' []))
         else
    (case loadAndVerifyLeaseSetMembers env s (lset_LeaseSetID leaseSet) (lset_OwnerID leaseSet) keys
            (Some proofs) db of
       Inl err \<Rightarrow> Inl err
     | Inr ms \<Rightarrow>
         if \<not> leaseSetDurationsMatch row ms then
           Inl (conflictError ''postgres.verifyLeaseSetAuthority''
             (Msg ''lease set member duration disagrees with authority'' []))
         else Inr \<lparr>lset_LeaseSetID = lset_LeaseSetID leaseSet, lset_OwnerID = ls_owner_id row,
           lset_Leases = map fst ms, lset_AcquiredAt = ls_acquired_at row,
           lset_ExpiresAt = ls_expires_at row\<rparr>)))"

definition verifyLeaseSetAuthority ::
    "DBEnv \<Rightarrow> LeaseStore \<Rightarrow> LeaseSet \<Rightarrow> LeaseKey list \<Rightarrow> Lease list \<Rightarrow> 'd \<Rightarrow> 'd LeaseDB \<Rightarrow> LeaseSet result" where
  "verifyLeaseSetAuthority env s leaseSet keys proofs digest db =
     verifyLeaseSetAuthorityWithMinimum env s leaseSet keys proofs digest 0 0 db"

text \<open>The writable paths of the set, checked before any member is written; statement \<open>n\<close> onwards.\<close>

fun checkWritablePaths :: "DBEnv \<Rightarrow> nat \<Rightarrow> LeaseKey list \<Rightarrow> 'd LeaseDB \<Rightarrow> error option" where
  "checkWritablePaths env n [] db = None"
| "checkWritablePaths env n (key # keys) db =
    (if is_writable key then
       (case hasActiveWritablePathLease env n key db of
          Inl err \<Rightarrow> Some err
        | Inr True \<Rightarrow> Some (conflictError ''postgres.AcquireLeaseSet''
            (Msg ''writable path %s is already leased'' [FStr (lk_ResourceID key)]))
        | Inr False \<Rightarrow> checkWritablePaths env (n + 1) keys db)
     else checkWritablePaths env (n + 1) keys db)"

fun acquireMembers :: "DBEnv \<Rightarrow> nat \<Rightarrow> LeaseStore \<Rightarrow> string \<Rightarrow> pgtime \<Rightarrow> pgtime \<Rightarrow> LeaseKey list
    \<Rightarrow> 'd LeaseDB \<Rightarrow> (Lease list \<times> 'd LeaseDB) result" where
  "acquireMembers env n s ownerID acquiredAt expiresAt [] db = Inr ([], db)"
| "acquireMembers env n s ownerID acquiredAt expiresAt (key # keys) db =
    (case getLeaseForUpdate env n key (st_repositoryID s) db of
       Inl err \<Rightarrow> Inl err
     | Inr found \<Rightarrow>
         if (case found of Some (_, active) \<Rightarrow> active | None \<Rightarrow> False) then
           Inl (conflictError ''postgres.AcquireLeaseSet''
             (Msg ''resource %s/%s is already leased'' [FStr (lk_ResourceType key), FStr (lk_ResourceID key)]))
         else
           let row = (case found of
                 None \<Rightarrow> \<lparr>lr_owner_id = ownerID, lr_fencing_token = 1, lr_acquired_at = acquiredAt,
                   lr_expires_at = expiresAt, lr_updated_at = acquiredAt\<rparr>
               | Some (current, _) \<Rightarrow> current\<lparr>lr_owner_id := ownerID,
                   lr_fencing_token := lr_fencing_token current + 1, lr_acquired_at := acquiredAt,
                   lr_expires_at := expiresAt, lr_updated_at := acquiredAt\<rparr>)
           in
    (case db_exec env ''postgres.AcquireLeaseSet.member'' [lk_ResourceType key, lk_ResourceID key, ownerID]
            (write_lease ''postgres.AcquireLeaseSet.member'' (row_key key (st_repositoryID s)) row db) of
       Inl err \<Rightarrow> Inl err
     | Inr db \<Rightarrow>
    (case acquireMembers env (n + 1) s ownerID acquiredAt expiresAt keys db of
       Inl err \<Rightarrow> Inl err
     | Inr (leasing, db) \<Rightarrow> Inr (lease_of key row # leasing, db))))"

fun insertMembers :: "DBEnv \<Rightarrow> set_key \<Rightarrow> Lease list \<Rightarrow> 'd LeaseDB \<Rightarrow> 'd LeaseDB result" where
  "insertMembers env sk [] db = Inr db"
| "insertMembers env sk (lease # ls) db =
    db_exec env ''postgres.AcquireLeaseSet.insert_member''
      [snd (snd sk), lk_ResourceType lease, lk_ResourceID lease]
      (let k = (sk, (lk_ResourceType lease, lk_ResourceID lease)) in
       if map_of (members db) k \<noteq> None then
         Inl (databaseError ''postgres.AcquireLeaseSet.insert_member'' (PgError ''23505''))
       else insertMembers env sk ls (db\<lparr>members := members db @ [(k, le_FencingToken lease)]\<rparr>))"

text \<open>The transaction delivers the name of the commit that ends it, the set, and the tables.\<close>

definition acquireLeaseSetTx ::
    "DBEnv \<Rightarrow> LeaseStore \<Rightarrow> string \<Rightarrow> LeaseKey list \<Rightarrow> 'd \<Rightarrow> string \<Rightarrow> duration \<Rightarrow> 'd LeaseDB
      \<Rightarrow> ((string \<times> LeaseSet) \<times> 'd LeaseDB) result" where
  "acquireLeaseSetTx env s leaseSetID normalized digest ownerID ttl db =
    db_call env ''postgres.AcquireLeaseSet.begin'' (lockLeaseSetAndMembers env
    (case loadLeaseSetForUpdate env s leaseSetID db of
       Inl err \<Rightarrow> Inl err
     | Inr (Some (existing, databaseNow)) \<Rightarrow>
         if ls_owner_id existing \<noteq> ownerID \<or> ls_member_digest existing \<noteq> digest
            \<or> authorizedTTL existing \<noteq> ttl then
           Inl (conflictError ''postgres.AcquireLeaseSet''
             (Msg ''lease set ID is already bound to different authority'' []))
         else if ls_state existing \<noteq> ''active'' \<or> \<not> ls_expires_at existing > databaseNow then
           Inl (conflictError ''postgres.AcquireLeaseSet''
             (Msg ''expired or released lease set IDs cannot be reused'' []))
         else
    (case loadAndVerifyLeaseSetMembers env s leaseSetID ownerID normalized None db of
       Inl err \<Rightarrow> Inl err
     | Inr ms \<Rightarrow>
         if \<not> leaseSetDurationsMatch existing ms then
           Inl (conflictError ''postgres.AcquireLeaseSet''
             (Msg ''lease set duration disagrees with its immutable authority'' []))
         else Inr ((''postgres.AcquireLeaseSet.replay_commit'',
           \<lparr>lset_LeaseSetID = leaseSetID, lset_OwnerID = ownerID, lset_Leases = map fst ms,
            lset_AcquiredAt = ls_acquired_at existing, lset_ExpiresAt = ls_expires_at existing\<rparr>), db))
     | Inr None \<Rightarrow>
    db_call env ''postgres.AcquireLeaseSet.clock''
      (let acquiredAt = db_clock env 2; expiresAt = db_clock env 2 + intervalString ttl in
    (case checkWritablePaths env 3 normalized db of
       Some err \<Rightarrow> Inl err
     | None \<Rightarrow>
    (case acquireMembers env (3 + length normalized) s ownerID acquiredAt expiresAt normalized db of
       Inl err \<Rightarrow> Inl err
     | Inr (leasing, db) \<Rightarrow>
    db_exec env ''postgres.AcquireLeaseSet.insert_set'' [leaseSetID, ownerID]
      (case insertMembers env (set_key s leaseSetID) leasing
              (db\<lparr>lease_sets := AList.update (set_key s leaseSetID)
                 \<lparr>ls_owner_id = ownerID, ls_member_digest = digest, ls_state = ''active'',
                  ls_acquired_at = acquiredAt, ls_expires_at = expiresAt, ls_updated_at = acquiredAt,
                  ls_authorized_ttl_us = ttl div 1000\<rparr> (lease_sets db)\<rparr>) of
         Inl err \<Rightarrow> Inl err
       | Inr db \<Rightarrow> Inr ((''postgres.AcquireLeaseSet.commit'',
           \<lparr>lset_LeaseSetID = leaseSetID, lset_OwnerID = ownerID, lset_Leases = leasing,
            lset_AcquiredAt = acquiredAt, lset_ExpiresAt = expiresAt\<rparr>), db)))))))"

definition AcquireLeaseSet ::
    "(string \<Rightarrow> 'd) \<Rightarrow> DBEnv \<Rightarrow> LeaseStore \<Rightarrow> string \<Rightarrow> LeaseKey list \<Rightarrow> string \<Rightarrow> duration \<Rightarrow> 'd LeaseDB
      \<Rightarrow> LeaseSet result \<times> 'd LeaseDB" where
  "AcquireLeaseSet sha256 env s leaseSetID keys ownerID ttl db =
    (case validateLeaseSetInput sha256 s leaseSetID keys ownerID ttl of
       Inl err \<Rightarrow> (Inl err, db)
     | Inr (normalized, digest) \<Rightarrow>
         (case acquireLeaseSetTx env s leaseSetID normalized digest ownerID ttl db of
            Inl err \<Rightarrow> (Inl err, db)
          | Inr ((commit, leaseSet), db') \<Rightarrow> db_commit env commit (Inr (leaseSet, db')) db))"

fun renewMembers :: "DBEnv \<Rightarrow> LeaseStore \<Rightarrow> string \<Rightarrow> pgtime \<Rightarrow> pgtime \<Rightarrow> Lease list \<Rightarrow> 'd LeaseDB
    \<Rightarrow> 'd LeaseDB result" where
  "renewMembers env s ownerID databaseNow expiresAt [] db = Inr db"
| "renewMembers env s ownerID databaseNow expiresAt (lproof # proofs) db =
    (let k = member_key s (lk_ResourceType lproof, lk_ResourceID lproof) in
    (case db_exec env ''postgres.RenewLeaseSet.member'' [lk_ResourceType lproof, lk_ResourceID lproof, ownerID]
        (case map_of (leases db) k of
           Some row \<Rightarrow>
             if lr_owner_id row = ownerID \<and> lr_fencing_token row = le_FencingToken lproof
                \<and> lr_expires_at row > databaseNow then
               write_lease ''postgres.RenewLeaseSet.member'' k
                 (row\<lparr>lr_expires_at := expiresAt, lr_updated_at := databaseNow\<rparr>) db
             else Inl (conflictError ''postgres.RenewLeaseSet'' (Msg ''lease set member is stale'' []))
         | None \<Rightarrow> Inl (conflictError ''postgres.RenewLeaseSet'' (Msg ''lease set member is stale'' []))) of
       Inl err \<Rightarrow> Inl err
     | Inr db \<Rightarrow> renewMembers env s ownerID databaseNow expiresAt proofs db))"

definition update_set :: "set_key \<Rightarrow> ('d LeaseSetRow \<Rightarrow> 'd LeaseSetRow) \<Rightarrow> 'd LeaseDB \<Rightarrow> 'd LeaseDB" where
  "update_set sk f db =
    (case map_of (lease_sets db) sk of
       None \<Rightarrow> db
     | Some row \<Rightarrow> db\<lparr>lease_sets := AList.update sk (f row) (lease_sets db)\<rparr>)"

definition renewLeaseSetTx ::
    "DBEnv \<Rightarrow> LeaseStore \<Rightarrow> LeaseSet \<Rightarrow> LeaseKey list \<Rightarrow> Lease list \<Rightarrow> 'd \<Rightarrow> duration \<Rightarrow> 'd LeaseDB
      \<Rightarrow> (LeaseSet \<times> 'd LeaseDB) result" where
  "renewLeaseSetTx env s leaseSet keys proofs digest ttl db =
    db_call env ''postgres.RenewLeaseSet.begin'' (lockLeaseSetAndMembers env
    (case verifyLeaseSetAuthorityWithMinimum env s leaseSet keys proofs digest 0 ttl db of
       Inl err \<Rightarrow> Inl err
     | Inr canonical \<Rightarrow>
    db_call env ''postgres.RenewLeaseSet.clock''
      (let databaseNow = db_clock env 2; expiresAt = db_clock env 2 + intervalString ttl in
    (case renewMembers env s (lset_OwnerID leaseSet) databaseNow expiresAt proofs db of
       Inl err \<Rightarrow> Inl err
     | Inr db \<Rightarrow>
    db_exec env ''postgres.RenewLeaseSet.set'' [lset_LeaseSetID leaseSet]
      (Inr (canonical\<lparr>lset_ExpiresAt := expiresAt,
              lset_Leases := map (\<lambda>l. l\<lparr>le_ExpiresAt := expiresAt\<rparr>) (lset_Leases canonical)\<rparr>,
            update_set (set_key s (lset_LeaseSetID leaseSet))
              (\<lambda>row. row\<lparr>ls_expires_at := expiresAt, ls_updated_at := databaseNow\<rparr>) db))))))"

definition RenewLeaseSet ::
    "(string \<Rightarrow> 'd) \<Rightarrow> DBEnv \<Rightarrow> LeaseStore \<Rightarrow> LeaseSet \<Rightarrow> duration \<Rightarrow> 'd LeaseDB
      \<Rightarrow> LeaseSet result \<times> 'd LeaseDB" where
  "RenewLeaseSet sha256 env s leaseSet ttl db =
    (case validateLeaseSetProof sha256 s leaseSet ttl of
       Inl err \<Rightarrow> (Inl err, db)
     | Inr (keys, proofs, digest) \<Rightarrow>
         db_commit env ''postgres.RenewLeaseSet.commit''
           (renewLeaseSetTx env s leaseSet keys proofs digest ttl db) db)"

fun checkHistory :: "LeaseKey list \<Rightarrow> Lease list \<Rightarrow> member_row list \<Rightarrow> error option" where
  "checkHistory (key # keys) (p # ps) ((resource, token) # rows) =
    (if resource \<noteq> (lk_ResourceType key, lk_ResourceID key) \<or> token \<noteq> le_FencingToken p then
       Some (conflictError ''postgres.verifyHistoricalLeaseSetMembers''
         (Msg ''lease set membership or fence changed'' []))
     else checkHistory keys ps rows)"
| "checkHistory _ _ _ = None"

definition verifyHistoricalLeaseSetMembers ::
    "DBEnv \<Rightarrow> LeaseStore \<Rightarrow> string \<Rightarrow> LeaseKey list \<Rightarrow> Lease list \<Rightarrow> 'd LeaseDB \<Rightarrow> error option" where
  "verifyHistoricalLeaseSetMembers env s leaseSetID keys proofs db =
    (case db_exec env ''postgres.verifyHistoricalLeaseSetMembers.query'' [leaseSetID]
        (db_call env ''postgres.verifyHistoricalLeaseSetMembers.rows''
          (Inr (db_order env (member_rows s leaseSetID db)))) of
       Inl err \<Rightarrow> Some err
     | Inr rows \<Rightarrow>
         if length rows \<noteq> length keys then
           Some (conflictError ''postgres.verifyHistoricalLeaseSetMembers''
             (Msg ''lease set membership is incomplete'' []))
         else checkHistory keys proofs (sort_key (\<lambda>r. lease_key (member_key s (fst r))) rows))"

fun releaseMembers :: "DBEnv \<Rightarrow> LeaseStore \<Rightarrow> string \<Rightarrow> pgtime \<Rightarrow> Lease list \<Rightarrow> 'd LeaseDB
    \<Rightarrow> 'd LeaseDB result" where
  "releaseMembers env s ownerID databaseNow [] db = Inr db"
| "releaseMembers env s ownerID databaseNow (lproof # proofs) db =
    (let k = member_key s (lk_ResourceType lproof, lk_ResourceID lproof) in
    (case db_exec env ''postgres.ReleaseLeaseSet.member'' [lk_ResourceType lproof, lk_ResourceID lproof, ownerID]
        (case map_of (leases db) k of
           Some row \<Rightarrow>
             if lr_owner_id row = ownerID \<and> lr_fencing_token row = le_FencingToken lproof
                \<and> lr_expires_at row > databaseNow then
               write_lease ''postgres.ReleaseLeaseSet.member'' k
                 (row\<lparr>lr_expires_at := max databaseNow (lr_acquired_at row), lr_updated_at := databaseNow\<rparr>) db
             else Inl (conflictError ''postgres.ReleaseLeaseSet'' (Msg ''lease set member is stale'' []))
         | None \<Rightarrow> Inl (conflictError ''postgres.ReleaseLeaseSet'' (Msg ''lease set member is stale'' []))) of
       Inl err \<Rightarrow> Inl err
     | Inr db \<Rightarrow> releaseMembers env s ownerID databaseNow proofs db))"

definition releaseLeaseSetTx ::
    "DBEnv \<Rightarrow> LeaseStore \<Rightarrow> LeaseSet \<Rightarrow> LeaseKey list \<Rightarrow> Lease list \<Rightarrow> 'd \<Rightarrow> 'd LeaseDB
      \<Rightarrow> (string \<times> 'd LeaseDB) result" where
  "releaseLeaseSetTx env s leaseSet keys proofs digest db =
    db_call env ''postgres.ReleaseLeaseSet.begin'' (lockLeaseSetAndMembers env
    (case loadLeaseSetForUpdate env s (lset_LeaseSetID leaseSet) db of
       Inl err \<Rightarrow> Inl err
     | Inr None \<Rightarrow> Inl (conflictError ''postgres.ReleaseLeaseSet''
                     (Msg ''lease set is missing or bound to different authority'' []))
     | Inr (Some (stored, databaseNow)) \<Rightarrow>
         if ls_owner_id stored \<noteq> lset_OwnerID leaseSet \<or> ls_member_digest stored \<noteq> digest then
           Inl (conflictError ''postgres.ReleaseLeaseSet''
             (Msg ''lease set is missing or bound to different authority'' []))
         else
    (case verifyHistoricalLeaseSetMembers env s (lset_LeaseSetID leaseSet) keys proofs db of
       Some err \<Rightarrow> Inl err
     | None \<Rightarrow>
         if ls_state stored = ''released'' then Inr (''postgres.ReleaseLeaseSet.replay_commit'', db)
         else if ls_state stored \<noteq> ''active'' then
           Inl (conflictError ''postgres.ReleaseLeaseSet'' (Msg ''lease set is not active or released'' []))
         else if \<not> ls_expires_at stored > databaseNow then
           db_exec env ''postgres.ReleaseLeaseSet.retire_expired'' [lset_LeaseSetID leaseSet]
             (Inr (''postgres.ReleaseLeaseSet.expired_commit'',
               update_set (set_key s (lset_LeaseSetID leaseSet))
                 (\<lambda>row. if ls_state row = ''active''
                   then row\<lparr>ls_state := ''released'', ls_updated_at := databaseNow\<rparr> else row) db))
         else
    (case loadAndVerifyLeaseSetMembers env s (lset_LeaseSetID leaseSet) (lset_OwnerID leaseSet) keys
            (Some proofs) db of
       Inl err \<Rightarrow> Inl err
     | Inr _ \<Rightarrow>
    (case releaseMembers env s (lset_OwnerID leaseSet) databaseNow proofs db of
       Inl err \<Rightarrow> Inl err
     | Inr db \<Rightarrow>
    db_exec env ''postgres.ReleaseLeaseSet.set'' [lset_LeaseSetID leaseSet]
      (Inr (''postgres.ReleaseLeaseSet.commit'',
        update_set (set_key s (lset_LeaseSetID leaseSet))
          (\<lambda>row. row\<lparr>ls_state := ''released'', ls_expires_at := max databaseNow (ls_acquired_at row),
             ls_updated_at := databaseNow\<rparr>) db)))))))"

definition ReleaseLeaseSet ::
    "(string \<Rightarrow> 'd) \<Rightarrow> DBEnv \<Rightarrow> LeaseStore \<Rightarrow> LeaseSet \<Rightarrow> 'd LeaseDB \<Rightarrow> unit result \<times> 'd LeaseDB" where
  "ReleaseLeaseSet sha256 env s leaseSet db =
    (case validateLeaseSetProof sha256 s leaseSet Millisecond of
       Inl err \<Rightarrow> (Inl err, db)
     | Inr (keys, proofs, digest) \<Rightarrow>
         (case releaseLeaseSetTx env s leaseSet keys proofs digest db of
            Inl err \<Rightarrow> (Inl err, db)
          | Inr (commit, db') \<Rightarrow> db_commit env commit (Inr ((), db')) db))"

definition GetLeaseSet ::
    "DBEnv \<Rightarrow> LeaseStore \<Rightarrow> string \<Rightarrow> 'd LeaseDB \<Rightarrow> (LeaseSet \<times> string) option result" where
  "GetLeaseSet env s leaseSetID db =
    (case ValidateDeliveryAttemptID leaseSetID of
       Some err \<Rightarrow> Inl err
     | None \<Rightarrow>
    db_call env ''postgres.GetLeaseSet.begin'' (db_exec env ''postgres.GetLeaseSet.set'' [leaseSetID]
      (case map_of (lease_sets db) (set_key s leaseSetID) of
         None \<Rightarrow> Inr None
       | Some row \<Rightarrow>
    db_exec env ''postgres.GetLeaseSet.members'' [leaseSetID] (db_call env ''postgres.GetLeaseSet.rows''
      (let ls = map (\<lambda>(resource, token). lease_of (member_key s resource)
               \<lparr>lr_owner_id = ls_owner_id row, lr_fencing_token = token, lr_acquired_at = ls_acquired_at row,
                lr_expires_at = ls_expires_at row, lr_updated_at = ls_updated_at row\<rparr>)
             (db_order env (member_rows s leaseSetID db))
       in if ls = [] then
            Inl (New CodeInternal ''postgres.GetLeaseSet'' (Msg ''lease set has no immutable members'' []))
          else db_call env ''postgres.GetLeaseSet.commit''
            (Inr (Some (\<lparr>lset_LeaseSetID = leaseSetID, lset_OwnerID = ls_owner_id row, lset_Leases = ls,
               lset_AcquiredAt = ls_acquired_at row, lset_ExpiresAt = ls_expires_at row\<rparr>, ls_state row))))))))"

section \<open>Scopes in the database\<close>

lemma pg_substring_prefix: "prefix (pg_substring t n) t"
proof -
  have "concat (runes t) = pg_substring t n @ concat (drop (nat n) (runes t))"
    unfolding pg_substring_def by (metis append_take_drop_id concat_append)
  then show ?thesis by (auto intro: prefixI)
qed

lemma runes_slash: "runes (CHR ''/'' # r) = ''/'' # runes r"
  by (simp add: runes_step rune_width_def byte_in_def)

text \<open>The condition of the query is the scope overlap of the Go code.\<close>

lemma pg_substring_scope:
  assumes "valid_utf8 a"
  shows "pg_substring t (rune_count a + 1) = a @ ''/'' \<longleftrightarrow> prefix (a @ ''/'') t"
proof
  assume "prefix (a @ ''/'') t"
  then obtain r where "t = a @ CHR ''/'' # r" by (auto simp: prefix_def)
  then show "pg_substring t (rune_count a + 1) = a @ ''/''"
    using assms by (simp add: pg_substring_def runes_append runes_slash rune_count_def nat_add_distrib)
qed (metis pg_substring_prefix)

lemma leaseScopesOverlap_sym: "leaseScopesOverlap a b \<longleftrightarrow> leaseScopesOverlap b a"
  by (auto simp: leaseScopesOverlap_def)

text \<open>Two writable resources of one repository whose scopes overlap.\<close>

definition scopes_conflict :: "LeaseKey \<Rightarrow> LeaseKey \<Rightarrow> bool" where
  "scopes_conflict k k' \<longleftrightarrow> lk_TenantID k = lk_TenantID k' \<and> lk_RepositoryID k = lk_RepositoryID k'
     \<and> is_writable k \<and> is_writable k' \<and> leaseScopesOverlap (lk_ResourceID k) (lk_ResourceID k')"

lemma scopes_conflict_sym: "scopes_conflict k k' \<Longrightarrow> scopes_conflict k' k"
  using leaseScopesOverlap_sym by (auto simp: scopes_conflict_def)

lemma hasActiveWritablePathLease_False:
  assumes "hasActiveWritablePathLease env n key db = Inr False"
    and "lease_table_ok db" "lease_rows db k = Some row" "scopes_conflict key k"
  shows "lr_expires_at row \<le> db_row_clock env n [lk_ResourceType k, lk_ResourceID k]"
proof -
  have "valid_utf8 (lk_ResourceID key)" "valid_utf8 (lk_ResourceID k)"
    using assms lease_table_okD(3) by (auto simp: hasActiveWritablePathLease_def pg_text_ok_def)
  then have "lk_ResourceID k = lk_ResourceID key
      \<or> pg_substring (lk_ResourceID k) (rune_count (lk_ResourceID key) + 1) = lk_ResourceID key @ ''/''
      \<or> pg_substring (lk_ResourceID key) (rune_count (lk_ResourceID k) + 1) = lk_ResourceID k @ ''/''"
    using assms(4) by (auto simp: pg_substring_scope scopes_conflict_def leaseScopesOverlap_def)
  with assms(1,3,4) show ?thesis
    by (auto simp: hasActiveWritablePathLease_def table_ex_iff scopes_conflict_def is_writable_def
        dest!: spec [of _ k] spec [of _ row])
qed

lemma checkWritablePaths_None:
  assumes "checkWritablePaths env n keys db = None" "key \<in> set keys" "is_writable key"
  shows "\<exists>m. hasActiveWritablePathLease env m key db = Inr False"
  using assms
  by (induction env n keys db rule: checkWritablePaths.induct)
    (auto split: if_splits sum.splits bool.splits)

section \<open>Validated inputs\<close>

text \<open>Delivery resources of the store, each once.\<close>

definition delivery_keys :: "LeaseStore \<Rightarrow> LeaseKey list \<Rightarrow> bool" where
  "delivery_keys s ks \<longleftrightarrow> distinct ks \<and> (\<forall>k\<in>set ks. lk_TenantID k = st_tenantID s
     \<and> lk_RepositoryID k = st_repositoryID s \<and> lk_ResourceType k \<in> deliveryLeaseTypes)"

lemma delivery_keysD:
  assumes "delivery_keys s ks" "k \<in> set ks"
  shows "lk_TenantID k = st_tenantID s" "lk_RepositoryID k = st_repositoryID s" "lk_ResourceType k \<in> deliveryLeaseTypes"
    "row_key k (st_repositoryID s) = k" "member_key s (lk_ResourceType k, lk_ResourceID k) = k"
  using assms by (auto simp: delivery_keys_def member_key_def)

lemma delivery_keys_Cons:
  "delivery_keys s (k # ks) \<Longrightarrow> delivery_keys s ks" "delivery_keys s (k # ks) \<Longrightarrow> k \<notin> set ks"
  by (auto simp: delivery_keys_def)

lemma delivery_keys_sort: "delivery_keys s ks \<Longrightarrow> delivery_keys s (sortLeaseKeys ks)"
  by (simp add: delivery_keys_def sortLeaseKeys_def)

lemma addResources_keys:
  assumes "delivery_keys s acc" "lk_TenantID key = st_tenantID s" "lk_RepositoryID key = st_repositoryID s"
    and "lk_ResourceType key \<in> deliveryLeaseTypes"
  shows "delivery_keys s (addResources key ids acc)"
  using assms(1)
proof (induction ids arbitrary: acc)
  case (Cons i ids)
  let ?k = "key\<lparr>lk_ResourceID := i\<rparr>"
  have "delivery_keys s (acc @ [?k])" if "lease_key ?k \<notin> lease_key ` set acc"
    using Cons.prems assms(2-) that by (auto simp: delivery_keys_def)
  then show ?case
    using Cons.IH Cons.prems by (simp add: addResources_def Let_def)
qed (simp add: addResources_def)

lemma validateKeys_keys:
  assumes "validateKeys s keys st = Inr st'" "delivery_keys s (in_normalized st)"
  shows "delivery_keys s (in_normalized st')"
  using assms
proof (induction s keys st arbitrary: st' rule: validateKeys.induct)
  case (2 s input keys st)
  have k: "lk_TenantID (bindLeaseKey s input) = st_tenantID s" "lk_RepositoryID (bindLeaseKey s input) = st_repositoryID s"
    "lk_ResourceType (bindLeaseKey s input) \<in> deliveryLeaseTypes"
    using "2.prems"(1) validateLeaseKeyD(1,2) by (auto simp: Let_def split: option.splits if_splits)
  note add = addResources_keys [OF "2.prems"(2) k]
  show ?case
    using "2.prems"(1) "2.IH" add
    by (simp add: Let_def split: option.splits if_splits)
qed simp

lemma validateLeaseSetInput_Inr:
  assumes "validateLeaseSetInput sha s leaseSetID keys ownerID ttl = Inr (normalized, digest)"
  shows "delivery_keys s normalized" "digest = leaseMemberDigest sha normalized" "sorted (map lease_key normalized)"
    "Millisecond \<le> ttl" "ttl \<le> Day" "ttl mod 1000 = 0"
  using assms validateKeys_keys [of s keys "\<lparr>in_normalized = [], in_seenInput = [], in_declaredWritable = [],
            in_worktreeCount = 0\<rparr>"]
  by (auto simp: validateLeaseSetInput_def Let_def delivery_keys_sort sortLeaseKeys_def delivery_keys_def
      split: if_splits sum.splits)

lemma validateProofs_keys:
  assumes "validateProofs s ls (keys, proofs, n) = Inr (keys', proofs', n')"
    and "delivery_keys s keys" "lease_key ` set keys = dom (map_of proofs)"
  shows "delivery_keys s keys'"
  using assms
proof (induction s ls "(keys, proofs, n)" arbitrary: keys proofs n rule: validateProofs.induct)
  case (2 s lease ls keys proofs n)
  let ?k = "bindLeaseKey s (key_of_lease lease)"
  have k: "lk_TenantID ?k = st_tenantID s" "lk_RepositoryID ?k = st_repositoryID s"
    "lk_ResourceType ?k \<in> deliveryLeaseTypes" "map_of proofs (lease_key ?k) = None"
    using "2.prems"(1) validateLeaseKeyD(1,2) by (auto simp: Let_def split: option.splits if_splits)
  then have "?k \<notin> set keys" using "2.prems"(3) by blast
  with k "2.prems"(2) have "delivery_keys s (keys @ [?k])" by (auto simp: delivery_keys_def)
  moreover have "lease_key ` set (keys @ [?k]) = dom (map_of (AList.update (lease_key ?k) lease proofs))"
    using "2.prems"(3) by (simp add: update_conv')
  ultimately show ?case
    using "2.prems"(1) "2.hyps" by (simp add: Let_def split: option.splits if_splits)
qed simp

lemma orderProofs_Inr:
  assumes "orderProofs ps keys = Inr proofs"
  shows "map key_of_lease proofs = keys" "\<forall>p\<in>set proofs. 1 \<le> le_FencingToken p"
  using assms
  by (induction keys arbitrary: proofs)
    (auto simp: key_of_lease_def rekey_lease_def split: option.splits if_splits sum.splits)

lemma validateLeaseSetProof_Inr:
  assumes "validateLeaseSetProof sha s leaseSet ttl = Inr (keys, proofs, digest)"
  shows "delivery_keys s keys" "digest = leaseMemberDigest sha keys" "map key_of_lease proofs = keys"
    "sorted (map lease_key keys)" "Millisecond \<le> ttl" "ttl \<le> Day"
  using assms validateProofs_keys [of s "lset_Leases leaseSet" "[]" "[]" 0]
  by (auto simp: validateLeaseSetProof_def Let_def delivery_keys_sort sortLeaseKeys_def delivery_keys_def
      orderProofs_Inr split: if_splits sum.splits)

section \<open>What the transactions write\<close>

text \<open>The leases of some keys are replaced, all others are as before.\<close>

definition rows_replaced :: "LeaseKey set \<Rightarrow> (LeaseKey \<Rightarrow> LeaseRow) \<Rightarrow> 'd LeaseDB \<Rightarrow> 'd LeaseDB \<Rightarrow> bool" where
  "rows_replaced K rowf db db' \<longleftrightarrow>
     lease_rows db' = (\<lambda>k. if k \<in> K then Some (rowf k) else lease_rows db k)"

lemma rows_replaced_empty [simp]: "rows_replaced {} rowf db db"
  by (simp add: rows_replaced_def)

lemma rows_replaced_insert:
  assumes "rows_replaced K rowf (db\<lparr>leases := AList.update k row (leases db)\<rparr>) db'" "k \<notin> K"
  shows "rows_replaced (insert k K) (rowf(k := row)) db db'"
  using assms by (auto simp: rows_replaced_def update_conv' fun_eq_iff)

lemma acquireMembers_Inr:
  assumes "acquireMembers env n s ownerID acquiredAt expiresAt ks db = Inr (leasing, db')" "delivery_keys s ks"
  shows "\<exists>rowf. rows_replaced (set ks) rowf db db' \<and> leasing = map (\<lambda>k. lease_of k (rowf k)) ks
     \<and> lease_sets db' = lease_sets db \<and> members db' = members db
     \<and> (\<forall>k\<in>set ks. (\<exists>m. granted env m ownerID (lease_rows db k) (rowf k)) \<and> check_lease_row (rowf k) = None
          \<and> pg_text_ok ownerID \<and> pg_text_ok (lk_ResourceID k) \<and> lr_acquired_at (rowf k) = acquiredAt
          \<and> lr_expires_at (rowf k) = expiresAt \<and> lr_updated_at (rowf k) = acquiredAt)"
  using assms
proof (induction ks arbitrary: n db leasing)
  case Nil
  then show ?case by auto
next
  case (Cons k ks)
  note key = delivery_keysD(4) [OF Cons.prems(2), of k, simplified]
  have notin: "k \<notin> set ks" by (rule delivery_keys_Cons(2) [OF Cons.prems(2)])
  from Cons.prems(1) obtain row rest where
    ok: "check_lease_row row = None" "pg_text_ok ownerID" "pg_text_ok (lk_ResourceID k)"
      "granted env n ownerID (lease_rows db k) row" "lr_acquired_at row = acquiredAt"
      "lr_expires_at row = expiresAt" "lr_updated_at row = acquiredAt"
    and rest: "acquireMembers env (n + 1) s ownerID acquiredAt expiresAt ks
        (db\<lparr>leases := AList.update k row (leases db)\<rparr>) = Inr (rest, db')" "leasing = lease_of k row # rest"
    by (auto simp: getLeaseForUpdate_Inr write_lease_Inr key Let_def granted_simps not_less
        split: sum.splits option.splits if_splits prod.splits)
  from Cons.IH [OF rest(1) delivery_keys_Cons(1) [OF Cons.prems(2)]] obtain rowf where
    r: "rows_replaced (set ks) rowf (db\<lparr>leases := AList.update k row (leases db)\<rparr>) db'"
      "rest = map (\<lambda>k. lease_of k (rowf k)) ks" "lease_sets db' = lease_sets db" "members db' = members db"
      "\<forall>k'\<in>set ks. (\<exists>m. granted env m ownerID (lease_rows (db\<lparr>leases := AList.update k row (leases db)\<rparr>) k') (rowf k'))
         \<and> check_lease_row (rowf k') = None \<and> pg_text_ok ownerID \<and> pg_text_ok (lk_ResourceID k')
         \<and> lr_acquired_at (rowf k') = acquiredAt \<and> lr_expires_at (rowf k') = expiresAt
         \<and> lr_updated_at (rowf k') = acquiredAt"
    by auto
  have "lease_rows (db\<lparr>leases := AList.update k row (leases db)\<rparr>) k' = lease_rows db k'" if "k' \<in> set ks" for k'
    using notin that by (auto simp: update_conv')
  moreover have "map (\<lambda>k'. lease_of k' ((rowf(k := row)) k')) ks = rest"
    using notin r(2) by auto
  ultimately show ?case
    using rows_replaced_insert [OF r(1) notin, unfolded fun_upd_def] r ok rest(2) notin
    by (intro exI [of _ "rowf(k := row)"]) auto
qed

lemma insertMembers_Inr:
  assumes "insertMembers env sk ls db = Inr db'"
  shows "leases db' = leases db" "lease_sets db' = lease_sets db"
    "members db' = members db @ map (\<lambda>l. ((sk, (lk_ResourceType l, lk_ResourceID l)), le_FencingToken l)) ls"
    "\<forall>l\<in>set ls. map_of (members db) (sk, (lk_ResourceType l, lk_ResourceID l)) = None"
  using assms
  by (induction env sk ls db rule: insertMembers.induct) (auto simp: Let_def split: if_splits)

text \<open>Renewal and release of members, with what each writes into the row.\<close>

lemma renewMembers_Inr:
  assumes "renewMembers env s ownerID now expiresAt ps db = Inr db'" "delivery_keys s (map key_of_lease ps)"
  shows "\<exists>rowf. rows_replaced (set (map key_of_lease ps)) rowf db db'
     \<and> lease_sets db' = lease_sets db \<and> members db' = members db
     \<and> (\<forall>p\<in>set ps. kept ownerID (le_FencingToken p) now (lease_rows db (key_of_lease p)) (rowf (key_of_lease p))
          \<and> check_lease_row (rowf (key_of_lease p)) = None \<and> lr_expires_at (rowf (key_of_lease p)) = expiresAt
          \<and> lr_updated_at (rowf (key_of_lease p)) = now)"
  using assms
proof (induction ps arbitrary: db)
  case (Cons p ps)
  let ?k = "key_of_lease p"
  have key: "member_key s (lk_ResourceType p, lk_ResourceID p) = ?k"
    using delivery_keysD(5) [OF Cons.prems(2), of ?k] by (simp add: key_of_lease_def)
  have notin: "?k \<notin> set (map key_of_lease ps)" using delivery_keys_Cons(2) [of s ?k "map key_of_lease ps"] Cons.prems(2) by simp
  from Cons.prems(1) obtain row where
    ok: "check_lease_row row = None" "kept ownerID (le_FencingToken p) now (lease_rows db ?k) row"
      "lr_expires_at row = expiresAt" "lr_updated_at row = now"
    and rest: "renewMembers env s ownerID now expiresAt ps
        (db\<lparr>leases := AList.update ?k row (leases db)\<rparr>) = Inr db'"
    by (auto simp: write_lease_Inr key Let_def kept_simps split: sum.splits option.splits if_splits)
  have neq: "key_of_lease q \<noteq> ?k" if "q \<in> set ps" for q using notin that by (metis image_eqI list.set_map)
  then have other: "lease_rows (db\<lparr>leases := AList.update ?k row (leases db)\<rparr>) (key_of_lease q) = lease_rows db (key_of_lease q)"
    if "q \<in> set ps" for q
    using that by (simp add: update_conv')
  from Cons.IH [OF rest delivery_keys_Cons(1) [of s ?k]] Cons.prems(2) obtain rowf where
    r: "rows_replaced (set (map key_of_lease ps)) rowf (db\<lparr>leases := AList.update ?k row (leases db)\<rparr>) db'"
      "lease_sets db' = lease_sets db" "members db' = members db"
      "\<forall>q\<in>set ps. kept ownerID (le_FencingToken q) now (lease_rows db (key_of_lease q)) (rowf (key_of_lease q))
         \<and> check_lease_row (rowf (key_of_lease q)) = None \<and> lr_expires_at (rowf (key_of_lease q)) = expiresAt
         \<and> lr_updated_at (rowf (key_of_lease q)) = now"
    using other by auto
  from neq have "(rowf(?k := row)) (key_of_lease q) = rowf (key_of_lease q)" if "q \<in> set ps" for q
    using that by simp
  then show ?case
    using rows_replaced_insert [OF r(1) notin, unfolded fun_upd_def] r(2-) ok by (intro exI [of _ "rowf(?k := row)"]) auto
qed auto

lemma releaseMembers_Inr:
  assumes "releaseMembers env s ownerID now ps db = Inr db'" "delivery_keys s (map key_of_lease ps)"
  shows "\<exists>rowf. rows_replaced (set (map key_of_lease ps)) rowf db db'
     \<and> lease_sets db' = lease_sets db \<and> members db' = members db
     \<and> (\<forall>p\<in>set ps. kept ownerID (le_FencingToken p) now (lease_rows db (key_of_lease p)) (rowf (key_of_lease p))
          \<and> check_lease_row (rowf (key_of_lease p)) = None)"
  using assms
proof (induction ps arbitrary: db)
  case (Cons p ps)
  let ?k = "key_of_lease p"
  have key: "member_key s (lk_ResourceType p, lk_ResourceID p) = ?k"
    using delivery_keysD(5) [OF Cons.prems(2), of ?k] by (simp add: key_of_lease_def)
  have notin: "?k \<notin> set (map key_of_lease ps)" using delivery_keys_Cons(2) [of s ?k "map key_of_lease ps"] Cons.prems(2) by simp
  from Cons.prems(1) obtain row where
    ok: "check_lease_row row = None" "kept ownerID (le_FencingToken p) now (lease_rows db ?k) row"
    and rest: "releaseMembers env s ownerID now ps
        (db\<lparr>leases := AList.update ?k row (leases db)\<rparr>) = Inr db'"
    by (auto simp: write_lease_Inr key Let_def kept_simps split: sum.splits option.splits if_splits)
  have neq: "key_of_lease q \<noteq> ?k" if "q \<in> set ps" for q using notin that by (metis image_eqI list.set_map)
  then have other: "lease_rows (db\<lparr>leases := AList.update ?k row (leases db)\<rparr>) (key_of_lease q) = lease_rows db (key_of_lease q)"
    if "q \<in> set ps" for q
    using that by (simp add: update_conv')
  from Cons.IH [OF rest delivery_keys_Cons(1) [of s ?k]] Cons.prems(2) obtain rowf where
    r: "rows_replaced (set (map key_of_lease ps)) rowf (db\<lparr>leases := AList.update ?k row (leases db)\<rparr>) db'"
      "lease_sets db' = lease_sets db" "members db' = members db"
      "\<forall>q\<in>set ps. kept ownerID (le_FencingToken q) now (lease_rows db (key_of_lease q)) (rowf (key_of_lease q))
         \<and> check_lease_row (rowf (key_of_lease q)) = None"
    using other by auto
  from neq have "(rowf(?k := row)) (key_of_lease q) = rowf (key_of_lease q)" if "q \<in> set ps" for q
    using that by simp
  then show ?case
    using rows_replaced_insert [OF r(1) notin, unfolded fun_upd_def] r(2-) ok by (intro exI [of _ "rowf(?k := row)"]) auto
qed auto

text \<open>The immutable part of a lease set, and its state, which only moves to released.\<close>

definition set_evolves :: "'d LeaseSetRow \<Rightarrow> 'd LeaseSetRow \<Rightarrow> bool" where
  "set_evolves row row' \<longleftrightarrow> ls_owner_id row' = ls_owner_id row \<and> ls_member_digest row' = ls_member_digest row
   \<and> ls_acquired_at row' = ls_acquired_at row \<and> ls_authorized_ttl_us row' = ls_authorized_ttl_us row
   \<and> (ls_state row' = ls_state row \<or> ls_state row' = ''released'')
   \<and> (ls_state row \<noteq> ''active'' \<longrightarrow> row' = row)"

lemma reflp_set_evolves: "reflp set_evolves"
  by (simp add: reflp_def set_evolves_def)

lemma transp_set_evolves: "transp set_evolves"
  by (rule transpI) (auto simp: set_evolves_def)

text \<open>During a call, moreover, a set whose expiry lies before every reading of the clock keeps it.\<close>

definition set_moves :: "DBEnv \<Rightarrow> 'd LeaseSetRow \<Rightarrow> 'd LeaseSetRow \<Rightarrow> bool" where
  "set_moves env row row' \<longleftrightarrow> set_evolves row row'
   \<and> ((\<forall>n. ls_expires_at row \<le> db_clock env n) \<longrightarrow> ls_expires_at row' = ls_expires_at row)"

lemma reflp_set_moves: "reflp (set_moves env)"
  by (simp add: reflp_def set_moves_def set_evolves_def)

abbreviation set_rows :: "'d LeaseDB \<Rightarrow> Leases.set_key \<rightharpoonup> 'd LeaseSetRow" where
  "set_rows db \<equiv> map_of (lease_sets db)"

abbreviation member_tokens :: "'d LeaseDB \<Rightarrow> Leases.set_key \<times> (string \<times> string) \<rightharpoonup> int" where
  "member_tokens db \<equiv> map_of (members db)"

lemma update_set_moves:
  assumes "\<And>row. set_rows db sk = Some row \<Longrightarrow> set_moves env row (f row)"
  shows "map_evolves (set_moves env) (set_rows db) (set_rows (update_set sk f db))"
  using assms
  by (auto simp: update_set_def update_conv' split: option.split
      intro!: map_evolves_refl map_evolves_upd reflp_set_moves)

lemma update_set_other [simp]:
  "leases (update_set sk f db) = leases db" "members (update_set sk f db) = members db"
  by (simp_all add: update_set_def split: option.split)

text \<open>
  The states a call of a lease-set operation can leave behind: nothing changed; a new set
  was granted with all its members; leases of live members were extended or ended and sets evolved.
\<close>

inductive set_change :: "DBEnv \<Rightarrow> 'd LeaseDB \<Rightarrow> 'd LeaseDB \<Rightarrow> bool" for env where
  unchanged: "set_change env db db"
| grant: "delivery_keys s ks \<Longrightarrow> rows_replaced (set ks) rowf db db'
    \<Longrightarrow> (\<And>k. k \<in> set ks \<Longrightarrow> \<exists>m. granted env m ownerID (lease_rows db k) (rowf k))
    \<Longrightarrow> (\<And>k. k \<in> set ks \<Longrightarrow> check_lease_row (rowf k) = None \<and> pg_text_ok ownerID \<and> pg_text_ok (lk_ResourceID k))
    \<Longrightarrow> (\<And>k k' row. k \<in> set ks \<Longrightarrow> lease_table_ok db \<Longrightarrow> lease_rows db k' = Some row \<Longrightarrow> scopes_conflict k k'
          \<Longrightarrow> \<exists>n r. lr_expires_at row \<le> db_row_clock env n r)
    \<Longrightarrow> set_rows db sk = None \<Longrightarrow> set_rows db' = (set_rows db)(sk \<mapsto> setrow)
    \<Longrightarrow> sk = set_key s leaseSetID
    \<Longrightarrow> members db' = members db @ map (\<lambda>k. ((sk, (lk_ResourceType k, lk_ResourceID k)), lr_fencing_token (rowf k))) ks
    \<Longrightarrow> (\<And>k. k \<in> set ks \<Longrightarrow> member_tokens db (sk, (lk_ResourceType k, lk_ResourceID k)) = None)
    \<Longrightarrow> set_change env db db'"
| keep: "rows_replaced K rowf db db'
    \<Longrightarrow> (\<And>k. k \<in> K \<Longrightarrow> check_lease_row (rowf k) = None
          \<and> (\<exists>ownerID token n. kept ownerID token (db_clock env n) (lease_rows db k) (rowf k)))
    \<Longrightarrow> map_evolves (set_moves env) (set_rows db) (set_rows db') \<Longrightarrow> members db' = members db
    \<Longrightarrow> set_change env db db'"

lemma acquireLeaseSetTx_Inr:
  assumes "acquireLeaseSetTx env s leaseSetID ks digest ownerID ttl db = Inr ((commit, ls), db')"
  shows "(\<exists>existing ms. set_rows db (set_key s leaseSetID) = Some existing \<and> db' = db
            \<and> ls_owner_id existing = ownerID \<and> ls_member_digest existing = digest \<and> authorizedTTL existing = ttl
            \<and> ls_state existing = ''active'' \<and> ls_expires_at existing > db_clock env 0
            \<and> loadAndVerifyLeaseSetMembers env s leaseSetID ownerID ks None db = Inr ms
            \<and> leaseSetDurationsMatch existing ms
            \<and> ls = \<lparr>lset_LeaseSetID = leaseSetID, lset_OwnerID = ownerID, lset_Leases = map fst ms,
                lset_AcquiredAt = ls_acquired_at existing, lset_ExpiresAt = ls_expires_at existing\<rparr>)
       \<or> (\<exists>leasing db1. set_rows db (set_key s leaseSetID) = None \<and> checkWritablePaths env 3 ks db = None
            \<and> acquireMembers env (3 + length ks) s ownerID (db_clock env 2) (db_clock env 2 + intervalString ttl) ks db
                = Inr (leasing, db1)
            \<and> insertMembers env (set_key s leaseSetID) leasing (db1\<lparr>lease_sets := AList.update (set_key s leaseSetID)
                 \<lparr>ls_owner_id = ownerID, ls_member_digest = digest, ls_state = ''active'',
                  ls_acquired_at = db_clock env 2, ls_expires_at = db_clock env 2 + intervalString ttl,
                  ls_updated_at = db_clock env 2, ls_authorized_ttl_us = ttl div 1000\<rparr> (lease_sets db1)\<rparr>) = Inr db'
            \<and> ls = \<lparr>lset_LeaseSetID = leaseSetID, lset_OwnerID = ownerID, lset_Leases = leasing,
                lset_AcquiredAt = db_clock env 2, lset_ExpiresAt = db_clock env 2 + intervalString ttl\<rparr>)"
  using assms
  by (auto simp: acquireLeaseSetTx_def lockLeaseSetAndMembers_def loadLeaseSetForUpdate_def Let_def
      split: sum.splits option.splits if_splits prod.splits)

lemma acquireLeaseSetTx_change:
  assumes "acquireLeaseSetTx env s leaseSetID ks digest ownerID ttl db = Inr ((commit, ls), db')"
    and "delivery_keys s ks"
  shows "set_change env db db'"
  using acquireLeaseSetTx_Inr [OF assms(1)]
proof (elim disjE exE conjE)
  fix leasing db1
  let ?sk = "set_key s leaseSetID"
  assume none: "set_rows db ?sk = None" and paths: "checkWritablePaths env 3 ks db = None"
    and acq: "acquireMembers env (3 + length ks) s ownerID (db_clock env 2) (db_clock env 2 + intervalString ttl) ks db
      = Inr (leasing, db1)"
    and ins: "insertMembers env ?sk leasing (db1\<lparr>lease_sets := AList.update ?sk
                 \<lparr>ls_owner_id = ownerID, ls_member_digest = digest, ls_state = ''active'',
                  ls_acquired_at = db_clock env 2, ls_expires_at = db_clock env 2 + intervalString ttl,
                  ls_updated_at = db_clock env 2, ls_authorized_ttl_us = ttl div 1000\<rparr> (lease_sets db1)\<rparr>) = Inr db'"
  from acquireMembers_Inr [OF acq assms(2)] obtain rowf where r:
    "rows_replaced (set ks) rowf db db1" "leasing = map (\<lambda>k. lease_of k (rowf k)) ks"
    "lease_sets db1 = lease_sets db" "members db1 = members db"
    "\<forall>k\<in>set ks. (\<exists>m. granted env m ownerID (lease_rows db k) (rowf k)) \<and> check_lease_row (rowf k) = None
          \<and> pg_text_ok ownerID \<and> pg_text_ok (lk_ResourceID k)"
    by blast
  note i = insertMembers_Inr [OF ins]
  show ?thesis
  proof (rule set_change.grant [OF assms(2), where rowf = rowf and ownerID = ownerID and sk = ?sk])
    show "rows_replaced (set ks) rowf db db'" using r(1) i(1) by (simp add: rows_replaced_def)
    show "\<exists>n r. lr_expires_at row \<le> db_row_clock env n r"
      if "k \<in> set ks" "lease_table_ok db" "lease_rows db k' = Some row" "scopes_conflict k k'" for k k' row
      using checkWritablePaths_None [OF paths that(1)] hasActiveWritablePathLease_False that(2-)
      unfolding scopes_conflict_def by blast
    show "members db' = members db
        @ map (\<lambda>k. ((?sk, (lk_ResourceType k, lk_ResourceID k)), lr_fencing_token (rowf k))) ks"
      using i(3) r(2,4) by (simp add: lease_of_def)
    show "member_tokens db (?sk, (lk_ResourceType k, lk_ResourceID k)) = None" if "k \<in> set ks" for k
      using i(4) r(2,4) that by (simp add: lease_of_def)
  qed (use r i none in \<open>auto simp: update_conv'\<close>)
qed (simp add: set_change.unchanged)

lemma AcquireLeaseSet_change: "set_change env db (snd (AcquireLeaseSet sha env s leaseSetID keys ownerID ttl db))"
proof -
  have "set_change env db (snd (db_commit env commit (Inr (ls, db')) db))"
    if "validateLeaseSetInput sha s leaseSetID keys ownerID ttl = Inr (ks, digest)"
      "acquireLeaseSetTx env s leaseSetID ks digest ownerID ttl db = Inr ((commit, ls), db')" for ks digest commit ls db'
    using acquireLeaseSetTx_change [OF that(2) validateLeaseSetInput_Inr(1) [OF that(1)]]
    by (intro db_commit_state [where P = "set_change env db"]) (auto intro: set_change.unchanged)
  then show ?thesis
    by (simp add: AcquireLeaseSet_def set_change.unchanged split: sum.split prod.split)
qed

lemma renewLeaseSetTx_change:
  assumes "renewLeaseSetTx env s leaseSet keys proofs digest ttl db = Inr (ls, db')"
    and "delivery_keys s keys" "map key_of_lease proofs = keys"
  shows "set_change env db db'"
proof -
  let ?sk = "set_key s (lset_LeaseSetID leaseSet)"
    and ?f = "\<lambda>row. row\<lparr>ls_expires_at := db_clock env 2 + intervalString ttl, ls_updated_at := db_clock env 2\<rparr>"
  obtain canonical db1 where
    v: "verifyLeaseSetAuthorityWithMinimum env s leaseSet keys proofs digest 0 ttl db = Inr canonical"
    and m: "renewMembers env s (lset_OwnerID leaseSet) (db_clock env 2) (db_clock env 2 + intervalString ttl) proofs db
      = Inr db1"
    and db': "db' = update_set ?sk ?f db1"
    using assms(1) by (auto simp: renewLeaseSetTx_def lockLeaseSetAndMembers_def Let_def split: sum.splits)
  have act: "ls_state row = ''active'' \<and> ls_expires_at row > db_clock env 0" if "set_rows db ?sk = Some row" for row
    using v that by (auto simp: verifyLeaseSetAuthorityWithMinimum_def loadLeaseSetForUpdate_def
        split: sum.splits option.splits if_splits)
  from renewMembers_Inr [OF m] assms(2,3) obtain rowf where r:
    "rows_replaced (set keys) rowf db db1" "lease_sets db1 = lease_sets db" "members db1 = members db"
    "\<forall>p\<in>set proofs. kept (lset_OwnerID leaseSet) (le_FencingToken p) (db_clock env 2)
        (lease_rows db (key_of_lease p)) (rowf (key_of_lease p)) \<and> check_lease_row (rowf (key_of_lease p)) = None"
    by auto
  show ?thesis
  proof (rule set_change.keep [of "set keys" rowf])
    show "rows_replaced (set keys) rowf db db'" using r(1) db' by (simp add: rows_replaced_def)
    show "check_lease_row (rowf k) = None
        \<and> (\<exists>ownerID token n. kept ownerID token (db_clock env n) (lease_rows db k) (rowf k))" if "k \<in> set keys" for k
      using r(4) that unfolding assms(3) [symmetric] list.set_map by (metis imageE)
    show "map_evolves (set_moves env) (set_rows db) (set_rows db')"
      unfolding db' r(2) [symmetric]
      by (rule update_set_moves) (use act r(2) in \<open>auto simp: set_moves_def set_evolves_def dest!: spec [of _ 0]\<close>)
  qed (use r db' in simp)
qed

lemma RenewLeaseSet_change: "set_change env db (snd (RenewLeaseSet sha env s leaseSet ttl db))"
proof -
  have "set_change env db (snd (db_commit env ''postgres.RenewLeaseSet.commit''
      (renewLeaseSetTx env s leaseSet keys proofs digest ttl db) db))"
    if "validateLeaseSetProof sha s leaseSet ttl = Inr (keys, proofs, digest)" for keys proofs digest
    using renewLeaseSetTx_change [OF _ validateLeaseSetProof_Inr(1,3) [OF that]]
    by (intro db_commit_state [where P = "set_change env db"]) (auto intro: set_change.unchanged)
  then show ?thesis
    by (simp add: RenewLeaseSet_def set_change.unchanged split: sum.split prod.split)
qed

lemma releaseLeaseSetTx_change:
  assumes "releaseLeaseSetTx env s leaseSet keys proofs digest db = Inr (commit, db')"
    and "delivery_keys s keys" "map key_of_lease proofs = keys"
  shows "set_change env db db'"
proof -
  let ?sk = "set_key s (lset_LeaseSetID leaseSet)"
    and ?g = "\<lambda>row. if ls_state row = ''active''
       then row\<lparr>ls_state := ''released'', ls_updated_at := db_clock env 0\<rparr> else row"
    and ?f = "\<lambda>row. row\<lparr>ls_state := ''released'', ls_expires_at := max (db_clock env 0) (ls_acquired_at row),
       ls_updated_at := db_clock env 0\<rparr>"
  consider "db' = db" | "db' = update_set ?sk ?g db"
    | db1 row where "releaseMembers env s (lset_OwnerID leaseSet) (db_clock env 0) proofs db = Inr db1"
        "db' = update_set ?sk ?f db1" "set_rows db ?sk = Some row" "ls_state row = ''active''"
        "ls_expires_at row > db_clock env 0"
    using assms(1)
    by (auto simp: releaseLeaseSetTx_def lockLeaseSetAndMembers_def loadLeaseSetForUpdate_def Let_def
        split: sum.splits option.splits if_splits)
  then show ?thesis
  proof cases
    case 2
    then show ?thesis
      using update_set_moves [of db ?sk env ?g]
      by (intro set_change.keep [of "{}" undefined]) (auto simp: rows_replaced_def set_moves_def set_evolves_def)
  next
    case (3 db1 row)
    from releaseMembers_Inr [OF 3(1)] assms(2,3) obtain rowf where r:
      "rows_replaced (set keys) rowf db db1" "lease_sets db1 = lease_sets db" "members db1 = members db"
      "\<forall>p\<in>set proofs. kept (lset_OwnerID leaseSet) (le_FencingToken p) (db_clock env 0)
          (lease_rows db (key_of_lease p)) (rowf (key_of_lease p)) \<and> check_lease_row (rowf (key_of_lease p)) = None"
      by auto
    show ?thesis
    proof (rule set_change.keep [of "set keys" rowf])
      show "rows_replaced (set keys) rowf db db'" using r(1) 3(2) by (simp add: rows_replaced_def)
      show "check_lease_row (rowf k) = None
          \<and> (\<exists>ownerID token n. kept ownerID token (db_clock env n) (lease_rows db k) (rowf k))" if "k \<in> set keys" for k
        using r(4) that unfolding assms(3) [symmetric] list.set_map by (metis imageE)
      show "map_evolves (set_moves env) (set_rows db) (set_rows db')"
        unfolding 3(2) r(2) [symmetric]
        by (rule update_set_moves) (use 3(3-) r(2) in \<open>auto simp: set_moves_def set_evolves_def dest!: spec [of _ 0]\<close>)
    qed (use r 3 in simp)
  qed (simp add: set_change.unchanged)
qed

lemma ReleaseLeaseSet_change: "set_change env db (snd (ReleaseLeaseSet sha env s leaseSet db))"
proof -
  have "set_change env db (snd (db_commit env commit (Inr ((), db')) db))"
    if "validateLeaseSetProof sha s leaseSet Millisecond = Inr (keys, proofs, digest)"
      "releaseLeaseSetTx env s leaseSet keys proofs digest db = Inr (commit, db')" for keys proofs digest commit db'
    using releaseLeaseSetTx_change [OF that(2) validateLeaseSetProof_Inr(1,3) [OF that(1)]]
    by (intro db_commit_state [where P = "set_change env db"]) (auto intro: set_change.unchanged)
  then show ?thesis
    by (simp add: ReleaseLeaseSet_def set_change.unchanged split: sum.split prod.split)
qed

section \<open>Scopes as component lists\<close>

lemma Split_append_sep: "Split (a @ c # b) c = Split a c @ Split b c"
proof (induction a)
  case (Cons x a)
  then show ?case by (cases "Split a c") simp_all
qed simp

lemma Split_inject: "Split a c = Split b c \<longleftrightarrow> a = b"
  using Join_Split by metis

lemma prefix_Split_iff: "prefix (Split a (CHR ''/'')) (Split b (CHR ''/'')) \<longleftrightarrow> a = b \<or> prefix (a @ ''/'') b"
proof
  assume "prefix (Split a (CHR ''/'')) (Split b (CHR ''/''))"
  then obtain cs where cs: "Split b (CHR ''/'') = Split a (CHR ''/'') @ cs" by (auto simp: prefix_def)
  show "a = b \<or> prefix (a @ ''/'') b"
  proof (cases "cs = []")
    case True
    with cs show ?thesis using Split_inject by simp
  next
    case False
    have "CHR ''/'' \<notin> set p" if "p \<in> set cs" for p
      using Split_no_sep [of p b "CHR ''/''"] cs that by simp
    then have "Split (Join cs ''/'') (CHR ''/'') = cs" using False by (intro Split_Join) auto
    then have "Split b (CHR ''/'') = Split (a @ CHR ''/'' # Join cs ''/'') (CHR ''/'')"
      using cs by (simp add: Split_append_sep)
    then show ?thesis using Split_inject by (auto simp: prefix_def)
  qed
next
  assume "a = b \<or> prefix (a @ ''/'') b"
  then show "prefix (Split a (CHR ''/'')) (Split b (CHR ''/''))"
    by (auto simp: prefix_def Split_append_sep)
qed

lemma Join_take_Split:
  assumes "0 < n" "n \<le> length (Split b (CHR ''/''))"
  shows "Split (Join (take n (Split b (CHR ''/''))) ''/'') (CHR ''/'') = take n (Split b (CHR ''/''))"
proof (rule Split_Join)
  show "take n (Split b (CHR ''/'')) \<noteq> []" using assms by (metis Split_nonempty less_numeral_extra(3) take_eq_Nil)
qed (use Split_no_sep in_set_takeD in \<open>fastforce\<close>)

lemma ancestors_iff: "a \<in> set (leaseScopeAndAncestors b) \<longleftrightarrow> prefix (Split a (CHR ''/'')) (Split b (CHR ''/''))"
proof
  assume "a \<in> set (leaseScopeAndAncestors b)"
  then obtain i where "i < length (Split b (CHR ''/''))" "a = Join (take (i + 1) (Split b (CHR ''/''))) ''/''"
    by (auto simp: leaseScopeAndAncestors_def Let_def)
  then have "Split a (CHR ''/'') = take (i + 1) (Split b (CHR ''/''))"
    using Join_take_Split [of "i + 1" b] by simp
  then show "prefix (Split a (CHR ''/'')) (Split b (CHR ''/''))" by (simp add: take_is_prefix)
next
  assume p: "prefix (Split a (CHR ''/'')) (Split b (CHR ''/''))"
  then have take: "take (length (Split a (CHR ''/''))) (Split b (CHR ''/'')) = Split a (CHR ''/'')"
    by (auto simp: prefix_def)
  have len: "0 < length (Split a (CHR ''/''))" "length (Split a (CHR ''/'')) \<le> length (Split b (CHR ''/''))"
    using prefix_length_le [OF p] by simp_all
  then have "a = Join (take (length (Split a (CHR ''/'')) - 1 + 1) (Split b (CHR ''/''))) ''/''"
    using take by simp
  moreover have "length (Split a (CHR ''/'')) - 1 < length (Split b (CHR ''/''))" using len by linarith
  ultimately show "a \<in> set (leaseScopeAndAncestors b)"
    unfolding leaseScopeAndAncestors_def Let_def set_map
    by (intro image_eqI [of _ _ "length (Split a (CHR ''/'')) - 1"]) simp_all
qed

text \<open>
  C31. Taking a lease on every ancestor of a scope makes overlap a conflict of names: two
  scopes overlap exactly if one of them is among the resources the other expands to, that
  is, if the components of one are an initial part of the components of the other.
\<close>

theorem scopes_overlap_iff_ancestor:
  "(leaseScopesOverlap a b \<longleftrightarrow> a \<in> set (leaseScopeAndAncestors b) \<or> b \<in> set (leaseScopeAndAncestors a))
   \<and> (a \<in> set (leaseScopeAndAncestors b) \<longleftrightarrow> prefix (Split a (CHR ''/'')) (Split b (CHR ''/'')))"
  by (auto simp: ancestors_iff prefix_Split_iff leaseScopesOverlap_def)

text \<open>Cleaning keeps ordinary components, and delivers \<open>..\<close> only in front.\<close>

definition ordinary :: "string \<Rightarrow> bool" where
  "ordinary c \<longleftrightarrow> c \<noteq> [] \<and> c \<noteq> ''.'' \<and> c \<noteq> ''..''"

lemma clean_ordinary: "\<forall>c\<in>set cs. ordinary c \<Longrightarrow> clean_components rooted out cs = rev out @ cs"
  by (induction cs arbitrary: out) (auto simp: ordinary_def)

fun dots_first :: "string list \<Rightarrow> bool" where
  "dots_first [] \<longleftrightarrow> True"
| "dots_first (c # cs) \<longleftrightarrow> (if c = ''..'' then dots_first cs else \<forall>d\<in>set (c # cs). ordinary d)"

lemma dots_first_snoc: "dots_first cs \<Longrightarrow> ordinary c \<Longrightarrow> dots_first (cs @ [c])"
  by (induction cs) (auto simp: ordinary_def)

lemma dots_first_dots: "dots_first cs \<Longrightarrow> cs = [] \<or> last cs = ''..'' \<Longrightarrow> dots_first (cs @ [''..''])"
proof (induction cs)
  case (Cons c cs)
  then show ?case
    by (cases "c = ''..''"; cases "cs = []") (auto simp: ordinary_def)
qed simp

lemma dots_first_butlast: "dots_first (cs @ [c]) \<Longrightarrow> dots_first cs"
  by (induction cs) (auto split: if_splits)

lemma clean_dots_first: "dots_first (rev out) \<Longrightarrow> dots_first (clean_components rooted out cs)"
proof (induction rooted out cs rule: clean_components.induct)
  case (2 rooted out c cs)
  consider "c = [] \<or> c = ''.''" | "c = ''..''" "out \<noteq> []" "hd out \<noteq> ''..''" | "c = ''..''" "out = [] \<or> hd out = ''..''"
    | "ordinary c" by (auto simp: ordinary_def)
  then show ?case
  proof cases
    case 2
    then have "dots_first (rev (tl out))"
      using "2.prems" dots_first_butlast [of "rev (tl out)" "hd out"] by (cases out) simp_all
    then show ?thesis using 2 "2.IH"(2) by simp
  next
    case 3
    then have "dots_first (rev out @ [''..''])"
      using "2.prems" by (intro dots_first_dots) (auto simp: last_rev)
    then show ?thesis using 3 "2.IH"(3,4) "2.prems" by auto
  next
    case 4
    then show ?thesis
      using "2.IH"(5) dots_first_snoc [OF "2.prems" 4] by (auto simp: ordinary_def)
  qed (use 2 in auto)
qed simp

lemma clean_subset: "set (clean_components rooted out cs) \<subseteq> set out \<union> set cs"
proof (induction rooted out cs rule: clean_components.induct)
  case (2 rooted out c cs)
  have "set (tl out) \<subseteq> set out" by (cases out) auto
  then show ?case
    unfolding clean_components.simps using 2
    by (cases "c = [] \<or> c = ''.''"; cases "c = ''..''"; cases "out \<noteq> [] \<and> hd out \<noteq> ''..''"; cases rooted) (simp_all, blast+)
qed simp

lemma dots_first_ordinary: "dots_first cs \<Longrightarrow> cs \<noteq> [] \<Longrightarrow> hd cs \<noteq> ''..'' \<Longrightarrow> \<forall>c\<in>set cs. ordinary c"
  by (cases cs) auto

lemma path_IsAbs_Split: "path_IsAbs p \<longleftrightarrow> p \<noteq> [] \<and> hd (Split p (CHR ''/'')) = []"
  by (cases p) (auto simp: path_IsAbs_def prefix_def split: list.split)

lemma path_Clean_ordinary:
  assumes "\<forall>c\<in>set (Split p (CHR ''/'')). ordinary c"
  shows "path_Clean p = p"
proof -
  have "\<not> path_IsAbs p"
    using assms Split_nonempty [of p "CHR ''/''"] unfolding path_IsAbs_Split ordinary_def by (metis hd_in_set)
  then show ?thesis using assms by (simp add: path_Clean_def clean_ordinary)
qed

lemma clean_split:
  assumes "Join (clean_components False [] (Split p (CHR ''/''))) ''/'' = p"
    and "clean_components False [] (Split p (CHR ''/'')) \<noteq> []"
  shows "Split p (CHR ''/'') = clean_components False [] (Split p (CHR ''/''))"
proof -
  have "\<forall>c\<in>set (clean_components False [] (Split p (CHR ''/''))). CHR ''/'' \<notin> set c"
    using clean_subset [of False "[]" "Split p (CHR ''/'')"] Split_no_sep [of _ p "CHR ''/''"] by (simp add: subset_iff)
  from Split_Join [OF assms(2) this] show ?thesis unfolding assms(1) .
qed

lemma Join_dots:
  assumes "Join (''..'' # cs) ''/'' = p" "p \<noteq> ''..''"
  shows "prefix ''../'' p"
proof (cases cs)
  case Nil
  with assms(1) have "''..'' = p" by (simp only: Join.simps)
  with assms(2) show ?thesis by (metis)
next
  case (Cons d ds)
  show ?thesis unfolding assms(1) [symmetric] Cons Join.simps by simp
qed

lemma path_Clean_rel: "\<not> path_IsAbs p \<Longrightarrow> path_Clean p =
    (if clean_components False [] (Split p (CHR ''/'')) = [] then ''.''
     else Join (clean_components False [] (Split p (CHR ''/''))) ''/'')"
  by (simp add: path_Clean_def)

lemma path_Clean_fixed:
  assumes "path_Clean p = p" "\<not> path_IsAbs p" "p \<noteq> ''.''" "p \<noteq> ''..''" "\<not> prefix ''../'' p"
  shows "\<forall>c\<in>set (Split p (CHR ''/'')). ordinary c"
proof -
  define cs where "cs = clean_components False [] (Split p (CHR ''/''))"
  note clean = path_Clean_rel [OF assms(2), folded cs_def]
  have ne: "cs \<noteq> []"
  proof
    assume "cs = []"
    then have "path_Clean p = ''.''" unfolding clean by (rule if_P)
    with assms(1) have "p = ''.''" by (rule trans [OF sym])
    with assms(3) show False by (rule notE)
  qed
  then have "Join cs ''/'' = p" using assms(1) unfolding clean by (simp only: if_False)
  note p = this
  have split: "Split p (CHR ''/'') = cs" unfolding cs_def by (rule clean_split [OF p [unfolded cs_def] ne [unfolded cs_def]])
  have "hd cs \<noteq> ''..''"
  proof
    assume "hd cs = ''..''"
    with ne have "cs = ''..'' # tl cs" by (metis list.collapse)
    with p have "Join (''..'' # tl cs) ''/'' = p" by (simp only:)
    from Join_dots [OF this assms(4)] assms(5) show False by (rule rev_notE)
  qed
  moreover have "dots_first cs" unfolding cs_def by (rule clean_dots_first) simp
  ultimately show ?thesis unfolding split using ne by (intro dots_first_ordinary)
qed

lemma ordinary_path:
  assumes "\<forall>c\<in>set (Split p (CHR ''/'')). ordinary c"
  shows "\<not> path_IsAbs p" "p \<noteq> []" "p \<noteq> ''.''" "p \<noteq> ''..''" "\<not> prefix ''../'' p"
proof -
  have "ordinary (hd (Split p (CHR ''/'')))" using assms by simp
  then show "\<not> path_IsAbs p" by (simp add: path_IsAbs_Split ordinary_def)
  show "p \<noteq> []" "p \<noteq> ''.''" "p \<noteq> ''..''" using assms by (rule contrapos_pn, simp add: ordinary_def)+
  show "\<not> prefix ''../'' p"
  proof
    assume "prefix ''../'' p"
    then obtain r where "p = ''..'' @ CHR ''/'' # r" by (auto simp: prefix_def)
    then have "Split p (CHR ''/'') = ''..'' # Split r (CHR ''/'')" by (simp add: Split_append)
    with assms have "ordinary ''..''" by (simp only: list.set ball_simps)
    then show False by (simp add: ordinary_def)
  qed
qed

lemma ordinary_path_iff:
  "(\<forall>c\<in>set (Split p (CHR ''/'')). ordinary c) \<longleftrightarrow>
      \<not> (p = [] \<or> p = ''.'' \<or> p = ''..'' \<or> path_IsAbs p \<or> path_Clean p \<noteq> p \<or> prefix ''../'' p)"
  using ordinary_path path_Clean_ordinary path_Clean_fixed by metis

lemma if_Some_None: "(if c then Some x else None) = None \<longleftrightarrow> \<not> c"
  by simp

lemma validateLeaseScopePath_None:
  "validateLeaseScopePath p = None \<longleftrightarrow> (\<forall>c\<in>set (Split p (CHR ''/'')). ordinary c) \<and> CHR 0x5C \<notin> set p \<and> CHR 0x00 \<notin> set p"
  unfolding validateLeaseScopePath_def ordinary_path_iff if_Some_None by blast

text \<open>
  The paths a lease scope may have are exactly the canonical ones: every component
  between slashes is an ordinary name, neither empty nor a dot nor two dots, so that no
  scope is absolute or leaves the repository; backslashes and zero bytes are excluded.
\<close>

theorem scope_path_canonical:
  "(validateLeaseScopePath p = None) =
     (list_all (\<lambda>c. c \<noteq> [] \<and> c \<noteq> ''.'' \<and> c \<noteq> ''..'') (Split p (CHR ''/''))
     \<and> CHR 0x5C \<notin> set p \<and> CHR 0x00 \<notin> set p)"
  unfolding validateLeaseScopePath_None ordinary_def list_all_iff ..

end
