(* ===== verification/LeaseSafety.thy ===== *)
theory LeaseSafety
  imports LeaseSets "HOL-Library.Multiset"
begin

text \<open>
  Leases and lease sets over whole histories: every operation of the store is a step, and
  the steps keep the invariant from which exclusive authority follows.
\<close>

section \<open>Histories\<close>

text \<open>
  The clock readings of a call lie between the times the call starts and ends, and a query
  returns each row once.
\<close>

definition env_ok :: "DBEnv \<Rightarrow> pgtime \<Rightarrow> pgtime \<Rightarrow> bool" where
  "env_ok env t t' \<longleftrightarrow> (\<forall>n. t \<le> db_clock env n \<and> db_clock env n \<le> t')
     \<and> (\<forall>n r. t \<le> db_row_clock env n r \<and> db_row_clock env n r \<le> t')
     \<and> (\<forall>rows. mset (db_order env rows) = mset rows) \<and> t \<le> t'"

lemma env_okD:
  assumes "env_ok env t t'"
  shows "t \<le> db_clock env n" "db_clock env n \<le> t'" "t \<le> db_row_clock env n r" "db_row_clock env n r \<le> t'"
    "set (db_order env rows) = set rows" "t \<le> t'"
proof -
  show "set (db_order env rows) = set rows" by (rule mset_eq_setD) (use assms in \<open>simp add: env_ok_def\<close>)
qed (use assms in \<open>simp_all add: env_ok_def\<close>)

inductive lease_step :: "(string \<Rightarrow> 'd) \<Rightarrow> 'd LeaseDB \<times> pgtime \<Rightarrow> 'd LeaseDB \<times> pgtime \<Rightarrow> bool" for sha where
  AcquireLease: "env_ok env t t' \<Longrightarrow> lease_step sha (db, t) (snd (AcquireLease env s key ownerID ttl db), t')"
| RenewLease: "env_ok env t t' \<Longrightarrow> lease_step sha (db, t) (snd (RenewLease env s key ownerID token ttl db), t')"
| ReleaseLease: "env_ok env t t' \<Longrightarrow> lease_step sha (db, t) (snd (ReleaseLease env s key ownerID token db), t')"
| AcquireLeaseSet: "env_ok env t t' \<Longrightarrow>
    lease_step sha (db, t) (snd (AcquireLeaseSet sha env s leaseSetID keys ownerID ttl db), t')"
| RenewLeaseSet: "env_ok env t t' \<Longrightarrow> lease_step sha (db, t) (snd (RenewLeaseSet sha env s leaseSet ttl db), t')"
| ReleaseLeaseSet: "env_ok env t t' \<Longrightarrow> lease_step sha (db, t) (snd (ReleaseLeaseSet sha env s leaseSet db), t')"

lemma lease_step_change:
  assumes "lease_step sha (db, t) (db', t')"
  obtains env where "env_ok env t t'" "lease_change env db db' \<or> set_change env db db'"
  using assms
  by (cases rule: lease_step.cases)
    (metis AcquireLease_change RenewLease_change ReleaseLease_change AcquireLeaseSet_change
      RenewLeaseSet_change ReleaseLeaseSet_change)+

section \<open>Fencing\<close>

lemma rows_replaced_fenced:
  assumes "rows_replaced K rowf db db'"
    and "\<And>k row. k \<in> K \<Longrightarrow> lease_rows db k = Some row \<Longrightarrow> fenced row (rowf k)"
  shows "leases_fenced db db'"
  using assms reflp_fenced by (auto simp: leases_fenced_def map_evolves_def rows_replaced_def reflp_def)

lemma set_change_fenced: "set_change env db db' \<Longrightarrow> leases_fenced db db'"
proof (induction rule: set_change.induct)
  case (grant s ks rowf db db' ownerID)
  show ?case
    by (rule rows_replaced_fenced [OF grant(2)]) (metis grant(3) granted_fenced)
next
  case (keep K rowf db db')
  show ?case
    by (rule rows_replaced_fenced [OF keep(1)]) (metis keep(2) kept_fenced)
qed (rule leases_fenced_refl)

lemma lease_step_fenced: "lease_step sha st st' \<Longrightarrow> leases_fenced (fst st) (fst st')"
  by (cases st; cases st') (metis lease_step_change lease_change_fenced set_change_fenced fst_conv)

lemma lease_steps_fenced: "(lease_step sha)\<^sup>*\<^sup>* st st' \<Longrightarrow> leases_fenced (fst st) (fst st')"
  by (induction rule: rtranclp_induct) (auto intro: leases_fenced_refl leases_fenced_trans lease_step_fenced)

lemma lease_steps_row:
  assumes "(lease_step sha)\<^sup>*\<^sup>* (db, t) (db', t')" "lease_rows db k = Some row"
  shows "\<exists>row'. lease_rows db' k = Some row' \<and> fenced row row'"
  using lease_steps_fenced [OF assms(1)] map_evolvesD assms(2) unfolding leases_fenced_def by fastforce

text \<open>
  C27. A fencing token identifies its holder. When one proof was verified and later, after
  any calls by anyone, a proof for the same resource is verified, the later token is not
  smaller, and if it is the same token then the owner and the grant are the same.
\<close>

theorem fencing_token_identifies_holder:
  assumes "VerifyLease env s p m db = Inr l" "(lease_step sha)\<^sup>*\<^sup>* (db, t) (db', t')"
    and "VerifyLease env' s p' m' db' = Inr l'"
    and "bindLeaseKey s (proof_key p) = bindLeaseKey s (proof_key p')"
  shows "lp_FencingToken p \<le> lp_FencingToken p'
     \<and> (lp_FencingToken p' = lp_FencingToken p \<longrightarrow>
          lp_OwnerID p' = lp_OwnerID p \<and> le_AcquiredAt l' = le_AcquiredAt l)"
proof -
  obtain row where row: "lease_rows db (bindLeaseKey s (proof_key p)) = Some row" "lr_owner_id row = lp_OwnerID p"
    "lr_fencing_token row = lp_FencingToken p" "l = lease_of (bindLeaseKey s (proof_key p)) row"
    using assms(1) by (auto simp: VerifyLease_Inr Let_def)
  obtain row' where row': "lease_rows db' (bindLeaseKey s (proof_key p)) = Some row'" "lr_owner_id row' = lp_OwnerID p'"
    "lr_fencing_token row' = lp_FencingToken p'" "l' = lease_of (bindLeaseKey s (proof_key p)) row'"
    using assms(3,4) by (auto simp: VerifyLease_Inr Let_def)
  show ?thesis
    using lease_steps_row [OF assms(2) row(1)] row row' by (auto simp: fenced_def)
qed

text \<open>
  C28. A proof that was overtaken is dead: once the resource carries a larger fencing token,
  no later state of the database verifies the proof, whatever is called in between.
\<close>

theorem stale_proof_never_verifies:
  assumes "lease_rows db (bindLeaseKey s (proof_key p)) = Some row" "lp_FencingToken p < lr_fencing_token row"
    and "(lease_step sha)\<^sup>*\<^sup>* (db, t) (db', t')"
  shows "\<exists>err. VerifyLease env s p m db' = Inl err"
proof (cases "VerifyLease env s p m db'")
  case (Inr l)
  then show ?thesis
    using lease_steps_row [OF assms(3,1)] assms(2) by (auto simp: VerifyLease_Inr Let_def fenced_def)
qed simp

section \<open>The invariant\<close>

definition member_lease :: "Leases.set_key \<Rightarrow> string \<times> string \<Rightarrow> LeaseKey" where
  "member_lease sk res = \<lparr>lk_TenantID = fst sk, lk_RepositoryID = fst (snd sk),
     lk_ResourceType = fst res, lk_ResourceID = snd res\<rparr>"

lemma member_lease_set_key [simp]: "member_lease (set_key s leaseSetID) res = member_key s res"
  by (simp add: member_lease_def set_key_def member_key_def)

lemma member_lease_inject:
  "member_lease sk res = member_lease sk' res' \<longleftrightarrow> fst sk = fst sk' \<and> fst (snd sk) = fst (snd sk') \<and> res = res'"
  by (auto simp: member_lease_def prod_eq_iff)

text \<open>The set \<open>sk\<close> holds the lease \<open>k\<close> with its current fencing token.\<close>

definition holds :: "'d LeaseDB \<Rightarrow> Leases.set_key \<Rightarrow> LeaseKey \<Rightarrow> bool" where
  "holds db sk k \<longleftrightarrow> (\<exists>res row. member_lease sk res = k \<and> lease_rows db k = Some row
     \<and> member_tokens db (sk, res) = Some (lr_fencing_token row))"

definition lease_inv :: "'d LeaseDB \<times> pgtime \<Rightarrow> bool" where
  "lease_inv = (\<lambda>(db, t). lease_table_ok db \<and> distinct (map fst (members db))
     \<and> (\<forall>sk res token. member_tokens db (sk, res) = Some token \<longrightarrow>
          (\<exists>row. lease_rows db (member_lease sk res) = Some row \<and> token \<le> lr_fencing_token row))
     \<and> (\<forall>sk sk' res res' token. member_tokens db (sk, res) = Some token \<longrightarrow> member_tokens db (sk', res') = Some token
          \<longrightarrow> member_lease sk res = member_lease sk' res' \<longrightarrow> sk = sk')
     \<and> (\<forall>k k' row row'. lease_rows db k = Some row \<longrightarrow> lease_rows db k' = Some row' \<longrightarrow> scopes_conflict k k'
          \<longrightarrow> t < lr_expires_at row \<longrightarrow> t < lr_expires_at row' \<longrightarrow> (\<exists>sk. holds db sk k \<and> holds db sk k')))"

lemma lease_invI:
  assumes "lease_table_ok db" "distinct (map fst (members db))"
    and "\<And>sk res token. member_tokens db (sk, res) = Some token \<Longrightarrow>
          \<exists>row. lease_rows db (member_lease sk res) = Some row \<and> token \<le> lr_fencing_token row"
    and "\<And>sk sk' res res' token. member_tokens db (sk, res) = Some token \<Longrightarrow> member_tokens db (sk', res') = Some token
          \<Longrightarrow> member_lease sk res = member_lease sk' res' \<Longrightarrow> sk = sk'"
    and "\<And>k k' row row'. lease_rows db k = Some row \<Longrightarrow> lease_rows db k' = Some row' \<Longrightarrow> scopes_conflict k k'
          \<Longrightarrow> t < lr_expires_at row \<Longrightarrow> t < lr_expires_at row' \<Longrightarrow> \<exists>sk. holds db sk k \<and> holds db sk k'"
  shows "lease_inv (db, t)"
  using assms unfolding lease_inv_def prod.case by blast

lemma lease_invD:
  assumes "lease_inv (db, t)"
  shows "lease_table_ok db" "distinct (map fst (members db))"
    and "member_tokens db (sk, res) = Some token \<Longrightarrow>
          \<exists>row. lease_rows db (member_lease sk res) = Some row \<and> token \<le> lr_fencing_token row"
    and "member_tokens db (sk, res) = Some token \<Longrightarrow> member_tokens db (sk', res') = Some token
          \<Longrightarrow> member_lease sk res = member_lease sk' res' \<Longrightarrow> sk = sk'"
    and "lease_rows db k = Some row \<Longrightarrow> lease_rows db k' = Some row' \<Longrightarrow> scopes_conflict k k'
          \<Longrightarrow> t < lr_expires_at row \<Longrightarrow> t < lr_expires_at row' \<Longrightarrow> \<exists>sk. holds db sk k \<and> holds db sk k'"
  using assms unfolding lease_inv_def prod.case by blast+

lemma lease_inv_holder_unique:
  assumes "lease_inv (db, t)" "holds db sk k" "holds db sk' k"
  shows "sk = sk'"
  using assms lease_invD(4) [OF assms(1)] unfolding holds_def by (metis option.inject)

text \<open>
  A step that grants nothing to delivery resources: rows with unchanged tokens, extended
  only where they were live.
\<close>

lemma lease_inv_keep:
  assumes inv: "lease_inv (db, t)" and le: "t \<le> t'" and ok: "lease_table_ok db'" and mem: "members db' = members db"
    and old: "\<And>k row. lease_rows db k = Some row \<Longrightarrow> \<exists>row'. lease_rows db' k = Some row'
      \<and> lr_fencing_token row \<le> lr_fencing_token row'
      \<and> (is_writable k \<longrightarrow> lr_fencing_token row' = lr_fencing_token row)"
    and live: "\<And>k row'. lease_rows db' k = Some row' \<Longrightarrow> is_writable k \<Longrightarrow> t' < lr_expires_at row'
      \<Longrightarrow> \<exists>row. lease_rows db k = Some row \<and> t < lr_expires_at row"
  shows "lease_inv (db', t')"
proof (rule lease_invI [OF ok])
  show "distinct (map fst (members db'))" using lease_invD(2) [OF inv] mem by simp
  show "\<exists>row. lease_rows db' (member_lease sk res) = Some row \<and> token \<le> lr_fencing_token row"
    if "member_tokens db' (sk, res) = Some token" for sk res token
    using lease_invD(3) [OF inv] that old mem by (metis order_trans)
  show "sk = sk'" if "member_tokens db' (sk, res) = Some token" "member_tokens db' (sk', res') = Some token"
    "member_lease sk res = member_lease sk' res'" for sk sk' res res' token
    using lease_invD(4) [OF inv] that mem by metis
  have holds: "holds db' sk k" if "holds db sk k" "is_writable k" for sk k
    using that old mem unfolding holds_def by metis
  show "\<exists>sk. holds db' sk k \<and> holds db' sk k'"
    if "lease_rows db' k = Some row" "lease_rows db' k' = Some row'" "scopes_conflict k k'"
      "t' < lr_expires_at row" "t' < lr_expires_at row'" for k k' row row'
  proof -
    from that(3) have w: "is_writable k" "is_writable k'" by (simp_all add: scopes_conflict_def)
    note lv = live [OF that(1) w(1) that(4)] live [OF that(2) w(2) that(5)] and inv5 = lease_invD(5) [OF inv _ _ that(3)]
    obtain r r' where "lease_rows db k = Some r" "t < lr_expires_at r" "lease_rows db k' = Some r'" "t < lr_expires_at r'"
      using lv by blast
    then show ?thesis using inv5 holds w by metis
  qed
qed

lemma delivery_writable: "is_writable k \<Longrightarrow> lk_ResourceType k \<in> deliveryLeaseTypes"
  by (auto simp: is_writable_def deliveryLeaseTypes_def)

lemma lease_change_inv:
  assumes "lease_change env db db'" "env_ok env t t'" "lease_inv (db, t)"
  shows "lease_inv (db', t')"
  using assms(1)
proof cases
  case unchanged
  then show ?thesis
    using assms lease_invD(1) env_okD(6) by (intro lease_inv_keep [OF assms(3)]) fastforce+
next
  case (grant ownerID key row')
  have notw: "\<not> is_writable key" using grant(2) delivery_writable by blast
  show ?thesis
  proof (rule lease_inv_keep [OF assms(3) env_okD(6) [OF assms(2)]])
    show "lease_table_ok db'" using lease_change_table_ok assms lease_invD(1) by blast
    show "\<exists>r'. lease_rows db' k = Some r' \<and> lr_fencing_token row \<le> lr_fencing_token r'
      \<and> (is_writable k \<longrightarrow> lr_fencing_token r' = lr_fencing_token row)" if "lease_rows db k = Some row" for k row
      using grant(1,6) notw that by (auto simp: update_conv' granted_simps)
    show "\<exists>row. lease_rows db k = Some row \<and> t < lr_expires_at row"
      if "lease_rows db' k = Some r'" "is_writable k" "t' < lr_expires_at r'" for k r'
      using grant(6) notw that env_okD(6) [OF assms(2)] by (auto simp: update_conv' split: if_splits)
  qed (use grant in simp)
next
  case (keep ownerID token key row')
  show ?thesis
  proof (rule lease_inv_keep [OF assms(3) env_okD(6) [OF assms(2)]])
    show "lease_table_ok db'" using lease_change_table_ok assms lease_invD(1) by blast
    show "\<exists>r'. lease_rows db' k = Some r' \<and> lr_fencing_token row \<le> lr_fencing_token r'
      \<and> (is_writable k \<longrightarrow> lr_fencing_token r' = lr_fencing_token row)" if "lease_rows db k = Some row" for k row
      using keep(1,3) that by (auto simp: update_conv' kept_simps)
    show "\<exists>row. lease_rows db k = Some row \<and> t < lr_expires_at row"
      if "lease_rows db' k = Some r'" "is_writable k" "t' < lr_expires_at r'" for k r'
      using keep(1,3) that env_okD(1) [OF assms(2), of 1] env_okD(6) [OF assms(2)]
      by (auto simp: update_conv' kept_simps split: if_splits)
  qed (use keep in simp)
qed

lemma rows_replacedD:
  assumes "rows_replaced K rowf db db'"
  shows "k \<in> K \<Longrightarrow> lease_rows db' k = Some (rowf k)" "k \<notin> K \<Longrightarrow> lease_rows db' k = lease_rows db k"
  using assms by (simp_all add: rows_replaced_def)

lemma set_change_table_ok:
  assumes "set_change env db db'" "lease_table_ok db"
  shows "lease_table_ok db'"
  using assms(1)
proof cases
  case (grant s ks rowf ownerID)
  show ?thesis
    unfolding lease_table_ok_def
  proof (intro allI impI)
    fix k row assume "lease_rows db' k = Some row"
    then show "check_lease_row row = None \<and> pg_text_ok (lr_owner_id row) \<and> pg_text_ok (lk_ResourceID k)"
      using rows_replacedD [OF grant(2), of k] grant(3,4) [of k] lease_table_okD [OF assms(2), of k row]
      by (cases "k \<in> set ks") (auto simp: granted_simps)
  qed
next
  case (keep K rowf)
  show ?thesis
    unfolding lease_table_ok_def
  proof (intro allI impI)
    fix k row assume "lease_rows db' k = Some row"
    then show "check_lease_row row = None \<and> pg_text_ok (lr_owner_id row) \<and> pg_text_ok (lk_ResourceID k)"
      using rows_replacedD [OF keep(1), of k] keep(2) [of k] lease_table_okD [OF assms(2), of k]
      by (cases "k \<in> K") (auto simp: kept_simps)
  qed
qed (use assms in simp)

lemma map_of_append_new:
  assumes "distinct xs" "inj_on f (set xs)" "\<And>x. x \<in> set xs \<Longrightarrow> map_of m (f x) = None"
  shows "map_of (m @ map (\<lambda>x. (f x, g x)) xs) =
    (\<lambda>k. if k \<in> f ` set xs then Some (g (inv_into (set xs) f k)) else map_of m k)"
proof
  fix k
  have "map_of (map (\<lambda>x. (f x, g x)) xs) k = (if k \<in> f ` set xs then Some (g (inv_into (set xs) f k)) else None)"
    using assms(1,2)
  proof (induction xs)
    case (Cons x xs)
    have "inv_into (set (x # xs)) f (f y) = y" if "y \<in> set (x # xs)" for y
      using Cons.prems(2) that by (rule inv_into_f_f)
    moreover have "inv_into (set xs) f (f y) = y" if "y \<in> set xs" for y
      using Cons.prems(2) that by (intro inv_into_f_f) (auto simp: inj_on_def)
    ultimately show ?case using Cons by (auto simp: inj_on_def)
  qed simp
  then show "map_of (m @ map (\<lambda>x. (f x, g x)) xs) k =
      (if k \<in> f ` set xs then Some (g (inv_into (set xs) f k)) else map_of m k)"
    using assms(3) by (auto simp: map_of_append map_add_def split: option.split)
qed

text \<open>The members after a grant: those of the new set with the granted tokens, and those before.\<close>

lemma granted_members:
  assumes "delivery_keys s ks" "sk = set_key s leaseSetID"
    and "members db' = members db @ map (\<lambda>k. ((sk, (lk_ResourceType k, lk_ResourceID k)), lr_fencing_token (rowf k))) ks"
    and "\<And>k. k \<in> set ks \<Longrightarrow> member_tokens db (sk, (lk_ResourceType k, lk_ResourceID k)) = None"
  shows "member_tokens db' (sk', res) = (if sk' = sk \<and> member_key s res \<in> set ks
      then Some (lr_fencing_token (rowf (member_key s res))) else member_tokens db (sk', res))"
proof -
  let ?f = "\<lambda>k :: LeaseKey. (sk, (lk_ResourceType k, lk_ResourceID k))"
  have bk: "member_key s (lk_ResourceType k, lk_ResourceID k) = k" if "k \<in> set ks" for k
    using delivery_keysD(5) [OF assms(1) that] .
  have inj: "inj_on ?f (set ks)" by (rule inj_on_inverseI [where g = "\<lambda>x. member_key s (snd x)"]) (simp add: bk)
  have mem: "(sk', res) \<in> ?f ` set ks \<longleftrightarrow> sk' = sk \<and> member_key s res \<in> set ks"
  proof
    assume "sk' = sk \<and> member_key s res \<in> set ks"
    then show "(sk', res) \<in> ?f ` set ks"
      by (intro image_eqI [of _ _ "member_key s res"]) (simp_all add: member_key_def)
  next
    assume "(sk', res) \<in> ?f ` set ks"
    then obtain k where "k \<in> set ks" "sk' = sk" "res = (lk_ResourceType k, lk_ResourceID k)"
      unfolding image_iff prod.inject by blast
    then show "sk' = sk \<and> member_key s res \<in> set ks" using bk by simp
  qed
  have inv: "inv_into (set ks) ?f (sk, res) = member_key s res" if "member_key s res \<in> set ks"
    using inj that by (intro inv_into_f_eq) (simp_all add: member_key_def)
  have "distinct ks" using assms(1) by (simp add: delivery_keys_def)
  then have "member_tokens db' = (\<lambda>x. if x \<in> ?f ` set ks
      then Some (lr_fencing_token (rowf (inv_into (set ks) ?f x))) else member_tokens db x)"
    unfolding assms(3) by (rule map_of_append_new [OF _ inj assms(4)])
  then have "member_tokens db' (sk', res) = (if (sk', res) \<in> ?f ` set ks
      then Some (lr_fencing_token (rowf (inv_into (set ks) ?f (sk', res)))) else member_tokens db (sk', res))"
    by (rule fun_cong)
  then show ?thesis
    unfolding mem using inv by (cases "sk' = sk \<and> member_key s res \<in> set ks") auto
qed

lemma holds_replaced:
  assumes "rows_replaced K rowf db db'" "k \<notin> K" "holds db sk k"
    and "\<And>res. member_lease sk res = k \<Longrightarrow> member_tokens db' (sk, res) = member_tokens db (sk, res)"
  shows "holds db' sk k"
  using assms(3,4) rows_replacedD(2) [OF assms(1,2)] unfolding holds_def by metis

lemma set_change_inv:
  assumes "set_change env db db'" "env_ok env t t'" "lease_inv (db, t)"
  shows "lease_inv (db', t')"
  using assms(1)
proof cases
  case unchanged
  then show ?thesis
    using assms lease_invD(1) env_okD(6) by (intro lease_inv_keep [OF assms(3)]) fastforce+
next
  case (keep K rowf)
  show ?thesis
  proof (rule lease_inv_keep [OF assms(3) env_okD(6) [OF assms(2)]])
    show "lease_table_ok db'" using set_change_table_ok assms lease_invD(1) by blast
    show "\<exists>r'. lease_rows db' k = Some r' \<and> lr_fencing_token row \<le> lr_fencing_token r'
      \<and> (is_writable k \<longrightarrow> lr_fencing_token r' = lr_fencing_token row)" if "lease_rows db k = Some row" for k row
      using keep(2) [of k] rows_replacedD [OF keep(1), of k] that by (cases "k \<in> K") (auto simp: kept_simps)
    show "\<exists>row. lease_rows db k = Some row \<and> t < lr_expires_at row"
      if "lease_rows db' k = Some r'" "is_writable k" "t' < lr_expires_at r'" for k r'
    proof (cases "k \<in> K")
      case True
      then obtain n row where "lease_rows db k = Some row" "db_clock env n < lr_expires_at row"
        using keep(2) [of k] by (auto simp: kept_simps)
      then show ?thesis using env_okD(1) [OF assms(2), of n] by auto
    qed (use that env_okD(6) [OF assms(2)] rows_replacedD [OF keep(1), of k] in auto)
  qed (rule keep(4))
next
  case (grant s ks rowf ownerID sk setrow leaseSetID)
  note tokens = granted_members [OF grant(1,8,9,10)]
  note new = rows_replacedD(1) [OF grant(2)] and other = rows_replacedD(2) [OF grant(2)]
  note mk = delivery_keysD(5) [OF grant(1)]
  have fresh: "token < lr_fencing_token (rowf (member_lease sk' res))"
    if "member_tokens db (sk', res) = Some token" "member_lease sk' res \<in> set ks" for sk' res token
    using lease_invD(3) [OF assms(3) that(1)] grant(3) [OF that(2)] by (auto simp: granted_simps)
  show ?thesis
  proof (rule lease_invI)
    show "lease_table_ok db'" using set_change_table_ok assms lease_invD(1) by blast
    show "distinct (map fst (members db'))"
      using lease_invD(2) [OF assms(3)] grant(1,9,10) mk
      by (auto simp: distinct_map inj_on_def delivery_keys_def map_of_eq_None_iff image_iff)
    show "\<exists>row. lease_rows db' (member_lease sk' res) = Some row \<and> token \<le> lr_fencing_token row"
      if "member_tokens db' (sk', res) = Some token" for sk' res token
    proof (cases "sk' = sk \<and> member_key s res \<in> set ks")
      case True
      then show ?thesis using that tokens [of sk' res] new grant(8) by simp
    next
      case False
      then have m: "member_tokens db (sk', res) = Some token" using that tokens [of sk' res] by (simp split: if_splits)
      then show ?thesis
        using lease_invD(3) [OF assms(3) m] fresh [OF m] new [of "member_lease sk' res"] other [of "member_lease sk' res"]
        by (cases "member_lease sk' res \<in> set ks") auto
    qed
    show "sk1 = sk2" if "member_tokens db' (sk1, res) = Some token" "member_tokens db' (sk2, res') = Some token"
      "member_lease sk1 res = member_lease sk2 res'" for sk1 sk2 res res' token
      using that tokens [of sk1 res] tokens [of sk2 res'] fresh lease_invD(4) [OF assms(3)] grant(8)
      by (metis (mono_tags, lifting) less_irrefl member_lease_set_key option.inject)
    have holds_new: "holds db' sk k" if "k \<in> set ks" for k
      using that new [OF that] tokens [of sk "(lk_ResourceType k, lk_ResourceID k)"] mk [OF that] grant(8)
      unfolding holds_def by auto
    have apart: False if "k \<in> set ks" "k' \<notin> set ks" "lease_rows db' k' = Some row'" "scopes_conflict k k'"
      "t' < lr_expires_at row'" for k k' row'
    proof -
      have "lease_rows db k' = Some row'" using other that(2,3) by simp
      from grant(5) [OF that(1) lease_invD(1) [OF assms(3)] this that(4)] obtain n r where
        "lr_expires_at row' \<le> db_row_clock env n r" by blast
      then show False using that(5) env_okD(4) [OF assms(2), of n r] by simp
    qed
    show "\<exists>sk. holds db' sk k \<and> holds db' sk k'"
      if live: "lease_rows db' k = Some row" "lease_rows db' k' = Some row'" "scopes_conflict k k'"
        "t' < lr_expires_at row" "t' < lr_expires_at row'" for k k' row row'
    proof (cases "k \<in> set ks")
      case True
      then have "k' \<in> set ks" using apart live by blast
      with True show ?thesis using holds_new by blast
    next
      case False
      then have k': "k' \<notin> set ks" using apart [OF _ False live(1) scopes_conflict_sym [OF live(3)] live(4)] by blast
      have "lease_rows db k = Some row" "lease_rows db k' = Some row'" using other False k' live by simp_all
      moreover have "t < lr_expires_at row" "t < lr_expires_at row'" using env_okD(6) [OF assms(2)] live(4,5) by simp_all
      ultimately obtain sk' where h: "holds db sk' k" "holds db sk' k'"
        using lease_invD(5) [OF assms(3)] live(3) by blast
      have keep: "member_tokens db' (sk', res) = member_tokens db (sk', res)" if "member_lease sk' res \<notin> set ks" for res
        using tokens [of sk' res] that grant(8) by auto
      show ?thesis
        using holds_replaced [OF grant(2) False h(1)] holds_replaced [OF grant(2) k' h(2)] keep False k' by blast
    qed
  qed
qed

lemma empty_db_inv: "lease_inv (empty_db, t)"
  by (rule lease_invI) (simp_all add: lease_table_ok_def)

interpretation lease_history: step_invariant "\<lambda>st. fst st = empty_db" "lease_step sha" lease_inv
  for sha :: "string \<Rightarrow> 'd"
proof
  fix st :: "'d LeaseDB \<times> pgtime" assume "fst st = empty_db"
  then show "lease_inv st" using empty_db_inv [of "snd st"] by (metis prod.collapse)
next
  fix st st' :: "'d LeaseDB \<times> pgtime" assume "lease_step sha st st'" "lease_inv st"
  then show "lease_inv st'"
    by (cases st; cases st') (metis lease_step_change lease_change_inv set_change_inv)
qed

section \<open>Exclusive authority\<close>

lemma scanMembers_Inr:
  assumes "scanMembers env n s ownerID db rows = Inr ms" "m \<in> set ms"
  shows "\<exists>res token row. (res, token) \<in> set rows \<and> lease_rows db (member_key s res) = Some row
     \<and> lr_expires_at row > db_row_clock env n [fst res, snd res] \<and> lr_owner_id row = ownerID
     \<and> lr_fencing_token row = token \<and> m = (lease_of (member_key s res) row, lr_updated_at row)"
  using assms
proof (induction env n s ownerID db rows arbitrary: ms rule: scanMembers.induct)
  case (2 env n s ownerID db resource memberToken rows)
  show ?case
  proof (cases "lease_rows db (member_key s resource)")
    case None
    with 2 show ?thesis by auto
  next
    case (Some row)
    with "2.prems"(1) obtain ms' where
      ok: "lr_expires_at row > db_row_clock env n [fst resource, snd resource]" "lr_owner_id row = ownerID"
        "lr_fencing_token row = memberToken" "scanMembers env n s ownerID db rows = Inr ms'"
        "ms = (lease_of (member_key s resource) row, lr_updated_at row) # ms'"
      by (auto split: if_splits sum.splits)
    show ?thesis
    proof (cases "m \<in> set ms'")
      case True
      with "2.IH"(2) [OF Some _ ok(4)] ok show ?thesis by auto
    next
      case False
      with "2.prems"(2) ok(5) have "m = (lease_of (member_key s resource) row, lr_updated_at row)" by simp
      with ok(1-3) Some show ?thesis
        by (intro exI [of _ resource] exI [of _ memberToken] exI [of _ row]) simp
    qed
  qed
qed simp

lemma checkMembers_None:
  assumes "checkMembers keys proofs ms = None" "length ms = length keys"
  shows "map (\<lambda>m. key_of_lease (fst m)) ms = keys"
  using assms
  by (induction keys proofs ms rule: checkMembers.induct)
    (auto split: list.splits if_splits option.splits prod.splits)

lemma key_of_lease_of [simp]: "key_of_lease (lease_of key row) = key"
  by (simp add: key_of_lease_def lease_of_def)

lemma loadAndVerify_member:
  assumes "loadAndVerifyLeaseSetMembers env s leaseSetID ownerID keys proofs db = Inr ms" "k \<in> set keys"
    and "env_ok env t t'" "distinct (map fst (members db))"
  shows "\<exists>row. lease_rows db k = Some row \<and> t < lr_expires_at row \<and> lr_owner_id row = ownerID
     \<and> holds db (set_key s leaseSetID) k"
proof -
  obtain ms0 where scan: "scanMembers env 1 s ownerID db (db_order env (member_rows s leaseSetID db)) = Inr ms0"
    and len: "length ms0 = length keys"
    and chk: "checkMembers keys proofs ms = None" "ms = sort_key (\<lambda>m. lease_key (key_of_lease (fst m))) ms0"
    using assms(1) by (auto simp: loadAndVerifyLeaseSetMembers_def Let_def split: sum.splits if_splits option.splits)
  have "map (\<lambda>m. key_of_lease (fst m)) ms = keys"
    using checkMembers_None [OF chk(1)] len chk(2) by simp
  then obtain m where m: "m \<in> set ms0" "key_of_lease (fst m) = k"
    using assms(2) chk(2) by (metis (no_types, lifting) imageE list.set_map set_sort)
  from scanMembers_Inr [OF scan m(1)] obtain res token row where
    r: "(res, token) \<in> set (member_rows s leaseSetID db)" "lease_rows db (member_key s res) = Some row"
      "lr_expires_at row > db_row_clock env 1 [fst res, snd res]" "lr_owner_id row = ownerID"
      "lr_fencing_token row = token" "m = (lease_of (member_key s res) row, lr_updated_at row)"
    unfolding env_okD(5) [OF assms(3)] by blast
  have k: "member_key s res = k" using m(2) r(6) by simp
  have "((set_key s leaseSetID, res), token) \<in> set (members db)"
    using r(1) by (auto simp: member_rows_def)
  then have "member_tokens db (set_key s leaseSetID, res) = Some token" by (rule map_of_is_SomeI [OF assms(4)])
  then have "holds db (set_key s leaseSetID) k"
    unfolding holds_def using r(2,5) k by (intro exI [of _ res] exI [of _ row]) simp
  then show ?thesis using r k env_okD(3) [OF assms(3), of 1 "[fst res, snd res]"] by auto
qed

lemma verifyLeaseSetAuthority_members:
  assumes "verifyLeaseSetAuthorityWithMinimum env s ls keys proofs digest m ttl db = Inr canonical"
  shows "\<exists>ms. loadAndVerifyLeaseSetMembers env s (lset_LeaseSetID ls) (lset_OwnerID ls) keys (Some proofs) db = Inr ms"
  using assms
  by (auto simp: verifyLeaseSetAuthorityWithMinimum_def split: sum.splits option.splits if_splits)

text \<open>
  C3. Exclusive write authority. In every history of leases and lease sets, two different
  lease sets that are both verified in the same state of the database share no resource,
  and no writable scope of one overlaps a writable scope of the other.
\<close>

theorem lease_set_authority_exclusive:
  assumes "(lease_step sha)\<^sup>*\<^sup>* (empty_db, t0) (db, t)"
    and "verifyLeaseSetAuthority env1 s ls1 keys1 proofs1 digest1 db = Inr canonical1" "env_ok env1 t t1"
    and "verifyLeaseSetAuthority env2 s ls2 keys2 proofs2 digest2 db = Inr canonical2" "env_ok env2 t t2"
    and "lset_LeaseSetID ls1 \<noteq> lset_LeaseSetID ls2" "k1 \<in> set keys1" "k2 \<in> set keys2"
  shows "k1 \<noteq> k2 \<and> \<not> scopes_conflict k1 k2"
proof -
  let ?sk1 = "set_key s (lset_LeaseSetID ls1)" and ?sk2 = "set_key s (lset_LeaseSetID ls2)"
  have inv: "lease_inv (db, t)" using lease_history.inv_reachable [OF _ assms(1)] by simp
  obtain row1 where r1: "lease_rows db k1 = Some row1" "t < lr_expires_at row1" "holds db ?sk1 k1"
    using verifyLeaseSetAuthority_members [OF assms(2) [unfolded verifyLeaseSetAuthority_def]]
      loadAndVerify_member [OF _ assms(7,3) lease_invD(2) [OF inv]] by blast
  obtain row2 where r2: "lease_rows db k2 = Some row2" "t < lr_expires_at row2" "holds db ?sk2 k2"
    using verifyLeaseSetAuthority_members [OF assms(4) [unfolded verifyLeaseSetAuthority_def]]
      loadAndVerify_member [OF _ assms(8,5) lease_invD(2) [OF inv]] by blast
  have ne: "?sk1 \<noteq> ?sk2" using assms(6) by (simp add: set_key_def)
  then have "k1 \<noteq> k2" using lease_inv_holder_unique [OF inv] r1(3) r2(3) by blast
  moreover have "\<not> scopes_conflict k1 k2"
    using lease_invD(5) [OF inv r1(1) r2(1) _ r1(2) r2(2)] lease_inv_holder_unique [OF inv] r1(3) r2(3) ne by metis
  ultimately show ?thesis ..
qed

section \<open>A sample history\<close>

definition sample_set :: "string \<Rightarrow> string \<Rightarrow> Lease list \<Rightarrow> LeaseSet" where
  "sample_set i owner ls = \<lparr>lset_LeaseSetID = i, lset_OwnerID = owner, lset_Leases = ls,
     lset_AcquiredAt = 0, lset_ExpiresAt = 1000000\<rparr>"

definition sample_lease :: "string \<Rightarrow> string \<Rightarrow> string \<Rightarrow> Lease" where
  "sample_lease owner ty i = lease_of (sample_key ty i)
     \<lparr>lr_owner_id = owner, lr_fencing_token = 1, lr_acquired_at = 0, lr_expires_at = 1000000, lr_updated_at = 0\<rparr>"

definition sample_leases1 :: "Lease list" where
  "sample_leases1 = map (\<lambda>(ty, i). sample_lease ''alice'' ty i)
     [(''file'', ''src''), (''file'', ''src/a''), (''worktree'', ''w1'')]"

definition sample_leases2 :: "Lease list" where
  "sample_leases2 = map (\<lambda>(ty, i). sample_lease ''bob'' ty i) [(''artifact'', ''doc''), (''worktree'', ''w2'')]"

definition sample_db1 :: "string LeaseDB" where
  "sample_db1 = snd (AcquireLeaseSet id (sample_env 0) sample_lease_store ''set-1''
     [sample_key ''worktree'' ''w1'', sample_key ''file'' ''src/a''] ''alice'' Second empty_db)"

definition sample_db2 :: "string LeaseDB" where
  "sample_db2 = snd (AcquireLeaseSet id (sample_env 0) sample_lease_store ''set-2''
     [sample_key ''artifact'' ''doc'', sample_key ''worktree'' ''w2''] ''bob'' Second sample_db1)"

lemma sample_set1_acquired:
  "AcquireLeaseSet id (sample_env 0) sample_lease_store ''set-1''
     [sample_key ''worktree'' ''w1'', sample_key ''file'' ''src/a''] ''alice'' Second empty_db
     = (Inr (sample_set ''set-1'' ''alice'' sample_leases1), sample_db1)"
  by code_simp

lemma sample_verified1:
  "verifyLeaseSetAuthority (sample_env 7) sample_lease_store (sample_set ''set-1'' ''alice'' sample_leases1)
     (map key_of_lease sample_leases1) sample_leases1 (leaseMemberText (map key_of_lease sample_leases1)) sample_db2
     = Inr (sample_set ''set-1'' ''alice'' sample_leases1)"
  by code_simp

lemma sample_verified2:
  "verifyLeaseSetAuthority (sample_env 7) sample_lease_store (sample_set ''set-2'' ''bob'' sample_leases2)
     (map key_of_lease sample_leases2) sample_leases2 (leaseMemberText (map key_of_lease sample_leases2)) sample_db2
     = Inr (sample_set ''set-2'' ''bob'' sample_leases2)"
  by code_simp

lemma env_ok_sample: "t \<le> now \<Longrightarrow> now \<le> t' \<Longrightarrow> env_ok (sample_env now) t t'"
  by (simp add: env_ok_def)

lemma sample_sets_reachable: "(lease_step id)\<^sup>*\<^sup>* (empty_db, 0) (sample_db2, 0)"
proof -
  have "lease_step id (empty_db, 0) (sample_db1, 0)"
    unfolding sample_db1_def by (rule lease_step.AcquireLeaseSet) (simp add: env_ok_sample)
  moreover have "lease_step id (sample_db1, 0) (sample_db2, 0)"
    unfolding sample_db2_def by (rule lease_step.AcquireLeaseSet) (simp add: env_ok_sample)
  ultimately show ?thesis by simp
qed

theorem lease_set_authority_exclusive_witness:
  "sample_key ''file'' ''src/a'' \<noteq> sample_key ''artifact'' ''doc''
     \<and> \<not> scopes_conflict (sample_key ''file'' ''src/a'') (sample_key ''artifact'' ''doc'')"
  by (rule lease_set_authority_exclusive [OF sample_sets_reachable sample_verified1
        env_ok_sample [of 0 7 7] sample_verified2 env_ok_sample [of 0 7 7]])
    (simp_all add: sample_set_def sample_leases1_def sample_leases2_def sample_lease_def)

definition sample_retaken :: "unit LeaseDB" where
  "sample_retaken = snd (AcquireLease (sample_env 2000000) sample_lease_store (sample_key ''worker'' ''w1'') ''bob'' Second
     sample_leased)"

definition sample_row2 :: LeaseRow where
  "sample_row2 = \<lparr>lr_owner_id = ''bob'', lr_fencing_token = 2, lr_acquired_at = 2000000, lr_expires_at = 3000000,
     lr_updated_at = 2000000\<rparr>"

lemma sample_retaken_row: "lease_rows sample_retaken (sample_key ''worker'' ''w1'') = Some sample_row2"
  by code_simp

lemma sample_retaken_step: "(lease_step (\<lambda>_. ()))\<^sup>*\<^sup>* (sample_leased, 0) (sample_retaken, 2000000)"
  unfolding sample_retaken_def by (intro r_into_rtranclp lease_step.AcquireLease) (simp add: env_ok_sample)

theorem fencing_token_identifies_holder_witness:
  "lp_FencingToken (lease_proof (lease_of (sample_key ''worker'' ''w1'') sample_row))
     \<le> lp_FencingToken (lease_proof (lease_of (sample_key ''worker'' ''w1'') sample_row2))"
proof -
  let ?p = "lease_proof (lease_of (sample_key ''worker'' ''w1'') sample_row)"
    and ?p' = "lease_proof (lease_of (sample_key ''worker'' ''w1'') sample_row2)"
  have v: "VerifyLease (sample_env 7) sample_lease_store ?p 0 sample_leased
      = Inr (lease_of (sample_key ''worker'' ''w1'') sample_row)"
    by code_simp
  have v': "VerifyLease (sample_env 2000001) sample_lease_store ?p' 0 sample_retaken
      = Inr (lease_of (sample_key ''worker'' ''w1'') sample_row2)"
    by code_simp
  show ?thesis
    using fencing_token_identifies_holder [OF v sample_retaken_step v'] by simp
qed

theorem stale_proof_never_verifies_witness:
  "\<exists>err. VerifyLease (sample_env 2000001) sample_lease_store
     (lease_proof (lease_of (sample_key ''worker'' ''w1'') sample_row)) 0 sample_retaken = Inl err"
  by (rule stale_proof_never_verifies [where row = sample_row2, OF _ _ rtranclp.rtrancl_refl])
    (use sample_retaken_row in \<open>simp_all add: bindLeaseKey_def sample_key_def sample_row_def sample_row2_def\<close>)

section \<open>The end of a lease set\<close>

lemma lease_change_sets: "lease_change env db db' \<Longrightarrow> lease_sets db' = lease_sets db"
  by (cases rule: lease_change.cases) auto

lemma set_change_sets: "set_change env db db' \<Longrightarrow> map_evolves (set_moves env) (set_rows db) (set_rows db')"
  by (erule set_change.cases) (auto intro!: map_evolves_upd map_evolves_refl reflp_set_moves)

lemma lease_step_sets:
  assumes "lease_step sha (db, t) (db', t')"
  obtains env where "env_ok env t t'" "map_evolves (set_moves env) (set_rows db) (set_rows db')"
  using lease_step_change [OF assms] lease_change_sets set_change_sets map_evolves_refl reflp_set_moves
  by (metis (no_types, lifting))

text \<open>A set whose authority has ended: it was released or has expired.\<close>

definition set_ended :: "Leases.set_key \<Rightarrow> 'd LeaseDB \<times> pgtime \<Rightarrow> bool" where
  "set_ended sk = (\<lambda>(db, t). \<exists>row. set_rows db sk = Some row \<and> (ls_state row \<noteq> ''active'' \<or> ls_expires_at row \<le> t))"

lemma set_ended_step:
  assumes "lease_step sha st st'" "set_ended sk st"
  shows "set_ended sk st'"
proof -
  obtain db t db' t' where st: "st = (db, t)" "st' = (db', t')" by (cases st; cases st')
  obtain env where env: "env_ok env t t'" "map_evolves (set_moves env) (set_rows db) (set_rows db')"
    using lease_step_sets assms(1) st by metis
  obtain row where row: "set_rows db sk = Some row" "ls_state row \<noteq> ''active'' \<or> ls_expires_at row \<le> t"
    using assms(2) st by (auto simp: set_ended_def)
  obtain row' where row': "set_rows db' sk = Some row'" "set_moves env row row'"
    using map_evolvesD [OF env(2) row(1)] by blast
  from row(2) have "ls_state row' \<noteq> ''active'' \<or> ls_expires_at row' \<le> t'"
  proof
    assume "ls_expires_at row \<le> t"
    then have "\<forall>n. ls_expires_at row \<le> db_clock env n" using env_okD(1) [OF env(1)] order_trans by blast
    with row'(2) env_okD(6) [OF env(1)] \<open>ls_expires_at row \<le> t\<close> show ?thesis by (simp add: set_moves_def)
  qed (use row'(2) in \<open>auto simp: set_moves_def set_evolves_def\<close>)
  with row'(1) st show ?thesis by (auto simp: set_ended_def)
qed

interpretation set_end: step_invariant "set_ended sk" "lease_step sha" "set_ended sk"
  for sk and sha :: "string \<Rightarrow> 'd"
  by unfold_locales (auto intro: set_ended_step)

lemma AcquireLeaseSet_ended:
  assumes "set_ended (set_key s leaseSetID) (db, t)" "env_ok env t t'"
  shows "\<exists>err. AcquireLeaseSet sha env s leaseSetID keys ownerID ttl db = (Inl err, db)"
proof -
  obtain row where row: "set_rows db (set_key s leaseSetID) = Some row"
    "ls_state row \<noteq> ''active'' \<or> ls_expires_at row \<le> db_clock env 0"
    using assms env_okD(1) [OF assms(2), of 0] by (auto simp: set_ended_def)
  have "acquireLeaseSetTx env s leaseSetID ks digest ownerID ttl db \<noteq> Inr ((commit, ls), db')" for ks digest commit ls db'
    using acquireLeaseSetTx_Inr [of env s leaseSetID ks digest ownerID ttl db commit ls db'] row by auto
  then show ?thesis
    by (simp add: AcquireLeaseSet_def split: sum.split)
qed

lemma verifyLeaseSetAuthority_ended:
  assumes "set_ended (set_key s (lset_LeaseSetID leaseSet)) (db, t)" "env_ok env t t'"
  shows "\<exists>err. verifyLeaseSetAuthorityWithMinimum env s leaseSet keys proofs digest m ttl db = Inl err"
proof -
  obtain row where row: "set_rows db (set_key s (lset_LeaseSetID leaseSet)) = Some row"
    "ls_state row \<noteq> ''active'' \<or> ls_expires_at row \<le> db_clock env 0"
    using assms env_okD(1) [OF assms(2), of 0] by (auto simp: set_ended_def)
  have "verifyLeaseSetAuthorityWithMinimum env s leaseSet keys proofs digest m ttl db \<noteq> Inr c" for c
    using row by (auto simp: verifyLeaseSetAuthorityWithMinimum_def loadLeaseSetForUpdate_def
        split: sum.splits option.splits if_splits)
  then show ?thesis by (metis sum.exhaust)
qed

lemma RenewLeaseSet_ended:
  assumes "set_ended (set_key s (lset_LeaseSetID leaseSet)) (db, t)" "env_ok env t t'"
  shows "\<exists>err. RenewLeaseSet sha env s leaseSet ttl db = (Inl err, db)"
proof -
  have "renewLeaseSetTx env s leaseSet keys proofs digest ttl db \<noteq> Inr x" for keys proofs digest x
    using verifyLeaseSetAuthority_ended [OF assms]
    by (auto simp: renewLeaseSetTx_def lockLeaseSetAndMembers_def split: sum.splits) (metis Inl_Inr_False)
  then show ?thesis
    by (simp add: RenewLeaseSet_def db_commit_def split: sum.split)
qed

text \<open>
  C29. The end of a lease set is final. Once a set is released or has expired, its identifier
  never carries authority again: after any history, acquiring it anew and renewing it fail
  and change nothing, and no proof of it is verified.
\<close>

theorem lease_set_end_is_final:
  assumes "set_ended (set_key s (lset_LeaseSetID leaseSet)) (db, t)"
    and "(lease_step sha)\<^sup>*\<^sup>* (db, t) (db', t')" "env_ok env t' t''"
  shows "(\<exists>err. AcquireLeaseSet sha env s (lset_LeaseSetID leaseSet) keys ownerID ttl db' = (Inl err, db'))
     \<and> (\<exists>err. RenewLeaseSet sha env s leaseSet ttl db' = (Inl err, db'))
     \<and> (\<exists>err. verifyLeaseSetAuthority env s leaseSet ks proofs digest db' = Inl err)"
proof -
  have ended: "set_ended (set_key s (lset_LeaseSetID leaseSet)) (db', t')"
    by (rule set_end.inv_reachable [OF assms(1,2)])
  show ?thesis
    unfolding verifyLeaseSetAuthority_def
    by (intro conjI AcquireLeaseSet_ended [OF ended assms(3)] RenewLeaseSet_ended [OF ended assms(3)]
        verifyLeaseSetAuthority_ended [OF ended assms(3)])
qed

theorem lease_set_end_is_final_witness:
  "\<exists>err. RenewLeaseSet id (sample_env 1000000) sample_lease_store (sample_set ''set-1'' ''alice'' sample_leases1) Second
     sample_db2 = (Inl err, sample_db2)"
proof -
  have "set_ended (set_key sample_lease_store ''set-1'') (sample_db2, 1000000)"
    unfolding set_ended_def prod.case
    by (rule exI [of _ "the (set_rows sample_db2 (set_key sample_lease_store ''set-1''))"]) code_simp
  then show ?thesis
    using lease_set_end_is_final [of sample_lease_store "sample_set ''set-1'' ''alice'' sample_leases1" sample_db2 1000000
        id sample_db2 1000000 "sample_env 1000000" 1000000]
    by (simp add: sample_set_def env_ok_sample)
qed

section \<open>Retried acquisition\<close>

text \<open>Every member row belongs to a set.\<close>

definition members_have_sets :: "'d LeaseDB \<times> pgtime \<Rightarrow> bool" where
  "members_have_sets st \<longleftrightarrow> (\<forall>m\<in>set (members (fst st)). set_rows (fst st) (fst (fst m)) \<noteq> None)"

lemma lease_change_members: "lease_change env db db' \<Longrightarrow> members db' = members db"
  by (cases rule: lease_change.cases) auto

lemma set_rows_kept: "map_evolves R (set_rows db) (set_rows db') \<Longrightarrow> set_rows db sk \<noteq> None \<Longrightarrow> set_rows db' sk \<noteq> None"
  using map_evolvesD by fastforce

lemma set_change_members:
  assumes "set_change env db db'" "members_have_sets (db, t)"
  shows "members_have_sets (db', t')"
proof -
  have kept: "set_rows db' sk \<noteq> None" if "set_rows db sk \<noteq> None" for sk
    using set_rows_kept [OF set_change_sets [OF assms(1)] that] .
  show ?thesis
    using assms(1)
  proof cases
    case (grant s ks rowf ownerID sk setrow leaseSetID)
    then have "set_rows db' sk \<noteq> None" by simp
    then show ?thesis using assms(2) kept grant(9) by (auto simp: members_have_sets_def)
  qed (use assms(2) kept in \<open>auto simp: members_have_sets_def\<close>)
qed

interpretation member_history: step_invariant "\<lambda>st. fst st = empty_db" "lease_step sha" members_have_sets
  for sha :: "string \<Rightarrow> 'd"
proof
  fix st st' :: "'d LeaseDB \<times> pgtime" assume inv: "members_have_sets st" and "lease_step sha st st'"
  moreover obtain db t db' t' where st: "st = (db, t)" "st' = (db', t')" by (cases st; cases st')
  ultimately obtain env where "lease_change env db db' \<or> set_change env db db'" by (metis lease_step_change)
  then show "members_have_sets st'"
  proof
    assume "lease_change env db db'"
    then show ?thesis
      using inv st by (simp add: members_have_sets_def lease_change_members lease_change_sets)
  qed (use inv st set_change_members in blast)
qed (simp add: members_have_sets_def)

lemma fresh_set_no_members:
  assumes "members_have_sets (db, t)" "set_rows db (set_key s leaseSetID) = None"
  shows "member_rows s leaseSetID db = []"
  using assms by (auto simp: member_rows_def members_have_sets_def filter_empty_conv)

lemma scanMembers_all:
  assumes "\<forall>(res, token)\<in>set rows. lease_rows db (member_key s res) = Some (rowf (member_key s res))
      \<and> lr_fencing_token (rowf (member_key s res)) = token \<and> lr_owner_id (rowf (member_key s res)) = ownerID
      \<and> lr_expires_at (rowf (member_key s res)) > db_row_clock env n [fst res, snd res]"
  shows "scanMembers env n s ownerID db rows = Inr (map (\<lambda>(res, token).
      (lease_of (member_key s res) (rowf (member_key s res)), lr_updated_at (rowf (member_key s res)))) rows)"
  using assms
proof (induction rows)
  case (Cons r rows)
  then show ?case by (cases r) simp
qed simp

lemma lease_key_inj: "delivery_keys s ks \<Longrightarrow> inj_on lease_key (set ks)"
proof (rule inj_onI)
  fix k k' assume d: "delivery_keys s ks" "k \<in> set ks" "k' \<in> set ks" and eq: "lease_key k = lease_key k'"
  have "CHR 0x00 \<notin> set ty" if "ty \<in> deliveryLeaseTypes" for ty
    using that by (auto simp: deliveryLeaseTypes_def)
  then have "Split (lease_key k) (CHR 0x00) = lk_ResourceType k # Split (lk_ResourceID k) (CHR 0x00)"
      "Split (lease_key k') (CHR 0x00) = lk_ResourceType k' # Split (lk_ResourceID k') (CHR 0x00)"
    using delivery_keysD(3) [OF d(1,2)] delivery_keysD(3) [OF d(1,3)] by (simp_all add: lease_key_def Split_append)
  then have ty: "lk_ResourceType k = lk_ResourceType k'" using eq by simp
  with eq have "lk_ResourceID k = lk_ResourceID k'" by (simp add: lease_key_def)
  with ty show "k = k'"
    using delivery_keysD(5) [OF d(1,2)] delivery_keysD(5) [OF d(1,3)] by metis
qed

lemma checkMembers_own:
  assumes "proofs = None \<or> proofs = Some (map (\<lambda>k. lease_of k (rowf k)) ks)"
  shows "checkMembers ks proofs (map (\<lambda>k. (lease_of k (rowf k), u k)) ks) = None"
proof -
  have "checkMembers ks None (map (\<lambda>k. (lease_of k (rowf k), u k)) ks) = None"
    by (induction ks) simp_all
  moreover have "checkMembers ks (Some (map (\<lambda>k. lease_of k (rowf k)) ks)) (map (\<lambda>k. (lease_of k (rowf k), u k)) ks) = None"
    by (induction ks) simp_all
  ultimately show ?thesis using assms by metis
qed

text \<open>Members that are all live are loaded in the canonical order, whatever order the query returns.\<close>

lemma loadAndVerify_all:
  assumes "db_quiet env" "pg_text_ok leaseSetID" "\<And>rows. mset (db_order env rows) = mset rows"
    and ks: "delivery_keys s ks" "sorted (map lease_key ks)"
    and rows: "member_rows s leaseSetID db = map (\<lambda>k. ((lk_ResourceType k, lk_ResourceID k), lr_fencing_token (rowf k))) ks"
    and live: "\<And>k. k \<in> set ks \<Longrightarrow> lease_rows db k = Some (rowf k) \<and> lr_owner_id (rowf k) = ownerID
      \<and> (\<forall>r. db_row_clock env 1 r < lr_expires_at (rowf k))"
    and proofs: "proofs = None \<or> proofs = Some (map (\<lambda>k. lease_of k (rowf k)) ks)"
  shows "loadAndVerifyLeaseSetMembers env s leaseSetID ownerID ks proofs db
     = Inr (map (\<lambda>k. (lease_of k (rowf k), lr_updated_at (rowf k))) ks)" (is "_ = Inr ?ms")
proof -
  let ?rows = "db_order env (member_rows s leaseSetID db)"
  let ?f = "\<lambda>(res, token). (lease_of (member_key s res) (rowf (member_key s res)), lr_updated_at (rowf (member_key s res)))"
  have perm: "mset ?rows = mset (member_rows s leaseSetID db)" by (rule assms(3))
  have mk: "member_key s (lk_ResourceType k, lk_ResourceID k) = k" if "k \<in> set ks" for k
    by (rule delivery_keysD(5) [OF ks(1) that])
  have set_rows: "set ?rows = (\<lambda>k. ((lk_ResourceType k, lk_ResourceID k), lr_fencing_token (rowf k))) ` set ks"
    using mset_eq_setD [OF perm] rows by simp
  have scan: "scanMembers env 1 s ownerID db ?rows = Inr (map ?f ?rows)"
  proof (rule scanMembers_all, rule ballI)
    fix x assume "x \<in> set ?rows"
    then obtain k where "k \<in> set ks" and x: "x = ((lk_ResourceType k, lk_ResourceID k), lr_fencing_token (rowf k))"
      unfolding set_rows by (rule imageE)
    then show "case x of (res, token) \<Rightarrow> lease_rows db (member_key s res) = Some (rowf (member_key s res))
        \<and> lr_fencing_token (rowf (member_key s res)) = token \<and> lr_owner_id (rowf (member_key s res)) = ownerID
        \<and> lr_expires_at (rowf (member_key s res)) > db_row_clock env 1 [fst res, snd res]"
      by (simp add: mk live del: One_nat_def)
  qed
  have "map ?f (member_rows s leaseSetID db) = ?ms" unfolding rows by (simp add: mk)
  moreover have "mset (map ?f ?rows) = mset (map ?f (member_rows s leaseSetID db))" by (simp only: mset_map perm)
  ultimately have ms: "mset (map ?f ?rows) = mset ?ms" by (simp only:)
  have "inj_on (\<lambda>m. lease_key (key_of_lease (fst m))) (set ?ms)"
    unfolding list.set_map by (rule inj_on_imageI) (simp add: comp_def lease_key_inj [OF ks(1)])
  then have inj: "inj_on (\<lambda>m. lease_key (key_of_lease (fst m))) (set (map ?f ?rows))"
    by (simp only: mset_eq_setD [OF ms])
  have "sorted (map (\<lambda>m. lease_key (key_of_lease (fst m))) ?ms)" using ks(2) by (simp add: comp_def)
  then have sort: "sort_key (\<lambda>m. lease_key (key_of_lease (fst m))) (map ?f ?rows) = ?ms"
    by (rule sort_key_inj_key_eq [OF ms inj])
  have "length (map ?f ?rows) = length ks" using mset_eq_length [OF ms] by simp
  then show ?thesis
    using assms(1,2) scan sort checkMembers_own [OF proofs] by (simp add: loadAndVerifyLeaseSetMembers_def Let_def)
qed

lemma intervalString_exact: "ttl mod 1000 = 0 \<Longrightarrow> intervalString ttl * 1000 = ttl"
proof -
  assume "ttl mod 1000 = 0"
  then obtain m where ttl: "ttl = 1000 * m" by (metis dvd_def mod_0_imp_dvd)
  have "1000 * m div 1000000000 = m div 1000000" "1000 * m mod 1000000000 = 1000 * (m mod 1000000)"
    using div_mult_mult1 [of 1000 m 1000000] mult_mod_right [of 1000 m 1000000] by simp_all
  then show ?thesis by (simp add: ttl intervalString_def Second_def)
qed

lemma acquireLeaseSetTx_text:
  "acquireLeaseSetTx env s leaseSetID ks digest ownerID ttl db = Inr x \<Longrightarrow> pg_text_ok leaseSetID"
  by (auto simp: acquireLeaseSetTx_def lockLeaseSetAndMembers_def loadLeaseSetForUpdate_def split: sum.splits)

definition granted_set :: "string \<Rightarrow> 'd \<Rightarrow> pgtime \<Rightarrow> duration \<Rightarrow> 'd LeaseSetRow" where
  "granted_set ownerID digest now ttl = \<lparr>ls_owner_id = ownerID, ls_member_digest = digest, ls_state = ''active'',
     ls_acquired_at = now, ls_expires_at = now + intervalString ttl, ls_updated_at = now,
     ls_authorized_ttl_us = ttl div 1000\<rparr>"

text \<open>What a first acquisition leaves in the tables.\<close>

lemma acquireLeaseSetTx_fresh:
  assumes "acquireLeaseSetTx env s leaseSetID ks digest ownerID ttl db = Inr ((commit, ls), db')"
    and "set_rows db (set_key s leaseSetID) = None" "members_have_sets (db, t)" "delivery_keys s ks"
  shows "\<exists>rowf. set_rows db' (set_key s leaseSetID) = Some (granted_set ownerID digest (db_clock env 2) ttl)
     \<and> member_rows s leaseSetID db' = map (\<lambda>k. ((lk_ResourceType k, lk_ResourceID k), lr_fencing_token (rowf k))) ks
     \<and> (\<forall>k\<in>set ks. lease_rows db' k = Some (rowf k) \<and> lr_owner_id (rowf k) = ownerID
          \<and> lr_acquired_at (rowf k) = db_clock env 2 \<and> lr_updated_at (rowf k) = db_clock env 2
          \<and> lr_expires_at (rowf k) = db_clock env 2 + intervalString ttl)
     \<and> ls = \<lparr>lset_LeaseSetID = leaseSetID, lset_OwnerID = ownerID, lset_Leases = map (\<lambda>k. lease_of k (rowf k)) ks,
          lset_AcquiredAt = db_clock env 2, lset_ExpiresAt = db_clock env 2 + intervalString ttl\<rparr>"
proof -
  let ?sk = "set_key s leaseSetID"
  obtain leasing db1 where
    acq: "acquireMembers env (3 + length ks) s ownerID (db_clock env 2) (db_clock env 2 + intervalString ttl) ks db
      = Inr (leasing, db1)"
    and ins: "insertMembers env ?sk leasing (db1\<lparr>lease_sets := AList.update ?sk
        (granted_set ownerID digest (db_clock env 2) ttl) (lease_sets db1)\<rparr>) = Inr db'"
    and ls: "ls = \<lparr>lset_LeaseSetID = leaseSetID, lset_OwnerID = ownerID, lset_Leases = leasing,
          lset_AcquiredAt = db_clock env 2, lset_ExpiresAt = db_clock env 2 + intervalString ttl\<rparr>"
    using acquireLeaseSetTx_Inr [OF assms(1)] assms(2) unfolding granted_set_def by auto
  from acquireMembers_Inr [OF acq assms(4)] obtain rowf where r:
    "rows_replaced (set ks) rowf db db1" "leasing = map (\<lambda>k. lease_of k (rowf k)) ks"
    "lease_sets db1 = lease_sets db" "members db1 = members db"
    "\<forall>k\<in>set ks. (\<exists>m. granted env m ownerID (lease_rows db k) (rowf k)) \<and> lr_acquired_at (rowf k) = db_clock env 2
       \<and> lr_expires_at (rowf k) = db_clock env 2 + intervalString ttl \<and> lr_updated_at (rowf k) = db_clock env 2"
    by blast
  note i = insertMembers_Inr [OF ins]
  have "member_rows s leaseSetID db' = map (\<lambda>k. ((lk_ResourceType k, lk_ResourceID k), lr_fencing_token (rowf k))) ks"
    using fresh_set_no_members [OF assms(3,2)] i(3) r(2,4)
    by (simp add: member_rows_def comp_def lease_of_def filter_map)
  moreover have "lease_rows db' k = Some (rowf k) \<and> lr_owner_id (rowf k) = ownerID" if "k \<in> set ks" for k
    using rows_replacedD(1) [OF r(1) that] i(1) r(5) that by (auto simp: granted_simps)
  moreover have "set_rows db' ?sk = Some (granted_set ownerID digest (db_clock env 2) ttl)"
    using i(2) by (simp add: update_conv')
  ultimately show ?thesis using r(2,5) ls by (intro exI [of _ rowf]) simp
qed

lemma granted_durations:
  assumes "ttl mod 1000 = 0" "\<forall>k\<in>set ks. lr_acquired_at (rowf k) = now \<and> lr_updated_at (rowf k) = now
      \<and> lr_expires_at (rowf k) = now + intervalString ttl"
  shows "leaseSetDurationsMatch (granted_set ownerID digest now ttl)
     (map (\<lambda>k. (lease_of k (rowf k), lr_updated_at (rowf k))) ks)"
    and "authorizedTTL (granted_set ownerID digest now ttl) = ttl"
proof -
  show ttl: "authorizedTTL (granted_set ownerID digest now ttl) = ttl"
    using div_mult_mod_eq [of ttl 1000] assms(1) by (simp add: authorizedTTL_def granted_set_def)
  show "leaseSetDurationsMatch (granted_set ownerID digest now ttl)
     (map (\<lambda>k. (lease_of k (rowf k), lr_updated_at (rowf k))) ks)"
    unfolding leaseSetDurationsMatch_def ttl
    using assms(2) intervalString_exact [OF assms(1)] by (simp add: granted_set_def)
qed

text \<open>
  C30. A retried acquisition is answered with the same set. When a set was granted and the
  client, not having seen the answer, sends the same request while the set is live, it
  gets the same leases with the same tokens and expiry, and the database does not change.
\<close>

theorem lease_set_acquisition_retry:
  assumes hist: "(lease_step sha)\<^sup>*\<^sup>* (empty_db, t0) (db, t)"
    and first: "AcquireLeaseSet sha env s leaseSetID keys ownerID ttl db = (Inr ls, db')"
    and new: "set_rows db (set_key s leaseSetID) = None"
    and later: "db_quiet env'" "env_ok env' t1 t2" "t2 < lset_ExpiresAt ls"
  shows "AcquireLeaseSet sha env' s leaseSetID keys ownerID ttl db' = (Inr ls, db')"
proof -
  have ms: "members_have_sets (db, t)" using member_history.inv_reachable [OF _ hist] by simp
  obtain ks digest commit where v: "validateLeaseSetInput sha s leaseSetID keys ownerID ttl = Inr (ks, digest)"
    and tx: "acquireLeaseSetTx env s leaseSetID ks digest ownerID ttl db = Inr ((commit, ls), db')"
    using first by (auto simp: AcquireLeaseSet_def db_commit_Inr split: sum.splits)
  note vD = validateLeaseSetInput_Inr [OF v]
  obtain rowf where r: "set_rows db' (set_key s leaseSetID) = Some (granted_set ownerID digest (db_clock env 2) ttl)"
    "member_rows s leaseSetID db' = map (\<lambda>k. ((lk_ResourceType k, lk_ResourceID k), lr_fencing_token (rowf k))) ks"
    "\<forall>k\<in>set ks. lease_rows db' k = Some (rowf k) \<and> lr_owner_id (rowf k) = ownerID
        \<and> lr_acquired_at (rowf k) = db_clock env 2 \<and> lr_updated_at (rowf k) = db_clock env 2
        \<and> lr_expires_at (rowf k) = db_clock env 2 + intervalString ttl"
    "ls = \<lparr>lset_LeaseSetID = leaseSetID, lset_OwnerID = ownerID, lset_Leases = map (\<lambda>k. lease_of k (rowf k)) ks,
        lset_AcquiredAt = db_clock env 2, lset_ExpiresAt = db_clock env 2 + intervalString ttl\<rparr>"
    using acquireLeaseSetTx_fresh [OF tx new ms vD(1)] by blast
  have clocks: "db_clock env' 0 < lset_ExpiresAt ls" "\<And>q. db_row_clock env' 1 q < lset_ExpiresAt ls"
    using later(3) env_okD(2,4) [OF later(2)] by (meson le_less_trans)+
  have load: "loadAndVerifyLeaseSetMembers env' s leaseSetID ownerID ks None db'
      = Inr (map (\<lambda>k. (lease_of k (rowf k), lr_updated_at (rowf k))) ks)"
    by (rule loadAndVerify_all [OF later(1) acquireLeaseSetTx_text [OF tx] _ vD(1,3) r(2)])
      (use r(3,4) clocks(2) later(2) in \<open>auto simp: env_ok_def simp del: One_nat_def\<close>)
  have dur: "leaseSetDurationsMatch (granted_set ownerID digest (db_clock env 2) ttl)
      (map (\<lambda>k. (lease_of k (rowf k), lr_updated_at (rowf k))) ks)"
    "authorizedTTL (granted_set ownerID digest (db_clock env 2) ttl) = ttl"
    by (rule granted_durations(1) [OF vD(6)], use r(3) in simp)
      (rule granted_durations(2) [OF vD(6), of "[]"], simp)
  have "acquireLeaseSetTx env' s leaseSetID ks digest ownerID ttl db'
      = Inr ((''postgres.AcquireLeaseSet.replay_commit'', ls), db')"
    using later(1) r(1,4) load dur clocks(1) acquireLeaseSetTx_text [OF tx]
    by (simp add: acquireLeaseSetTx_def lockLeaseSetAndMembers_def loadLeaseSetForUpdate_def granted_set_def comp_def)
  then show ?thesis using v later(1) by (simp add: AcquireLeaseSet_def db_commit_def)
qed

theorem lease_set_acquisition_retry_witness:
  "AcquireLeaseSet id (sample_env 5) sample_lease_store ''set-1''
     [sample_key ''worktree'' ''w1'', sample_key ''file'' ''src/a''] ''alice'' Second sample_db1
     = (Inr (sample_set ''set-1'' ''alice'' sample_leases1), sample_db1)"
  by (rule lease_set_acquisition_retry [OF rtranclp.rtrancl_refl sample_set1_acquired _ _ env_ok_sample [of 5 5 5]])
    (simp_all add: sample_set_def)

end
