(* ===== verification/PgDatabase.thy ===== *)
theory PgDatabase
  imports Control Leases
begin

text \<open>
  The tables behind the durable repositories of \<open>internal/postgres\<close>, restricted to the
  tenant and repository a \<open>Store\<close> is bound to, and the statements the repositories share:
  inserts with the constraints of the migrations, \<open>appendEvent\<close> with its outbox row and the
  fan-out trigger, and command receipts.

  A table is an association list from its key to the rest of the row. Instants of the
  aggregates are nanoseconds that \<open>postgresTimestamp\<close> has truncated to microseconds; the
  times of queue rows are database microseconds. The environment of a call adds to that of the lease operations
  the readings of the application clock, the entropy of generated identifiers, the gaps
  in the identity sequence of the outbox, the creation times of its rows, the rank of
  texts under the collation of the database, and the queue rows that other transactions
  hold locked.
\<close>

record RunRow =
  rr_objective :: string
  rr_state :: string
  rr_version :: int
  rr_created_at :: time
  rr_updated_at :: time
  rr_sprint_id :: "string option"

record SprintRow =
  sr_sequence_number :: int
  sr_title :: string
  sr_objective :: string
  sr_status :: string
  sr_version :: int
  sr_run_id :: string
  sr_created_at :: time
  sr_updated_at :: time

record DecisionRow =
  dr_sprint_id :: string
  dr_run_id :: string
  dr_action :: string
  dr_risk_class :: string
  dr_status :: string
  dr_version :: int
  dr_requested_by :: string
  dr_decided_by :: "string option"
  dr_reason :: "string option"
  dr_created_at :: time
  dr_updated_at :: time
  dr_decided_at :: "time option"

record EventRow =
  ev_event_id :: string
  ev_aggregate_type :: string
  ev_aggregate_id :: string
  ev_aggregate_version :: int
  ev_event_type :: string
  ev_occurred_at :: time
  ev_actor_type :: string
  ev_actor_id :: string
  ev_correlation_id :: string
  ev_causation_id :: "string option"
  ev_idempotency_key :: string
  ev_payload :: json

text \<open>A row that a worker claims: of the outbox itself, or of the deliveries of one projector.\<close>

record QueueRow =
  qr_state :: string
  qr_available_at :: pgtime
  qr_locked_by :: "string option"
  qr_locked_until :: "pgtime option"
  qr_fencing_token :: int
  qr_attempts :: int
  qr_last_error :: "string option"
  qr_published_at :: "pgtime option"

record OutboxRow = QueueRow +
  ob_event_id :: string

record 'h ReceiptRow =
  ik_request_hash :: 'h
  ik_response_status :: int
  ik_response_body :: json

record 'h ConsumerRow =
  cn_status :: string
  cn_configuration :: 'h

record DeadLetterRow =
  dl_projector_name :: string
  dl_outbox_id :: int
  dl_event_id :: string
  dl_error_class :: string
  dl_error_message :: string
  dl_payload :: json

record ProjectionRow =
  pj_objective :: string
  pj_state :: string
  pj_version :: int
  pj_source_event_id :: string
  pj_updated_at :: time

text \<open>
  \<open>pg_publications\<close> is the join of deliveries with their attempts, one entry per publication
  with the run and the state; \<open>None\<close> where the table does not exist. Of the retrieval tables
  only the status of a generation and the keys of its points are kept.
\<close>

record 'h PgDB =
  pg_runs :: "(string \<times> RunRow) list"
  pg_sprints :: "(string \<times> SprintRow) list"
  pg_decisions :: "(string \<times> DecisionRow) list"
  pg_events :: "EventRow list"
  pg_outbox :: "(int \<times> OutboxRow) list"
  pg_idempotency :: "((string \<times> string) \<times> 'h ReceiptRow) list"
  pg_consumers :: "(string \<times> 'h ConsumerRow) list"
  pg_deliveries :: "((string \<times> int) \<times> QueueRow) list"
  pg_checkpoints :: "(string \<times> int) list"
  pg_dead_letters :: "DeadLetterRow list"
  pg_projections :: "((string \<times> string) \<times> ProjectionRow) list"
  pg_publications :: "(string \<times> string) list option"
  pg_generations :: "(string \<times> string) list"
  pg_points :: "(string \<times> string) list"

definition empty_pg :: "'h PgDB" where
  "empty_pg = \<lparr>pg_runs = [], pg_sprints = [], pg_decisions = [], pg_events = [], pg_outbox = [],
     pg_idempotency = [], pg_consumers = [], pg_deliveries = [], pg_checkpoints = [], pg_dead_letters = [],
     pg_projections = [], pg_publications = Some [],
     pg_generations = [], pg_points = []\<rparr>"

record PgEnv = DBEnv +
  pg_now :: "nat \<Rightarrow> time"
  pg_entropy :: "nat \<Rightarrow> 8 word list"
  pg_gap :: "nat \<Rightarrow> nat"
  pg_available :: "nat \<Rightarrow> pgtime"
  pg_collation :: "string \<Rightarrow> int"
  pg_locked :: "int \<Rightarrow> bool"

abbreviation db_of :: "PgEnv \<Rightarrow> DBEnv" where
  "db_of env \<equiv> DBEnv.truncate env"

section \<open>Sequencing\<close>

text \<open>An early return on an error, and a guard.\<close>

definition andThen :: "'a result \<Rightarrow> ('a \<Rightarrow> 'b result) \<Rightarrow> 'b result" where
  "andThen r f = (case r of Inl err \<Rightarrow> Inl err | Inr x \<Rightarrow> f x)"

declare andThen_def [code_unfold]

lemma andThen_Inr [simp]: "andThen r f = Inr y \<longleftrightarrow> (\<exists>x. r = Inr x \<and> f x = Inr y)"
  by (simp add: andThen_def split: sum.split)

lemma andThen_simps [simp]: "andThen (Inr x) f = f x" "andThen (Inl err) f = Inl err"
  by (simp_all add: andThen_def)

definition reject :: "bool \<Rightarrow> error \<Rightarrow> 'a result \<Rightarrow> 'a result" where
  "reject c err k = (if c then Inl err else k)"

lemma reject_Inr [simp]: "reject c err k = Inr y \<longleftrightarrow> \<not> c \<and> k = Inr y"
  by (simp add: reject_def)

definition pg_check :: "string \<Rightarrow> PgError option \<Rightarrow> 'a result \<Rightarrow> 'a result" where
  "pg_check operation violation k =
    (case violation of Some err \<Rightarrow> Inl (databaseError operation err) | None \<Rightarrow> k)"

lemma pg_check_Inr [simp]: "pg_check operation violation k = Inr y \<longleftrightarrow> violation = None \<and> k = Inr y"
  by (simp add: pg_check_def split: option.split)

section \<open>Helpers of the store\<close>

text \<open>\<open>Truncate\<close> rounds down; the epoch is a whole number of microseconds.\<close>

definition postgresTimestamp :: "time \<Rightarrow> time" where
  "postgresTimestamp t = t - t mod 1000"

definition pg_validateObjective :: "string \<Rightarrow> error option" where
  "pg_validateObjective objective =
    (if rune_count objective < 3 \<or> rune_count objective > 8000 then
       Some (New CodeInvalidArgument ''postgres.validateObjective''
         (Msg ''objective length must be between 3 and 8000 characters'' []))
     else None)"

definition hashRequest :: "(string \<Rightarrow> 'h) \<Rightarrow> string list \<Rightarrow> 'h" where
  "hashRequest sha256 parts = sha256 (Join parts [CHR 0x00])"

definition hashCommand :: "(string \<Rightarrow> 'h) \<Rightarrow> CommandMetadata \<Rightarrow> string list \<Rightarrow> 'h" where
  "hashCommand sha256 metadata parts =
    (let causation = (case CausationID metadata of None \<Rightarrow> [] | Some c \<Rightarrow> c);
         parts = parts @ [ActorType metadata, ActorID metadata, causation];
         parts = (if AuditToolName metadata \<noteq> [] then parts @ [AuditToolName metadata] else parts)
     in hashRequest sha256 parts)"

definition newPrefixedID :: "string \<Rightarrow> 8 word list \<Rightarrow> string result" where
  "newPrefixedID idprefix entropy =
     andThen (NewRunIDFrom entropy) (\<lambda>runID. Inr (idprefix @ ''_'' @ TrimPrefix runID ''run_''))"

definition lockIdempotency :: "DBEnv \<Rightarrow> 'a result \<Rightarrow> 'a result" where
  "lockIdempotency env k =
     db_call env ''postgres.lockIdempotency.lockMigrationBarrier'' (db_call env ''postgres.lockIdempotency'' k)"

section \<open>Rows\<close>

definition scanRun :: "string \<Rightarrow> RunRow \<Rightarrow> Run" where
  "scanRun runID row = \<lparr>run_id = runID, run_schema_version = ''1.0'', run_objective = rr_objective row,
     run_state = rr_state row, run_version = rr_version row, run_created_at = rr_created_at row,
     run_updated_at = rr_updated_at row\<rparr>"

definition run_row :: "Run \<Rightarrow> string option \<Rightarrow> RunRow" where
  "run_row run sprintID = \<lparr>rr_objective = run_objective run, rr_state = run_state run, rr_version = run_version run,
     rr_created_at = run_created_at run, rr_updated_at = run_updated_at run, rr_sprint_id = sprintID\<rparr>"

definition scanSprint :: "string \<Rightarrow> SprintRow \<Rightarrow> string option \<Rightarrow> Sprint" where
  "scanSprint uuid row pending = \<lparr>sprint_id = ''sprint_'' @ uuid, sprint_schema_version = ''1.0'',
     sprint_sequence_number = sr_sequence_number row, sprint_title = sr_title row, sprint_objective = sr_objective row,
     sprint_status = sr_status row, sprint_version = sr_version row, sprint_run_id = sr_run_id row,
     sprint_pending_decision_id = pending, sprint_created_at = sr_created_at row, sprint_updated_at = sr_updated_at row\<rparr>"

definition scanDecision :: "string \<Rightarrow> DecisionRow \<Rightarrow> Decision" where
  "scanDecision decisionID row = \<lparr>decision_id = decisionID, decision_schema_version = ''1.0'',
     decision_sprint_id = ''sprint_'' @ dr_sprint_id row, decision_run_id = dr_run_id row, decision_action = dr_action row,
     decision_risk_class = dr_risk_class row, decision_status = dr_status row, decision_version = dr_version row,
     decision_requested_by = dr_requested_by row, decision_decided_by = dr_decided_by row, decision_reason = dr_reason row,
     decision_created_at = dr_created_at row, decision_updated_at = dr_updated_at row, decision_decided_at = dr_decided_at row\<rparr>"

text \<open>The checks of the tables, on the values a statement writes.\<close>

definition int4_ok :: "int \<Rightarrow> bool" where
  "int4_ok n \<longleftrightarrow> 0 < n \<and> n \<le> 2 ^ 31 - 1"

definition char_length_in :: "int \<Rightarrow> int \<Rightarrow> string \<Rightarrow> bool" where
  "char_length_in lo hi t \<longleftrightarrow> lo \<le> rune_count t \<and> rune_count t \<le> hi"

definition check_run :: "string \<Rightarrow> RunRow \<Rightarrow> PgError option" where
  "check_run runID row =
    (if \<not> int4_ok (rr_version row) \<or> \<not> MatchString runIDPattern runID \<or> \<not> char_length_in 3 8000 (rr_objective row)
        \<or> rr_updated_at row < rr_created_at row then Some (PgError ''23514'') else None)"

definition check_sprint :: "SprintRow \<Rightarrow> PgError option" where
  "check_sprint row =
    (if \<not> int4_ok (sr_version row) \<or> sr_sequence_number row < 0 \<or> sr_sequence_number row > 2 ^ 31 - 1
        \<or> \<not> char_length_in 1 500 (sr_title row) \<or> \<not> char_length_in 3 8000 (sr_objective row)
        \<or> sr_status row \<notin> {''proposed'', ''awaiting_approval'', ''approved'', ''rejected'', ''cancelling''}
     then Some (PgError ''23514'') else None)"

definition check_decision :: "string \<Rightarrow> DecisionRow \<Rightarrow> PgError option" where
  "check_decision decisionID row =
    (if \<not> MatchString decisionIDPattern decisionID \<or> dr_action row \<noteq> ''submit_sprint''
        \<or> dr_risk_class row \<notin> {''low'', ''medium'', ''high'', ''critical''}
        \<or> dr_status row \<notin> {''pending'', ''approved'', ''rejected''} \<or> \<not> int4_ok (dr_version row)
        \<or> \<not> char_length_in 1 160 (dr_requested_by row) \<or> \<not> pred_option (char_length_in 1 160) (dr_decided_by row)
        \<or> \<not> pred_option (char_length_in 3 2000) (dr_reason row) \<or> dr_updated_at row < dr_created_at row
        \<or> \<not> pred_option (\<lambda>t. t \<ge> dr_created_at row) (dr_decided_at row)
        \<or> \<not> (if dr_status row = ''pending'' then dr_decided_by row = None \<and> dr_reason row = None \<and> dr_decided_at row = None
             else dr_decided_by row \<noteq> None \<and> dr_reason row \<noteq> None \<and> dr_decided_at row \<noteq> None)
     then Some (PgError ''23514'') else None)"

definition check_event :: "EventRow \<Rightarrow> PgError option" where
  "check_event ev =
    (if ev_aggregate_type ev \<notin> {''sprint'', ''task'', ''run'', ''attempt'', ''approval'', ''decision'', ''audit'',
          ''artifact'', ''artifact_operation'', ''artifact_manifest'', ''conversation'', ''message'', ''memory_candidate'',
          ''memory'', ''index_snapshot'', ''projection''}
        \<or> \<not> char_length_in 3 160 (ev_aggregate_id ev) \<or> \<not> int4_ok (ev_aggregate_version ev)
        \<or> \<not> char_length_in 3 120 (ev_event_type ev) \<or> ev_actor_type ev \<notin> {''human'', ''agent'', ''worker'', ''system''}
        \<or> \<not> char_length_in 1 160 (ev_actor_id ev) \<or> \<not> char_length_in 3 160 (ev_correlation_id ev)
        \<or> \<not> pred_option (\<lambda>c. rune_count c \<le> 160) (ev_causation_id ev) \<or> \<not> char_length_in 8 200 (ev_idempotency_key ev)
     then Some (PgError ''23514'') else None)"

section \<open>Statements\<close>

definition insert_run :: "DBEnv \<Rightarrow> string \<Rightarrow> string \<Rightarrow> RunRow \<Rightarrow> 'h PgDB \<Rightarrow> 'h PgDB result" where
  "insert_run env operation runID row db =
     db_exec env operation [runID, rr_objective row, rr_state row]
       (pg_check operation (check_run runID row)
         (pg_check operation (if map_of (pg_runs db) runID \<noteq> None then Some (PgError ''23505'') else None)
           (Inr (db\<lparr>pg_runs := AList.update runID row (pg_runs db)\<rparr>))))"

text \<open>\<open>UPDATE ... WHERE version=$n\<close>: the new row, and a conflict where no row has the version.\<close>

definition update_run :: "DBEnv \<Rightarrow> string \<Rightarrow> error \<Rightarrow> Run \<Rightarrow> int \<Rightarrow> 'h PgDB \<Rightarrow> 'h PgDB result" where
  "update_run env operation stale run expectedVersion db =
     db_exec env operation [run_state run, run_id run]
       (case map_of (pg_runs db) (run_id run) of
          None \<Rightarrow> Inl stale
        | Some row \<Rightarrow>
            if rr_version row \<noteq> expectedVersion then Inl stale
            else let row = row\<lparr>rr_state := run_state run, rr_version := run_version run, rr_updated_at := run_updated_at run\<rparr>
              in pg_check operation (check_run (run_id run) row)
                (Inr (db\<lparr>pg_runs := AList.update (run_id run) row (pg_runs db)\<rparr>)))"

definition insert_sprint :: "DBEnv \<Rightarrow> string \<Rightarrow> string \<Rightarrow> SprintRow \<Rightarrow> 'h PgDB \<Rightarrow> 'h PgDB result" where
  "insert_sprint env operation uuid row db =
     db_exec env operation [sr_title row, sr_objective row, sr_run_id row]
       (pg_check operation (check_sprint row)
         (pg_check operation
           (if map_of (pg_sprints db) uuid \<noteq> None
               \<or> table_ex (\<lambda>_ r. sr_sequence_number r = sr_sequence_number row \<or> sr_run_id r = sr_run_id row) (pg_sprints db)
            then Some (PgError ''23505'') else None)
           (Inr (db\<lparr>pg_sprints := AList.update uuid row (pg_sprints db)\<rparr>))))"

definition update_sprint :: "DBEnv \<Rightarrow> string \<Rightarrow> error \<Rightarrow> string \<Rightarrow> string \<Rightarrow> int \<Rightarrow> time \<Rightarrow> int \<Rightarrow> 'h PgDB \<Rightarrow> 'h PgDB result" where
  "update_sprint env operation stale uuid status version updatedAt expectedVersion db =
     db_call env operation
       (case map_of (pg_sprints db) uuid of
          None \<Rightarrow> Inl stale
        | Some row \<Rightarrow>
            if sr_version row \<noteq> expectedVersion then Inl stale
            else let row = row\<lparr>sr_status := status, sr_version := version, sr_updated_at := updatedAt\<rparr>
              in pg_check operation (check_sprint row)
                (Inr (db\<lparr>pg_sprints := AList.update uuid row (pg_sprints db)\<rparr>)))"

definition insert_decision :: "DBEnv \<Rightarrow> string \<Rightarrow> string \<Rightarrow> DecisionRow \<Rightarrow> 'h PgDB \<Rightarrow> 'h PgDB result" where
  "insert_decision env operation decisionID row db =
     db_exec env operation [decisionID, dr_run_id row, dr_risk_class row, dr_requested_by row]
       (pg_check operation (check_decision decisionID row)
         (pg_check operation
           (if map_of (pg_decisions db) decisionID \<noteq> None
               \<or> table_ex (\<lambda>_ r. dr_sprint_id r = dr_sprint_id row \<and> dr_action r = dr_action row \<and> dr_status r = ''pending''
                    \<and> dr_status row = ''pending'') (pg_decisions db) then Some (PgError ''23505'')
            else if map_of (pg_sprints db) (dr_sprint_id row) = None \<or> map_of (pg_runs db) (dr_run_id row) = None
            then Some (PgError ''23503'') else None)
           (Inr (db\<lparr>pg_decisions := AList.update decisionID row (pg_decisions db)\<rparr>))))"

definition update_decision :: "DBEnv \<Rightarrow> string \<Rightarrow> error \<Rightarrow> Decision \<Rightarrow> int \<Rightarrow> 'h PgDB \<Rightarrow> 'h PgDB result" where
  "update_decision env operation stale decision expectedVersion db =
     db_exec env operation
       [case decision_decided_by decision of Some a \<Rightarrow> a | None \<Rightarrow> [], case decision_reason decision of Some r \<Rightarrow> r | None \<Rightarrow> []]
       (case map_of (pg_decisions db) (decision_id decision) of
          None \<Rightarrow> Inl stale
        | Some row \<Rightarrow>
            if dr_version row \<noteq> expectedVersion then Inl stale
            else let row = row\<lparr>dr_status := decision_status decision, dr_version := decision_version decision,
                   dr_decided_by := decision_decided_by decision, dr_reason := decision_reason decision,
                   dr_decided_at := decision_decided_at decision, dr_updated_at := decision_updated_at decision\<rparr>
              in pg_check operation (check_decision (decision_id decision) row)
                (Inr (db\<lparr>pg_decisions := AList.update (decision_id decision) row (pg_decisions db)\<rparr>)))"

section \<open>Events and the outbox\<close>

text \<open>A \<open>jsonb\<close> value contains no zero character.\<close>

fun json_nul_free :: "json \<Rightarrow> bool" where
  "json_nul_free (JStr s) \<longleftrightarrow> CHR 0x00 \<notin> set s"
| "json_nul_free (JArr js) \<longleftrightarrow> list_all json_nul_free js"
| "json_nul_free (JObj fs) \<longleftrightarrow> list_all (\<lambda>(k, j). json_nul_free j) fs"
| "json_nul_free _ \<longleftrightarrow> True"

text \<open>
  The identity of a new outbox row. Writers hold the watermark lock, so it is larger than
  every identity that was allocated before; identities of rolled back transactions are gaps.
\<close>

definition next_outbox_id :: "PgEnv \<Rightarrow> nat \<Rightarrow> 'h PgDB \<Rightarrow> int" where
  "next_outbox_id env n db = foldr max (map fst (pg_outbox db)) 0 + 1 + int (pg_gap env n)"

definition pending_row :: "pgtime \<Rightarrow> QueueRow" where
  "pending_row t = \<lparr>qr_state = ''pending'', qr_available_at = t, qr_locked_by = None, qr_locked_until = None,
     qr_fencing_token = 0, qr_attempts = 0, qr_last_error = None, qr_published_at = None\<rparr>"

text \<open>The trigger \<open>fanout_projection_delivery\<close>: one pending delivery per active projector.\<close>

definition fanout_projection_delivery :: "int \<Rightarrow> pgtime \<Rightarrow> 'h PgDB \<Rightarrow> 'h PgDB" where
  "fanout_projection_delivery outboxID availableAt db =
     db\<lparr>pg_deliveries := pg_deliveries db @
        map (\<lambda>(projector, _). ((projector, outboxID), pending_row availableAt))
          (filter (\<lambda>(_, consumer). cn_status consumer = ''active'') (pg_consumers db))\<rparr>"

definition insert_event :: "PgEnv \<Rightarrow> nat \<Rightarrow> EventRow \<Rightarrow> 'h PgDB \<Rightarrow> 'h PgDB" where
  "insert_event env n ev db =
    (let outboxID = next_outbox_id env n db in
     fanout_projection_delivery outboxID (pg_available env n)
       (db\<lparr>pg_events := pg_events db @ [ev],
           pg_outbox := pg_outbox db @ [(outboxID, QueueRow.extend (pending_row (pg_available env n)) (OutboxRow.fields (ev_event_id ev)))]\<rparr>))"

definition appendEvent ::
    "PgEnv \<Rightarrow> nat \<Rightarrow> string \<Rightarrow> string \<Rightarrow> int \<Rightarrow> string \<Rightarrow> time \<Rightarrow> json \<Rightarrow> CommandMetadata \<Rightarrow> 'h PgDB \<Rightarrow> 'h PgDB result" where
  "appendEvent env n aggregateType aggregateID aggregateVersion eventType occurredAt payload metadata db =
     db_call (db_of env) ''postgres.appendEvent.lockWatermark''
      (case newPrefixedID ''event'' (pg_entropy env n) of
         Inl err \<Rightarrow> Inl (WrapErr CodeInternal ''postgres.appendEvent'' (Msg ''generate event ID'' []) err)
       | Inr eventID \<Rightarrow>
           let ev = \<lparr>ev_event_id = eventID, ev_aggregate_type = aggregateType, ev_aggregate_id = aggregateID,
                 ev_aggregate_version = aggregateVersion, ev_event_type = eventType, ev_occurred_at = occurredAt,
                 ev_actor_type = ActorType metadata, ev_actor_id = ActorID metadata,
                 ev_correlation_id = CorrelationID metadata, ev_causation_id = CausationID metadata,
                 ev_idempotency_key = IdempotencyKey metadata, ev_payload = payload\<rparr>
           in db_exec (db_of env) ''postgres.appendEvent''
                ([aggregateID, eventType, ActorID metadata, CorrelationID metadata, IdempotencyKey metadata]
                  @ (case CausationID metadata of Some c \<Rightarrow> [c] | None \<Rightarrow> []))
              (pg_check ''postgres.appendEvent'' (if \<not> json_nul_free payload then Some (PgError ''22P05'') else check_event ev)
                (pg_check ''postgres.appendEvent''
                  (if \<exists>e \<in> set (pg_events db). ev_event_id e = eventID
                       \<or> (ev_aggregate_type e = aggregateType \<and> ev_aggregate_id e = aggregateID
                          \<and> ev_aggregate_version e = aggregateVersion)
                   then Some (PgError ''23505'') else None)
                  (Inr (insert_event env n ev db)))))"

definition appendRunEvent ::
    "PgEnv \<Rightarrow> nat \<Rightarrow> string \<Rightarrow> Run \<Rightarrow> CommandMetadata \<Rightarrow> 'h PgDB \<Rightarrow> 'h PgDB result" where
  "appendRunEvent env n eventType run metadata db =
    (case marshal_Run run of
       None \<Rightarrow> Inl (WrapErr CodeInternal ''postgres.appendRunEvent'' (Msg ''encode event payload'' []) (Errorf ''json: encode'' []))
     | Some payload \<Rightarrow>
         appendEvent env n ''run'' (run_id run) (run_version run) eventType (run_updated_at run) payload metadata db)"

definition appendControlEvent ::
    "PgEnv \<Rightarrow> nat \<Rightarrow> string \<Rightarrow> string \<Rightarrow> int \<Rightarrow> string \<Rightarrow> time \<Rightarrow> json option \<Rightarrow> CommandMetadata \<Rightarrow> 'h PgDB \<Rightarrow> 'h PgDB result" where
  "appendControlEvent env n aggregateType aggregateID version eventType occurredAt payload metadata db =
    (case payload of
       None \<Rightarrow> Inl (WrapErr CodeInternal ''postgres.appendControlEvent'' (Msg ''encode event'' []) (Errorf ''json: encode'' []))
     | Some data \<Rightarrow> appendEvent env n aggregateType aggregateID version eventType occurredAt data metadata db)"

definition nonempty_field :: "string \<Rightarrow> string \<Rightarrow> (string \<times> json) list" where
  "nonempty_field k v = (if v = [] then [] else [(k, jstr v)])"

definition marshal_AuditRecord :: "AuditRecord \<Rightarrow> json option" where
  "marshal_AuditRecord r =
    (if json_time_ok (audit_OccurredAt r) then
       Some (JObj
         ([(''tool_name'', jstr (audit_ToolName r)), (''outcome'', jstr (audit_Outcome r)),
           (''actor_type'', jstr (audit_ActorType r)), (''actor_id'', jstr (audit_ActorID r)),
           (''correlation_id'', jstr (audit_CorrelationID r))]
          @ omitempty ''causation_id'' jstr (audit_CausationID r)
          @ [(''idempotency_key'', jstr (audit_IdempotencyKey r))]
          @ nonempty_field ''command_scope'' (audit_CommandScope r) @ nonempty_field ''error_code'' (audit_ErrorCode r)
          @ [(''replay'', JBool (audit_Replay r)), (''occurred_at'', JTime (audit_OccurredAt r))]))
     else None)"

text \<open>\<open>n\<close> is the index of the event; its audit identifier takes the entropy after those of all events.\<close>

definition appendToolAudit ::
    "PgEnv \<Rightarrow> nat \<Rightarrow> AuditRecord \<Rightarrow> CommandMetadata \<Rightarrow> 'h PgDB \<Rightarrow> 'h PgDB result" where
  "appendToolAudit env n record metadata db =
     reject (TrimSpace (audit_ToolName record) = [] \<or> TrimSpace (audit_Outcome record) = []
          \<or> TrimSpace (audit_CorrelationID record) = [] \<or> TrimSpace (audit_IdempotencyKey record) = []
          \<or> TrimSpace (audit_ActorID record) = [])
       (New CodeInvalidArgument ''postgres.appendToolAudit''
         (Msg ''tool, outcome, actor, correlation, and idempotency key are required'' []))
      (let record = record\<lparr>audit_OccurredAt := postgresTimestamp
             (if audit_OccurredAt record = zero_time then pg_now env (n + 1) else audit_OccurredAt record)\<rparr>
       in case marshal_AuditRecord record of
            None \<Rightarrow> Inl (WrapErr CodeInternal ''postgres.appendToolAudit'' (Msg ''encode audit'' []) (Errorf ''json: encode'' []))
          | Some payload \<Rightarrow>
              (case newPrefixedID ''audit'' (pg_entropy env (n + 1)) of
                 Inl err \<Rightarrow> Inl (WrapErr CodeInternal ''postgres.appendToolAudit'' (Msg ''generate audit ID'' []) err)
               | Inr auditID \<Rightarrow>
                   appendEvent env n ''audit'' auditID 1 (''mcp.tool.'' @ audit_Outcome record) (audit_OccurredAt record)
                     payload metadata db))"

definition appendSuccessToolAudit ::
    "PgEnv \<Rightarrow> nat \<Rightarrow> CommandMetadata \<Rightarrow> string \<Rightarrow> time \<Rightarrow> bool \<Rightarrow> 'h PgDB \<Rightarrow> 'h PgDB result" where
  "appendSuccessToolAudit env n metadata commandScope occurredAt replay db =
    (if AuditToolName metadata = [] then Inr db
     else appendToolAudit env n
       \<lparr>audit_ToolName = AuditToolName metadata, audit_Outcome = ''succeeded'', audit_ActorType = ActorType metadata,
        audit_ActorID = ActorID metadata, audit_CorrelationID = CorrelationID metadata,
        audit_CausationID = CausationID metadata, audit_IdempotencyKey = IdempotencyKey metadata,
        audit_CommandScope = commandScope, audit_ErrorCode = [], audit_Replay = replay, audit_OccurredAt = occurredAt\<rparr>
       metadata db)"

section \<open>Receipts\<close>

definition loadReplay ::
    "DBEnv \<Rightarrow> string \<Rightarrow> (json \<Rightarrow> 'a result) \<Rightarrow> string \<Rightarrow> string \<Rightarrow> 'h \<Rightarrow> 'h PgDB \<Rightarrow> 'a option result" where
  "loadReplay env operation decode scope key requestHash db =
     db_exec env operation [scope, key]
       (case map_of (pg_idempotency db) (scope, key) of
          None \<Rightarrow> Inr None
        | Some receipt \<Rightarrow>
            reject (ik_request_hash receipt \<noteq> requestHash)
              (New CodeConflict operation (Msg ''idempotency key was already used for a different command'' []))
              (andThen (decode (ik_response_body receipt)) (\<lambda>value. Inr (Some value))))"

definition saveReplay ::
    "DBEnv \<Rightarrow> string \<Rightarrow> string \<Rightarrow> string \<Rightarrow> string \<Rightarrow> 'h \<Rightarrow> int \<Rightarrow> json option \<Rightarrow> 'h PgDB \<Rightarrow> 'h PgDB result" where
  "saveReplay env operation failure scope key requestHash status response db =
    (case response of
       None \<Rightarrow> Inl (WrapErr CodeInternal operation (Msg failure []) (Errorf ''json: encode'' []))
     | Some data \<Rightarrow>
         db_exec env operation [scope, key]
          (pg_check operation (if \<not> json_nul_free data then Some (PgError ''22P05'')
              else if map_of (pg_idempotency db) (scope, key) \<noteq> None then Some (PgError ''23505'') else None)
            (Inr (db\<lparr>pg_idempotency := AList.update (scope, key)
               \<lparr>ik_request_hash = requestHash, ik_response_status = status, ik_response_body = data\<rparr> (pg_idempotency db)\<rparr>))))"

end
