(* ===== verification/PgStore.thy ===== *)
theory PgStore
  imports PgDatabase
begin

text \<open>
  The durable repositories of \<open>internal/postgres/store.go\<close> and \<open>control.go\<close>: runs,
  sprints and decisions with optimistic versions, one immutable event and one outbox row per
  change, and a replay receipt per command.

  A command is a transaction: its work delivers the name of the commit that ends it, the
  result and the new tables, and \<open>db_commit\<close> ends it. The tables are those of the tenant and
  repository of the store; the identifiers of the store only enter the scopes of receipts.
\<close>

section \<open>Stored runs\<close>

definition ValidTimestamp :: "time \<Rightarrow> bool" where
  "ValidTimestamp value \<longleftrightarrow> value \<noteq> zero_time"

definition decodeStoredRun :: "json \<Rightarrow> Run result" where
  "decodeStoredRun data =
    (case decode_Run data of
       None \<Rightarrow> Inl (Errorf ''json: decode'' [])
     | Some run \<Rightarrow>
         reject (\<not> MatchString runIDPattern (run_id run)) (Errorf ''invalid stored run ID'' [])
        (reject (run_schema_version run \<noteq> ''1.0'') (Errorf ''invalid stored schema version'' [])
          (case pg_validateObjective (run_objective run) of
             Some err \<Rightarrow> Inl err
           | None \<Rightarrow> andThen (ParseState (run_state run)) (\<lambda>_.
               reject (run_version run < 1 \<or> \<not> ValidTimestamp (run_created_at run) \<or> \<not> ValidTimestamp (run_updated_at run)
                   \<or> run_updated_at run < run_created_at run)
                 (Errorf ''invalid stored run version or timestamps'' []) (Inr run)))))"

definition loadRunReplay :: "DBEnv \<Rightarrow> string \<Rightarrow> string \<Rightarrow> 'h \<Rightarrow> 'h PgDB \<Rightarrow> Run option result" where
  "loadRunReplay env scope key requestHash db =
     loadReplay env ''postgres.loadRunReplay''
       (\<lambda>data. case decodeStoredRun data of
          Inl err \<Rightarrow> Inl (WrapErr CodeInternal ''postgres.loadRunReplay'' (Msg ''decode stored command response'' []) err)
        | Inr run \<Rightarrow> Inr run) scope key requestHash db"

definition saveRunReplay :: "DBEnv \<Rightarrow> string \<Rightarrow> string \<Rightarrow> 'h \<Rightarrow> int \<Rightarrow> Run \<Rightarrow> 'h PgDB \<Rightarrow> 'h PgDB result" where
  "saveRunReplay env scope key requestHash status run db =
     saveReplay env ''postgres.saveRunReplay'' ''encode command response'' scope key requestHash status (marshal_Run run) db"

definition loadControlReplay ::
    "DBEnv \<Rightarrow> (json \<Rightarrow> 'a option) \<Rightarrow> string \<Rightarrow> string \<Rightarrow> 'h \<Rightarrow> 'h PgDB \<Rightarrow> 'a option result" where
  "loadControlReplay env decode scope key requestHash db =
     loadReplay env ''postgres.loadControlReplay''
       (\<lambda>data. case decode data of
          None \<Rightarrow> Inl (WrapErr CodeInternal ''postgres.loadControlReplay'' (Msg ''decode stored response'' []) (Errorf ''json: decode'' []))
        | Some value \<Rightarrow> Inr value) scope key requestHash db"

definition saveControlReplay ::
    "DBEnv \<Rightarrow> string \<Rightarrow> string \<Rightarrow> 'h \<Rightarrow> int \<Rightarrow> json option \<Rightarrow> 'h PgDB \<Rightarrow> 'h PgDB result" where
  "saveControlReplay env scope key requestHash status response db =
     saveReplay env ''postgres.saveControlReplay'' ''encode response'' scope key requestHash status response db"

text \<open>
  A transaction delivers the name of its commit with the result, or no name where it ends
  without a commit: it is then rolled back, and the outcome of the rollback is ignored.
\<close>

type_synonym ('a, 's) tx = "((string option \<times> 'a) \<times> 's) result"

definition run_tx :: "PgEnv \<Rightarrow> ('a, 's) tx \<Rightarrow> 's \<Rightarrow> 'a result \<times> 's" where
  "run_tx env work db =
    (case work of Inl err \<Rightarrow> (Inl err, db)
     | Inr ((None, r), _) \<Rightarrow> (Inr r, db)
     | Inr ((Some commit, r), db') \<Rightarrow> db_commit (db_of env) commit (Inr (r, db')) db)"

text \<open>
  Every command of the repositories locks its idempotency key and looks for the receipt of
  an earlier execution, and otherwise does its work. A replay of a governed command appends
  its audit record in a transaction of its own.
\<close>

definition pg_command ::
    "DBEnv \<Rightarrow> string \<Rightarrow> 'a option result \<Rightarrow> ('a \<Rightarrow> ('a, 'h PgDB) tx) \<Rightarrow> ('a, 'h PgDB) tx \<Rightarrow> ('a, 'h PgDB) tx" where
  "pg_command env operation lookup replayed work =
     db_call env (operation @ ''.begin'') (lockIdempotency env
       (andThen lookup (\<lambda>found. case found of Some replay \<Rightarrow> replayed replay | None \<Rightarrow> work)))"

definition audited_replay ::
    "PgEnv \<Rightarrow> string \<Rightarrow> CommandMetadata \<Rightarrow> string \<Rightarrow> 'h PgDB \<Rightarrow> 'a \<Rightarrow> ('a, 'h PgDB) tx" where
  "audited_replay env operation metadata scope db replay =
     andThen (appendSuccessToolAudit env 0 metadata scope (postgresTimestamp (pg_now env 0)) True db) (\<lambda>db.
       Inr ((Some (operation @ ''.commitReplayAudit''), replay), db))"

section \<open>Runs\<close>

definition pg_createRunTx ::
    "PgEnv \<Rightarrow> string \<Rightarrow> 'h \<Rightarrow> RunID \<Rightarrow> string \<Rightarrow> CommandMetadata \<Rightarrow> 'h PgDB \<Rightarrow> (Run, 'h PgDB) tx" where
  "pg_createRunTx env scope requestHash runID objective metadata db =
    (let e = db_of env; run = draftRun (postgresTimestamp (pg_now env 0)) runID objective in
     andThen (insert_run e ''postgres.CreateRun.insert'' runID (run_row run None) db) (\<lambda>db.
     andThen (appendRunEvent env 0 ''run.created'' run metadata db) (\<lambda>db.
     andThen (saveRunReplay e scope (IdempotencyKey metadata) requestHash 201 run db) (\<lambda>db.
       Inr ((Some ''postgres.CreateRun.commit'', run), db)))))"

definition Pg_CreateRun ::
    "(string \<Rightarrow> 'h) \<Rightarrow> PgEnv \<Rightarrow> LeaseStore \<Rightarrow> RunID \<Rightarrow> string \<Rightarrow> CommandMetadata \<Rightarrow> 'h PgDB \<Rightarrow> Run result \<times> 'h PgDB" where
  "Pg_CreateRun sha256 env s runID objective metadata db =
    (case pg_validateObjective objective of Some err \<Rightarrow> (Inl err, db) | None \<Rightarrow>
     (case ValidateCommandMetadata metadata of Some err \<Rightarrow> (Inl err, db) | None \<Rightarrow>
       let scope = ''create_run:'' @ st_repositoryID s;
           requestHash = hashCommand sha256 metadata [''create_run'', st_repositoryID s, objective]
       in run_tx env (pg_command (db_of env) ''postgres.CreateRun''
            (loadRunReplay (db_of env) scope (IdempotencyKey metadata) requestHash db)
            (\<lambda>replay. Inr ((None, replay), db))
            (pg_createRunTx env scope requestHash runID objective metadata db)) db))"

definition Pg_GetRun :: "DBEnv \<Rightarrow> RunID \<Rightarrow> 'h PgDB \<Rightarrow> Run result" where
  "Pg_GetRun env runID db =
     db_exec env ''postgres.GetRun'' [runID]
       (case map_of (pg_runs db) runID of
          None \<Rightarrow> Inl (New CodeNotFound ''postgres.GetRun'' (Msg ''run %s was not found'' [FStr runID]))
        | Some row \<Rightarrow> Inr (scanRun runID row))"

definition requireRunPublicationTransition ::
    "DBEnv \<Rightarrow> string \<Rightarrow> State \<Rightarrow> string \<Rightarrow> 'h PgDB \<Rightarrow> 'a result \<Rightarrow> 'a result" where
  "requireRunPublicationTransition env runID target operation db k =
     db_call env (operation @ ''.publicationSchema'')
       (case pg_publications db of
          None \<Rightarrow> k
        | Some publications \<Rightarrow>
            db_call env (operation @ ''.publicationFence'')
              (reject ((runID, ''prepared'') \<in> set publications
                  \<or> ((runID, ''published'') \<in> set publications \<and> target \<noteq> StateCompleted))
                (New CodeConflict operation
                  (Msg ''a prepared or published delivery has committed this Run to publication'' [])) k))"

text \<open>
  The pending decision of a sprint, of which a unique index allows one, and the sprint of a
  run, of which a unique constraint allows one.
\<close>

definition pending_decision :: "'h PgDB \<Rightarrow> string \<Rightarrow> string option" where
  "pending_decision db uuid =
     map_option fst (find (\<lambda>(_, d). dr_sprint_id d = uuid \<and> dr_status d = ''pending'') (pg_decisions db))"

definition sprint_of_run :: "'h PgDB \<Rightarrow> string \<Rightarrow> (string \<times> Sprint) option" where
  "sprint_of_run db runID =
     map_option (\<lambda>(uuid, row). (uuid, scanSprint uuid row (pending_decision db uuid)))
       (find (\<lambda>(_, row). sr_run_id row = runID) (pg_sprints db))"

text \<open>The sprint to cancel with the run, if any, or the refusal.\<close>

definition cancellingSprint :: "State \<Rightarrow> (string \<times> Sprint) option \<Rightarrow> (string \<times> Sprint) option result" where
  "cancellingSprint target found =
    (case found of
       None \<Rightarrow> Inr None
     | Some (uuid, sprint) \<Rightarrow>
         if sprint_status sprint = SprintStatusString SprintAwaitingApproval \<or> sprint_pending_decision_id sprint \<noteq> None then
           Inl (New CodeConflict ''postgres.TransitionRun''
             (Msg ''resolve the pending decision before transitioning its run'' []))
         else if sprint_status sprint = SprintStatusString SprintProposed \<and> target \<noteq> StateCancelling then
           Inl (New CodeConflict ''postgres.TransitionRun''
             (Msg ''submit the proposed Sprint before transitioning its run'' []))
         else if target = StateCancelling then Inr (Some (uuid, sprint)) else Inr None)"

text \<open>The sprint is cancelled with its run where it was proposed or approved.\<close>

definition cancelSprint ::
    "PgEnv \<Rightarrow> (string \<times> Sprint) option \<Rightarrow> time \<Rightarrow> CommandMetadata \<Rightarrow> 'h PgDB \<Rightarrow> 'h PgDB result" where
  "cancelSprint env cancelling updatedAt metadata db =
    (case cancelling of
       None \<Rightarrow> Inr db
     | Some (uuid, sprint) \<Rightarrow>
         if sprint_status sprint = SprintStatusString SprintProposed \<or> sprint_status sprint = SprintStatusString SprintApproved then
           let sprint' = sprint\<lparr>sprint_status := SprintStatusString SprintCancelling,
                 sprint_version := sprint_version sprint + 1, sprint_updated_at := updatedAt\<rparr> in
           andThen (update_sprint (db_of env) ''postgres.TransitionRun.updateSprint''
             (New CodeConflict ''postgres.TransitionRun.updateSprint'' (Msg ''sprint version changed concurrently'' []))
             uuid (sprint_status sprint') (sprint_version sprint') updatedAt (sprint_version sprint) db) (\<lambda>db.
           appendControlEvent env 0 ''sprint'' (sprint_id sprint') (sprint_version sprint') ''sprint.cancellation_requested''
             updatedAt (marshal_Sprint sprint') metadata db)
         else Inr db)"

text \<open>
  The source sends the query for the sprint first and looks at its outcome after the checks
  of the run; here the query stands where its outcome is looked at, which can only change
  the name of a database error.
\<close>

definition pg_transitionRunTx ::
    "PgEnv \<Rightarrow> string \<Rightarrow> 'h \<Rightarrow> RunID \<Rightarrow> int \<Rightarrow> State \<Rightarrow> CommandMetadata \<Rightarrow> 'h PgDB \<Rightarrow> (Run, 'h PgDB) tx" where
  "pg_transitionRunTx env scope requestHash runID expectedVersion target metadata db =
    (let e = db_of env in
     db_exec e ''postgres.TransitionRun.select'' [runID]
     (case map_of (pg_runs db) runID of
        None \<Rightarrow> Inl (New CodeNotFound ''postgres.TransitionRun'' (Msg ''run %s was not found'' [FStr runID]))
      | Some row \<Rightarrow>
     let run = scanRun runID row in
     reject (run_version run \<noteq> expectedVersion)
       (New CodeConflict ''postgres.TransitionRun'' (Msg ''run %s version mismatch: expected %d, current %d''
         [FStr runID, FInt expectedVersion, FInt (run_version run)]))
     (reject (isPrivilegedResumeTransition (run_state run) target)
       (New CodePermissionDenied ''postgres.TransitionRun''
         (Msg ''resume transitions require the governed ResumeRun command'' []))
     (db_call e ''postgres.TransitionRun.selectSprint''
     (andThen (cancellingSprint target (sprint_of_run db runID)) (\<lambda>cancelling.
     requireRunPublicationTransition e runID target ''postgres.TransitionRun'' db
     (andThen (Machine_Transition (pg_now env 0) run target) (\<lambda>moved.
     let updated = moved\<lparr>run_updated_at := postgresTimestamp (run_updated_at moved)\<rparr> in
     andThen (update_run e ''postgres.TransitionRun.update''
       (New CodeConflict ''postgres.TransitionRun'' (Msg ''run version changed concurrently'' []))
       updated expectedVersion db) (\<lambda>db.
     andThen (cancelSprint env cancelling (run_updated_at updated) metadata db) (\<lambda>db.
     andThen (appendRunEvent env 1 ''run.transitioned'' updated metadata db) (\<lambda>db.
     andThen (appendSuccessToolAudit env 2 metadata scope (run_updated_at updated) False db) (\<lambda>db.
     andThen (saveRunReplay e scope (IdempotencyKey metadata) requestHash 200 updated db) (\<lambda>db.
       Inr ((Some ''postgres.TransitionRun.commit'', updated), db))))))))))))))"

definition Pg_TransitionRun ::
    "(string \<Rightarrow> 'h) \<Rightarrow> PgEnv \<Rightarrow> LeaseStore \<Rightarrow> RunID \<Rightarrow> int \<Rightarrow> State \<Rightarrow> CommandMetadata \<Rightarrow> 'h PgDB \<Rightarrow> Run result \<times> 'h PgDB" where
  "Pg_TransitionRun sha256 env s runID expectedVersion target metadata db =
    (if expectedVersion < 1 then
       (Inl (New CodeInvalidArgument ''postgres.TransitionRun'' (Msg ''expected version must be at least 1'' [])), db)
     else (case ValidateCommandMetadata metadata of Some err \<Rightarrow> (Inl err, db) | None \<Rightarrow>
       let requestHash = hashCommand sha256 metadata [''transition_run'', runID, itoa expectedVersion, StateString target];
           scope = ''transition_run:'' @ st_repositoryID s @ '':'' @ runID
       in run_tx env (pg_command (db_of env) ''postgres.TransitionRun''
            (loadRunReplay (db_of env) scope (IdempotencyKey metadata) requestHash db)
            (audited_replay env ''postgres.TransitionRun'' metadata scope db)
            (pg_transitionRunTx env scope requestHash runID expectedVersion target metadata db)) db))"

definition pg_resumeTarget :: "Run \<Rightarrow> State result" where
  "pg_resumeTarget run =
    (if run_state run = StateString StateFailedRetryable \<or> run_state run = StateString StateAwaitingDecision
     then Inr StateQueued
     else Inl (New CodeConflict ''postgres.resumeTarget''
       (Msg ''only failed_retryable or awaiting_decision runs can resume'' [])))"

definition pg_resumeRunTx ::
    "PgEnv \<Rightarrow> string \<Rightarrow> 'h \<Rightarrow> RunID \<Rightarrow> int \<Rightarrow> CommandMetadata \<Rightarrow> 'h PgDB \<Rightarrow> (Run, 'h PgDB) tx" where
  "pg_resumeRunTx env scope requestHash runID expectedVersion metadata db =
    (let e = db_of env in
     db_exec e ''postgres.ResumeRun.select'' [runID]
     (case map_of (pg_runs db) runID of
        None \<Rightarrow> Inl (New CodeNotFound ''postgres.ResumeRun'' (Msg ''run %s was not found'' [FStr runID]))
      | Some row \<Rightarrow>
     let run = scanRun runID row in
     reject (run_version run \<noteq> expectedVersion)
       (New CodeConflict ''postgres.ResumeRun'' (Msg ''run %s version mismatch: expected %d, current %d''
         [FStr runID, FInt expectedVersion, FInt (run_version run)]))
     (db_call e ''postgres.ResumeRun.pendingDecision''
     (reject (table_ex (\<lambda>_ d. dr_run_id d = runID \<and> dr_status d = ''pending'') (pg_decisions db))
       (New CodeConflict ''postgres.ResumeRun'' (Msg ''resolve the pending decision before resuming its run'' []))
     (andThen (pg_resumeTarget run) (\<lambda>target.
     requireRunPublicationTransition e runID target ''postgres.ResumeRun'' db
     (andThen (Machine_Transition (pg_now env 0) run target) (\<lambda>moved.
     let updated = moved\<lparr>run_updated_at := postgresTimestamp (run_updated_at moved)\<rparr> in
     andThen (update_run e ''postgres.ResumeRun.update''
       (New CodeConflict ''postgres.ResumeRun'' (Msg ''run version changed concurrently'' []))
       updated expectedVersion db) (\<lambda>db.
     andThen (appendRunEvent env 0 ''run.transitioned'' updated metadata db) (\<lambda>db.
     andThen (appendSuccessToolAudit env 1 metadata scope (run_updated_at updated) False db) (\<lambda>db.
     andThen (saveRunReplay e scope (IdempotencyKey metadata) requestHash 200 updated db) (\<lambda>db.
       Inr ((Some ''postgres.ResumeRun.commit'', updated), db)))))))))))))"

definition Pg_ResumeRun ::
    "(string \<Rightarrow> 'h) \<Rightarrow> PgEnv \<Rightarrow> LeaseStore \<Rightarrow> RunID \<Rightarrow> int \<Rightarrow> CommandMetadata \<Rightarrow> 'h PgDB \<Rightarrow> Run result \<times> 'h PgDB" where
  "Pg_ResumeRun sha256 env s runID expectedVersion metadata db =
    (if expectedVersion < 1 then
       (Inl (New CodeInvalidArgument ''postgres.ResumeRun'' (Msg ''expected version must be at least 1'' [])), db)
     else (case ValidateCommandMetadata metadata of Some err \<Rightarrow> (Inl err, db) | None \<Rightarrow>
       let requestHash = hashCommand sha256 metadata [''resume_run'', runID, itoa expectedVersion];
           scope = ''resume_run:'' @ st_repositoryID s @ '':'' @ runID
       in run_tx env (pg_command (db_of env) ''postgres.ResumeRun''
            (loadRunReplay (db_of env) scope (IdempotencyKey metadata) requestHash db)
            (audited_replay env ''postgres.ResumeRun'' metadata scope db)
            (pg_resumeRunTx env scope requestHash runID expectedVersion metadata db)) db))"

section \<open>Sprints and decisions\<close>

text \<open>A statement with a cast \<open>$n::uuid\<close> of the text of an identifier, which is empty or a UUIDv4.\<close>

definition uuid_cast :: "DBEnv \<Rightarrow> string \<Rightarrow> string \<Rightarrow> 'a result \<Rightarrow> 'a result" where
  "uuid_cast env operation uuid k =
     db_call env operation
       (pg_check operation (if MatchString sprintIDPattern (''sprint_'' @ uuid) then None else Some (PgError ''22P02'')) k)"

text \<open>\<open>COALESCE(MAX(sequence_number), 0) + 1\<close>; sequence numbers are not negative.\<close>

definition next_sequence :: "'h PgDB \<Rightarrow> int" where
  "next_sequence db = foldr (\<lambda>(_, row). max (sr_sequence_number row)) (pg_sprints db) 0 + 1"

definition Store_Authority :: "LeaseStore \<Rightarrow> Authority" where
  "Store_Authority s = \<lparr>auth_tenant_id = st_tenantID s, auth_repository_id = st_repositoryID s\<rparr>"

definition Pg_GetDecision :: "DBEnv \<Rightarrow> string \<Rightarrow> 'h PgDB \<Rightarrow> Decision option result" where
  "Pg_GetDecision env decisionID db =
     db_exec env ''postgres.GetDecision'' [decisionID]
       (Inr (map_option (scanDecision decisionID) (map_of (pg_decisions db) decisionID)))"

definition Pg_GetSprint :: "DBEnv \<Rightarrow> SprintID \<Rightarrow> 'h PgDB \<Rightarrow> Sprint result" where
  "Pg_GetSprint env i db =
     uuid_cast env ''postgres.GetSprint'' (SprintID_UUID i)
       (case map_of (pg_sprints db) (SprintID_UUID i) of
          None \<Rightarrow> Inl (New CodeNotFound ''postgres.GetSprint'' (Msg ''sprint %s was not found'' [FStr i]))
        | Some row \<Rightarrow> Inr (scanSprint (SprintID_UUID i) row (pending_decision db (SprintID_UUID i))))"

definition pg_planSprintTx ::
    "PgEnv \<Rightarrow> string \<Rightarrow> 'h \<Rightarrow> PlanCommand \<Rightarrow> CommandMetadata \<Rightarrow> 'h PgDB \<Rightarrow> (PlanResult, 'h PgDB) tx" where
  "pg_planSprintTx env scope requestHash command metadata db =
    (let e = db_of env in
     db_call e ''postgres.PlanSprint.lockSequence''
     (db_call e ''postgres.PlanSprint.sequence''
     (pg_check ''postgres.PlanSprint.sequence'' (if next_sequence db > 2 ^ 31 - 1 then Some (PgError ''22003'') else None)
     (let sequence = next_sequence db; now = postgresTimestamp (pg_now env 0);
          uuid = SprintID_UUID (pc_SprintID command);
          run = draftRun now (pc_RunID command) (pc_Objective command);
          sprint = \<lparr>sprint_id = pc_SprintID command, sprint_schema_version = ''1.0'',
            sprint_sequence_number = sequence, sprint_title = pc_Title command, sprint_objective = pc_Objective command,
            sprint_status = SprintStatusString SprintProposed, sprint_version = 1, sprint_run_id = run_id run,
            sprint_pending_decision_id = None, sprint_created_at = now, sprint_updated_at = now\<rparr>
      in uuid_cast e ''postgres.PlanSprint.insertSprint'' uuid
     (andThen (insert_sprint e ''postgres.PlanSprint.insertSprint'' uuid
        \<lparr>sr_sequence_number = sequence, sr_title = pc_Title command, sr_objective = pc_Objective command,
         sr_status = SprintStatusString SprintProposed, sr_version = 1, sr_run_id = pc_RunID command,
         sr_created_at = now, sr_updated_at = now\<rparr> db) (\<lambda>db.
     andThen (insert_run e ''postgres.PlanSprint.insertRun'' (run_id run) (run_row run (Some uuid)) db) (\<lambda>db.
     andThen (appendControlEvent env 0 ''sprint'' (sprint_id sprint) (sprint_version sprint) ''sprint.planned'' now
       (marshal_Sprint sprint) metadata db) (\<lambda>db.
     andThen (appendRunEvent env 1 ''run.created'' run metadata db) (\<lambda>db.
     andThen (appendSuccessToolAudit env 2 metadata scope now False db) (\<lambda>db.
     let result = \<lparr>plan_sprint = sprint, plan_run = run\<rparr> in
     andThen (saveControlReplay e scope (IdempotencyKey metadata) requestHash 201 (marshal_PlanResult result) db) (\<lambda>db.
       Inr ((Some ''postgres.PlanSprint.commit'', result), db))))))))))))"

definition Pg_PlanSprint ::
    "(string \<Rightarrow> 'h) \<Rightarrow> PgEnv \<Rightarrow> LeaseStore \<Rightarrow> PlanCommand \<Rightarrow> CommandMetadata \<Rightarrow> 'h PgDB \<Rightarrow> PlanResult result \<times> 'h PgDB" where
  "Pg_PlanSprint sha256 env s command metadata db =
    (case ValidateCommandMetadata metadata of Some err \<Rightarrow> (Inl err, db) | None \<Rightarrow>
       let scope = ''plan_sprint:'' @ st_repositoryID s;
           requestHash = hashCommand sha256 metadata
             [''plan_sprint'', st_repositoryID s, pc_Title command, pc_Objective command]
       in run_tx env (pg_command (db_of env) ''postgres.PlanSprint''
            (loadControlReplay (db_of env) decode_PlanResult scope (IdempotencyKey metadata) requestHash db)
            (audited_replay env ''postgres.PlanSprint'' metadata scope db)
            (pg_planSprintTx env scope requestHash command metadata db)) db)"

text \<open>The row of a run inside a command: a missing row is not told apart from other errors.\<close>

definition select_run :: "DBEnv \<Rightarrow> string \<Rightarrow> string \<Rightarrow> 'h PgDB \<Rightarrow> Run result" where
  "select_run env operation runID db =
     db_call env operation
       (case map_of (pg_runs db) runID of
          None \<Rightarrow> Inl (databaseError operation OtherDBError)
        | Some row \<Rightarrow> Inr (scanRun runID row))"

definition requested_decision :: "SubmitCommand \<Rightarrow> CommandMetadata \<Rightarrow> Sprint \<Rightarrow> time \<Rightarrow> Decision" where
  "requested_decision command metadata sprint now =
    \<lparr>decision_id = sc_DecisionID command, decision_schema_version = ''1.0'', decision_sprint_id = sprint_id sprint,
     decision_run_id = sprint_run_id sprint, decision_action = DecisionActionSubmitSprint,
     decision_risk_class = sc_RiskClass command, decision_status = DecisionStatusString DecisionPending,
     decision_version = 1, decision_requested_by = ActorID metadata, decision_decided_by = None, decision_reason = None,
     decision_created_at = now, decision_updated_at = now, decision_decided_at = None\<rparr>"

definition decision_row :: "string \<Rightarrow> Decision \<Rightarrow> DecisionRow" where
  "decision_row uuid d = \<lparr>dr_sprint_id = uuid, dr_run_id = decision_run_id d, dr_action = decision_action d,
     dr_risk_class = decision_risk_class d, dr_status = decision_status d, dr_version = decision_version d,
     dr_requested_by = decision_requested_by d, dr_decided_by = decision_decided_by d, dr_reason = decision_reason d,
     dr_created_at = decision_created_at d, dr_updated_at = decision_updated_at d, dr_decided_at = decision_decided_at d\<rparr>"

text \<open>The writes of a submission: the three rows, the three events, the audit record, the receipt.\<close>

definition write_submission ::
    "PgEnv \<Rightarrow> string \<Rightarrow> 'h \<Rightarrow> SubmitCommand \<Rightarrow> CommandMetadata \<Rightarrow> Sprint \<Rightarrow> Decision \<Rightarrow> Run \<Rightarrow> int \<Rightarrow> 'h PgDB
      \<Rightarrow> (SubmissionResult, 'h PgDB) tx" where
  "write_submission env scope requestHash command metadata sprint decision updatedRun runVersion db =
    (let e = db_of env; uuid = SprintID_UUID (sc_SprintID command) in
     andThen (update_sprint e ''postgres.SubmitSprint.updateSprint''
       (New CodeConflict ''postgres.SubmitSprint.updateSprint'' (Msg ''sprint version changed concurrently'' []))
       uuid (sprint_status sprint) (sprint_version sprint) (sprint_updated_at sprint) (sc_ExpectedVersion command) db) (\<lambda>db.
     andThen (update_run e ''postgres.SubmitSprint.updateRun''
       (New CodeConflict ''postgres.SubmitSprint.updateRun'' (Msg ''run version changed concurrently'' []))
       updatedRun runVersion db) (\<lambda>db.
     andThen (insert_decision e ''postgres.SubmitSprint.insertDecision'' (decision_id decision) (decision_row uuid decision) db) (\<lambda>db.
     andThen (appendControlEvent env 0 ''sprint'' (sprint_id sprint) (sprint_version sprint) ''sprint.submitted''
       (sprint_updated_at sprint) (marshal_Sprint sprint) metadata db) (\<lambda>db.
     andThen (appendRunEvent env 1 ''run.transitioned'' updatedRun metadata db) (\<lambda>db.
     andThen (appendControlEvent env 2 ''decision'' (decision_id decision) (decision_version decision) ''decision.requested''
       (decision_updated_at decision) (marshal_Decision decision) metadata db) (\<lambda>db.
     andThen (appendSuccessToolAudit env 3 metadata scope (sprint_updated_at sprint) False db) (\<lambda>db.
     let result = \<lparr>sub_sprint = sprint, sub_decision = decision, sub_run = updatedRun\<rparr> in
     andThen (saveControlReplay e scope (IdempotencyKey metadata) requestHash 200 (marshal_SubmissionResult result) db) (\<lambda>db.
       Inr ((Some ''postgres.SubmitSprint.commit'', result), db))))))))))"

definition pg_submitSprintTx ::
    "PgEnv \<Rightarrow> string \<Rightarrow> 'h \<Rightarrow> SubmitCommand \<Rightarrow> CommandMetadata \<Rightarrow> 'h PgDB \<Rightarrow> (SubmissionResult, 'h PgDB) tx" where
  "pg_submitSprintTx env scope requestHash command metadata db =
    (let e = db_of env; uuid = SprintID_UUID (sc_SprintID command) in
     uuid_cast e ''postgres.SubmitSprint.selectSprint'' uuid
     (case map_of (pg_sprints db) uuid of
        None \<Rightarrow> Inl (New CodeNotFound ''postgres.SubmitSprint'' (Msg ''sprint was not found'' []))
      | Some row \<Rightarrow>
     let sprint = scanSprint uuid row None in
     reject (sprint_version sprint \<noteq> sc_ExpectedVersion command \<or> sprint_status sprint \<noteq> SprintStatusString SprintProposed)
       (New CodeConflict ''postgres.SubmitSprint'' (Msg ''sprint is not a matching proposed version'' []))
     (andThen (select_run e ''postgres.SubmitSprint.selectRun'' (sprint_run_id sprint) db) (\<lambda>run.
     andThen (Machine_Transition (pg_now env 0) run StateAwaitingApproval) (\<lambda>moved.
     let updatedRun = moved\<lparr>run_updated_at := postgresTimestamp (run_updated_at moved)\<rparr>;
         sprint = sprint\<lparr>sprint_status := SprintStatusString SprintAwaitingApproval,
           sprint_version := sprint_version sprint + 1, sprint_updated_at := run_updated_at updatedRun,
           sprint_pending_decision_id := Some (sc_DecisionID command)\<rparr>;
         decision = requested_decision command metadata sprint (sprint_updated_at sprint)
     in write_submission env scope requestHash command metadata sprint decision updatedRun (run_version run) db)))))"

definition Pg_SubmitSprint ::
    "(string \<Rightarrow> 'h) \<Rightarrow> PgEnv \<Rightarrow> LeaseStore \<Rightarrow> SubmitCommand \<Rightarrow> CommandMetadata \<Rightarrow> 'h PgDB
      \<Rightarrow> SubmissionResult result \<times> 'h PgDB" where
  "Pg_SubmitSprint sha256 env s command metadata db =
    (case ValidateCommandMetadata metadata of Some err \<Rightarrow> (Inl err, db) | None \<Rightarrow>
       let scope = ''submit_sprint:'' @ st_repositoryID s @ '':'' @ sc_SprintID command;
           requestHash = hashCommand sha256 metadata
             [''submit_sprint'', sc_SprintID command, itoa (sc_ExpectedVersion command), sc_RiskClass command]
       in run_tx env (pg_command (db_of env) ''postgres.SubmitSprint''
            (loadControlReplay (db_of env) decode_SubmissionResult scope (IdempotencyKey metadata) requestHash db)
            (audited_replay env ''postgres.SubmitSprint'' metadata scope db)
            (pg_submitSprintTx env scope requestHash command metadata db)) db)"

text \<open>The writes of a resolution, in the order of the code.\<close>

definition write_resolution ::
    "PgEnv \<Rightarrow> string \<Rightarrow> 'h \<Rightarrow> DecideCommand \<Rightarrow> CommandMetadata \<Rightarrow> string \<Rightarrow> Sprint \<Rightarrow> Decision \<Rightarrow> Run \<Rightarrow> int \<Rightarrow> 'h PgDB
      \<Rightarrow> (DecisionResult, 'h PgDB) tx" where
  "write_resolution env scope requestHash command metadata uuid sprint decision updatedRun runVersion db =
    (let e = db_of env; now = run_updated_at updatedRun in
     andThen (update_decision e ''postgres.ResolveDecision.updateDecision''
       (New CodeConflict ''postgres.ResolveDecision.updateDecision'' (Msg ''decision version changed concurrently'' []))
       decision (dc_ExpectedVersion command) db) (\<lambda>db.
     andThen (update_sprint e ''postgres.ResolveDecision.updateSprint''
       (New CodeConflict ''postgres.ResolveDecision.updateSprint'' (Msg ''sprint version changed concurrently'' []))
       uuid (sprint_status sprint) (sprint_version sprint) now (sprint_version sprint - 1) db) (\<lambda>db.
     andThen (update_run e ''postgres.ResolveDecision.updateRun''
       (New CodeConflict ''postgres.ResolveDecision.updateRun'' (Msg ''run version changed concurrently'' []))
       updatedRun runVersion db) (\<lambda>db.
     andThen (appendControlEvent env 0 ''decision'' (decision_id decision) (decision_version decision)
       (if dc_Approve command then ''decision.approved'' else ''decision.rejected'') now (marshal_Decision decision)
       metadata db) (\<lambda>db.
     andThen (appendControlEvent env 1 ''sprint'' (sprint_id sprint) (sprint_version sprint) ''sprint.decision_resolved''
       now (marshal_Sprint sprint) metadata db) (\<lambda>db.
     andThen (appendRunEvent env 2 ''run.transitioned'' updatedRun metadata db) (\<lambda>db.
     andThen (appendSuccessToolAudit env 3 metadata scope now False db) (\<lambda>db.
     let result = \<lparr>dec_sprint = sprint, dec_decision = decision, dec_run = updatedRun\<rparr> in
     andThen (saveControlReplay e scope (IdempotencyKey metadata) requestHash 200 (marshal_DecisionResult result) db) (\<lambda>db.
       Inr ((Some ''postgres.ResolveDecision.commit'', result), db))))))))))"

definition pg_resolveDecisionTx ::
    "PgEnv \<Rightarrow> string \<Rightarrow> 'h \<Rightarrow> DecideCommand \<Rightarrow> CommandMetadata \<Rightarrow> 'h PgDB \<Rightarrow> (DecisionResult, 'h PgDB) tx" where
  "pg_resolveDecisionTx env scope requestHash command metadata db =
    (let e = db_of env in
     db_exec e ''postgres.ResolveDecision.selectDecision'' [dc_DecisionID command]
     (case map_of (pg_decisions db) (dc_DecisionID command) of
        None \<Rightarrow> Inl (New CodeNotFound ''postgres.ResolveDecision'' (Msg ''decision was not found'' []))
      | Some row \<Rightarrow>
     let decision = scanDecision (dc_DecisionID command) row in
     reject (decision_version decision \<noteq> dc_ExpectedVersion command
         \<or> decision_status decision \<noteq> DecisionStatusString DecisionPending)
       (New CodeConflict ''postgres.ResolveDecision'' (Msg ''decision is not a matching pending version'' []))
     (case ParseSprintID (decision_sprint_id decision) of
        Inl err \<Rightarrow> Inl (WrapErr CodeInternal ''postgres.ResolveDecision''
          (Msg ''stored Sprint ID violates the public contract'' []) err)
      | Inr sprintID \<Rightarrow>
     uuid_cast e ''postgres.ResolveDecision.selectSprint'' (SprintID_UUID sprintID)
     (case map_of (pg_sprints db) (SprintID_UUID sprintID) of
        None \<Rightarrow> Inl (databaseError ''postgres.ResolveDecision.selectSprint'' OtherDBError)
      | Some srow \<Rightarrow>
     let sprint = scanSprint (SprintID_UUID sprintID) srow (Some (decision_id decision)) in
     andThen (select_run e ''postgres.ResolveDecision.selectRun'' (decision_run_id decision) db) (\<lambda>run.
     andThen (Machine_Transition (pg_now env 0) run (if dc_Approve command then StateQueued else StateCancelling)) (\<lambda>moved.
     let updatedRun = moved\<lparr>run_updated_at := postgresTimestamp (run_updated_at moved)\<rparr>;
         now = run_updated_at updatedRun;
         decision = decision\<lparr>decision_status := DecisionStatusString (if dc_Approve command then DecisionApproved else DecisionRejected),
           decision_version := decision_version decision + 1, decision_decided_by := Some (ActorID metadata),
           decision_reason := Some (dc_Reason command), decision_decided_at := Some now, decision_updated_at := now\<rparr>;
         sprint = sprint\<lparr>sprint_status := SprintStatusString (if dc_Approve command then SprintApproved else SprintRejected),
           sprint_version := sprint_version sprint + 1, sprint_pending_decision_id := None, sprint_updated_at := now\<rparr>
     in write_resolution env scope requestHash command metadata (SprintID_UUID sprintID) sprint decision updatedRun
          (run_version run) db))))))"

definition Pg_ResolveDecision ::
    "(string \<Rightarrow> 'h) \<Rightarrow> PgEnv \<Rightarrow> LeaseStore \<Rightarrow> DecideCommand \<Rightarrow> CommandMetadata \<Rightarrow> 'h PgDB
      \<Rightarrow> DecisionResult result \<times> 'h PgDB" where
  "Pg_ResolveDecision sha256 env s command metadata db =
    (case ValidateCommandMetadata metadata of Some err \<Rightarrow> (Inl err, db) | None \<Rightarrow>
       let scope = ''resolve_decision:'' @ st_repositoryID s @ '':'' @ dc_DecisionID command;
           requestHash = hashCommand sha256 metadata
             [''resolve_decision'', dc_DecisionID command, itoa (dc_ExpectedVersion command),
              (if dc_Approve command then ''true'' else ''false''), dc_Reason command]
       in run_tx env (pg_command (db_of env) ''postgres.ResolveDecision''
            (loadControlReplay (db_of env) decode_DecisionResult scope (IdempotencyKey metadata) requestHash db)
            (audited_replay env ''postgres.ResolveDecision'' metadata scope db)
            (pg_resolveDecisionTx env scope requestHash command metadata db)) db)"

definition Pg_RecordToolAudit :: "PgEnv \<Rightarrow> AuditRecord \<Rightarrow> 'h PgDB \<Rightarrow> unit result \<times> 'h PgDB" where
  "Pg_RecordToolAudit env record db =
    (let metadata = \<lparr>IdempotencyKey = audit_IdempotencyKey record, ActorType = audit_ActorType record,
           ActorID = audit_ActorID record, CorrelationID = audit_CorrelationID record,
           CausationID = audit_CausationID record, AuditToolName = []\<rparr>
     in run_tx env
       (db_call (db_of env) ''postgres.RecordToolAudit.begin''
         (case ValidateCommandMetadata metadata of Some err \<Rightarrow> Inl err | None \<Rightarrow>
           andThen (appendToolAudit env 0 record metadata db) (\<lambda>db.
             Inr ((Some ''postgres.RecordToolAudit.commit'', ()), db)))) db)"

section \<open>What the statements keep\<close>

text \<open>The governed tables, and the events of one run in the order they were written.\<close>

definition core :: "'h PgDB \<Rightarrow> (string \<times> RunRow) list \<times> (string \<times> SprintRow) list \<times> (string \<times> DecisionRow) list" where
  "core db = (pg_runs db, pg_sprints db, pg_decisions db)"

definition stream :: "'h PgDB \<Rightarrow> string \<Rightarrow> EventRow list" where
  "stream db i = filter (\<lambda>ev. ev_aggregate_type ev = ''run'' \<and> ev_aggregate_id ev = i) (pg_events db)"

named_theorems pg_keeps

lemma core_simps [simp]:
  "core (db\<lparr>pg_idempotency := x\<rparr>) = core db" "core (db\<lparr>pg_runs := y\<rparr>) = (y, pg_sprints db, pg_decisions db)"
  "core (db\<lparr>pg_sprints := z\<rparr>) = (pg_runs db, z, pg_decisions db)"
  "core (db\<lparr>pg_decisions := w\<rparr>) = (pg_runs db, pg_sprints db, w)"
  "core (insert_event env n ev db) = core db"
  by (simp_all add: core_def insert_event_def fanout_projection_delivery_def Let_def)

lemma insert_event_events: "pg_events (insert_event env n ev db) = pg_events db @ [ev]"
  by (simp add: insert_event_def fanout_projection_delivery_def Let_def)

lemma stream_simps [simp]:
  "stream (db\<lparr>pg_idempotency := x\<rparr>) = stream db" "stream (db\<lparr>pg_runs := y\<rparr>) = stream db"
  "stream (db\<lparr>pg_sprints := z\<rparr>) = stream db" "stream (db\<lparr>pg_decisions := w\<rparr>) = stream db"
  "stream (insert_event env n ev db) = (if ev_aggregate_type ev = ''run''
     then (stream db)(ev_aggregate_id ev := stream db (ev_aggregate_id ev) @ [ev]) else stream db)"
  by (auto simp: stream_def fun_eq_iff insert_event_events)

lemma appendEvent_Inr:
  assumes "appendEvent env n ty i v et t p m db = Inr db'"
  obtains ev where "db' = insert_event env n ev db" "ev_aggregate_type ev = ty" "ev_aggregate_id ev = i"
    "ev_aggregate_version ev = v" "ev_event_type ev = et" "ev_occurred_at ev = t" "ev_payload ev = p"
    "ev_event_id ev \<notin> ev_event_id ` set (pg_events db)" "json_nul_free p" "check_event ev = None"
  using assms
  by (force simp: appendEvent_def Let_def db_call_Inr db_exec_Inr split: sum.splits if_splits)

lemma appendControlEvent_keeps [pg_keeps]:
  assumes "appendControlEvent env n ty i v et t p m db = Inr db'"
  shows "core db' = core db \<and> (ty \<noteq> ''run'' \<longrightarrow> stream db' = stream db)"
  using assms
  by (auto simp: appendControlEvent_def split: option.splits elim!: appendEvent_Inr)

lemma appendToolAudit_keeps [pg_keeps]:
  assumes "appendToolAudit env n r m db = Inr db'"
  shows "core db' = core db \<and> stream db' = stream db"
  using assms
  by (auto simp: appendToolAudit_def Let_def split: option.splits sum.splits elim!: appendEvent_Inr)

lemma appendSuccessToolAudit_keeps [pg_keeps]:
  assumes "appendSuccessToolAudit env n m scope t replay db = Inr db'"
  shows "core db' = core db \<and> stream db' = stream db"
  using assms appendToolAudit_keeps by (fastforce simp: appendSuccessToolAudit_def split: if_splits)

lemma saveReplay_keeps [pg_keeps]:
  assumes "saveReplay e operation failure scope key h status response db = Inr db'"
  shows "core db' = core db \<and> stream db' = stream db"
  using assms by (auto simp: saveReplay_def db_exec_Inr split: option.splits)

text \<open>The event that records a change of a run.\<close>

definition logs :: "string \<Rightarrow> Run \<Rightarrow> EventRow \<Rightarrow> bool" where
  "logs et run ev \<longleftrightarrow> ev_aggregate_id ev = run_id run \<and> ev_aggregate_version ev = run_version run
     \<and> ev_event_type ev = et \<and> ev_occurred_at ev = run_updated_at run \<and> marshal_Run run = Some (ev_payload ev)"

lemma appendRunEvent_logs:
  assumes "appendRunEvent env n et run m db = Inr db'"
  obtains ev where "core db' = core db" "logs et run ev"
    "stream db' = (stream db)(run_id run := stream db (run_id run) @ [ev])"
  using assms
  by (auto simp: appendRunEvent_def logs_def split: option.splits elim!: appendEvent_Inr)

text \<open>The rows that the statements on runs, sprints and decisions write.\<close>

lemma insert_run_Inr:
  "insert_run e operation i row db = Inr db' \<longleftrightarrow> db_error e operation = None
     \<and> list_all pg_text_ok [i, rr_objective row, rr_state row] \<and> check_run i row = None
     \<and> map_of (pg_runs db) i = None \<and> db' = db\<lparr>pg_runs := AList.update i row (pg_runs db)\<rparr>"
  by (auto simp: insert_run_def db_exec_Inr)

lemma update_run_Inr:
  assumes "update_run e operation stale run v db = Inr db'"
  obtains row where "map_of (pg_runs db) (run_id run) = Some row" "rr_version row = v"
    "check_run (run_id run) (row\<lparr>rr_state := run_state run, rr_version := run_version run, rr_updated_at := run_updated_at run\<rparr>) = None"
    "db' = db\<lparr>pg_runs := AList.update (run_id run)
       (row\<lparr>rr_state := run_state run, rr_version := run_version run, rr_updated_at := run_updated_at run\<rparr>) (pg_runs db)\<rparr>"
  using assms by (auto simp: update_run_def db_exec_Inr Let_def split: option.splits if_splits)

lemma insert_sprint_Inr:
  "insert_sprint e operation uuid row db = Inr db' \<longleftrightarrow> db_error e operation = None
     \<and> list_all pg_text_ok [sr_title row, sr_objective row, sr_run_id row] \<and> check_sprint row = None
     \<and> map_of (pg_sprints db) uuid = None
     \<and> \<not> table_ex (\<lambda>_ r. sr_sequence_number r = sr_sequence_number row \<or> sr_run_id r = sr_run_id row) (pg_sprints db)
     \<and> db' = db\<lparr>pg_sprints := AList.update uuid row (pg_sprints db)\<rparr>"
  by (auto simp: insert_sprint_def db_exec_Inr split: if_splits)

lemma update_sprint_Inr:
  assumes "update_sprint e operation stale uuid status version t v db = Inr db'"
  obtains row where "map_of (pg_sprints db) uuid = Some row" "sr_version row = v"
    "db' = db\<lparr>pg_sprints := AList.update uuid
       (row\<lparr>sr_status := status, sr_version := version, sr_updated_at := t\<rparr>) (pg_sprints db)\<rparr>"
  using assms by (auto simp: update_sprint_def db_call_Inr Let_def split: option.splits if_splits)

lemma insert_decision_Inr:
  "insert_decision e operation i row db = Inr db' \<Longrightarrow> map_of (pg_decisions db) i = None \<and> check_decision i row = None
     \<and> \<not> table_ex (\<lambda>_ r. dr_sprint_id r = dr_sprint_id row \<and> dr_action r = dr_action row \<and> dr_status r = ''pending''
            \<and> dr_status row = ''pending'') (pg_decisions db)
     \<and> db' = db\<lparr>pg_decisions := AList.update i row (pg_decisions db)\<rparr>"
  by (auto simp: insert_decision_def db_exec_Inr split: if_splits)

lemma update_decision_Inr:
  assumes "update_decision e operation stale d v db = Inr db'"
  obtains row where "map_of (pg_decisions db) (decision_id d) = Some row" "dr_version row = v"
    "check_decision (decision_id d) (row\<lparr>dr_status := decision_status d, dr_version := decision_version d,
       dr_decided_by := decision_decided_by d, dr_reason := decision_reason d, dr_decided_at := decision_decided_at d,
       dr_updated_at := decision_updated_at d\<rparr>) = None"
    "db' = db\<lparr>pg_decisions := AList.update (decision_id d) (row\<lparr>dr_status := decision_status d,
       dr_version := decision_version d, dr_decided_by := decision_decided_by d, dr_reason := decision_reason d,
       dr_decided_at := decision_decided_at d, dr_updated_at := decision_updated_at d\<rparr>) (pg_decisions db)\<rparr>"
  using assms by (auto simp: update_decision_def db_exec_Inr Let_def split: option.splits if_splits)

lemma run_tx_state:
  assumes "run_tx env work db = (res, db')"
  shows "db' = db \<or> (\<exists>c r. work = Inr ((Some c, r), db'))"
  using assms by (auto simp: run_tx_def db_commit_def split: sum.splits option.splits if_splits)

lemma pg_command_Inr:
  "pg_command e operation lookup replayed work = Inr y \<longleftrightarrow> db_error e (operation @ ''.begin'') = None
     \<and> db_error e ''postgres.lockIdempotency.lockMigrationBarrier'' = None \<and> db_error e ''postgres.lockIdempotency'' = None
     \<and> (lookup = Inr None \<and> work = Inr y \<or> (\<exists>r. lookup = Inr (Some r) \<and> replayed r = Inr y))"
  by (auto simp: pg_command_def db_call_Inr lockIdempotency_def split: option.splits)

section \<open>What the commands write\<close>

definition stamped :: "Run \<Rightarrow> Run" where
  "stamped run = run\<lparr>run_updated_at := postgresTimestamp (run_updated_at run)\<rparr>"

definition moved_row :: "RunRow \<Rightarrow> Run \<Rightarrow> RunRow" where
  "moved_row row run = row\<lparr>rr_state := run_state run, rr_version := run_version run, rr_updated_at := run_updated_at run\<rparr>"

text \<open>One event is appended to the stream of a run.\<close>

definition logged :: "string \<Rightarrow> Run \<Rightarrow> 'h PgDB \<Rightarrow> 'h PgDB \<Rightarrow> bool" where
  "logged et run db db' \<longleftrightarrow> (\<exists>ev. logs et run ev \<and> stream db' = (stream db)(run_id run := stream db (run_id run) @ [ev]))"

lemma appendRunEvent_logged:
  assumes "appendRunEvent env n et run m db = Inr db'"
  shows "core db' = core db \<and> logged et run db db'"
  using assms by (auto simp: logged_def elim!: appendRunEvent_logs)

lemma logged_cong: "stream a = stream a' \<Longrightarrow> stream b = stream b' \<Longrightarrow> logged et run a b = logged et run a' b'"
  by (simp add: logged_def)

lemmas pg_frames = appendControlEvent_keeps appendSuccessToolAudit_keeps saveReplay_keeps appendRunEvent_logged

lemma scanRun_run_id [simp]: "run_id (scanRun i row) = i"
  by (simp add: scanRun_def)

lemma core_eqs: "core db = (R, S, D) \<longleftrightarrow> pg_runs db = R \<and> pg_sprints db = S \<and> pg_decisions db = D"
  by (simp add: core_def)

lemma createRun_effect:
  assumes "pg_createRunTx env scope h i obj m db = Inr ((c, r), db')"
  shows "r = draftRun (postgresTimestamp (pg_now env 0)) i obj
    \<and> core db' = (AList.update i (run_row r None) (pg_runs db), pg_sprints db, pg_decisions db)
    \<and> map_of (pg_runs db) i = None \<and> check_run i (run_row r None) = None \<and> pg_text_ok obj
    \<and> logged ''run.created'' r db db'"
proof -
  let ?run = "draftRun (postgresTimestamp (pg_now env 0)) i obj"
  obtain a b where a: "insert_run (db_of env) ''postgres.CreateRun.insert'' i (run_row ?run None) db = Inr a"
    and b: "appendRunEvent env 0 ''run.created'' ?run m a = Inr b"
    and c: "saveRunReplay (db_of env) scope (IdempotencyKey m) h 201 ?run b = Inr db'" and r: "r = ?run"
    using assms by (auto simp: pg_createRunTx_def Let_def)
  have a': "map_of (pg_runs db) i = None" "check_run i (run_row ?run None) = None" "pg_text_ok obj"
      "a = db\<lparr>pg_runs := AList.update i (run_row ?run None) (pg_runs db)\<rparr>"
    using a unfolding insert_run_Inr by (simp_all add: run_row_def draftRun_def)
  have "core b = core a" "logged ''run.created'' ?run a b" using appendRunEvent_logged [OF b] by auto
  moreover have "core db' = core b" "stream db' = stream b" using saveReplay_keeps [OF c [unfolded saveRunReplay_def]] by auto
  ultimately show ?thesis
    using a' r logged_cong [of a db b db' "''run.created''" r] by simp
qed

lemma cancelSprint_Inr:
  assumes "cancelSprint env cancelling t m db = Inr db'"
  shows "stream db' = stream db \<and> (core db' = core db \<and> (\<forall>uuid sp. cancelling = Some (uuid, sp) \<longrightarrow>
        sprint_status sp \<notin> {SprintStatusString SprintProposed, SprintStatusString SprintApproved})
     \<or> (\<exists>uuid sp row. cancelling = Some (uuid, sp) \<and> sprint_status sp \<in> {SprintStatusString SprintProposed, SprintStatusString SprintApproved}
        \<and> map_of (pg_sprints db) uuid = Some row \<and> core db' = (pg_runs db, AList.update uuid
            (row\<lparr>sr_status := SprintStatusString SprintCancelling, sr_version := sprint_version sp + 1, sr_updated_at := t\<rparr>) (pg_sprints db),
            pg_decisions db)))"
proof (cases cancelling)
  case (Some p)
  obtain uuid sp where p: "p = (uuid, sp)" by (cases p)
  show ?thesis
  proof (cases "sprint_status sp \<in> {SprintStatusString SprintProposed, SprintStatusString SprintApproved}")
    case True
    then obtain a where a: "update_sprint (db_of env) ''postgres.TransitionRun.updateSprint''
        (New CodeConflict ''postgres.TransitionRun.updateSprint'' (Msg ''sprint version changed concurrently'' []))
        uuid (SprintStatusString SprintCancelling) (sprint_version sp + 1) t (sprint_version sp) db = Inr a"
      and b: "core db' = core a" "stream db' = stream a"
      using assms Some p by (auto simp: cancelSprint_def Let_def dest!: appendControlEvent_keeps)
    from a obtain row where "map_of (pg_sprints db) uuid = Some row"
      "a = db\<lparr>pg_sprints := AList.update uuid (row\<lparr>sr_status := SprintStatusString SprintCancelling, sr_version := sprint_version sp + 1,
         sr_updated_at := t\<rparr>) (pg_sprints db)\<rparr>"
      by (rule update_sprint_Inr)
    with b True Some p show ?thesis by auto
  next
    case False
    then show ?thesis using assms Some p by (auto simp: cancelSprint_def)
  qed
qed (use assms in \<open>simp add: cancelSprint_def\<close>)

lemma transitionRun_effect:
  assumes "pg_transitionRunTx env scope h i v target m db = Inr ((c, r), db')"
  shows "\<exists>row moved cancelling a. map_of (pg_runs db) i = Some row \<and> rr_version row = v
    \<and> \<not> isPrivilegedResumeTransition (rr_state row) target
    \<and> cancellingSprint target (sprint_of_run db i) = Inr cancelling
    \<and> Machine_Transition (pg_now env 0) (scanRun i row) target = Inr moved \<and> r = stamped moved
    \<and> check_run i (moved_row row r) = None
    \<and> cancelSprint env cancelling (run_updated_at r) m
         (db\<lparr>pg_runs := AList.update i (moved_row row r) (pg_runs db)\<rparr>) = Inr a
    \<and> core db' = core a \<and> logged ''run.transitioned'' r db db'"
proof -
  obtain row moved cancelling a1 a2 a3 a4 where
    row: "map_of (pg_runs db) i = Some row" "rr_version row = v" "\<not> isPrivilegedResumeTransition (rr_state row) target"
      "cancellingSprint target (sprint_of_run db i) = Inr cancelling"
    and mv: "Machine_Transition (pg_now env 0) (scanRun i row) target = Inr moved"
    and 1: "update_run (db_of env) ''postgres.TransitionRun.update''
       (New CodeConflict ''postgres.TransitionRun'' (Msg ''run version changed concurrently'' [])) (stamped moved) v db = Inr a1"
    and 2: "cancelSprint env cancelling (run_updated_at (stamped moved)) m a1 = Inr a2"
    and 3: "appendRunEvent env 1 ''run.transitioned'' (stamped moved) m a2 = Inr a3"
    and 4: "appendSuccessToolAudit env 2 m scope (run_updated_at (stamped moved)) False a3 = Inr a4"
    and 5: "saveRunReplay (db_of env) scope (IdempotencyKey m) h 200 (stamped moved) a4 = Inr db'"
    and r: "r = stamped moved"
    using assms
    by (auto simp: pg_transitionRunTx_def Let_def requireRunPublicationTransition_def stamped_def [symmetric] scanRun_def
        split: option.splits)
  have i: "run_id (stamped moved) = i" using mv by (auto simp: stamped_def dest: Machine_Transition_run_id)
  from 1 obtain row' where row': "map_of (pg_runs db) i = Some row'"
    "check_run i (moved_row row' (stamped moved)) = None"
    "a1 = db\<lparr>pg_runs := AList.update i (moved_row row' (stamped moved)) (pg_runs db)\<rparr>"
    unfolding moved_row_def by (rule update_run_Inr) (simp add: i)
  have "stream a2 = stream db" using cancelSprint_Inr [OF 2] row'(3) by simp
  moreover have "core a3 = core a2" "logged ''run.transitioned'' (stamped moved) a2 a3"
    using appendRunEvent_logged [OF 3] by auto
  moreover have "core a4 = core a3" "stream a4 = stream a3" using appendSuccessToolAudit_keeps [OF 4] by auto
  moreover have "core db' = core a4" "stream db' = stream a4"
    using saveReplay_keeps [OF 5 [unfolded saveRunReplay_def]] by auto
  ultimately have "core db' = core a2" "logged ''run.transitioned'' r db db'"
    using logged_cong [of a2 db a3 db' "''run.transitioned''" r] r by simp_all
  then show ?thesis using row mv r row' 2 by auto
qed

lemma resumeRun_effect:
  assumes "pg_resumeRunTx env scope h i v m db = Inr ((c, r), db')"
  shows "\<exists>row moved. map_of (pg_runs db) i = Some row \<and> rr_version row = v
    \<and> rr_state row \<in> {StateString StateFailedRetryable, StateString StateAwaitingDecision}
    \<and> \<not> table_ex (\<lambda>_ d. dr_run_id d = i \<and> dr_status d = ''pending'') (pg_decisions db)
    \<and> Machine_Transition (pg_now env 0) (scanRun i row) StateQueued = Inr moved \<and> r = stamped moved
    \<and> check_run i (moved_row row r) = None
    \<and> core db' = (AList.update i (moved_row row r) (pg_runs db), pg_sprints db, pg_decisions db)
    \<and> logged ''run.transitioned'' r db db'"
proof -
  obtain row moved a1 a3 a4 where
    row: "map_of (pg_runs db) i = Some row" "rr_version row = v"
      "rr_state row \<in> {StateString StateFailedRetryable, StateString StateAwaitingDecision}"
      "\<not> table_ex (\<lambda>_ d. dr_run_id d = i \<and> dr_status d = ''pending'') (pg_decisions db)"
    and mv: "Machine_Transition (pg_now env 0) (scanRun i row) StateQueued = Inr moved"
    and 1: "update_run (db_of env) ''postgres.ResumeRun.update''
       (New CodeConflict ''postgres.ResumeRun'' (Msg ''run version changed concurrently'' [])) (stamped moved) v db = Inr a1"
    and 3: "appendRunEvent env 0 ''run.transitioned'' (stamped moved) m a1 = Inr a3"
    and 4: "appendSuccessToolAudit env 1 m scope (run_updated_at (stamped moved)) False a3 = Inr a4"
    and 5: "saveRunReplay (db_of env) scope (IdempotencyKey m) h 200 (stamped moved) a4 = Inr db'"
    and r: "r = stamped moved"
    using assms
    by (auto simp: pg_resumeRunTx_def Let_def requireRunPublicationTransition_def stamped_def [symmetric] scanRun_def
        pg_resumeTarget_def split: option.splits if_splits)
  have i: "run_id (stamped moved) = i" using mv by (auto simp: stamped_def dest: Machine_Transition_run_id)
  from 1 obtain row' where row': "map_of (pg_runs db) i = Some row'"
    "check_run i (moved_row row' (stamped moved)) = None"
    "a1 = db\<lparr>pg_runs := AList.update i (moved_row row' (stamped moved)) (pg_runs db)\<rparr>"
    unfolding moved_row_def by (rule update_run_Inr) (simp add: i)
  have "core a3 = core a1" "logged ''run.transitioned'' (stamped moved) a1 a3" "stream a1 = stream db"
    using appendRunEvent_logged [OF 3] row'(3) by auto
  moreover have "core a4 = core a3" "stream a4 = stream a3" using appendSuccessToolAudit_keeps [OF 4] by auto
  moreover have "core db' = core a4" "stream db' = stream a4"
    using saveReplay_keeps [OF 5 [unfolded saveRunReplay_def]] by auto
  ultimately have "core db' = core a1" "logged ''run.transitioned'' r db db'"
    using logged_cong [of a1 db a3 db' "''run.transitioned''" r] r by simp_all
  then show ?thesis using row mv r row' by auto
qed

text \<open>The rows of a planned sprint.\<close>

definition planned_row :: "PgEnv \<Rightarrow> PlanCommand \<Rightarrow> 'h PgDB \<Rightarrow> SprintRow" where
  "planned_row env command db = (let now = postgresTimestamp (pg_now env 0) in
     \<lparr>sr_sequence_number = next_sequence db, sr_title = pc_Title command, sr_objective = pc_Objective command,
      sr_status = SprintStatusString SprintProposed, sr_version = 1, sr_run_id = pc_RunID command,
      sr_created_at = now, sr_updated_at = now\<rparr>)"

lemma planSprint_effect:
  assumes "pg_planSprintTx env scope h command m db = Inr ((c, r), db')"
  shows "\<exists>run uuid. run = draftRun (postgresTimestamp (pg_now env 0)) (pc_RunID command) (pc_Objective command)
    \<and> uuid = SprintID_UUID (pc_SprintID command) \<and> MatchString sprintIDPattern (''sprint_'' @ uuid)
    \<and> map_of (pg_sprints db) uuid = None \<and> map_of (pg_runs db) (pc_RunID command) = None
    \<and> \<not> table_ex (\<lambda>_ r. sr_sequence_number r = next_sequence db \<or> sr_run_id r = pc_RunID command) (pg_sprints db)
    \<and> check_run (pc_RunID command) (run_row run (Some uuid)) = None \<and> pg_text_ok (pc_Objective command)
    \<and> core db' = (AList.update (pc_RunID command) (run_row run (Some uuid)) (pg_runs db),
        AList.update uuid (planned_row env command db) (pg_sprints db), pg_decisions db)
    \<and> logged ''run.created'' run db db'"
proof -
  let ?run = "draftRun (postgresTimestamp (pg_now env 0)) (pc_RunID command) (pc_Objective command)"
  let ?uuid = "SprintID_UUID (pc_SprintID command)"
  obtain i v p resp a1 a2 a3 a4 a5 where uuid: "MatchString sprintIDPattern (''sprint_'' @ ?uuid)"
    and 1: "insert_sprint (db_of env) ''postgres.PlanSprint.insertSprint'' ?uuid (planned_row env command db) db = Inr a1"
    and 2: "insert_run (db_of env) ''postgres.PlanSprint.insertRun'' (pc_RunID command) (run_row ?run (Some ?uuid)) a1 = Inr a2"
    and 3: "appendControlEvent env 0 ''sprint'' i v ''sprint.planned''
       (postgresTimestamp (pg_now env 0)) p m a2 = Inr a3"
    and 4: "appendRunEvent env 1 ''run.created'' ?run m a3 = Inr a4"
    and 5: "appendSuccessToolAudit env 2 m scope (postgresTimestamp (pg_now env 0)) False a4 = Inr a5"
    and 6: "saveControlReplay (db_of env) scope (IdempotencyKey m) h 201 resp a5 = Inr db'"
    using assms
    by (auto simp: pg_planSprintTx_def Let_def uuid_cast_def planned_row_def draftRun_def simp del: One_nat_def split: if_splits)
  from 1 have 1: "map_of (pg_sprints db) ?uuid = None"
      "\<not> table_ex (\<lambda>_ r. sr_sequence_number r = next_sequence db \<or> sr_run_id r = pc_RunID command) (pg_sprints db)"
      "a1 = db\<lparr>pg_sprints := AList.update ?uuid (planned_row env command db) (pg_sprints db)\<rparr>"
    unfolding insert_sprint_Inr by (simp_all add: planned_row_def Let_def)
  from 2 have 2: "map_of (pg_runs db) (pc_RunID command) = None" "check_run (pc_RunID command) (run_row ?run (Some ?uuid)) = None"
      "pg_text_ok (pc_Objective command)" "a2 = a1\<lparr>pg_runs := AList.update (pc_RunID command) (run_row ?run (Some ?uuid)) (pg_runs db)\<rparr>"
    unfolding insert_run_Inr using 1(3) by (simp_all add: run_row_def draftRun_def)
  have "core a3 = core a2" "stream a3 = stream db" using appendControlEvent_keeps [OF 3] 1(3) 2(4) by auto
  moreover have "core a4 = core a3" "logged ''run.created'' ?run a3 a4" using appendRunEvent_logged [OF 4] by auto
  moreover have "core a5 = core a4" "stream a5 = stream a4" using appendSuccessToolAudit_keeps [OF 5] by auto
  moreover have "core db' = core a5" "stream db' = stream a5"
    using saveReplay_keeps [OF 6 [unfolded saveControlReplay_def]] by auto
  moreover have "core a2 = (AList.update (pc_RunID command) (run_row ?run (Some ?uuid)) (pg_runs db),
        AList.update ?uuid (planned_row env command db) (pg_sprints db), pg_decisions db)"
    using 1(3) 2(4) by simp
  ultimately have "core db' = core a2" "logged ''run.created'' ?run db db'"
    using logged_cong [of a3 db a4 db' "''run.created''" ?run] by simp_all
  then show ?thesis using uuid 1 2 \<open>core a2 = _\<close> by auto
qed

lemma submitSprint_effect:
  assumes "pg_submitSprintTx env scope h command m db = Inr ((c, r), db')"
  shows "\<exists>uuid srow row moved run' sprint d. uuid = SprintID_UUID (sc_SprintID command) \<and> MatchString sprintIDPattern (''sprint_'' @ uuid)
    \<and> map_of (pg_sprints db) uuid = Some srow \<and> sr_status srow = SprintStatusString SprintProposed
    \<and> map_of (pg_runs db) (sr_run_id srow) = Some row
    \<and> Machine_Transition (pg_now env 0) (scanRun (sr_run_id srow) row) StateAwaitingApproval = Inr moved \<and> run' = stamped moved
    \<and> sprint = (scanSprint uuid srow None)\<lparr>sprint_status := SprintStatusString SprintAwaitingApproval,
         sprint_version := sr_version srow + 1, sprint_updated_at := run_updated_at run',
         sprint_pending_decision_id := Some (sc_DecisionID command)\<rparr>
    \<and> d = requested_decision command m sprint (run_updated_at run')
    \<and> map_of (pg_decisions db) (sc_DecisionID command) = None
    \<and> \<not> table_ex (\<lambda>_ r. dr_sprint_id r = uuid \<and> dr_action r = ''submit_sprint'' \<and> dr_status r = ''pending'') (pg_decisions db)
    \<and> check_decision (sc_DecisionID command) (decision_row uuid d) = None
    \<and> check_run (sr_run_id srow) (moved_row row run') = None
    \<and> core db' = (AList.update (sr_run_id srow) (moved_row row run') (pg_runs db),
        AList.update uuid (srow\<lparr>sr_status := SprintStatusString SprintAwaitingApproval, sr_version := sr_version srow + 1,
          sr_updated_at := run_updated_at run'\<rparr>) (pg_sprints db),
        AList.update (sc_DecisionID command) (decision_row uuid d) (pg_decisions db))
    \<and> logged ''run.transitioned'' run' db db'"
proof -
  let ?uuid = "SprintID_UUID (sc_SprintID command)"
  obtain srow row moved where srow: "MatchString sprintIDPattern (''sprint_'' @ ?uuid)" "map_of (pg_sprints db) ?uuid = Some srow"
      "sr_status srow = SprintStatusString SprintProposed" "sr_version srow = sc_ExpectedVersion command"
    and row: "map_of (pg_runs db) (sr_run_id srow) = Some row"
      "Machine_Transition (pg_now env 0) (scanRun (sr_run_id srow) row) StateAwaitingApproval = Inr moved"
    and w: "write_submission env scope h command m ((scanSprint ?uuid srow None)\<lparr>sprint_status := SprintStatusString SprintAwaitingApproval,
         sprint_version := sr_version srow + 1, sprint_updated_at := run_updated_at (stamped moved),
         sprint_pending_decision_id := Some (sc_DecisionID command)\<rparr>)
       (requested_decision command m ((scanSprint ?uuid srow None)\<lparr>sprint_status := SprintStatusString SprintAwaitingApproval,
         sprint_version := sr_version srow + 1, sprint_updated_at := run_updated_at (stamped moved),
         sprint_pending_decision_id := Some (sc_DecisionID command)\<rparr>) (run_updated_at (stamped moved)))
       (stamped moved) (rr_version row) db = Inr ((c, r), db')"
    using assms
    by (auto simp: pg_submitSprintTx_def Let_def uuid_cast_def select_run_def stamped_def [symmetric] scanSprint_def scanRun_def
        split: option.splits if_splits)
  define sprint where "sprint = (scanSprint ?uuid srow None)\<lparr>sprint_status := SprintStatusString SprintAwaitingApproval,
         sprint_version := sr_version srow + 1, sprint_updated_at := run_updated_at (stamped moved),
         sprint_pending_decision_id := Some (sc_DecisionID command)\<rparr>"
  define d where "d = requested_decision command m sprint (run_updated_at (stamped moved))"
  have d: "decision_id d = sc_DecisionID command" "dr_sprint_id (decision_row ?uuid d) = ?uuid"
      "dr_action (decision_row ?uuid d) = ''submit_sprint''" "dr_status (decision_row ?uuid d) = ''pending''"
    by (simp_all add: d_def requested_decision_def decision_row_def DecisionActionSubmitSprint_def DecisionStatusString.simps)
  have sp: "sprint_status sprint = SprintStatusString SprintAwaitingApproval" "sprint_version sprint = sr_version srow + 1"
      "sprint_updated_at sprint = run_updated_at (stamped moved)" by (simp_all add: sprint_def)
  from w [folded sprint_def, folded d_def] obtain a1 a2 a3 a4 a5 a6 a7 resp where
        1: "update_sprint (db_of env) ''postgres.SubmitSprint.updateSprint''
       (New CodeConflict ''postgres.SubmitSprint.updateSprint'' (Msg ''sprint version changed concurrently'' []))
       ?uuid (sprint_status sprint) (sprint_version sprint) (sprint_updated_at sprint) (sc_ExpectedVersion command) db = Inr a1"
    and 2: "update_run (db_of env) ''postgres.SubmitSprint.updateRun''
       (New CodeConflict ''postgres.SubmitSprint.updateRun'' (Msg ''run version changed concurrently'' []))
       (stamped moved) (rr_version row) a1 = Inr a2"
    and 3: "insert_decision (db_of env) ''postgres.SubmitSprint.insertDecision'' (decision_id d) (decision_row ?uuid d) a2 = Inr a3"
    and 4: "appendControlEvent env 0 ''sprint'' (sprint_id sprint) (sprint_version sprint) ''sprint.submitted''
       (sprint_updated_at sprint) (marshal_Sprint sprint) m a3 = Inr a4"
    and 5: "appendRunEvent env 1 ''run.transitioned'' (stamped moved) m a4 = Inr a5"
    and 6: "appendControlEvent env 2 ''decision'' (decision_id d) (decision_version d) ''decision.requested''
       (decision_updated_at d) (marshal_Decision d) m a5 = Inr a6"
    and 7: "appendSuccessToolAudit env 3 m scope (sprint_updated_at sprint) False a6 = Inr a7"
    and 8: "saveControlReplay (db_of env) scope (IdempotencyKey m) h 200 resp a7 = Inr db'"
    by (auto simp: write_submission_def Let_def simp del: One_nat_def)
  have i: "run_id (stamped moved) = sr_run_id srow"
    using row(2) by (auto simp: stamped_def dest: Machine_Transition_run_id)
  from 1 have a1: "a1 = db\<lparr>pg_sprints := AList.update ?uuid (srow\<lparr>sr_status := SprintStatusString SprintAwaitingApproval,
      sr_version := sr_version srow + 1, sr_updated_at := run_updated_at (stamped moved)\<rparr>) (pg_sprints db)\<rparr>"
    by (rule update_sprint_Inr) (use srow sp in simp)
  from 2 have a2: "check_run (sr_run_id srow) (moved_row row (stamped moved)) = None"
    "a2 = a1\<lparr>pg_runs := AList.update (sr_run_id srow) (moved_row row (stamped moved)) (pg_runs db)\<rparr>"
    unfolding moved_row_def by (atomize (full), rule update_run_Inr) (use row a1 i in simp)
  from insert_decision_Inr [OF 3] have a3: "map_of (pg_decisions db) (sc_DecisionID command) = None"
    "check_decision (sc_DecisionID command) (decision_row ?uuid d) = None"
    "\<not> table_ex (\<lambda>_ r. dr_sprint_id r = ?uuid \<and> dr_action r = ''submit_sprint'' \<and> dr_status r = ''pending'') (pg_decisions db)"
    "a3 = a2\<lparr>pg_decisions := AList.update (sc_DecisionID command) (decision_row ?uuid d) (pg_decisions db)\<rparr>"
    by (simp_all add: d a2 a1)
  have "core a4 = core a3" "stream a4 = stream db" using appendControlEvent_keeps [OF 4] a3(4) a2(2) a1 by auto
  moreover have "core a5 = core a4" "logged ''run.transitioned'' (stamped moved) a4 a5" using appendRunEvent_logged [OF 5] by auto
  moreover have "core a6 = core a5" "stream a6 = stream a5" using appendControlEvent_keeps [OF 6] by auto
  moreover have "core a7 = core a6" "stream a7 = stream a6" using appendSuccessToolAudit_keeps [OF 7] by auto
  moreover have "core db' = core a7" "stream db' = stream a7"
    using saveReplay_keeps [OF 8 [unfolded saveControlReplay_def]] by auto
  ultimately have "core db' = core a3" "logged ''run.transitioned'' (stamped moved) db db'"
    using logged_cong [of a4 db a5 db' "''run.transitioned''" "stamped moved"] by simp_all
  then show ?thesis
    using srow row a1 a2 a3 by (intro exI [of _ ?uuid] exI [of _ srow] exI [of _ row] exI [of _ moved] exI [of _ "stamped moved"]
      exI [of _ sprint] exI [of _ d]) (simp add: sprint_def d_def)
qed

lemma resolveDecision_effect:
  assumes "pg_resolveDecisionTx env scope h command m db = Inr ((c, r), db')"
  shows "\<exists>drow srow row moved run' now. map_of (pg_decisions db) (dc_DecisionID command) = Some drow
    \<and> dr_status drow = DecisionStatusString DecisionPending
    \<and> map_of (pg_sprints db) (dr_sprint_id drow) = Some srow \<and> map_of (pg_runs db) (dr_run_id drow) = Some row
    \<and> Machine_Transition (pg_now env 0) (scanRun (dr_run_id drow) row)
         (if dc_Approve command then StateQueued else StateCancelling) = Inr moved
    \<and> run' = stamped moved \<and> now = run_updated_at run' \<and> check_run (dr_run_id drow) (moved_row row run') = None
    \<and> core db' = (AList.update (dr_run_id drow) (moved_row row run') (pg_runs db),
        AList.update (dr_sprint_id drow) (srow\<lparr>sr_status := SprintStatusString (if dc_Approve command then SprintApproved else SprintRejected),
          sr_version := sr_version srow + 1, sr_updated_at := now\<rparr>) (pg_sprints db),
        AList.update (dc_DecisionID command) (drow\<lparr>dr_status := DecisionStatusString (if dc_Approve command then DecisionApproved else DecisionRejected),
          dr_version := dr_version drow + 1, dr_decided_by := Some (ActorID m), dr_reason := Some (dc_Reason command),
          dr_decided_at := Some now, dr_updated_at := now\<rparr>) (pg_decisions db))
    \<and> logged ''run.transitioned'' run' db db'"
proof -
  have uuid: "SprintID_UUID (''sprint_'' @ u) = u" for u by (simp add: SprintID_UUID_def TrimPrefix_def)
  let ?k = "dc_DecisionID command" and ?ap = "dc_Approve command"
  obtain drow srow row moved where drow: "map_of (pg_decisions db) ?k = Some drow" "dr_version drow = dc_ExpectedVersion command"
      "dr_status drow = DecisionStatusString DecisionPending"
    and srow: "map_of (pg_sprints db) (dr_sprint_id drow) = Some srow"
    and row: "map_of (pg_runs db) (dr_run_id drow) = Some row"
      "Machine_Transition (pg_now env 0) (scanRun (dr_run_id drow) row) (if ?ap then StateQueued else StateCancelling) = Inr moved"
    and w: "write_resolution env scope h command m (dr_sprint_id drow)
        ((scanSprint (dr_sprint_id drow) srow (Some ?k))\<lparr>sprint_status := SprintStatusString (if ?ap then SprintApproved else SprintRejected),
           sprint_version := sr_version srow + 1, sprint_pending_decision_id := None, sprint_updated_at := run_updated_at (stamped moved)\<rparr>)
        ((scanDecision ?k drow)\<lparr>decision_status := DecisionStatusString (if ?ap then DecisionApproved else DecisionRejected),
           decision_version := dr_version drow + 1, decision_decided_by := Some (ActorID m),
           decision_reason := Some (dc_Reason command), decision_decided_at := Some (run_updated_at (stamped moved)),
           decision_updated_at := run_updated_at (stamped moved)\<rparr>)
        (stamped moved) (rr_version row) db = Inr ((c, r), db')"
    using assms uuid
    by (auto simp: pg_resolveDecisionTx_def Let_def uuid_cast_def select_run_def stamped_def [symmetric] scanSprint_def scanRun_def
        scanDecision_def ParseSprintID_def simp del: append.simps split: option.splits if_splits sum.splits)
  define sprint where "sprint = (scanSprint (dr_sprint_id drow) srow (Some ?k))\<lparr>sprint_status := SprintStatusString (if ?ap then SprintApproved else SprintRejected),
           sprint_version := sr_version srow + 1, sprint_pending_decision_id := None, sprint_updated_at := run_updated_at (stamped moved)\<rparr>"
  define d where "d = (scanDecision ?k drow)\<lparr>decision_status := DecisionStatusString (if ?ap then DecisionApproved else DecisionRejected),
           decision_version := dr_version drow + 1, decision_decided_by := Some (ActorID m),
           decision_reason := Some (dc_Reason command), decision_decided_at := Some (run_updated_at (stamped moved)),
           decision_updated_at := run_updated_at (stamped moved)\<rparr>"
  have d: "decision_id d = ?k" by (simp add: d_def scanDecision_def)
  have sp: "sprint_status sprint = SprintStatusString (if ?ap then SprintApproved else SprintRejected)"
    "sprint_version sprint = sr_version srow + 1" by (simp_all add: sprint_def)
  from w [folded sprint_def, folded d_def] obtain a1 a2 a3 a4 a5 a6 a7 et resp where
        1: "update_decision (db_of env) ''postgres.ResolveDecision.updateDecision''
       (New CodeConflict ''postgres.ResolveDecision.updateDecision'' (Msg ''decision version changed concurrently'' []))
       d (dc_ExpectedVersion command) db = Inr a1"
    and 2: "update_sprint (db_of env) ''postgres.ResolveDecision.updateSprint''
       (New CodeConflict ''postgres.ResolveDecision.updateSprint'' (Msg ''sprint version changed concurrently'' []))
       (dr_sprint_id drow) (sprint_status sprint) (sprint_version sprint) (run_updated_at (stamped moved)) (sprint_version sprint - 1) a1 = Inr a2"
    and 3: "update_run (db_of env) ''postgres.ResolveDecision.updateRun''
       (New CodeConflict ''postgres.ResolveDecision.updateRun'' (Msg ''run version changed concurrently'' []))
       (stamped moved) (rr_version row) a2 = Inr a3"
    and 4: "appendControlEvent env 0 ''decision'' (decision_id d) (decision_version d) et
       (run_updated_at (stamped moved)) (marshal_Decision d) m a3 = Inr a4"
    and 5: "appendControlEvent env 1 ''sprint'' (sprint_id sprint) (sprint_version sprint) ''sprint.decision_resolved''
       (run_updated_at (stamped moved)) (marshal_Sprint sprint) m a4 = Inr a5"
    and 6: "appendRunEvent env 2 ''run.transitioned'' (stamped moved) m a5 = Inr a6"
    and 7: "appendSuccessToolAudit env 3 m scope (run_updated_at (stamped moved)) False a6 = Inr a7"
    and 8: "saveControlReplay (db_of env) scope (IdempotencyKey m) h 200 resp a7 = Inr db'"
    by (auto simp: write_resolution_def Let_def simp del: One_nat_def)
  have i: "run_id (stamped moved) = dr_run_id drow"
    using row(2) by (auto simp: stamped_def dest: Machine_Transition_run_id)
  from 1 have a1: "a1 = db\<lparr>pg_decisions := AList.update ?k (drow\<lparr>dr_status := DecisionStatusString (if ?ap then DecisionApproved else DecisionRejected),
          dr_version := dr_version drow + 1, dr_decided_by := Some (ActorID m), dr_reason := Some (dc_Reason command),
          dr_decided_at := Some (run_updated_at (stamped moved)), dr_updated_at := run_updated_at (stamped moved)\<rparr>) (pg_decisions db)\<rparr>"
    by (rule update_decision_Inr) (use drow d in \<open>simp add: d_def\<close>)
  from 2 have a2: "a2 = a1\<lparr>pg_sprints := AList.update (dr_sprint_id drow)
      (srow\<lparr>sr_status := SprintStatusString (if ?ap then SprintApproved else SprintRejected),
          sr_version := sr_version srow + 1, sr_updated_at := run_updated_at (stamped moved)\<rparr>) (pg_sprints db)\<rparr>"
    by (rule update_sprint_Inr) (use srow sp a1 in simp)
  from 3 have a3: "check_run (dr_run_id drow) (moved_row row (stamped moved)) = None"
    "a3 = a2\<lparr>pg_runs := AList.update (dr_run_id drow) (moved_row row (stamped moved)) (pg_runs db)\<rparr>"
    unfolding moved_row_def by (atomize (full), rule update_run_Inr) (use row a1 a2 i in simp)
  have "core a4 = core a3" "stream a4 = stream db" using appendControlEvent_keeps [OF 4] a3 a2 a1 by auto
  moreover have "core a5 = core a4" "stream a5 = stream a4" using appendControlEvent_keeps [OF 5] by auto
  moreover have "core a6 = core a5" "logged ''run.transitioned'' (stamped moved) a5 a6" using appendRunEvent_logged [OF 6] by auto
  moreover have "core a7 = core a6" "stream a7 = stream a6" using appendSuccessToolAudit_keeps [OF 7] by auto
  moreover have "core db' = core a7" "stream db' = stream a7"
    using saveReplay_keeps [OF 8 [unfolded saveControlReplay_def]] by auto
  ultimately have "core db' = core a3" "logged ''run.transitioned'' (stamped moved) db db'"
    using logged_cong [of a5 db a6 db' "''run.transitioned''" "stamped moved"] by simp_all
  then show ?thesis
    using drow srow row a1 a2 a3 by (intro exI [of _ drow] exI [of _ srow] exI [of _ row] exI [of _ moved]
      exI [of _ "stamped moved"] exI [of _ "run_updated_at (stamped moved)"]) simp
qed

section \<open>Commands as steps\<close>

text \<open>
  A command that did its work, by the function of its transaction; every other outcome,
  a replay included, leaves the governed tables and the run events alone.
\<close>

definition untouched :: "'h PgDB \<Rightarrow> 'h PgDB \<Rightarrow> bool" where
  "untouched db db' \<longleftrightarrow> core db' = core db \<and> stream db' = stream db"

lemma untouched_refl [simp]: "untouched db db"
  by (simp add: untouched_def)

lemma audited_replay_untouched:
  assumes "audited_replay env operation m scope db r = Inr ((c, r'), db')"
  shows "untouched db db'"
  using assms appendSuccessToolAudit_keeps by (fastforce simp: audited_replay_def untouched_def)

lemma governed_command_state:
  assumes "run_tx env (pg_command e operation lookup (audited_replay env operation m scope db) work) db = (res, db')"
  shows "untouched db db' \<or> (\<exists>c r. work = Inr ((c, r), db'))"
  using run_tx_state [OF assms] audited_replay_untouched by (auto simp: pg_command_Inr)

lemma Pg_CreateRun_state:
  assumes "Pg_CreateRun sha env s i obj m db = (res, db')"
  shows "db' = db \<or> (\<exists>scope h c r. pg_createRunTx env scope h i obj m db = Inr ((c, r), db'))"
  using assms
  by (auto simp: Pg_CreateRun_def Let_def pg_command_Inr split: option.splits dest!: run_tx_state)

lemma Pg_TransitionRun_state:
  assumes "Pg_TransitionRun sha env s i v target m db = (res, db')"
  shows "untouched db db' \<or> (\<exists>scope h c r. pg_transitionRunTx env scope h i v target m db = Inr ((c, r), db'))"
  using assms
  by (auto simp: Pg_TransitionRun_def Let_def split: option.splits if_splits dest!: governed_command_state)

lemma Pg_ResumeRun_state:
  assumes "Pg_ResumeRun sha env s i v m db = (res, db')"
  shows "untouched db db' \<or> (\<exists>scope h c r. pg_resumeRunTx env scope h i v m db = Inr ((c, r), db'))"
  using assms
  by (auto simp: Pg_ResumeRun_def Let_def split: option.splits if_splits dest!: governed_command_state)

lemma Pg_PlanSprint_state:
  assumes "Pg_PlanSprint sha env s command m db = (res, db')"
  shows "untouched db db' \<or> (\<exists>scope h c r. pg_planSprintTx env scope h command m db = Inr ((c, r), db'))"
  using assms
  by (auto simp: Pg_PlanSprint_def Let_def split: option.splits dest!: governed_command_state)

lemma Pg_SubmitSprint_state:
  assumes "Pg_SubmitSprint sha env s command m db = (res, db')"
  shows "untouched db db' \<or> (\<exists>scope h c r. pg_submitSprintTx env scope h command m db = Inr ((c, r), db'))"
  using assms
  by (auto simp: Pg_SubmitSprint_def Let_def split: option.splits dest!: governed_command_state)

lemma Pg_ResolveDecision_state:
  assumes "Pg_ResolveDecision sha env s command m db = (res, db')"
  shows "untouched db db' \<or> (\<exists>scope h c r. pg_resolveDecisionTx env scope h command m db = Inr ((c, r), db'))"
  using assms
  by (auto simp: Pg_ResolveDecision_def Let_def split: option.splits dest!: governed_command_state)

lemma Pg_RecordToolAudit_state:
  assumes "Pg_RecordToolAudit env record db = (res, db')"
  shows "untouched db db'"
  using assms appendToolAudit_keeps
  by (fastforce simp: Pg_RecordToolAudit_def Let_def untouched_def split: option.splits dest!: run_tx_state)

end
