(* ===== verification/PgProjection.thy ===== *)
theory PgProjection
  imports PgStore
begin

text \<open>
  The projection of \<open>internal/postgres/projection.go\<close>: the immutable run events are
  replayed and validated, compared with the canonical runs, and written out as a read model.

  Rows come in the order of the collation. The rendered text of an error inside another
  message is left out, and the map of replayed runs is an association list, whose order
  stands for the iteration order of the Go map.
\<close>

type_synonym replayedRun = "string \<times> Run"

definition corruptRunStream :: "string \<Rightarrow> string \<Rightarrow> fmt_arg list \<Rightarrow> error" where
  "corruptRunStream runID detail args =
     New CodeConflict ''postgres.RebuildRunProjection''
       (Msg (''event stream for run %s is corrupt: '' @ detail) (FStr runID # args))"

definition canReplayRunTransition :: "State \<Rightarrow> State \<Rightarrow> bool" where
  "canReplayRunTransition from to =
    (if from = StateAwaitingDecision \<and> to = StateRunning then True else CanTransition from to)"

definition validateReplayedRunEvent :: "EventRow \<Rightarrow> Run \<Rightarrow> Run option \<Rightarrow> error option" where
  "validateReplayedRunEvent ev run previous =
    (let aggregateID = ev_aggregate_id ev; aggregateVersion = ev_aggregate_version ev in
     if run_id run \<noteq> aggregateID \<or> run_version run \<noteq> aggregateVersion then
       Some (corruptRunStream aggregateID ''event %s payload identity/version disagrees with its envelope''
         [FStr (ev_event_id ev)])
     else if run_updated_at run \<noteq> ev_occurred_at ev then
       Some (corruptRunStream aggregateID ''event %s occurrence time disagrees with payload'' [FStr (ev_event_id ev)])
     else (case previous of
       None \<Rightarrow>
         if aggregateVersion \<noteq> 1 \<or> ev_event_type ev \<noteq> ''run.created'' \<or> run_state run \<noteq> StateString StateDraft
            \<or> run_created_at run \<noteq> run_updated_at run then
           Some (corruptRunStream aggregateID ''first event is not a valid run creation'' [])
         else None
     | Some previous \<Rightarrow>
         if aggregateVersion \<noteq> run_version previous + 1 then
           Some (corruptRunStream aggregateID ''event stream is not contiguous: got version %d after %d''
             [FInt aggregateVersion, FInt (run_version previous)])
         else if ev_event_type ev \<noteq> ''run.transitioned'' \<or> run_objective run \<noteq> run_objective previous
            \<or> run_created_at run \<noteq> run_created_at previous \<or> run_updated_at run < run_updated_at previous then
           Some (corruptRunStream aggregateID ''event %s changes immutable fields or time ordering'' [FStr (ev_event_id ev)])
         else (case ParseState (run_state previous) of
           Inl _ \<Rightarrow> Some (corruptRunStream aggregateID ''previous event has an invalid state'' [])
         | Inr from \<Rightarrow>
             (case ParseState (run_state run) of
                Inl _ \<Rightarrow> Some (corruptRunStream aggregateID ''event %s contains an illegal state transition''
                          [FStr (ev_event_id ev)])
              | Inr to \<Rightarrow>
                  if \<not> canReplayRunTransition from to then
                    Some (corruptRunStream aggregateID ''event %s contains an illegal state transition''
                      [FStr (ev_event_id ev)])
                  else None))))"

fun replay_events :: "EventRow list \<Rightarrow> (string \<times> replayedRun) list \<Rightarrow> (string \<times> replayedRun) list result" where
  "replay_events [] latest = Inr latest"
| "replay_events (ev # evs) latest =
    (case decodeStoredRun (ev_payload ev) of
       Inl _ \<Rightarrow> Inl (corruptRunStream (ev_aggregate_id ev) ''event %s has invalid payload'' [FStr (ev_event_id ev)])
     | Inr run \<Rightarrow>
         (case validateReplayedRunEvent ev run (map_option snd (map_of latest (ev_aggregate_id ev))) of
            Some err \<Rightarrow> Inl err
          | None \<Rightarrow> replay_events evs (AList.update (ev_aggregate_id ev) (ev_event_id ev, run) latest)))"

definition run_events :: "'h PgDB \<Rightarrow> EventRow list" where
  "run_events db = filter (\<lambda>ev. ev_aggregate_type ev = ''run'') (pg_events db)"

text \<open>\<open>ORDER BY aggregate_id, aggregate_version\<close>.\<close>

definition replay_order :: "PgEnv \<Rightarrow> EventRow list \<Rightarrow> EventRow list" where
  "replay_order env evs = sort_key (\<lambda>ev. pg_collation env (ev_aggregate_id ev)) (sort_key ev_aggregate_version evs)"

definition replayRunEvents :: "PgEnv \<Rightarrow> 'h PgDB \<Rightarrow> (string \<times> replayedRun) list result" where
  "replayRunEvents env db =
     db_call (db_of env) ''postgres.replayRunEvents.query''
     (db_call (db_of env) ''postgres.replayRunEvents.scan''
     (andThen (replay_events (replay_order env (run_events db)) []) (\<lambda>latest.
      db_call (db_of env) ''postgres.replayRunEvents.rows'' (Inr latest))))"

fun reconcile_rows :: "(string \<times> RunRow) list \<Rightarrow> (string \<times> replayedRun) list \<Rightarrow> string list \<Rightarrow> string list result" where
  "reconcile_rows [] replayed seen = Inr seen"
| "reconcile_rows ((runID, row) # rows) replayed seen =
    (if map_option snd (map_of replayed runID) \<noteq> Some (scanRun runID row) then
       Inl (corruptRunStream runID ''canonical aggregate differs from immutable event replay'' [])
     else reconcile_rows rows replayed (List.insert runID seen))"

definition reconcileCanonicalRuns :: "PgEnv \<Rightarrow> (string \<times> replayedRun) list \<Rightarrow> 'h PgDB \<Rightarrow> unit result" where
  "reconcileCanonicalRuns env replayed db =
     db_call (db_of env) ''postgres.reconcileCanonicalRuns.query''
     (db_call (db_of env) ''postgres.reconcileCanonicalRuns.scan''
     (andThen (reconcile_rows (sort_key (pg_collation env \<circ> fst) (pg_runs db)) replayed []) (\<lambda>seen.
      db_call (db_of env) ''postgres.reconcileCanonicalRuns.rows''
      (reject (length seen \<noteq> length replayed)
        (corruptRunStream ''*'' ''immutable event replay contains a run missing from canonical state'' [])
        (Inr ())))))"

definition projection_row :: "replayedRun \<Rightarrow> ProjectionRow" where
  "projection_row projection = (case projection of (eventID, run) \<Rightarrow>
     \<lparr>pj_objective = run_objective run, pj_state = run_state run, pj_version = run_version run,
      pj_source_event_id = eventID, pj_updated_at = run_updated_at run\<rparr>)"

definition insert_projection ::
    "DBEnv \<Rightarrow> string \<Rightarrow> string \<Rightarrow> ProjectionRow \<Rightarrow> 'h PgDB \<Rightarrow> 'h PgDB result" where
  "insert_projection env projectorName runID row db =
     db_exec env ''postgres.RebuildRunProjection.insert'' [projectorName, runID, pj_objective row, pj_state row]
      (pg_check ''postgres.RebuildRunProjection.insert''
        (if \<not> int4_ok (pj_version row) then Some (PgError ''23514'')
         else if map_of (pg_projections db) (projectorName, runID) \<noteq> None then Some (PgError ''23505'')
         else if \<not> list_ex (\<lambda>ev. ev_event_id ev = pj_source_event_id row) (pg_events db) then Some (PgError ''23503'')
         else None)
        (Inr (db\<lparr>pg_projections := pg_projections db @ [((projectorName, runID), row)]\<rparr>)))"

fun insert_projections ::
    "DBEnv \<Rightarrow> string \<Rightarrow> (string \<times> replayedRun) list \<Rightarrow> 'h PgDB \<Rightarrow> 'h PgDB result" where
  "insert_projections env projectorName [] db = Inr db"
| "insert_projections env projectorName ((runID, projection) # rest) db =
     andThen (insert_projection env projectorName runID (projection_row projection) db)
       (insert_projections env projectorName rest)"

definition max_outbox_id :: "'h PgDB \<Rightarrow> int" where
  "max_outbox_id db = foldr max (map fst (pg_outbox db)) 0"

definition RebuildRunProjection :: "PgEnv \<Rightarrow> string \<Rightarrow> 'h PgDB \<Rightarrow> unit result \<times> 'h PgDB" where
  "RebuildRunProjection env projectorName db =
    (if projectorName = [] then
       (Inl (New CodeInvalidArgument ''postgres.RebuildRunProjection'' (Msg ''projector name is required'' [])), db)
     else let e = db_of env in run_tx env
      (db_call e ''postgres.RebuildRunProjection.begin''
      (db_call e ''postgres.RebuildRunProjection.lockWatermark''
      (db_call e ''postgres.RebuildRunProjection.lockProjector''
      (andThen (replayRunEvents env db) (\<lambda>latest.
       andThen (reconcileCanonicalRuns env latest db) (\<lambda>_.
       db_exec e ''postgres.RebuildRunProjection.clear'' [projectorName]
       (andThen (insert_projections e projectorName latest
          (db\<lparr>pg_projections := filter (\<lambda>((projector, _), _). projector \<noteq> projectorName) (pg_projections db)\<rparr>)) (\<lambda>db.
       db_exec e ''postgres.RebuildRunProjection.checkpoint'' [projectorName]
       (Inr ((Some ''postgres.RebuildRunProjection.commit'', ()),
          db\<lparr>pg_checkpoints := AList.update projectorName (max_outbox_id db) (pg_checkpoints db)\<rparr>)))))))))) db)"

section \<open>Replay of a stream\<close>

text \<open>The replay of the events of one run, apart from those of the others.\<close>

fun replay_stream :: "replayedRun option \<Rightarrow> EventRow list \<Rightarrow> replayedRun option option" where
  "replay_stream previous [] = Some previous"
| "replay_stream previous (ev # evs) =
    (case decodeStoredRun (ev_payload ev) of
       Inl _ \<Rightarrow> None
     | Inr run \<Rightarrow> if validateReplayedRunEvent ev run (map_option snd previous) = None
         then replay_stream (Some (ev_event_id ev, run)) evs else None)"

lemma replay_stream_append:
  "replay_stream p (xs @ ys) = Option.bind (replay_stream p xs) (\<lambda>q. replay_stream q ys)"
  by (induction p xs rule: replay_stream.induct) (auto split: sum.split)

lemma replay_events_streams:
  assumes "\<And>i. replay_stream (map_of latest i) (filter (\<lambda>ev. ev_aggregate_id ev = i) evs) = Some (final i)"
    "distinct (map fst latest)"
  shows "\<exists>latest'. replay_events evs latest = Inr latest' \<and> map_of latest' = final \<and> distinct (map fst latest')
    \<and> fst ` snd ` set latest' \<subseteq> fst ` snd ` set latest \<union> ev_event_id ` set evs"
  using assms
proof (induction evs arbitrary: latest)
  case (Cons ev evs)
  let ?i = "ev_aggregate_id ev"
  from Cons.prems(1) [of ?i] obtain run where run: "decodeStoredRun (ev_payload ev) = Inr run"
      "validateReplayedRunEvent ev run (map_option snd (map_of latest ?i)) = None"
      "replay_stream (Some (ev_event_id ev, run)) (filter (\<lambda>e. ev_aggregate_id e = ?i) evs) = Some (final ?i)"
    by (auto split: sum.splits if_splits)
  let ?l = "AList.update ?i (ev_event_id ev, run) latest"
  have "replay_stream (map_of ?l i) (filter (\<lambda>e. ev_aggregate_id e = i) evs) = Some (final i)" for i
    using Cons.prems(1) [of i] run(3) by (cases "i = ?i") (auto simp: update_conv')
  from Cons.IH [OF this] Cons.prems(2) obtain latest' where l: "replay_events evs ?l = Inr latest'" "map_of latest' = final"
      "distinct (map fst latest')" "fst ` snd ` set latest' \<subseteq> fst ` snd ` set ?l \<union> ev_event_id ` set evs"
    by (auto simp: distinct_update)
  have "set ?l \<subseteq> insert (?i, (ev_event_id ev, run)) (set latest)"
    by (induction latest) auto
  then have "fst ` snd ` set ?l \<subseteq> insert (ev_event_id ev) (fst ` snd ` set latest)" by force
  with l(4) have "fst ` snd ` set latest' \<subseteq> fst ` snd ` set latest \<union> ev_event_id ` set (ev # evs)"
    by (simp; blast)
  with l(1-3) run show ?case by simp
qed (auto simp: fun_eq_iff)

text \<open>A stream that replays is written in the order of its versions.\<close>

lemma validate_version:
  assumes "validateReplayedRunEvent ev run p = None"
  shows "ev_aggregate_version ev = run_version run
    \<and> ev_aggregate_version ev = (case p of None \<Rightarrow> 1 | Some q \<Rightarrow> run_version q + 1)"
  using assms by (auto simp: validateReplayedRunEvent_def Let_def split: if_splits option.splits)

lemma replay_stream_sorted:
  assumes "replay_stream p evs = Some q"
  shows "sorted (map ev_aggregate_version evs)
    \<and> (\<forall>ev \<in> set evs. \<forall>e r. p = Some (e, r) \<longrightarrow> run_version r < ev_aggregate_version ev)"
  using assms
proof (induction evs arbitrary: p)
  case (Cons ev evs)
  then obtain run where run: "validateReplayedRunEvent ev run (map_option snd p) = None"
      "replay_stream (Some (ev_event_id ev, run)) evs = Some q"
    by (auto split: sum.splits if_splits)
  have v: "ev_aggregate_version ev = run_version run"
      "ev_aggregate_version ev = (case map_option snd p of None \<Rightarrow> 1 | Some q \<Rightarrow> run_version q + 1)"
    using validate_version [OF run(1)] by auto
  from Cons.IH [OF run(2)] have IH: "sorted (map ev_aggregate_version evs)"
      "\<And>e. e \<in> set evs \<Longrightarrow> run_version run < ev_aggregate_version e" by auto
  show ?case using v IH by (auto split: option.splits; force)
qed simp

lemma filter_sort_key: "filter P (sort_key f xs) = sort_key f (filter P xs)"
  by (rule filter_sort)

lemma replay_order_stream:
  assumes "replay_stream None (stream db i) = Some q"
  shows "filter (\<lambda>ev. ev_aggregate_id ev = i) (replay_order env (run_events db)) = stream db i"
proof -
  have s: "filter (\<lambda>ev. ev_aggregate_id ev = i) (run_events db) = stream db i"
    by (simp add: run_events_def stream_def conj_commute)
  have "sort_key ev_aggregate_version (stream db i) = stream db i"
    using replay_stream_sorted [OF assms] by (simp add: sorted_sort_id sort_key_id_if_sorted)
  moreover have "sort_key (\<lambda>ev. pg_collation env (ev_aggregate_id ev)) (stream db i) = stream db i"
  proof (rule sort_key_id_if_sorted)
    have "map (\<lambda>ev. pg_collation env (ev_aggregate_id ev)) (stream db i) = map (\<lambda>_. pg_collation env i) (stream db i)"
      by (auto simp: stream_def)
    then show "sorted (map (\<lambda>ev. pg_collation env (ev_aggregate_id ev)) (stream db i))"
      by (simp add: map_replicate_const)
  qed
  ultimately show ?thesis by (simp add: replay_order_def filter_sort_key s)
qed

section \<open>The event log agrees with the runs\<close>

definition run_row_ok :: "string \<Rightarrow> RunRow \<Rightarrow> bool" where
  "run_row_ok i row \<longleftrightarrow> check_run i row = None \<and> pg_text_ok (rr_objective row) \<and> (\<exists>st. rr_state row = StateString st)
     \<and> zero_time < rr_created_at row \<and> rr_updated_at row mod 1000 = 0"

definition log_inv :: "'h PgDB \<Rightarrow> bool" where
  "log_inv db \<longleftrightarrow> distinct (map fst (pg_runs db))
     \<and> (\<forall>i row. map_of (pg_runs db) i = Some row \<longrightarrow> run_row_ok i row)
     \<and> (\<forall>i. \<exists>p. replay_stream None (stream db i) = Some p
           \<and> map_option snd p = map_option (scanRun i) (map_of (pg_runs db) i))"

text \<open>The clock of the application shows a time after the zero instant.\<close>

definition clock_ok :: "PgEnv \<Rightarrow> bool" where
  "clock_ok env \<longleftrightarrow> (\<forall>n. zero_time + 1000 \<le> pg_now env n)"

lemma MatchString_all:
  assumes "MatchString pat t" "\<And>p c. p \<in> set pat \<Longrightarrow> p c \<Longrightarrow> P c"
  shows "list_all P t"
proof -
  from assms(1) have "list_all2 (\<lambda>p c. p c) pat t" by (simp add: MatchString_def)
  then show ?thesis using assms(2) by (induction rule: list_all2_induct) auto
qed

lemma run_id_text:
  assumes "MatchString runIDPattern i"
  shows "pg_text_ok i"
proof -
  have "list_all (byte_in 1 0x7F) i"
    by (rule MatchString_all [OF assms])
      (auto simp: runIDPattern_def uuid_pattern_def char_classes_def is_hex_def byte_in_def)
  then have "list_all (byte_in 0 0x7F) i" "CHR 0x00 \<notin> set i"
    by (auto simp: list_all_iff byte_in_def)
  then show ?thesis by (simp add: pg_text_ok_def valid_utf8_ascii)
qed

lemma StateString_text: "pg_text_ok (StateString st)"
proof -
  have "CHR 0x00 \<notin> set (StateString st)" by (cases st) (simp_all add: StateString.simps)
  then show ?thesis by (simp add: pg_text_ok_def)
qed

lemma decode_logged:
  assumes "logs et run ev" "run_row_ok (run_id run) row" "scanRun (run_id run) row = run"
  shows "decodeStoredRun (ev_payload ev) = Inr run"
proof -
  have run: "run_schema_version run = ''1.0''" "run_objective run = rr_objective row" "run_state run = rr_state row"
      "run_version run = rr_version row" "run_created_at run = rr_created_at row" "run_updated_at run = rr_updated_at row"
    by (subst assms(3) [symmetric], simp add: scanRun_def)+
  have row: "MatchString runIDPattern (run_id run)" "1 \<le> rr_version row" "3 \<le> rune_count (rr_objective row)"
      "rune_count (rr_objective row) \<le> 8000" "rr_created_at row \<le> rr_updated_at row" "zero_time < rr_created_at row"
      "valid_utf8 (rr_objective row)"
    using assms(2) by (auto simp: run_row_ok_def check_run_def int4_ok_def char_length_in_def pg_text_ok_def split: if_splits)
  obtain st where st: "rr_state row = StateString st" using assms(2) by (auto simp: run_row_ok_def)
  have "utf8_Run run"
    using row st run run_id_text [OF row(1)] by (simp add: utf8_Run_def valid_utf8_ascii byte_in_def pg_text_ok_def)
  then have "decode_Run (ev_payload ev) = Some run"
    using assms(1) by (auto simp: logs_def intro: decode_marshal_Run)
  then show ?thesis
    using row st run by (auto simp: decodeStoredRun_def pg_validateObjective_def reject_def ValidTimestamp_def)
qed

lemma log_inv_stream:
  assumes "log_inv db"
  obtains p where "replay_stream None (stream db i) = Some p"
    "map_option snd p = map_option (scanRun i) (map_of (pg_runs db) i)"
  using assms unfolding log_inv_def by blast

lemma log_inv_put:
  assumes "log_inv db" "run_row_ok i row" "pg_runs db' = AList.update i row (pg_runs db)"
    "stream db' = (stream db)(i := evs)" "replay_stream None evs = Some (Some (e, scanRun i row))"
  shows "log_inv db'"
  unfolding log_inv_def
proof (intro conjI allI impI)
  show "distinct (map fst (pg_runs db'))" using assms(1,3) by (simp add: log_inv_def distinct_update)
  show "run_row_ok j r" if "map_of (pg_runs db') j = Some r" for j r
    using that assms(1,2,3) by (auto simp: log_inv_def update_conv' split: if_splits)
  show "\<exists>p. replay_stream None (stream db' j) = Some p \<and> map_option snd p = map_option (scanRun j) (map_of (pg_runs db') j)" for j
    using assms log_inv_stream [OF assms(1), of j] by (cases "j = i") (auto simp: update_conv')
qed

text \<open>A run that was created, and one that moved, with the event that records it.\<close>

lemma log_inv_created:
  assumes inv: "log_inv db" and new: "map_of (pg_runs db) i = None"
    and run: "run = draftRun (postgresTimestamp t) i obj" "zero_time + 1000 \<le> t" "pg_text_ok obj"
    and ck: "check_run i (run_row run sid) = None"
    and core: "pg_runs db' = AList.update i (run_row run sid) (pg_runs db)" and log: "logged ''run.created'' run db db'"
  shows "log_inv db'"
proof -
  let ?row = "run_row run sid"
  have i: "run_id run = i" and scan: "scanRun i ?row = run" by (simp_all add: run draftRun_def scanRun_def run_row_def)
  have "zero_time < postgresTimestamp t" "postgresTimestamp t mod 1000 = 0"
    using run(2) pos_mod_bound [of 1000 t] by (auto simp: postgresTimestamp_def mod_diff_left_eq zero_time_def)
  then have ok: "run_row_ok i ?row"
    using ck run(3) by (auto simp: run_row_ok_def run run_row_def draftRun_def pg_text_ok_def)
  from log obtain ev where ev: "logs ''run.created'' run ev" "stream db' = (stream db)(i := stream db i @ [ev])"
    by (auto simp: logged_def i)
  have dec: "decodeStoredRun (ev_payload ev) = Inr run"
    by (rule decode_logged [OF ev(1)]) (use ok scan i in simp_all)
  have "replay_stream None (stream db i) = Some None" using log_inv_stream [OF inv, of i] new by auto
  then have "replay_stream None (stream db' i) = Some (Some (ev_event_id ev, run))"
    using dec ev by (simp add: replay_stream_append validateReplayedRunEvent_def logs_def run draftRun_def)
  then show ?thesis
    using scan ev(2) by (intro log_inv_put [OF inv ok core, of _ "ev_event_id ev"]) auto
qed

lemma log_inv_moved:
  assumes inv: "log_inv db" and row: "map_of (pg_runs db) i = Some row"
    and mv: "Machine_Transition t (scanRun i row) target = Inr moved" and run: "run = stamped moved"
    and ck: "check_run i (moved_row row run) = None"
    and core: "pg_runs db' = AList.update i (moved_row row run) (pg_runs db)" and log: "logged ''run.transitioned'' run db db'"
  shows "log_inv db'"
proof -
  let ?row = "moved_row row run"
  obtain st where st: "rr_state row = StateString st" "CanTransition st target"
    and m: "moved = (scanRun i row)\<lparr>run_state := StateString target, run_version := rr_version row + 1,
      run_updated_at := max t (rr_updated_at row)\<rparr>"
    using mv unfolding Machine_Transition_Inr_iff by (auto simp: scanRun_def)
  have old: "run_row_ok i row" using inv row by (simp add: log_inv_def)
  have i: "run_id run = i" and scan: "scanRun i ?row = run"
    by (simp_all add: run stamped_def m scanRun_def moved_row_def)
  have up: "rr_updated_at row \<le> run_updated_at run" "run_updated_at run mod 1000 = 0"
  proof -
    have mono: "postgresTimestamp a \<le> postgresTimestamp b" if "a \<le> b" for a b
      using that zdiv_mono1 [of a b 1000] by (simp add: postgresTimestamp_def minus_mod_eq_mult_div)
    have "postgresTimestamp (rr_updated_at row) = rr_updated_at row"
      using old by (simp add: run_row_ok_def postgresTimestamp_def)
    with mono [of "rr_updated_at row" "max t (rr_updated_at row)"] show "rr_updated_at row \<le> run_updated_at run"
      by (simp add: run stamped_def m)
    show "run_updated_at run mod 1000 = 0" by (simp add: run stamped_def m postgresTimestamp_def mod_diff_left_eq)
  qed
  have ok: "run_row_ok i ?row"
    using ck old up by (auto simp: run_row_ok_def moved_row_def run stamped_def m)
  from log obtain ev where ev: "logs ''run.transitioned'' run ev" "stream db' = (stream db)(i := stream db i @ [ev])"
    by (auto simp: logged_def i)
  have dec: "decodeStoredRun (ev_payload ev) = Inr run"
    by (rule decode_logged [OF ev(1)]) (use ok scan i in simp_all)
  obtain e where e: "replay_stream None (stream db i) = Some (Some (e, scanRun i row))"
    using log_inv_stream [OF inv, of i] row by auto
  have "validateReplayedRunEvent ev run (Some (scanRun i row)) = None"
    using ev(1) up st by (simp add: validateReplayedRunEvent_def logs_def i run stamped_def m scanRun_def canReplayRunTransition_def)
  then have "replay_stream None (stream db' i) = Some (Some (ev_event_id ev, run))"
    using dec ev(2) e by (simp add: replay_stream_append)
  then show ?thesis
    using scan ev(2) by (intro log_inv_put [OF inv ok core, of _ "ev_event_id ev"]) auto
qed

lemma log_inv_untouched: "untouched db db' \<Longrightarrow> log_inv db \<Longrightarrow> log_inv db'"
  by (simp add: untouched_def log_inv_def core_def)

section \<open>Rebuilding\<close>

text \<open>A failure of a database statement, and no other.\<close>

definition db_failed :: "DBEnv \<Rightarrow> 'a result \<Rightarrow> bool" where
  "db_failed e r \<longleftrightarrow> (\<exists>op pe. db_error e op = Some pe \<and> r = Inl (databaseError op pe))"

lemma db_failed_Inr [simp]: "\<not> db_failed e (Inr x)"
  by (simp add: db_failed_def)

lemma db_failed_quiet: "db_quiet e \<Longrightarrow> \<not> db_failed e r"
  by (simp add: db_failed_def)

lemma db_failed_call: "db_failed e (db_call e op k) \<longleftrightarrow> (\<exists>pe. db_error e op = Some pe) \<or> db_failed e k"
  by (auto simp: db_call_def db_failed_def split: option.split)

lemma db_failed_andThen: "db_failed e r \<Longrightarrow> db_failed e (andThen r f)"
  unfolding db_failed_def by (elim exE conjE) (simp only: andThen_simps, blast)

lemma insert_projections_Inr:
  assumes "insert_projections e p latest db = Inr db'"
  shows "db' = db\<lparr>pg_projections := pg_projections db @ map (\<lambda>(i, q). ((p, i), projection_row q)) latest\<rparr>"
  using assms
proof (induction latest arbitrary: db)
  case (Cons a latest)
  obtain i q where a: "a = (i, q)" by (cases a)
  with Cons.prems obtain db1 where 1: "insert_projection e p i (projection_row q) db = Inr db1"
    "insert_projections e p latest db1 = Inr db'" by auto
  then have "db1 = db\<lparr>pg_projections := pg_projections db @ [((p, i), projection_row q)]\<rparr>"
    by (simp add: insert_projection_def)
  with Cons.IH [OF 1(2)] a show ?case by simp
qed simp

lemma insert_projections_ok:
  assumes "\<And>i q. (i, q) \<in> set latest \<Longrightarrow> list_all pg_text_ok [i, pj_objective (projection_row q), pj_state (projection_row q)]
      \<and> int4_ok (pj_version (projection_row q)) \<and> pj_source_event_id (projection_row q) \<in> ev_event_id ` set (pg_events db)"
    "distinct (map fst latest)" "\<And>i q. (i, q) \<in> set latest \<Longrightarrow> map_of (pg_projections db) (p, i) = None" "pg_text_ok p"
  shows "(\<exists>db'. insert_projections e p latest db = Inr db')
    \<or> db_failed e (insert_projections e p latest db)"
  using assms
proof (induction latest arbitrary: db)
  case (Cons a latest)
  obtain i q where a: "a = (i, q)" by (cases a)
  let ?db = "db\<lparr>pg_projections := pg_projections db @ [((p, i), projection_row q)]\<rparr>"
  have ex: "list_ex (\<lambda>ev. ev_event_id ev = pj_source_event_id (projection_row q)) (pg_events db)"
    using Cons.prems(1) [of i q] a by (auto simp: list_ex_iff)
  show ?case
  proof (cases "db_error e ''postgres.RebuildRunProjection.insert''")
    case None
    have ins: "insert_projection e p i (projection_row q) db = Inr ?db"
      using Cons.prems(1) [of i q] Cons.prems(3) [of i q] Cons.prems(4) a None ex
      by (simp add: insert_projection_def)
    have "(\<exists>db'. insert_projections e p latest ?db = Inr db') \<or> db_failed e (insert_projections e p latest ?db)"
    proof (rule Cons.IH)
      show "map_of (pg_projections ?db) (p, j) = None" if "(j, r) \<in> set latest" for j r
      proof -
        have "j \<noteq> i" using Cons.prems(2) that by (force simp: a)
        moreover have "map_of (pg_projections db) (p, j) = None" using Cons.prems(3) [of j r] that by simp
        ultimately show ?thesis by (simp add: map_add_def)
      qed
    qed (use Cons.prems(1,2,4) in auto)
    then show ?thesis by (auto simp: a ins)
  next
    case (Some pe)
    have "insert_projection e p i (projection_row q) db = Inl (databaseError ''postgres.RebuildRunProjection.insert'' pe)"
      using Cons.prems(1) [of i q] Cons.prems(4) a Some by (simp add: insert_projection_def db_exec_def db_call_def)
    then show ?thesis using Some by (auto simp: a db_failed_def)
  qed
qed simp

lemma reconcile_rows_ok:
  assumes "\<And>i row. (i, row) \<in> set rows \<Longrightarrow> map_option snd (map_of latest i) = Some (scanRun i row)" "distinct seen"
  shows "\<exists>seen'. reconcile_rows rows latest seen = Inr seen' \<and> distinct seen' \<and> set seen' = set seen \<union> fst ` set rows"
  using assms
proof (induction rows arbitrary: seen)
  case (Cons a rows)
  obtain i row where a: "a = (i, row)" by (cases a)
  have i: "map_option snd (map_of latest i) = Some (scanRun i row)" by (rule Cons.prems(1)) (simp add: a)
  have "\<exists>seen'. reconcile_rows rows latest (List.insert i seen) = Inr seen' \<and> distinct seen'
      \<and> set seen' = set (List.insert i seen) \<union> fst ` set rows"
    by (rule Cons.IH, rule Cons.prems(1)) (simp_all add: Cons.prems(2))
  with i show ?case by (simp add: a)
next
  case Nil
  show ?case using Nil.prems(2) by simp
qed

text \<open>The replay of a log that agrees with the runs delivers exactly the runs.\<close>

lemma replay_reconciles:
  assumes inv: "log_inv db"
  obtains latest where "replay_events (replay_order env (run_events db)) [] = Inr latest" "distinct (map fst latest)"
    "\<And>i. map_option snd (map_of latest i) = map_option (scanRun i) (map_of (pg_runs db) i)"
    "\<And>i q. (i, q) \<in> set latest \<Longrightarrow> fst q \<in> ev_event_id ` set (pg_events db)"
    "length latest = length (pg_runs db)"
proof -
  define final where "final i = the (replay_stream None (stream db i))" for i
  have final: "replay_stream None (stream db i) = Some (final i)"
    "map_option snd (final i) = map_option (scanRun i) (map_of (pg_runs db) i)" for i
    by (rule log_inv_stream [OF inv, of i], simp add: final_def)+
  have "replay_stream (map_of [] i) (filter (\<lambda>ev. ev_aggregate_id ev = i) (replay_order env (run_events db))) = Some (final i)" for i
    using replay_order_stream [OF final(1)] final(1) by simp
  from replay_events_streams [of "[]" "replay_order env (run_events db)" final, OF this] obtain latest where
    l: "replay_events (replay_order env (run_events db)) [] = Inr latest" "map_of latest = final" "distinct (map fst latest)"
      "fst ` snd ` set latest \<subseteq> ev_event_id ` set (replay_order env (run_events db))" by auto
  have ids: "fst q \<in> ev_event_id ` set (pg_events db)" if "(i, q) \<in> set latest" for i q
  proof -
    have "fst q \<in> fst ` snd ` set latest" using that by force
    then show ?thesis using l(4) by (auto simp: replay_order_def run_events_def)
  qed
  have "final i = None \<longleftrightarrow> map_of (pg_runs db) i = None" for i by (metis final(2) option.map_disc_iff)
  then have "dom (map_of latest) = dom (map_of (pg_runs db))" by (simp add: dom_def l(2))
  then have "card (set (map fst latest)) = card (set (map fst (pg_runs db)))" by (simp add: dom_map_of_conv_image_fst)
  moreover have "distinct (map fst (pg_runs db))" using inv by (simp add: log_inv_def)
  ultimately have "length latest = length (pg_runs db)" using l(3) by (metis distinct_card length_map)
  moreover have "map_option snd (map_of latest i) = map_option (scanRun i) (map_of (pg_runs db) i)" for i
    by (simp only: l(2) final(2))
  ultimately show thesis using that [OF l(1,3)] ids by blast
qed

text \<open>What a rebuilt projector shows: the canonical runs, each with the event it was read from.\<close>

definition projects :: "string \<Rightarrow> 'h PgDB \<Rightarrow> bool" where
  "projects p db \<longleftrightarrow> (\<forall>i. case map_of (pg_runs db) i of
       None \<Rightarrow> map_of (pg_projections db) (p, i) = None
     | Some row \<Rightarrow> (\<exists>eventID. eventID \<in> ev_event_id ` set (pg_events db) \<and> map_of (pg_projections db) (p, i) = Some
         \<lparr>pj_objective = rr_objective row, pj_state = rr_state row, pj_version = rr_version row,
          pj_source_event_id = eventID, pj_updated_at = rr_updated_at row\<rparr>))"

lemma reconcile_ok:
  assumes "log_inv db" "\<And>i. map_option snd (map_of latest i) = map_option (scanRun i) (map_of (pg_runs db) i)"
    "length latest = length (pg_runs db)"
  shows "reconcileCanonicalRuns env latest db = Inr () \<or> db_failed (db_of env) (reconcileCanonicalRuns env latest db)"
proof -
  let ?rows = "sort_key (pg_collation env \<circ> fst) (pg_runs db)"
  have d: "distinct (map fst (pg_runs db))" using assms(1) by (simp add: log_inv_def)
  have "map_option snd (map_of latest i) = Some (scanRun i row)" if "(i, row) \<in> set ?rows" for i row
    using that assms(2) [of i] map_of_eq_Some_iff [OF d, of i row] by simp
  from reconcile_rows_ok [of ?rows, OF this, of "[]"] obtain seen where
    seen: "reconcile_rows ?rows latest [] = Inr seen" "distinct seen" "set seen = fst ` set (pg_runs db)" by auto
  have "length seen = length (pg_runs db)"
    using seen(2,3) d by (metis distinct_card length_map list.set_map)
  then show ?thesis
    using seen(1) assms(3)
    by (auto simp: reconcileCanonicalRuns_def db_failed_call reject_def)
qed

lemma projected_row_ok:
  assumes inv: "log_inv db" and row: "map_of (pg_runs db) i = Some row" and q: "snd q = scanRun i row"
  shows "list_all pg_text_ok [i, pj_objective (projection_row q), pj_state (projection_row q)] \<and> int4_ok (pj_version (projection_row q))"
proof -
  have ok: "run_row_ok i row" using inv row by (simp add: log_inv_def)
  then have "MatchString runIDPattern i" "int4_ok (rr_version row)"
    by (auto simp: run_row_ok_def check_run_def split: if_splits)
  with ok q show ?thesis
    by (cases q) (auto simp: projection_row_def scanRun_def run_row_ok_def StateString_text intro: run_id_text)
qed

lemma db_exec_text: "list_all pg_text_ok ts \<Longrightarrow> db_exec e op ts k = db_call e op k"
  by (simp add: db_exec_def)

lemma rebuild_state:
  assumes "RebuildRunProjection env p db = (res, db')"
  shows "db' = db \<or> (\<exists>projs. db' = db\<lparr>pg_projections := projs, pg_checkpoints := AList.update p (max_outbox_id db) (pg_checkpoints db)\<rparr>)"
proof (cases "p = []")
  case False
  let ?kept = "filter (\<lambda>((projector, _), _). projector \<noteq> p) (pg_projections db)"
  consider "db' = db" | latest db1 where "insert_projections (db_of env) p latest (db\<lparr>pg_projections := ?kept\<rparr>) = Inr db1"
    "db' = db1\<lparr>pg_checkpoints := AList.update p (max_outbox_id db1) (pg_checkpoints db1)\<rparr>"
    using assms False unfolding RebuildRunProjection_def Let_def by (auto dest!: run_tx_state)
  then show ?thesis
  proof cases
    case 2
    from insert_projections_Inr [OF 2(1)] 2(2) show ?thesis by (auto simp: max_outbox_id_def)
  qed simp
qed (use assms in \<open>simp add: RebuildRunProjection_def\<close>)

text \<open>Clearing a projector and inserting the replayed runs leaves exactly the runs.\<close>

lemma projects_rebuilt:
  assumes "\<And>i. map_option snd (map_of latest i) = map_option (scanRun i) (map_of (pg_runs db) i)"
    "\<And>i q. (i, q) \<in> set latest \<Longrightarrow> fst q \<in> ev_event_id ` set (pg_events db)"
    "projs = filter (\<lambda>((r, _), _). r \<noteq> p) (pg_projections db) @ map (\<lambda>(i, q). ((p, i), projection_row q)) latest"
  shows "map_of projs (p, i) = map_option projection_row (map_of latest i)"
    "q \<noteq> p \<Longrightarrow> map_of projs (q, i) = map_of (pg_projections db) (q, i)"
    "projects p (db\<lparr>pg_projections := projs, pg_checkpoints := ck\<rparr>)"
proof -
  have new: "map_of (map (\<lambda>(i, q). ((p, i), projection_row q)) latest) (r, j)
      = (if r = p then map_option projection_row (map_of latest j) else None)" for r j
    by (induction latest) auto
  have old: "map_of (filter (\<lambda>((r, _), _). r \<noteq> p) xs) (r, j) = (if r = p then None else map_of xs (r, j))"
    for r j and xs :: "((string \<times> string) \<times> ProjectionRow) list"
    by (induction xs) auto
  show main: "map_of projs (p, i) = map_option projection_row (map_of latest i)" for i
    by (simp add: assms(3) map_add_def new old split: option.split)
  show "map_of projs (q, i) = map_of (pg_projections db) (q, i)" if "q \<noteq> p"
    using that by (simp add: assms(3) map_add_def new old split: option.split)
  show "projects p (db\<lparr>pg_projections := projs, pg_checkpoints := ck\<rparr>)"
    unfolding projects_def
  proof (intro allI)
    fix i
    show "case map_of (pg_runs (db\<lparr>pg_projections := projs, pg_checkpoints := ck\<rparr>)) i of
       None \<Rightarrow> map_of (pg_projections (db\<lparr>pg_projections := projs, pg_checkpoints := ck\<rparr>)) (p, i) = None
     | Some row \<Rightarrow> (\<exists>eventID. eventID \<in> ev_event_id ` set (pg_events (db\<lparr>pg_projections := projs, pg_checkpoints := ck\<rparr>))
         \<and> map_of (pg_projections (db\<lparr>pg_projections := projs, pg_checkpoints := ck\<rparr>)) (p, i) = Some
         \<lparr>pj_objective = rr_objective row, pj_state = rr_state row, pj_version = rr_version row,
          pj_source_event_id = eventID, pj_updated_at = rr_updated_at row\<rparr>)"
    proof (cases "map_of (pg_runs db) i")
      case None
      with assms(1) [of i] show ?thesis by (simp add: main)
    next
      case (Some row)
      with assms(1) [of i] obtain e where q: "map_of latest i = Some (e, scanRun i row)" by auto
      then have "e \<in> ev_event_id ` set (pg_events db)" using assms(2) [of i "(e, scanRun i row)"] by (auto dest: map_of_SomeD)
      with q Some show ?thesis by (auto simp: main projection_row_def scanRun_def)
    qed
  qed
qed

lemma rebuild_work:
  assumes inv: "log_inv db" and p: "p \<noteq> []" "pg_text_ok p"
  obtains work where "RebuildRunProjection env p db = run_tx env work db"
    "db_failed (db_of env) work \<or> (\<exists>projs. work = Inr ((Some ''postgres.RebuildRunProjection.commit'', ()),
        db\<lparr>pg_projections := projs, pg_checkpoints := AList.update p (max_outbox_id db) (pg_checkpoints db)\<rparr>)
      \<and> projects p (db\<lparr>pg_projections := projs, pg_checkpoints := AList.update p (max_outbox_id db) (pg_checkpoints db)\<rparr>)
      \<and> (\<forall>q i. q \<noteq> p \<longrightarrow> map_of projs (q, i) = map_of (pg_projections db) (q, i)))"
proof -
  let ?e = "db_of env"
  obtain latest where l: "replay_events (replay_order env (run_events db)) [] = Inr latest" "distinct (map fst latest)"
    "\<And>i. map_option snd (map_of latest i) = map_option (scanRun i) (map_of (pg_runs db) i)"
    "\<And>i q. (i, q) \<in> set latest \<Longrightarrow> fst q \<in> ev_event_id ` set (pg_events db)"
    "length latest = length (pg_runs db)"
    using replay_reconciles [OF inv, of env] by blast
  let ?kept = "filter (\<lambda>((projector, _), _). projector \<noteq> p) (pg_projections db)"
  let ?db1 = "db\<lparr>pg_projections := ?kept\<rparr>"
  let ?projs = "?kept @ map (\<lambda>(i, q). ((p, i), projection_row q)) latest"
  let ?db2 = "db\<lparr>pg_projections := ?projs, pg_checkpoints := AList.update p (max_outbox_id db) (pg_checkpoints db)\<rparr>"
  have rows: "list_all pg_text_ok [i, pj_objective (projection_row q), pj_state (projection_row q)]
      \<and> int4_ok (pj_version (projection_row q)) \<and> pj_source_event_id (projection_row q) \<in> ev_event_id ` set (pg_events ?db1)"
    if "(i, q) \<in> set latest" for i q
  proof -
    have "map_of latest i = Some q" using that l(2) by simp
    then obtain row where row: "map_of (pg_runs db) i = Some row" "snd q = scanRun i row" using l(3) [of i] by (cases "map_of (pg_runs db) i") auto
    have "pj_source_event_id (projection_row q) = fst q" by (simp add: projection_row_def split: prod.split)
    then show ?thesis using projected_row_ok [OF inv row] l(4) [OF that] by simp
  qed
  have none: "map_of (pg_projections ?db1) (p, i) = None" for i by (auto simp: map_of_eq_None_iff)
  have replay: "replayRunEvents env db = Inr latest \<or> db_failed ?e (replayRunEvents env db)"
    by (auto simp: replayRunEvents_def l(1) db_failed_call)
  note rec = reconcile_ok [OF inv l(3,5), of env]
  have ins: "insert_projections ?e p latest ?db1 = Inr (db\<lparr>pg_projections := ?projs\<rparr>) \<or> db_failed ?e (insert_projections ?e p latest ?db1)"
    using insert_projections_ok [OF rows l(2) none p(2), of ?e] insert_projections_Inr [of ?e p latest ?db1] by auto
  define work where "work = (db_call ?e ''postgres.RebuildRunProjection.begin''
      (db_call ?e ''postgres.RebuildRunProjection.lockWatermark''
      (db_call ?e ''postgres.RebuildRunProjection.lockProjector''
      (andThen (replayRunEvents env db) (\<lambda>latest.
       andThen (reconcileCanonicalRuns env latest db) (\<lambda>_.
       db_exec ?e ''postgres.RebuildRunProjection.clear'' [p]
       (andThen (insert_projections ?e p latest
          (db\<lparr>pg_projections := filter (\<lambda>((projector, _), _). projector \<noteq> p) (pg_projections db)\<rparr>)) (\<lambda>db.
       db_exec ?e ''postgres.RebuildRunProjection.checkpoint'' [p]
       (Inr ((Some ''postgres.RebuildRunProjection.commit'', ()),
          db\<lparr>pg_checkpoints := AList.update p (max_outbox_id db) (pg_checkpoints db)\<rparr>))))))))))"
  have "RebuildRunProjection env p db = run_tx env work db"
    using p(1) by (simp add: RebuildRunProjection_def work_def Let_def)
  moreover have "db_failed ?e work \<or> work = Inr ((Some ''postgres.RebuildRunProjection.commit'', ()), ?db2)"
    using replay rec ins p(2)
    by (auto simp: work_def db_failed_call db_exec_text max_outbox_id_def intro: db_failed_andThen)
  moreover have "map_of ?projs (q, i) = map_of (pg_projections db) (q, i)" if "q \<noteq> p" for q i
    using projects_rebuilt(2) [of latest db ?projs p q i] l(3,4) that by blast
  moreover have "projects p ?db2" using projects_rebuilt(3) [of latest db ?projs p] l(3,4) by blast
  ultimately show thesis by (intro that [of work]) blast+
qed

end
