(* ===== verification/PgQueues.thy ===== *)
theory PgQueues
  imports PgProjection
begin

text \<open>
  The queues of \<open>internal/postgres/outbox.go\<close> and \<open>projection_deliveries.go\<close>: workers claim
  rows for a limited time under a fencing token, and publish or fail exactly the claim they
  hold; the deliveries of a projector have a checkpoint behind which everything is published.
  The repair path \<open>ResetRetrievalProjection\<close> of \<open>retrieval_projection_points.go\<close> is here too.

  \<open>db_row_clock env n [id]\<close> is a reading of \<open>clock_timestamp()\<close> at one row of a claim, and
  \<open>db_clock env n\<close> one in a statement on a single row. Both kinds of queue have the same
  columns, so a claim is written once, on the rows of one queue.
\<close>

section \<open>Claims\<close>

definition Hour :: duration where
  "Hour = 3600 * Second"

record OutboxMessage =
  om_OutboxID :: int
  om_EventID :: string
  om_AggregateType :: string
  om_AggregateID :: string
  om_AggregateVersion :: int
  om_EventType :: string
  om_Payload :: json
  om_Attempts :: int
  om_FencingToken :: int

record ProjectionDelivery = OutboxMessage +
  pd_ProjectorName :: string

text \<open>An unlocked row that is due, and pending or with an expired claim.\<close>

definition claimable :: "PgEnv \<Rightarrow> int \<Rightarrow> 'a QueueRow_scheme \<Rightarrow> bool" where
  "claimable env i row \<longleftrightarrow> \<not> pg_locked env i \<and> qr_available_at row \<le> db_row_clock env 0 [itoa i]
     \<and> (qr_state row = ''pending''
        \<or> (qr_state row = ''inflight'' \<and> pred_option (\<lambda>t. t \<le> db_row_clock env 1 [itoa i]) (qr_locked_until row)
           \<and> qr_locked_until row \<noteq> None))"

definition claim_ids :: "PgEnv \<Rightarrow> int \<Rightarrow> (int \<times> 'a QueueRow_scheme) list \<Rightarrow> int list" where
  "claim_ids env limit queue = take (nat limit) (sort (map fst (filter (\<lambda>(i, row). claimable env i row) queue)))"

definition claim_row :: "PgEnv \<Rightarrow> string \<Rightarrow> duration \<Rightarrow> int \<Rightarrow> 'a QueueRow_scheme \<Rightarrow> 'a QueueRow_scheme" where
  "claim_row env workerID ttl i row = row\<lparr>qr_state := ''inflight'', qr_locked_by := Some workerID,
     qr_locked_until := Some (db_row_clock env 2 [itoa i] + intervalString ttl),
     qr_fencing_token := qr_fencing_token row + 1, qr_attempts := qr_attempts row + 1\<rparr>"

text \<open>The claimed row joined with its event.\<close>

definition message_of :: "'h PgDB \<Rightarrow> int \<Rightarrow> 'a QueueRow_scheme \<Rightarrow> OutboxMessage option" where
  "message_of db i row =
     Option.bind (map_of (pg_outbox db) i) (\<lambda>ob.
     map_option (\<lambda>ev. \<lparr>om_OutboxID = i, om_EventID = ev_event_id ev, om_AggregateType = ev_aggregate_type ev,
         om_AggregateID = ev_aggregate_id ev, om_AggregateVersion = ev_aggregate_version ev,
         om_EventType = ev_event_type ev, om_Payload = ev_payload ev, om_Attempts = qr_attempts row,
         om_FencingToken = qr_fencing_token row\<rparr>)
       (find (\<lambda>ev. ev_event_id ev = ob_event_id ob) (pg_events db)))"

definition claimed_messages :: "'h PgDB \<Rightarrow> int list \<Rightarrow> (int \<times> 'a QueueRow_scheme) list \<Rightarrow> OutboxMessage list" where
  "claimed_messages db ids queue =
     List.map_filter (\<lambda>i. Option.bind (map_of queue i) (message_of db i)) ids"

text \<open>
  A claim is one statement outside any transaction: reading its rows can fail after it took
  effect.
\<close>

definition read_rows :: "DBEnv \<Rightarrow> string \<Rightarrow> 'a result \<times> 's \<Rightarrow> 's \<Rightarrow> 'a result \<times> 's" where
  "read_rows env operation outcome s =
    (case outcome of
       (Inl err, t) \<Rightarrow> (Inl err, t)
     | (Inr r, t) \<Rightarrow>
         (case db_error env (operation @ ''.scan'') of
            Some err \<Rightarrow> (Inl (databaseError (operation @ ''.scan'') err), if db_commit_applied env then t else s)
          | None \<Rightarrow>
              (case db_error env (operation @ ''.rows'') of
                 Some err \<Rightarrow> (Inl (databaseError (operation @ ''.rows'') err), if db_commit_applied env then t else s)
               | None \<Rightarrow> (Inr r, t))))"

text \<open>The statement fails where a counter of a claimed row would leave its column.\<close>

definition counters_ok :: "(int \<times> 'a QueueRow_scheme) list \<Rightarrow> int list \<Rightarrow> bool" where
  "counters_ok queue ids \<longleftrightarrow> list_all (\<lambda>(i, row). i \<in> set ids \<longrightarrow>
     qr_attempts row < 2 ^ 31 - 1 \<and> qr_fencing_token row < 2 ^ 63 - 1) queue"

definition ClaimOutbox ::
    "PgEnv \<Rightarrow> string \<Rightarrow> int \<Rightarrow> duration \<Rightarrow> 'h PgDB \<Rightarrow> OutboxMessage list result \<times> 'h PgDB" where
  "ClaimOutbox env workerID limit ttl db =
    (if rune_count workerID < 1 \<or> rune_count workerID > 500 \<or> limit < 1 \<or> limit > 1000 then
       (Inl (New CodeInvalidArgument ''postgres.ClaimOutbox''
         (Msg ''worker ID of at most 500 characters and a limit between 1 and 1000 are required'' [])), db)
     else if ttl < Millisecond \<or> ttl > Hour then
       (Inl (New CodeInvalidArgument ''postgres.ClaimOutbox''
         (Msg ''claim TTL must be between one millisecond and one hour'' [])), db)
     else
       let e = db_of env; ids = claim_ids env limit (pg_outbox db);
           db' = db\<lparr>pg_outbox := map (\<lambda>(i, row). (i, if i \<in> set ids then claim_row env workerID ttl i row else row)) (pg_outbox db)\<rparr>
       in read_rows e ''postgres.ClaimOutbox''
            (db_commit e ''postgres.ClaimOutbox''
              (db_exec e ''postgres.ClaimOutbox'' [workerID]
                (pg_check ''postgres.ClaimOutbox'' (if counters_ok (pg_outbox db) ids then None else Some (PgError ''22003''))
                  (Inr (claimed_messages db' ids (pg_outbox db'), db')))) db) db)"

section \<open>Completion and failure\<close>

text \<open>The claim of the worker under the token, not yet expired at the given time.\<close>

definition holds_claim :: "pgtime \<Rightarrow> string \<Rightarrow> int \<Rightarrow> 'a QueueRow_scheme \<Rightarrow> bool" where
  "holds_claim t workerID fencingToken row \<longleftrightarrow> qr_state row = ''inflight'' \<and> qr_locked_by row = Some workerID
     \<and> qr_fencing_token row = fencingToken \<and> (case qr_locked_until row of Some u \<Rightarrow> u > t | None \<Rightarrow> False)"

text \<open>The deferred trigger \<open>enforce_outbox_claim_at_commit\<close>, on the row before the update.\<close>

definition enforce_outbox_claim_at_commit :: "pgtime \<Rightarrow> 'a QueueRow_scheme \<Rightarrow> PgError option" where
  "enforce_outbox_claim_at_commit t row =
    (case (qr_locked_by row, qr_locked_until row) of
       (Some _, Some u) \<Rightarrow> if u \<le> t then Some (PgError ''40001'') else None
     | _ \<Rightarrow> Some (PgError ''40001''))"

definition publish_row :: "pgtime \<Rightarrow> 'a QueueRow_scheme \<Rightarrow> 'a QueueRow_scheme" where
  "publish_row t row = row\<lparr>qr_state := ''published'', qr_published_at := Some t, qr_locked_by := None,
     qr_locked_until := None, qr_last_error := None\<rparr>"

definition CompleteOutbox :: "PgEnv \<Rightarrow> int \<Rightarrow> string \<Rightarrow> int \<Rightarrow> 'h PgDB \<Rightarrow> unit result \<times> 'h PgDB" where
  "CompleteOutbox env outboxID workerID fencingToken db =
    (let e = db_of env; op = ''postgres.CompleteOutbox'';
         stale = New CodeConflict op (Msg ''outbox claim is stale or owned by another worker'' [])
     in db_commit e op
      (db_exec e op [workerID]
       (case map_of (pg_outbox db) outboxID of
          None \<Rightarrow> Inl stale
        | Some row \<Rightarrow>
            reject (\<not> holds_claim (db_clock env 0) workerID fencingToken row) stale
            (pg_check op (enforce_outbox_claim_at_commit (db_clock env 2) row)
              (Inr ((), db\<lparr>pg_outbox := AList.update outboxID (publish_row (db_clock env 1) row) (pg_outbox db)\<rparr>))))) db)"

text \<open>The cause of a failure: the name of its type and its text.\<close>

type_synonym cause = "string \<times> string"

definition truncateError :: "string \<Rightarrow> string" where
  "truncateError message =
    (if rune_count message \<le> 4000 then message
     else concat (map to_valid_rune (take 4000 (runes message))))"

definition insert_dead_letter ::
    "DBEnv \<Rightarrow> string \<Rightarrow> string \<Rightarrow> int \<Rightarrow> string \<Rightarrow> cause \<Rightarrow> json \<Rightarrow> 'h PgDB \<Rightarrow> 'h PgDB result" where
  "insert_dead_letter env operation projectorName outboxID eventID cause payload db =
     db_exec env operation [projectorName, fst cause, truncateError (snd cause)]
       (Inr (db\<lparr>pg_dead_letters := pg_dead_letters db @
          [\<lparr>dl_projector_name = projectorName, dl_outbox_id = outboxID, dl_event_id = eventID, dl_error_class = fst cause,
            dl_error_message = truncateError (snd cause), dl_payload = payload\<rparr>]\<rparr>))"

definition fail_row :: "string \<Rightarrow> time \<Rightarrow> cause \<Rightarrow> 'a QueueRow_scheme \<Rightarrow> 'a QueueRow_scheme" where
  "fail_row nextState retryAt cause row = row\<lparr>qr_state := nextState, qr_available_at := retryAt div 1000,
     qr_locked_by := None, qr_locked_until := None, qr_last_error := Some (truncateError (snd cause))\<rparr>"

definition FailOutbox ::
    "PgEnv \<Rightarrow> int \<Rightarrow> string \<Rightarrow> int \<Rightarrow> cause option \<Rightarrow> time \<Rightarrow> int \<Rightarrow> 'h PgDB \<Rightarrow> unit result \<times> 'h PgDB" where
  "FailOutbox env outboxID workerID fencingToken cause retryAt maxAttempts db =
    (case cause of
       None \<Rightarrow> (Inl (New CodeInvalidArgument ''postgres.FailOutbox''
                 (Msg ''cause, retry time, and positive max attempts are required'' [])), db)
     | Some cause \<Rightarrow>
    if maxAttempts < 1 \<or> retryAt = zero_time then
      (Inl (New CodeInvalidArgument ''postgres.FailOutbox''
        (Msg ''cause, retry time, and positive max attempts are required'' [])), db)
    else let e = db_of env;
             stale = New CodeConflict ''postgres.FailOutbox'' (Msg ''outbox claim is stale or owned by another worker'' [])
    in run_tx env
     (db_call e ''postgres.FailOutbox.begin''
     (db_exec e ''postgres.FailOutbox.select'' [workerID]
     (case map_of (pg_outbox db) outboxID of
        None \<Rightarrow> Inl stale
      | Some row \<Rightarrow>
     reject (\<not> holds_claim (db_clock env 0) workerID fencingToken row) stale
     (case message_of db outboxID row of
        None \<Rightarrow> Inl stale
      | Some message \<Rightarrow>
     let nextState = (if qr_attempts row \<ge> maxAttempts then ''dead'' else ''pending'') in
     andThen (if nextState = ''dead''
        then insert_dead_letter e ''postgres.FailOutbox.deadLetter'' workerID outboxID (om_EventID message) cause (om_Payload message) db
        else Inr db) (\<lambda>db.
     db_exec e ''postgres.FailOutbox.update'' [truncateError (snd cause), workerID]
     (reject (\<not> holds_claim (db_clock env 1) workerID fencingToken row)
        (New CodeConflict ''postgres.FailOutbox'' (Msg ''outbox claim expired before the final write'' []))
     (pg_check ''postgres.FailOutbox.commit'' (enforce_outbox_claim_at_commit (db_clock env 2) row)
       (Inr ((Some ''postgres.FailOutbox.commit'', ()),
         db\<lparr>pg_outbox := AList.update outboxID (fail_row nextState retryAt cause row) (pg_outbox db)\<rparr>))))))))) db)"

section \<open>Projectors\<close>

text \<open>The index of a rune is that of its first byte.\<close>

fun projector_runes_ok :: "nat \<Rightarrow> string list \<Rightarrow> bool" where
  "projector_runes_ok index [] \<longleftrightarrow> True"
| "projector_runes_ok index (r # rs) \<longleftrightarrow>
     (case r of
        [c] \<Rightarrow> byte_in 0x61 0x7A c \<or> (index > 0 \<and> (byte_in 0x30 0x39 c \<or> c \<in> set ''_.-''))
      | _ \<Rightarrow> False)
     \<and> projector_runes_ok (index + length r) rs"

definition validProjectorName :: "string \<Rightarrow> bool" where
  "validProjectorName name \<longleftrightarrow> \<not> (rune_count name < 1 \<or> rune_count name > 120) \<and> projector_runes_ok 0 (runes name)"

definition DefaultQdrantProjectorName :: string where
  "DefaultQdrantProjectorName = ''qdrant.retrieval''"

text \<open>The deliveries of one projector.\<close>

definition projector_queue :: "string \<Rightarrow> 'h PgDB \<Rightarrow> (int \<times> QueueRow) list" where
  "projector_queue projector db =
     List.map_filter (\<lambda>((p, i), row). if p = projector then Some (i, row) else None) (pg_deliveries db)"

text \<open>\<open>INSERT ... SELECT ... FROM forja.outbox ... ON CONFLICT DO NOTHING\<close>.\<close>

definition backfill_deliveries :: "string \<Rightarrow> 'h PgDB \<Rightarrow> 'h PgDB" where
  "backfill_deliveries projector db =
     db\<lparr>pg_deliveries := pg_deliveries db @
        map (\<lambda>(i, ob). ((projector, i), pending_row (qr_available_at ob)))
          (filter (\<lambda>(i, _). map_of (pg_deliveries db) (projector, i) = None) (pg_outbox db))\<rparr>"

definition EnsureProjectionConsumer :: "PgEnv \<Rightarrow> string \<Rightarrow> 'h \<Rightarrow> 'h PgDB \<Rightarrow> unit result \<times> 'h PgDB" where
  "EnsureProjectionConsumer env projectorName configurationHash db =
    (if \<not> validProjectorName projectorName then
       (Inl (New CodeInvalidArgument ''postgres.EnsureProjectionConsumer'' (Msg ''projector name is invalid'' [])), db)
     else let e = db_of env in run_tx env
      (db_call e ''postgres.EnsureProjectionConsumer.begin''
      (db_call e ''postgres.EnsureProjectionConsumer.lockWatermark''
      (db_call e ''postgres.EnsureProjectionConsumer.load''
      (andThen
        (case map_of (pg_consumers db) projectorName of
           None \<Rightarrow> db_call e ''postgres.EnsureProjectionConsumer.insert''
             (Inr (db\<lparr>pg_consumers := AList.update projectorName
                \<lparr>cn_status = ''active'', cn_configuration = configurationHash\<rparr> (pg_consumers db)\<rparr>))
         | Some consumer \<Rightarrow>
             reject (cn_configuration consumer \<noteq> configurationHash)
               (New CodeConflict ''postgres.EnsureProjectionConsumer''
                 (Msg ''projector configuration hash differs from registered consumer'' [])) (Inr db)) (\<lambda>db.
       db_call e ''postgres.EnsureProjectionConsumer.backfill''
       (let db = backfill_deliveries projectorName db in
       db_call e ''postgres.EnsureProjectionConsumer.checkpoint''
       (Inr ((Some ''postgres.EnsureProjectionConsumer.commit'', ()),
          if map_of (pg_checkpoints db) projectorName = None
          then db\<lparr>pg_checkpoints := AList.update projectorName 0 (pg_checkpoints db)\<rparr> else db)))))))) db)"

definition update_deliveries :: "string \<Rightarrow> (int \<Rightarrow> QueueRow \<Rightarrow> QueueRow) \<Rightarrow> 'h PgDB \<Rightarrow> 'h PgDB" where
  "update_deliveries projector f db =
     db\<lparr>pg_deliveries := map (\<lambda>((p, i), row). ((p, i), if p = projector then f i row else row)) (pg_deliveries db)\<rparr>"

definition ClaimProjectionDeliveries ::
    "PgEnv \<Rightarrow> string \<Rightarrow> string \<Rightarrow> int \<Rightarrow> duration \<Rightarrow> 'h PgDB \<Rightarrow> ProjectionDelivery list result \<times> 'h PgDB" where
  "ClaimProjectionDeliveries env projectorName workerID limit ttl db =
    (if \<not> validProjectorName projectorName \<or> rune_count workerID < 1 \<or> rune_count workerID > 500 \<or> limit < 1 \<or> limit > 1000 then
       (Inl (New CodeInvalidArgument ''postgres.ClaimProjectionDeliveries'' (Msg ''projector, worker ID, and limit are invalid'' [])), db)
     else if ttl < Millisecond \<or> ttl > Hour then
       (Inl (New CodeInvalidArgument ''postgres.ClaimProjectionDeliveries''
         (Msg ''claim TTL must be between one millisecond and one hour'' [])), db)
     else
       let e = db_of env; queue = projector_queue projectorName db; ids = claim_ids env limit queue;
           db' = update_deliveries projectorName (\<lambda>i row. if i \<in> set ids then claim_row env workerID ttl i row else row) db
       in read_rows e ''postgres.ClaimProjectionDeliveries''
            (db_commit e ''postgres.ClaimProjectionDeliveries''
              (db_exec e ''postgres.ClaimProjectionDeliveries'' [workerID]
                (pg_check ''postgres.ClaimProjectionDeliveries'' (if counters_ok queue ids then None else Some (PgError ''22003''))
                  (Inr (map (\<lambda>m. OutboxMessage.extend m (ProjectionDelivery.fields projectorName))
                     (claimed_messages db' ids (projector_queue projectorName db')), db')))) db) db)"

text \<open>
  \<open>COALESCE\<close> of the identity before the first unpublished delivery after the checkpoint, of
  the last delivery, and of the checkpoint itself; the checkpoint never moves back.
\<close>

definition advanced_checkpoint :: "(int \<times> QueueRow) list \<Rightarrow> int \<Rightarrow> int" where
  "advanced_checkpoint queue last_id =
    (let pending = map fst (filter (\<lambda>(i, row). i > last_id \<and> qr_state row \<noteq> ''published'') queue);
         ids = map fst queue
     in max last_id (case pending of
          i # is \<Rightarrow> foldr min is i - 1
        | [] \<Rightarrow> (case ids of i # is \<Rightarrow> foldr max is i | [] \<Rightarrow> last_id)))"

definition advanceProjectionCheckpoint :: "DBEnv \<Rightarrow> string \<Rightarrow> 'h PgDB \<Rightarrow> 'h PgDB result" where
  "advanceProjectionCheckpoint env projectorName db =
     db_call env ''postgres.advanceProjectionCheckpoint''
       (case map_of (pg_checkpoints db) projectorName of
          None \<Rightarrow> Inl (New CodeConflict ''postgres.advanceProjectionCheckpoint'' (Msg ''projection checkpoint is missing'' []))
        | Some last_id \<Rightarrow> Inr (db\<lparr>pg_checkpoints := AList.update projectorName
             (advanced_checkpoint (projector_queue projectorName db) last_id) (pg_checkpoints db)\<rparr>))"

definition CompleteProjectionDelivery ::
    "PgEnv \<Rightarrow> string \<Rightarrow> int \<Rightarrow> string \<Rightarrow> int \<Rightarrow> 'h PgDB \<Rightarrow> unit result \<times> 'h PgDB" where
  "CompleteProjectionDelivery env projectorName outboxID workerID fencingToken db =
    (if \<not> validProjectorName projectorName \<or> outboxID < 1 \<or> workerID = [] \<or> fencingToken < 1 then
       (Inl (New CodeInvalidArgument ''postgres.CompleteProjectionDelivery''
         (Msg ''projection completion arguments are invalid'' [])), db)
     else let e = db_of env;
              stale = New CodeConflict ''postgres.CompleteProjectionDelivery''
                (Msg ''projection delivery claim is stale or owned by another worker'' [])
     in run_tx env
      (db_call e ''postgres.CompleteProjectionDelivery.begin''
      (db_exec e ''postgres.CompleteProjectionDelivery.update'' [workerID]
      (case map_of (pg_deliveries db) (projectorName, outboxID) of
         None \<Rightarrow> Inl stale
       | Some row \<Rightarrow>
      reject (\<not> holds_claim (db_clock env 0) workerID fencingToken row) stale
      (andThen (advanceProjectionCheckpoint e projectorName
         (db\<lparr>pg_deliveries := AList.update (projectorName, outboxID) (publish_row (db_clock env 1) row) (pg_deliveries db)\<rparr>)) (\<lambda>db.
       Inr ((Some ''postgres.CompleteProjectionDelivery.commit'', ()), db)))))) db)"

definition FailProjectionDelivery ::
    "PgEnv \<Rightarrow> string \<Rightarrow> int \<Rightarrow> string \<Rightarrow> int \<Rightarrow> cause option \<Rightarrow> time \<Rightarrow> int \<Rightarrow> 'h PgDB \<Rightarrow> unit result \<times> 'h PgDB" where
  "FailProjectionDelivery env projectorName outboxID workerID fencingToken cause retryAt maxAttempts db =
    (let invalid = (Inl (New CodeInvalidArgument ''postgres.FailProjectionDelivery''
           (Msg ''projection failure arguments are invalid'' [])), db)
     in case cause of None \<Rightarrow> invalid | Some cause \<Rightarrow>
     if \<not> validProjectorName projectorName \<or> outboxID < 1 \<or> workerID = [] \<or> fencingToken < 1
        \<or> retryAt = zero_time \<or> maxAttempts < 1 then invalid
     else let e = db_of env;
              stale = New CodeConflict ''postgres.FailProjectionDelivery''
                (Msg ''projection delivery claim is stale or owned by another worker'' [])
     in run_tx env
      (db_call e ''postgres.FailProjectionDelivery.begin''
      (db_exec e ''postgres.FailProjectionDelivery.select'' [workerID]
      (case map_of (pg_deliveries db) (projectorName, outboxID) of
         None \<Rightarrow> Inl stale
       | Some row \<Rightarrow>
      reject (\<not> holds_claim (db_clock env 0) workerID fencingToken row) stale
      (case message_of db outboxID row of
         None \<Rightarrow> Inl stale
       | Some message \<Rightarrow>
      let nextState = (if qr_attempts row \<ge> maxAttempts then ''dead'' else ''pending'') in
      andThen (if nextState = ''dead''
         then insert_dead_letter e ''postgres.FailProjectionDelivery.deadLetter'' projectorName outboxID
           (om_EventID message) cause (om_Payload message) db
         else Inr db) (\<lambda>db.
      db_exec e ''postgres.FailProjectionDelivery.update'' [truncateError (snd cause), workerID]
      (reject (\<not> holds_claim (db_clock env 1) workerID fencingToken row)
         (New CodeConflict ''postgres.FailProjectionDelivery'' (Msg ''projection delivery claim expired before final write'' []))
       (Inr ((Some ''postgres.FailProjectionDelivery.commit'', ()),
         db\<lparr>pg_deliveries := AList.update (projectorName, outboxID) (fail_row nextState retryAt cause row)
           (pg_deliveries db)\<rparr>)))))))) db)"

definition RequeueProjectionDelivery :: "PgEnv \<Rightarrow> string \<Rightarrow> int \<Rightarrow> 'h PgDB \<Rightarrow> unit result \<times> 'h PgDB" where
  "RequeueProjectionDelivery env projectorName outboxID db =
    (if \<not> validProjectorName projectorName \<or> outboxID < 1 then
       (Inl (New CodeInvalidArgument ''postgres.RequeueProjectionDelivery''
         (Msg ''projector name or outbox ID is invalid'' [])), db)
     else let e = db_of env; op = ''postgres.RequeueProjectionDelivery'' in db_commit e op
      (db_call e op
      (case map_of (pg_deliveries db) (projectorName, outboxID) of
         None \<Rightarrow> Inl (New CodeConflict op (Msg ''projection delivery is not dead'' []))
       | Some row \<Rightarrow>
           reject (qr_state row \<noteq> ''dead'') (New CodeConflict op (Msg ''projection delivery is not dead'' []))
            (Inr ((), db\<lparr>pg_deliveries := AList.update (projectorName, outboxID)
               (row\<lparr>qr_state := ''pending'', qr_available_at := db_clock env 0, qr_locked_by := None,
                    qr_locked_until := None, qr_attempts := 0, qr_last_error := None\<rparr>) (pg_deliveries db)\<rparr>)))) db)"

definition RetrievalProjectionLag :: "DBEnv \<Rightarrow> 'h PgDB \<Rightarrow> int result" where
  "RetrievalProjectionLag env db =
     db_call env ''postgres.RetrievalProjectionLag''
      (let name = DefaultQdrantProjectorName;
           active = table_ex (\<lambda>p consumer. p = name \<and> cn_status consumer = ''active'') (pg_consumers db);
           lag = int (length (filter (\<lambda>(_, row). qr_state row \<noteq> ''published'') (projector_queue name db)))
       in reject (\<not> active) (New CodeUnavailable ''postgres.RetrievalProjectionLag''
            (Msg ''retrieval projection consumer is not active'' [])) (Inr lag))"

section \<open>Rebuilding a projector\<close>

definition retrievalGenerationIDPattern :: "(char \<Rightarrow> bool) list" where
  "retrievalGenerationIDPattern = char_classes ''retrieval_generation_'' @ replicate 64 (\<lambda>c. c \<in> set ''abcdef0123456789'')"

definition IsRetrievalGenerationID :: "string \<Rightarrow> bool" where
  "IsRetrievalGenerationID i = MatchString retrievalGenerationIDPattern i"

definition reset_row :: "pgtime \<Rightarrow> QueueRow \<Rightarrow> QueueRow" where
  "reset_row t row = row\<lparr>qr_state := ''pending'', qr_available_at := t, qr_locked_by := None, qr_locked_until := None,
     qr_fencing_token := qr_fencing_token row + 1, qr_attempts := 0, qr_last_error := Some ''rebuild_requested'',
     qr_published_at := None\<rparr>"

text \<open>The first argument is the hash of 32 zero bytes.\<close>

definition ResetRetrievalProjection :: "'h \<Rightarrow> PgEnv \<Rightarrow> string \<Rightarrow> 'h \<Rightarrow> string \<Rightarrow> 'h PgDB \<Rightarrow> unit result \<times> 'h PgDB" where
  "ResetRetrievalProjection zeroHash env projectorName configurationHash generationID db =
    (let op = ''postgres.ResetRetrievalProjection'' in
     if \<not> validProjectorName projectorName \<or> configurationHash = zeroHash \<or> \<not> IsRetrievalGenerationID generationID then
       (Inl (New CodeInvalidArgument op (Msg ''projector, configuration hash, or generation is invalid'' [])), db)
     else let e = db_of env in run_tx env
      (db_call e ''postgres.ResetRetrievalProjection.begin''
      (db_call e ''postgres.ResetRetrievalProjection.lockWatermark''
      (db_call e ''postgres.ResetRetrievalProjection.consumer''
      (case map_of (pg_consumers db) projectorName of
         None \<Rightarrow> Inl (New CodeNotFound op (Msg ''projection consumer is not registered'' []))
       | Some consumer \<Rightarrow>
      reject (cn_status consumer \<noteq> ''active'' \<or> cn_configuration consumer \<noteq> configurationHash)
        (New CodeConflict op (Msg ''projection consumer is not the registered active configuration'' []))
      (db_call e ''postgres.ResetRetrievalProjection.generation''
      (case map_of (pg_generations db) generationID of
         None \<Rightarrow> Inl (New CodeNotFound op (Msg ''retrieval generation is not registered'' []))
       | Some generationStatus \<Rightarrow>
      reject (generationStatus = ''retired'' \<or> generationStatus = ''failed'')
        (New CodeConflict op (Msg ''retrieval generation cannot be rebuilt'' []))
      (db_call e ''postgres.ResetRetrievalProjection.inflight''
      (reject (list_ex (\<lambda>(_, row). qr_state row = ''inflight'') (projector_queue projectorName db))
        (New CodeConflict op (Msg ''projection deliveries are still inflight'' []))
      (db_call e ''postgres.ResetRetrievalProjection.clearPoints''
      (let db = db\<lparr>pg_points := filter (\<lambda>(g, _). g \<noteq> generationID) (pg_points db)\<rparr> in
       db_call e ''postgres.ResetRetrievalProjection.backfill''
      (let db = backfill_deliveries projectorName db in
       db_call e ''postgres.ResetRetrievalProjection.resetDeliveries''
      (let db = update_deliveries projectorName (\<lambda>i. reset_row (db_row_clock env 0 [itoa i])) db in
       db_call e ''postgres.ResetRetrievalProjection.resetCheckpoint''
      (Inr ((Some ''postgres.ResetRetrievalProjection.commit'', ()),
         db\<lparr>pg_checkpoints := map (\<lambda>(p, c). (p, if p = projectorName then 0 else c)) (pg_checkpoints db)\<rparr>)))))))))))))) db)"

section \<open>The queues do not touch what is governed\<close>

lemma core_queue_simps [simp]:
  "core (db\<lparr>pg_outbox := x\<rparr>) = core db" "core (db\<lparr>pg_deliveries := x1\<rparr>) = core db" "core (db\<lparr>pg_consumers := x2\<rparr>) = core db"
  "core (db\<lparr>pg_checkpoints := x3\<rparr>) = core db" "core (db\<lparr>pg_dead_letters := x4\<rparr>) = core db"
  "core (db\<lparr>pg_projections := x5\<rparr>) = core db" "core (db\<lparr>pg_points := x6\<rparr>) = core db"
  "core (db\<lparr>pg_generations := x7\<rparr>) = core db" "core (db\<lparr>pg_publications := x8\<rparr>) = core db"
  by (simp_all add: core_def)

lemma stream_queue_simps [simp]:
  "stream (db\<lparr>pg_outbox := x\<rparr>) = stream db" "stream (db\<lparr>pg_deliveries := x1\<rparr>) = stream db"
  "stream (db\<lparr>pg_consumers := x2\<rparr>) = stream db" "stream (db\<lparr>pg_checkpoints := x3\<rparr>) = stream db"
  "stream (db\<lparr>pg_dead_letters := x4\<rparr>) = stream db" "stream (db\<lparr>pg_projections := x5\<rparr>) = stream db"
  "stream (db\<lparr>pg_points := x6\<rparr>) = stream db" "stream (db\<lparr>pg_generations := x7\<rparr>) = stream db"
  "stream (db\<lparr>pg_publications := x8\<rparr>) = stream db"
  by (simp_all add: stream_def fun_eq_iff)

lemma untouched_trans: "untouched a b \<Longrightarrow> untouched b c \<Longrightarrow> untouched a c"
  by (simp add: untouched_def)

lemma db_commit_states: "db_commit e operation work db = (res, db') \<Longrightarrow> db' = db \<or> (\<exists>r. work = Inr (r, db'))"
  by (auto simp: db_commit_def split: sum.splits option.splits if_splits)

lemma read_rows_state: "read_rows e operation outcome db = (res, db') \<Longrightarrow> db' = db \<or> db' = snd outcome"
  by (auto simp: read_rows_def split: prod.splits sum.splits option.splits if_splits)

lemma claim_state:
  assumes "read_rows e operation (db_commit e operation work db) db = (res, db')" "\<And>r t. work = Inr (r, t) \<Longrightarrow> t = u"
  shows "db' = db \<or> db' = u"
proof -
  obtain r t where rt: "db_commit e operation work db = (r, t)" by fastforce
  then have "t = db \<or> t = u" using assms(2) by (auto dest: db_commit_states)
  with read_rows_state [OF assms(1) [unfolded rt]] show ?thesis by auto
qed

lemma ClaimOutbox_state:
  assumes "ClaimOutbox env workerID limit ttl db = (res, db')"
  shows "db' = db \<or> db' = db\<lparr>pg_outbox := map (\<lambda>(i, row). (i, if i \<in> set (claim_ids env limit (pg_outbox db))
      then claim_row env workerID ttl i row else row)) (pg_outbox db)\<rparr>"
proof (cases "rune_count workerID < 1 \<or> rune_count workerID > 500 \<or> limit < 1 \<or> limit > 1000 \<or> ttl < Millisecond \<or> ttl > Hour")
  case False
  with assms show ?thesis
    unfolding ClaimOutbox_def Let_def by (simp only: de_Morgan_disj if_False simp_thms) (erule claim_state, auto)
qed (use assms in \<open>auto simp: ClaimOutbox_def split: if_splits\<close>)

lemma ClaimProjectionDeliveries_state:
  assumes "ClaimProjectionDeliveries env projector workerID limit ttl db = (res, db')"
  shows "db' = db \<or> db' = update_deliveries projector (\<lambda>i row. if i \<in> set (claim_ids env limit (projector_queue projector db))
      then claim_row env workerID ttl i row else row) db"
proof (cases "\<not> validProjectorName projector \<or> rune_count workerID < 1 \<or> rune_count workerID > 500 \<or> limit < 1 \<or> limit > 1000
    \<or> ttl < Millisecond \<or> ttl > Hour")
  case False
  with assms show ?thesis
    unfolding ClaimProjectionDeliveries_def Let_def by (simp only: de_Morgan_disj if_False simp_thms) (erule claim_state, auto)
qed (use assms in \<open>auto simp: ClaimProjectionDeliveries_def split: if_splits\<close>)

lemma CompleteOutbox_state:
  assumes "CompleteOutbox env i w token db = (res, db')"
  shows "db' = db \<or> (\<exists>row t. map_of (pg_outbox db) i = Some row \<and> holds_claim (db_clock env 0) w token row
    \<and> db' = db\<lparr>pg_outbox := AList.update i (publish_row t row) (pg_outbox db)\<rparr>)"
  using assms unfolding CompleteOutbox_def Let_def
  by (auto dest!: db_commit_states split: option.splits)

lemma insert_dead_letter_Inr:
  assumes "insert_dead_letter e operation p i ev cause payload db = Inr db'"
  obtains dl where "db' = db\<lparr>pg_dead_letters := pg_dead_letters db @ [dl]\<rparr>" "dl_projector_name dl = p" "dl_outbox_id dl = i"
    "dl_error_message dl = truncateError (snd cause)"
  using assms by (auto simp: insert_dead_letter_def)

lemma FailOutbox_state:
  assumes "FailOutbox env i w token cause retryAt maxAttempts db = (res, db')"
  shows "db' = db \<or> (\<exists>row c st dls. map_of (pg_outbox db) i = Some row \<and> holds_claim (db_clock env 0) w token row
    \<and> st \<in> {''dead'', ''pending''} \<and> db' = db\<lparr>pg_dead_letters := dls, pg_outbox := AList.update i (fail_row st retryAt c row) (pg_outbox db)\<rparr>)"
proof (cases cause)
  case (Some c)
  show ?thesis
  proof (cases "maxAttempts < 1 \<or> retryAt = zero_time")
    case False
    consider "db' = db" | row st db1 where "map_of (pg_outbox db) i = Some row" "holds_claim (db_clock env 0) w token row"
      "st \<in> {''dead'', ''pending''}" "(\<exists>op q ev y. insert_dead_letter (db_of env) op q i ev c y db = Inr db1) \<or> db1 = db"
      "db' = db1\<lparr>pg_outbox := AList.update i (fail_row st retryAt c row) (pg_outbox db1)\<rparr>"
      using assms Some False unfolding FailOutbox_def Let_def
      by (auto dest!: run_tx_state split: option.splits if_splits) blast+
    then show ?thesis
    proof cases
      case 2
      obtain dls where "db1 = db\<lparr>pg_dead_letters := dls\<rparr>"
      proof (cases "db1 = db")
        case True
        then show ?thesis by (intro that [of "pg_dead_letters db"]) simp
      next
        case False
        with 2(4) show ?thesis by (auto elim!: insert_dead_letter_Inr intro: that)
      qed
      with 2 show ?thesis
        by (intro disjI2 exI [of _ row] exI [of _ c] exI [of _ st] exI [of _ dls]) simp
    qed simp
  qed (use assms Some in \<open>simp add: FailOutbox_def\<close>)
qed (use assms in \<open>simp add: FailOutbox_def\<close>)

lemma CompleteProjectionDelivery_state:
  assumes "CompleteProjectionDelivery env p i w token db = (res, db')"
  shows "db' = db \<or> (\<exists>row t c db1. map_of (pg_deliveries db) (p, i) = Some row \<and> holds_claim (db_clock env 0) w token row
    \<and> map_of (pg_checkpoints db) p = Some c
    \<and> db1 = db\<lparr>pg_deliveries := AList.update (p, i) (publish_row t row) (pg_deliveries db)\<rparr>
    \<and> db' = db1\<lparr>pg_checkpoints := AList.update p (advanced_checkpoint (projector_queue p db1) c) (pg_checkpoints db)\<rparr>)"
  using assms unfolding CompleteProjectionDelivery_def Let_def
  by (auto simp: advanceProjectionCheckpoint_def dest!: run_tx_state split: option.splits if_splits)

lemma FailProjectionDelivery_state:
  assumes "FailProjectionDelivery env p i w token cause retryAt maxAttempts db = (res, db')"
  shows "db' = db \<or> (\<exists>row c st dls. map_of (pg_deliveries db) (p, i) = Some row \<and> holds_claim (db_clock env 0) w token row
    \<and> st \<in> {''dead'', ''pending''}
    \<and> db' = db\<lparr>pg_dead_letters := dls, pg_deliveries := AList.update (p, i) (fail_row st retryAt c row) (pg_deliveries db)\<rparr>)"
proof (cases cause)
  case (Some c)
  show ?thesis
  proof (cases "\<not> validProjectorName p \<or> i < 1 \<or> w = [] \<or> token < 1 \<or> retryAt = zero_time \<or> maxAttempts < 1")
    case False
    consider "db' = db" | row st db1 where "map_of (pg_deliveries db) (p, i) = Some row" "holds_claim (db_clock env 0) w token row"
      "st \<in> {''dead'', ''pending''}" "(\<exists>op q ev y. insert_dead_letter (db_of env) op q i ev c y db = Inr db1) \<or> db1 = db"
      "db' = db1\<lparr>pg_deliveries := AList.update (p, i) (fail_row st retryAt c row) (pg_deliveries db1)\<rparr>"
      using assms Some False unfolding FailProjectionDelivery_def Let_def
      by (auto dest!: run_tx_state split: option.splits if_splits) blast+
    then show ?thesis
    proof cases
      case 2
      obtain dls where "db1 = db\<lparr>pg_dead_letters := dls\<rparr>"
      proof (cases "db1 = db")
        case True
        then show ?thesis by (intro that [of "pg_dead_letters db"]) simp
      next
        case False
        with 2(4) show ?thesis by (auto elim!: insert_dead_letter_Inr intro: that)
      qed
      with 2 show ?thesis
        by (intro disjI2 exI [of _ row] exI [of _ c] exI [of _ st] exI [of _ dls]) simp
    qed simp
  qed (use assms Some in \<open>simp add: FailProjectionDelivery_def\<close>)
qed (use assms in \<open>simp add: FailProjectionDelivery_def\<close>)

lemma RequeueProjectionDelivery_state:
  assumes "RequeueProjectionDelivery env p i db = (res, db')"
  shows "db' = db \<or> (\<exists>row t. map_of (pg_deliveries db) (p, i) = Some row \<and> qr_state row = ''dead''
    \<and> db' = db\<lparr>pg_deliveries := AList.update (p, i) (row\<lparr>qr_state := ''pending'', qr_available_at := t, qr_locked_by := None,
         qr_locked_until := None, qr_attempts := 0, qr_last_error := None\<rparr>) (pg_deliveries db)\<rparr>)"
  using assms unfolding RequeueProjectionDelivery_def Let_def
  by (auto dest!: db_commit_states split: option.splits if_splits)

definition consumer_added :: "string \<Rightarrow> 'h \<Rightarrow> 'h PgDB \<Rightarrow> 'h PgDB" where
  "consumer_added p h db = (if map_of (pg_consumers db) p = None
     then db\<lparr>pg_consumers := AList.update p \<lparr>cn_status = ''active'', cn_configuration = h\<rparr> (pg_consumers db)\<rparr> else db)"

definition checkpoint_added :: "string \<Rightarrow> 'h PgDB \<Rightarrow> 'h PgDB" where
  "checkpoint_added p db = (if map_of (pg_checkpoints db) p = None
     then db\<lparr>pg_checkpoints := AList.update p 0 (pg_checkpoints db)\<rparr> else db)"

lemma EnsureProjectionConsumer_state:
  assumes "EnsureProjectionConsumer env p h db = (res, db')"
  shows "db' = db \<or> db' = checkpoint_added p (backfill_deliveries p (consumer_added p h db))"
  using assms unfolding EnsureProjectionConsumer_def Let_def
  by (auto simp: consumer_added_def checkpoint_added_def dest!: run_tx_state split: option.splits if_splits)

lemma ResetRetrievalProjection_state:
  assumes "ResetRetrievalProjection z env p h g db = (res, db')"
  shows "db' = db \<or> (\<exists>pts ck f. map_of (pg_consumers db) p \<noteq> None
    \<and> f = (\<lambda>i. reset_row (db_row_clock env 0 [itoa i]))
    \<and> ck = map (\<lambda>(q, c). (q, if q = p then 0 else c)) (pg_checkpoints db)
    \<and> db' = (update_deliveries p f (backfill_deliveries p (db\<lparr>pg_points := pts\<rparr>)))\<lparr>pg_checkpoints := ck\<rparr>)"
  using assms unfolding ResetRetrievalProjection_def Let_def
  by (auto simp: update_deliveries_def backfill_deliveries_def dest!: run_tx_state split: option.splits if_splits)

section \<open>Error texts\<close>

text \<open>
  C34. The error text of a failed delivery fits its column: \<open>truncateError\<close> keeps a text of
  at most 4000 runes, and shortens a longer one to exactly 4000 runes of well-formed UTF-8.
\<close>

theorem truncateError_bounds:
  "rune_count (truncateError m) = min 4000 (rune_count m)
   \<and> (rune_count m \<le> 4000 \<and> truncateError m = m \<or> valid_utf8 (truncateError m))"
proof (cases "rune_count m \<le> 4000")
  case False
  let ?rs = "map to_valid_rune (take 4000 (runes m))"
  have "runes (concat ?rs) = ?rs \<and> valid_utf8 (concat ?rs)"
    by (rule runes_concat_valid) (use runes_to_valid in \<open>auto dest: in_set_takeD\<close>)
  moreover have "length ?rs = 4000" using False by (simp add: rune_count_def)
  ultimately show ?thesis using False by (simp add: truncateError_def rune_count_def)
qed (simp add: truncateError_def)

end
