(* ===== verification/PgSafety.thy ===== *)
theory PgSafety
  imports PgQueues
begin

text \<open>
  The histories of the durable repository: every command of the repository and of the
  queues, in any order and with any outcome of the database, and the writes of the other
  components to the same tables, which append events of other aggregates and change
  publications, retrieval generations and points. The clock of the application shows a time
  after the zero instant; nothing else is assumed of the environment of a call.
\<close>

inductive pg_step :: "(string \<Rightarrow> 'h) \<Rightarrow> LeaseStore \<Rightarrow> 'h PgDB \<Rightarrow> 'h PgDB \<Rightarrow> bool" for sha256 s where
  step_CreateRun: "clock_ok env \<Longrightarrow> Pg_CreateRun sha256 env s i obj m db = (r, db') \<Longrightarrow> pg_step sha256 s db db'"
| step_TransitionRun: "clock_ok env \<Longrightarrow> Pg_TransitionRun sha256 env s i v target m db = (r, db') \<Longrightarrow> pg_step sha256 s db db'"
| step_ResumeRun: "clock_ok env \<Longrightarrow> Pg_ResumeRun sha256 env s i v m db = (r, db') \<Longrightarrow> pg_step sha256 s db db'"
| step_PlanSprint: "clock_ok env \<Longrightarrow> Pg_PlanSprint sha256 env s pc m db = (rp, db') \<Longrightarrow> pg_step sha256 s db db'"
| step_SubmitSprint: "clock_ok env \<Longrightarrow> Pg_SubmitSprint sha256 env s sc m db = (rs, db') \<Longrightarrow> pg_step sha256 s db db'"
| step_ResolveDecision: "clock_ok env \<Longrightarrow> Pg_ResolveDecision sha256 env s dc m db = (rd, db') \<Longrightarrow> pg_step sha256 s db db'"
| step_RecordToolAudit: "Pg_RecordToolAudit env rec db = (u, db') \<Longrightarrow> pg_step sha256 s db db'"
| step_RebuildRunProjection: "RebuildRunProjection env p db = (u, db') \<Longrightarrow> pg_step sha256 s db db'"
| step_ClaimOutbox: "ClaimOutbox env w limit ttl db = (ms, db') \<Longrightarrow> pg_step sha256 s db db'"
| step_CompleteOutbox: "CompleteOutbox env n w token db = (u, db') \<Longrightarrow> pg_step sha256 s db db'"
| step_FailOutbox: "FailOutbox env n w token cause at maxAttempts db = (u, db') \<Longrightarrow> pg_step sha256 s db db'"
| step_EnsureProjectionConsumer: "EnsureProjectionConsumer env p h db = (u, db') \<Longrightarrow> pg_step sha256 s db db'"
| step_ClaimProjectionDeliveries: "ClaimProjectionDeliveries env p w limit ttl db = (ds, db') \<Longrightarrow> pg_step sha256 s db db'"
| step_CompleteProjectionDelivery: "CompleteProjectionDelivery env p n w token db = (u, db') \<Longrightarrow> pg_step sha256 s db db'"
| step_FailProjectionDelivery: "FailProjectionDelivery env p n w token cause at maxAttempts db = (u, db') \<Longrightarrow> pg_step sha256 s db db'"
| step_RequeueProjectionDelivery: "RequeueProjectionDelivery env p n db = (u, db') \<Longrightarrow> pg_step sha256 s db db'"
| step_ResetRetrievalProjection: "ResetRetrievalProjection z env p h g db = (u, db') \<Longrightarrow> pg_step sha256 s db db'"
| step_other_event: "ty \<notin> {''run'', ''sprint'', ''decision''} \<Longrightarrow> appendEvent env k ty i v et t payload m db = Inr db' \<Longrightarrow> pg_step sha256 s db db'"
| step_other_table: "db' = db\<lparr>pg_publications := pubs, pg_generations := gens, pg_points := pts\<rparr> \<Longrightarrow> pg_step sha256 s db db'"

text \<open>Every step that is no command on runs, sprints and decisions leaves them and the run events alone.\<close>

lemma untouched_simps [simp]:
  "untouched db (db\<lparr>pg_outbox := x\<rparr>)" "untouched db (db\<lparr>pg_deliveries := x1\<rparr>)"
  "untouched db (db\<lparr>pg_dead_letters := x4, pg_outbox := x\<rparr>)" "untouched db (db\<lparr>pg_dead_letters := x4, pg_deliveries := x1\<rparr>)"
  "untouched db (db\<lparr>pg_deliveries := x1, pg_checkpoints := x3\<rparr>)" "untouched db (db\<lparr>pg_projections := x5, pg_checkpoints := x3\<rparr>)"
  "untouched db (db\<lparr>pg_publications := x6, pg_generations := x7, pg_points := x8\<rparr>)"
  "untouched db (update_deliveries p f db)" "untouched db (backfill_deliveries p db)"
  "untouched db (consumer_added p h db)" "untouched db (checkpoint_added p db)"
  "untouched db (db\<lparr>pg_points := x8\<rparr>)" "untouched db (db\<lparr>pg_checkpoints := x3\<rparr>)"
  by (simp_all add: untouched_def update_deliveries_def backfill_deliveries_def consumer_added_def checkpoint_added_def)

lemma pg_step_governed [consumes 1, case_names untouched create transition resume plan submit resolve]:
  assumes step: "pg_step sha256 s db db'"
    and same: "untouched db db' \<Longrightarrow> P"
    and create: "\<And>env scope h i obj m c r. clock_ok env \<Longrightarrow> pg_createRunTx env scope h i obj m db = Inr ((c, r), db') \<Longrightarrow> P"
    and move: "\<And>env scope h i v target m c r. clock_ok env \<Longrightarrow> pg_transitionRunTx env scope h i v target m db = Inr ((c, r), db') \<Longrightarrow> P"
    and resume: "\<And>env scope h i v m c r. clock_ok env \<Longrightarrow> pg_resumeRunTx env scope h i v m db = Inr ((c, r), db') \<Longrightarrow> P"
    and plan: "\<And>env scope h command m c r. clock_ok env \<Longrightarrow> pg_planSprintTx env scope h command m db = Inr ((c, r), db') \<Longrightarrow> P"
    and submit: "\<And>env scope h command m c r. clock_ok env \<Longrightarrow> pg_submitSprintTx env scope h command m db = Inr ((c, r), db') \<Longrightarrow> P"
    and resolve: "\<And>env scope h command m c r. clock_ok env \<Longrightarrow> pg_resolveDecisionTx env scope h command m db = Inr ((c, r), db') \<Longrightarrow> P"
  shows P
  using step
proof cases
  case step_CreateRun
  from Pg_CreateRun_state [OF step_CreateRun(2)] show ?thesis using create [OF step_CreateRun(1)] same untouched_refl by blast
next
  case step_TransitionRun
  from Pg_TransitionRun_state [OF step_TransitionRun(2)] show ?thesis using move [OF step_TransitionRun(1)] same untouched_refl by blast
next
  case step_ResumeRun
  from Pg_ResumeRun_state [OF step_ResumeRun(2)] show ?thesis using resume [OF step_ResumeRun(1)] same untouched_refl by blast
next
  case step_PlanSprint
  from Pg_PlanSprint_state [OF step_PlanSprint(2)] show ?thesis using plan [OF step_PlanSprint(1)] same untouched_refl by blast
next
  case step_SubmitSprint
  from Pg_SubmitSprint_state [OF step_SubmitSprint(2)] show ?thesis using submit [OF step_SubmitSprint(1)] same untouched_refl by blast
next
  case step_ResolveDecision
  from Pg_ResolveDecision_state [OF step_ResolveDecision(2)] show ?thesis using resolve [OF step_ResolveDecision(1)] same untouched_refl by blast
next
  case step_RecordToolAudit
  then show ?thesis using same Pg_RecordToolAudit_state by blast
next
  case step_RebuildRunProjection
  from rebuild_state [OF this] have "untouched db db'" by auto
  then show ?thesis by (rule same)
next
  case step_ClaimOutbox
  from ClaimOutbox_state [OF this] have "untouched db db'" by auto
  then show ?thesis by (rule same)
next
  case step_CompleteOutbox
  from CompleteOutbox_state [OF this] have "untouched db db'" by auto
  then show ?thesis by (rule same)
next
  case step_FailOutbox
  from FailOutbox_state [OF this] have "untouched db db'" by auto
  then show ?thesis by (rule same)
next
  case step_EnsureProjectionConsumer
  from EnsureProjectionConsumer_state [OF this] have "untouched db db'"
    by (auto simp: untouched_def update_deliveries_def backfill_deliveries_def consumer_added_def checkpoint_added_def)
  then show ?thesis by (rule same)
next
  case step_ClaimProjectionDeliveries
  from ClaimProjectionDeliveries_state [OF this] have "untouched db db'" by auto
  then show ?thesis by (rule same)
next
  case step_CompleteProjectionDelivery
  from CompleteProjectionDelivery_state [OF this] have "untouched db db'" by auto
  then show ?thesis by (rule same)
next
  case step_FailProjectionDelivery
  from FailProjectionDelivery_state [OF this] have "untouched db db'" by auto
  then show ?thesis by (rule same)
next
  case step_RequeueProjectionDelivery
  from RequeueProjectionDelivery_state [OF this] have "untouched db db'" by auto
  then show ?thesis by (rule same)
next
  case step_ResetRetrievalProjection
  from ResetRetrievalProjection_state [OF this] have "untouched db db'"
    by (auto simp: untouched_def update_deliveries_def backfill_deliveries_def consumer_added_def checkpoint_added_def)
  then show ?thesis by (rule same)
next
  case step_other_event
  then show ?thesis by (intro same) (auto simp: untouched_def elim!: appendEvent_Inr)
next
  case step_other_table
  then show ?thesis using same by simp
qed

section \<open>The event log\<close>

lemma log_inv_step:
  assumes step: "pg_step sha256 s db db'" and inv: "log_inv db"
  shows "log_inv db'"
  using step
proof (cases rule: pg_step_governed)
  case untouched
  then show ?thesis using inv by (rule log_inv_untouched)
next
  case (create env scope h i obj m c r)
  from createRun_effect [OF create(2)] create(1) show ?thesis
    by (intro log_inv_created [OF inv, of i r "pg_now env 0" obj None]) (auto simp: clock_ok_def core_eqs)
next
  case (transition env scope h i v target m c r)
  from transitionRun_effect [OF transition(2)] obtain row moved cancelling a where e: "map_of (pg_runs db) i = Some row"
      "Machine_Transition (pg_now env 0) (scanRun i row) target = Inr moved" "r = stamped moved" "check_run i (moved_row row r) = None"
      "cancelSprint env cancelling (run_updated_at r) m (db\<lparr>pg_runs := AList.update i (moved_row row r) (pg_runs db)\<rparr>) = Inr a"
      "core db' = core a" "logged ''run.transitioned'' r db db'" by blast
  have "pg_runs db' = AList.update i (moved_row row r) (pg_runs db)"
    using cancelSprint_Inr [OF e(5)] e(6) by (auto simp: core_def)
  then show ?thesis by (rule log_inv_moved [OF inv e(1-4) _ e(7)])
next
  case (resume env scope h i v m c r)
  from resumeRun_effect [OF resume(2)] obtain row moved where "map_of (pg_runs db) i = Some row"
      "Machine_Transition (pg_now env 0) (scanRun i row) StateQueued = Inr moved" "r = stamped moved"
      "check_run i (moved_row row r) = None" "pg_runs db' = AList.update i (moved_row row r) (pg_runs db)"
      "logged ''run.transitioned'' r db db'" unfolding core_eqs by blast
  then show ?thesis by (rule log_inv_moved [OF inv])
next
  case (plan env scope h command m c r)
  from planSprint_effect [OF plan(2)] obtain run uuid where
      "run = draftRun (postgresTimestamp (pg_now env 0)) (pc_RunID command) (pc_Objective command)"
      "map_of (pg_runs db) (pc_RunID command) = None" "check_run (pc_RunID command) (run_row run (Some uuid)) = None"
      "pg_text_ok (pc_Objective command)"
      "pg_runs db' = AList.update (pc_RunID command) (run_row run (Some uuid)) (pg_runs db)"
      "logged ''run.created'' run db db'" unfolding core_eqs by blast
  then show ?thesis using plan(1)
    by (intro log_inv_created [OF inv, of "pc_RunID command" run "pg_now env 0" "pc_Objective command" "Some uuid"])
      (auto simp: clock_ok_def)
next
  case (submit env scope h command m c r)
  from submitSprint_effect [OF submit(2)] obtain srow :: SprintRow and row moved run where "map_of (pg_runs db) (sr_run_id srow) = Some row"
      "Machine_Transition (pg_now env 0) (scanRun (sr_run_id srow) row) StateAwaitingApproval = Inr moved" "run = stamped moved"
      "check_run (sr_run_id srow) (moved_row row run) = None"
      "pg_runs db' = AList.update (sr_run_id srow) (moved_row row run) (pg_runs db)"
      "logged ''run.transitioned'' run db db'" unfolding core_eqs by (elim exE conjE) (erule that, assumption+)
  then show ?thesis by (rule log_inv_moved [OF inv])
next
  case (resolve env scope h command m c r)
  from resolveDecision_effect [OF resolve(2)] obtain drow :: DecisionRow and row moved run where "map_of (pg_runs db) (dr_run_id drow) = Some row"
      "Machine_Transition (pg_now env 0) (scanRun (dr_run_id drow) row)
         (if dc_Approve command then StateQueued else StateCancelling) = Inr moved" "run = stamped moved"
      "check_run (dr_run_id drow) (moved_row row run) = None"
      "pg_runs db' = AList.update (dr_run_id drow) (moved_row row run) (pg_runs db)"
      "logged ''run.transitioned'' run db db'" unfolding core_eqs by (elim exE conjE) (erule that, assumption+)
  then show ?thesis by (rule log_inv_moved [OF inv])
qed

lemma log_inv_empty: "log_inv empty_pg"
  by (simp add: log_inv_def empty_pg_def stream_def)

interpretation event_log: step_invariant "\<lambda>db. db = empty_pg" "pg_step sha256 s" log_inv
  for sha256 :: "string \<Rightarrow> 'h" and s
  by unfold_locales (auto simp: log_inv_empty intro: log_inv_step)

text \<open>A database with one run.\<close>

definition sample_pg_env :: PgEnv where
  "sample_pg_env = DBEnv.extend \<lparr>db_clock = (\<lambda>n. 100 + int n), db_row_clock = (\<lambda>n _. 100 + int n), db_error = (\<lambda>_. None),
     db_order = id, db_commit_applied = True\<rparr>
     (PgEnv.fields (\<lambda>_. 1700000000000000000) (\<lambda>n. replicate 16 0) (\<lambda>_. 0) (\<lambda>_. 50) (\<lambda>_. 0) (\<lambda>_. False))"

definition sample_pg :: "string PgDB" where
  "sample_pg = snd (Pg_CreateRun id sample_pg_env sample_lease_store sample_rid ''build it'' sample_metadata empty_pg)"

lemma sample_pg_runs: "map fst (pg_runs sample_pg) = [sample_rid]"
  by code_simp

lemma sample_pg_step: "pg_step id sample_lease_store empty_pg sample_pg"
proof (rule step_CreateRun)
  show "clock_ok sample_pg_env"
    by (simp add: clock_ok_def sample_pg_env_def DBEnv.extend_def PgEnv.fields_def zero_time_def)
  show "Pg_CreateRun id sample_pg_env sample_lease_store sample_rid ''build it'' sample_metadata empty_pg
      = (fst (Pg_CreateRun id sample_pg_env sample_lease_store sample_rid ''build it'' sample_metadata empty_pg), sample_pg)"
    by (simp add: sample_pg_def)
qed

lemma sample_pg_reached: "(pg_step id sample_lease_store)\<^sup>*\<^sup>* empty_pg sample_pg"
  by (rule r_into_rtranclp) (rule sample_pg_step)

lemma sample_pg_quiet: "db_quiet (db_of sample_pg_env)"
  by (simp add: db_quiet_def sample_pg_env_def DBEnv.extend_def PgEnv.fields_def DBEnv.truncate_def)

text \<open>
  C4. Whatever commands ran before, replaying the immutable run events reproduces the
  canonical runs: a rebuild of a projector never reports a corrupt stream. It fails only with
  the error of a database statement, and then, unless the commit itself failed, changes nothing; when the
  database answers, it succeeds, and the read model shows exactly the canonical runs, each with
  an event it was read from, the checkpoint is the last outbox identity, and other
  projectors, runs, sprints, decisions and events are as before.
\<close>

theorem rebuild_matches_canonical:
  assumes "(pg_step sha256 s)\<^sup>*\<^sup>* empty_pg db" "p \<noteq> []" "pg_text_ok p"
    "RebuildRunProjection env p db = (res, db')"
  shows "(isl res \<longrightarrow> db_failed (db_of env) res)
    \<and> (db_quiet (db_of env) \<longrightarrow> res = Inr ())
    \<and> (res = Inr () \<longrightarrow> projects p db' \<and> map_of (pg_checkpoints db') p = Some (max_outbox_id db)
        \<and> core db' = core db \<and> pg_events db' = pg_events db
        \<and> (\<forall>q i. q \<noteq> p \<longrightarrow> map_of (pg_projections db') (q, i) = map_of (pg_projections db) (q, i)))"
proof -
  have inv: "log_inv db" using event_log.inv_reachable [OF refl assms(1)] .
  obtain work where "RebuildRunProjection env p db = run_tx env work db"
    and work: "db_failed (db_of env) work \<or> (\<exists>projs. work = Inr ((Some ''postgres.RebuildRunProjection.commit'', ()),
        db\<lparr>pg_projections := projs, pg_checkpoints := AList.update p (max_outbox_id db) (pg_checkpoints db)\<rparr>)
      \<and> projects p (db\<lparr>pg_projections := projs, pg_checkpoints := AList.update p (max_outbox_id db) (pg_checkpoints db)\<rparr>)
      \<and> (\<forall>q i. q \<noteq> p \<longrightarrow> map_of projs (q, i) = map_of (pg_projections db) (q, i)))"
    by (rule rebuild_work [OF inv assms(2,3), of env])
  then have tx: "run_tx env work db = (res, db')" using assms(4) by simp
  from work show ?thesis
  proof
    assume "db_failed (db_of env) work"
    then obtain op pe where f: "db_error (db_of env) op = Some pe" "work = Inl (databaseError op pe)" by (auto simp: db_failed_def)
    then have r: "res = Inl (databaseError op pe)" using tx by (simp add: run_tx_def)
    with f have "db_failed (db_of env) res" unfolding db_failed_def by blast
    with r show ?thesis using db_failed_quiet by fastforce
  next
    assume "\<exists>projs. work = Inr ((Some ''postgres.RebuildRunProjection.commit'', ()),
        db\<lparr>pg_projections := projs, pg_checkpoints := AList.update p (max_outbox_id db) (pg_checkpoints db)\<rparr>)
      \<and> projects p (db\<lparr>pg_projections := projs, pg_checkpoints := AList.update p (max_outbox_id db) (pg_checkpoints db)\<rparr>)
      \<and> (\<forall>q i. q \<noteq> p \<longrightarrow> map_of projs (q, i) = map_of (pg_projections db) (q, i))"
    then show ?thesis
      using tx by (auto simp: run_tx_def db_commit_def db_failed_def update_conv' split: option.splits) blast
  qed
qed

theorem rebuild_matches_canonical_witness:
  "map fst (pg_runs sample_pg) = [sample_rid]
    \<and> projects ''runs'' (snd (RebuildRunProjection sample_pg_env ''runs'' sample_pg))"
proof -
  have "pg_text_ok ''runs''" by code_simp
  with rebuild_matches_canonical [OF sample_pg_reached _ _ surjective_pairing, of "''runs''" sample_pg_env]
    sample_pg_quiet sample_pg_runs show ?thesis by simp
qed

end
