(* ===== verification/Governance.thy ===== *)
theory Governance
  imports PgSafety
begin

text \<open>
  The contract that both control repositories keep, stated without versions, times,
  receipts, audit records, events and error paths: a machine whose state is the status of
  every sprint with its run, the status of every decision with the sprint and the run it
  is about, and the state of every run. A forward simulation shows that every history of
  the in-memory repository and every history of the durable repository is a history of this
  machine, so that what holds of the machine holds of both.
\<close>

section \<open>The abstract machine\<close>

record Governance =
  gov_sprints :: "string \<rightharpoonup> SprintStatus \<times> RunID"
  gov_decisions :: "DecisionID \<rightharpoonup> DecisionStatus \<times> string \<times> RunID"
  gov_runs :: "RunID \<rightharpoonup> State"

definition gov_empty :: Governance where
  "gov_empty = \<lparr>gov_sprints = Map.empty, gov_decisions = Map.empty, gov_runs = Map.empty\<rparr>"

text \<open>The sprint of a run is cancelled with the run, unless it was rejected before.\<close>

definition gov_cancel :: "State \<Rightarrow> SprintStatus \<Rightarrow> SprintStatus" where
  "gov_cancel target st =
    (if target = StateCancelling \<and> st \<in> {SprintProposed, SprintApproved} then SprintCancelling else st)"

inductive gov_step :: "Governance \<Rightarrow> Governance \<Rightarrow> bool" where
  gov_create: "gov_runs g k = None \<Longrightarrow> gov_step g (g\<lparr>gov_runs := (gov_runs g)(k \<mapsto> StateDraft)\<rparr>)"
| gov_plan: "gov_sprints g i = None \<Longrightarrow> gov_runs g k = None \<Longrightarrow>
    gov_step g (g\<lparr>gov_sprints := (gov_sprints g)(i \<mapsto> (SprintProposed, k)),
      gov_runs := (gov_runs g)(k \<mapsto> StateDraft)\<rparr>)"
| gov_submit: "gov_sprints g i = Some (SprintProposed, k) \<Longrightarrow> gov_runs g k = Some StateDraft \<Longrightarrow>
    gov_decisions g d = None \<Longrightarrow>
    gov_step g (g\<lparr>gov_sprints := (gov_sprints g)(i \<mapsto> (SprintAwaitingApproval, k)),
      gov_decisions := (gov_decisions g)(d \<mapsto> (DecisionPending, i, k)),
      gov_runs := (gov_runs g)(k \<mapsto> StateAwaitingApproval)\<rparr>)"
| gov_approve: "gov_decisions g d = Some (DecisionPending, i, k) \<Longrightarrow>
    gov_sprints g i = Some (SprintAwaitingApproval, k) \<Longrightarrow> gov_runs g k = Some StateAwaitingApproval \<Longrightarrow>
    gov_step g (g\<lparr>gov_sprints := (gov_sprints g)(i \<mapsto> (SprintApproved, k)),
      gov_decisions := (gov_decisions g)(d \<mapsto> (DecisionApproved, i, k)),
      gov_runs := (gov_runs g)(k \<mapsto> StateQueued)\<rparr>)"
| gov_reject: "gov_decisions g d = Some (DecisionPending, i, k) \<Longrightarrow>
    gov_sprints g i = Some (SprintAwaitingApproval, k) \<Longrightarrow> gov_runs g k = Some StateAwaitingApproval \<Longrightarrow>
    gov_step g (g\<lparr>gov_sprints := (gov_sprints g)(i \<mapsto> (SprintRejected, k)),
      gov_decisions := (gov_decisions g)(d \<mapsto> (DecisionRejected, i, k)),
      gov_runs := (gov_runs g)(k \<mapsto> StateCancelling)\<rparr>)"
| gov_move_free: "gov_runs g k = Some r \<Longrightarrow> CanTransition r target \<Longrightarrow> (\<And>i st. gov_sprints g i \<noteq> Some (st, k)) \<Longrightarrow>
    gov_step g (g\<lparr>gov_runs := (gov_runs g)(k \<mapsto> target)\<rparr>)"
| gov_move: "gov_runs g k = Some r \<Longrightarrow> CanTransition r target \<Longrightarrow> gov_sprints g i = Some (st, k) \<Longrightarrow>
    st \<noteq> SprintAwaitingApproval \<Longrightarrow> st = SprintProposed \<longrightarrow> target = StateCancelling \<Longrightarrow>
    gov_step g (g\<lparr>gov_sprints := (gov_sprints g)(i \<mapsto> (gov_cancel target st, k)),
      gov_runs := (gov_runs g)(k \<mapsto> target)\<rparr>)"

section \<open>Its invariant\<close>

text \<open>
  The state of the run of a sprint and the decisions about the sprint that each status
  stands for.
\<close>

definition gov_status_ok :: "Governance \<Rightarrow> string \<Rightarrow> SprintStatus \<Rightarrow> RunID \<Rightarrow> State \<Rightarrow> bool" where
  "gov_status_ok g i st k r =
    (case st of
       SprintProposed \<Rightarrow> r = StateDraft
     | SprintAwaitingApproval \<Rightarrow> r = StateAwaitingApproval
     | SprintApproved \<Rightarrow> r \<notin> {StateDraft, StateAwaitingApproval, StateCancelling, StateCancelled}
         \<and> (\<exists>d. gov_decisions g d = Some (DecisionApproved, i, k))
     | SprintRejected \<Rightarrow> r \<in> {StateCancelling, StateCancelled}
         \<and> (\<exists>d. gov_decisions g d = Some (DecisionRejected, i, k))
     | SprintCancelling \<Rightarrow> r \<in> {StateCancelling, StateCancelled})"

definition gov_inv :: "Governance \<Rightarrow> bool" where
  "gov_inv g \<longleftrightarrow>
     (\<forall>i st k. gov_sprints g i = Some (st, k) \<longrightarrow> (\<exists>r. gov_runs g k = Some r \<and> gov_status_ok g i st k r))
   \<and> (\<forall>i j st su k. gov_sprints g i = Some (st, k) \<longrightarrow> gov_sprints g j = Some (su, k) \<longrightarrow> i = j)
   \<and> (\<forall>d i k. gov_decisions g d = Some (DecisionPending, i, k) \<longrightarrow> gov_sprints g i = Some (SprintAwaitingApproval, k))
   \<and> (\<forall>d e i k. gov_decisions g d = Some (DecisionPending, i, k) \<longrightarrow> gov_decisions g e = Some (DecisionPending, i, k)
        \<longrightarrow> d = e)"

lemma gov_invD:
  assumes "gov_inv g"
  shows "gov_sprints g i = Some (st, k) \<Longrightarrow> \<exists>r. gov_runs g k = Some r \<and> gov_status_ok g i st k r"
    and "gov_sprints g i = Some (st, k) \<Longrightarrow> gov_sprints g j = Some (su, k) \<Longrightarrow> i = j"
    and "gov_decisions g d = Some (DecisionPending, i, k) \<Longrightarrow> gov_sprints g i = Some (SprintAwaitingApproval, k)"
    and "gov_decisions g d = Some (DecisionPending, i, k) \<Longrightarrow> gov_decisions g e = Some (DecisionPending, i, k) \<Longrightarrow> d = e"
  using assms unfolding gov_inv_def by blast+

lemma gov_pending_unique:
  assumes "gov_inv g" "gov_decisions g d = Some (DecisionPending, i, k)" "gov_decisions g e = Some (DecisionPending, i, l)"
  shows "d = e"
  using gov_invD(3) [OF assms(1,2)] gov_invD(3) [OF assms(1,3)] gov_invD(4) [OF assms(1,2)] assms(3) by auto

lemma gov_status_okI:
  assumes "gov_status_ok g i st k r"
    "\<And>d x. x \<noteq> DecisionPending \<Longrightarrow> gov_decisions g d = Some (x, i, k) \<Longrightarrow> gov_decisions g' d = Some (x, i, k)"
  shows "gov_status_ok g' i st k r"
  using assms by (cases st) (auto simp: gov_status_ok_def)

text \<open>What a change of one sprint, its run and the decisions about it has to establish.\<close>

lemma gov_inv_update:
  assumes inv: "gov_inv g" and sp: "gov_sprints g i = Some (st, k)"
    and ok: "gov_status_ok g' i st' k r'"
    and g': "gov_sprints g' = (gov_sprints g)(i \<mapsto> (st', k))" "gov_runs g' = (gov_runs g)(k \<mapsto> r')"
    and kept: "\<And>d x j l. x \<noteq> DecisionPending \<Longrightarrow> gov_decisions g d = Some (x, j, l) \<Longrightarrow> gov_decisions g' d = Some (x, j, l)"
    and pend: "\<And>d j l. gov_decisions g' d = Some (DecisionPending, j, l) \<Longrightarrow>
      gov_decisions g d = Some (DecisionPending, j, l) \<and> j \<noteq> i \<or> (j, l) = (i, k) \<and> st' = SprintAwaitingApproval"
    and one: "\<And>d e. gov_decisions g' d = Some (DecisionPending, i, k) \<Longrightarrow> gov_decisions g' e = Some (DecisionPending, i, k) \<Longrightarrow> d = e"
  shows "gov_inv g'"
  unfolding gov_inv_def
proof (intro conjI allI impI)
  fix j su l assume j: "gov_sprints g' j = Some (su, l)"
  show "\<exists>r. gov_runs g' l = Some r \<and> gov_status_ok g' j su l r"
  proof (cases "j = i")
    case True
    with j ok g' show ?thesis by auto
  next
    case False
    with j have old: "gov_sprints g j = Some (su, l)" by (simp add: g')
    then obtain r where "gov_runs g l = Some r" "gov_status_ok g j su l r" using gov_invD(1) [OF inv] by blast
    moreover have "l \<noteq> k" using gov_invD(2) [OF inv sp] old False by blast
    ultimately show ?thesis using gov_status_okI [of g j su l r g'] kept by (auto simp: g')
  qed
next
  fix a b sa sb l assume "gov_sprints g' a = Some (sa, l)" "gov_sprints g' b = Some (sb, l)"
  then show "a = b" using gov_invD(2) [OF inv, of _ _ _ _ _] sp by (auto simp: g' split: if_splits)
next
  fix d j l assume d: "gov_decisions g' d = Some (DecisionPending, j, l)"
  from pend [OF d] show "gov_sprints g' j = Some (SprintAwaitingApproval, l)"
    using gov_invD(3) [OF inv, of d j l] by (auto simp: g')
next
  fix d e j l assume d: "gov_decisions g' d = Some (DecisionPending, j, l)"
    and e: "gov_decisions g' e = Some (DecisionPending, j, l)"
  from pend [OF d] pend [OF e] one d e gov_invD(4) [OF inv, of d j l e] show "d = e" by auto
qed

lemma gov_status_ok_frame [simp]:
  "gov_status_ok (g\<lparr>gov_runs := M\<rparr>) i st k r = gov_status_ok g i st k r"
  "gov_status_ok (g\<lparr>gov_sprints := F\<rparr>) i st k r = gov_status_ok g i st k r"
  by (simp_all add: gov_status_ok_def split: SprintStatus.split)

lemma gov_inv_free_run:
  assumes "gov_inv g" "\<And>i st. gov_sprints g i \<noteq> Some (st, k)"
  shows "gov_inv (g\<lparr>gov_runs := (gov_runs g)(k \<mapsto> r)\<rparr>)"
  using assms unfolding gov_inv_def by auto

lemma gov_inv_step:
  assumes inv: "gov_inv g" and step: "gov_step g g'"
  shows "gov_inv g'"
  using step
proof cases
  case (gov_create k)
  then have "gov_sprints g i \<noteq> Some (st, k)" for i st using gov_invD(1) [OF inv, of i st k] by auto
  then show ?thesis unfolding gov_create(1) by (intro gov_inv_free_run inv)
next
  case (gov_plan i k)
  have free: "gov_sprints g j \<noteq> Some (st, k)" for j st using gov_invD(1) [OF inv, of j st k] gov_plan by auto
  have pend: "gov_decisions g d \<noteq> Some (DecisionPending, i, l)" for d l
    using gov_invD(3) [OF inv, of d i l] gov_plan by auto
  show ?thesis
    unfolding gov_inv_def
  proof (intro conjI allI impI)
    fix j st l assume "gov_sprints g' j = Some (st, l)"
    then show "\<exists>r. gov_runs g' l = Some r \<and> gov_status_ok g' j st l r"
      using gov_invD(1) [OF inv, of j st l] free [of j st] unfolding gov_plan(1)
      by (auto simp: gov_status_ok_def [of _ i SprintProposed] split: if_splits)
  next
    fix a b sa sb l assume "gov_sprints g' a = Some (sa, l)" "gov_sprints g' b = Some (sb, l)"
    then show "a = b" using gov_invD(2) [OF inv] free unfolding gov_plan(1) by (auto split: if_splits)
  next
    fix d j l assume "gov_decisions g' d = Some (DecisionPending, j, l)"
    then show "gov_sprints g' j = Some (SprintAwaitingApproval, l)"
      using gov_invD(3) [OF inv] pend unfolding gov_plan(1) by auto
  next
    fix d e j l assume "gov_decisions g' d = Some (DecisionPending, j, l)" "gov_decisions g' e = Some (DecisionPending, j, l)"
    then show "d = e" using gov_invD(4) [OF inv] unfolding gov_plan(1) by simp
  qed
next
  case (gov_submit i k d)
  have "gov_decisions g e \<noteq> Some (DecisionPending, i, l)" for e l
    using gov_invD(3) [OF inv, of e i l] gov_submit by auto
  then show ?thesis
    by (intro gov_inv_update [OF inv gov_submit(2), where st' = SprintAwaitingApproval and r' = StateAwaitingApproval])
      (use gov_submit in \<open>auto simp: gov_status_ok_def split: if_splits\<close>)
next
  case (gov_approve d i k)
  then show ?thesis
    by (intro gov_inv_update [OF inv gov_approve(3), where st' = SprintApproved and r' = StateQueued])
      (use gov_pending_unique [OF inv] in \<open>auto simp: gov_status_ok_def split: if_splits\<close>)
next
  case (gov_reject d i k)
  then show ?thesis
    by (intro gov_inv_update [OF inv gov_reject(3), where st' = SprintRejected and r' = StateCancelling])
      (use gov_pending_unique [OF inv] in \<open>auto simp: gov_status_ok_def split: if_splits\<close>)
next
  case (gov_move_free k r target)
  then show ?thesis by (simp add: gov_inv_free_run inv)
next
  case (gov_move k r target i st)
  have ok: "gov_status_ok g i st k r" using gov_invD(1) [OF inv gov_move(4)] gov_move(2) by simp
  have "gov_status_ok g' i (gov_cancel target st) k target"
    using ok gov_move by (cases st; cases r; cases target) (auto simp: gov_status_ok_def gov_cancel_def CanTransition_def)
  moreover have "gov_decisions g d \<noteq> Some (DecisionPending, i, l)" for d l
    using gov_invD(3) [OF inv, of d i l] gov_move by auto
  ultimately show ?thesis
    by (intro gov_inv_update [OF inv gov_move(4), where st' = "gov_cancel target st" and r' = target])
      (use gov_move in auto)
qed

lemma gov_inv_empty: "gov_inv gov_empty"
  by (simp add: gov_inv_def gov_empty_def)

interpretation governance: step_invariant "\<lambda>g. g = gov_empty" gov_step gov_inv
  by unfold_locales (auto simp: gov_inv_empty intro: gov_inv_step)

section \<open>Simulation\<close>

text \<open>
  A concrete system simulates the machine if each of its steps, from a state that shows an
  abstract state that satisfies the invariant, shows abstract steps.
\<close>

locale forward_simulation = step_invariant init astep inv
  for init :: "'a \<Rightarrow> bool" and astep :: "'a \<Rightarrow> 'a \<Rightarrow> bool" and inv :: "'a \<Rightarrow> bool" +
  fixes cstep :: "'c \<Rightarrow> 'c \<Rightarrow> bool" and shows_state :: "'c \<Rightarrow> 'a \<Rightarrow> bool"
  assumes simulates: "shows_state c a \<Longrightarrow> inv a \<Longrightarrow> cstep c c' \<Longrightarrow> \<exists>a'. astep\<^sup>*\<^sup>* a a' \<and> shows_state c' a'"
begin

lemma simulation:
  assumes "cstep\<^sup>*\<^sup>* c c'" "shows_state c a" "inv a"
  shows "\<exists>a'. astep\<^sup>*\<^sup>* a a' \<and> shows_state c' a'"
  using assms
proof (induction rule: rtranclp_induct)
  case base
  then show ?case by blast
next
  case (step y z)
  then obtain b where b: "astep\<^sup>*\<^sup>* a b" "shows_state y b" by blast
  from inv_steps [OF b(1) step.prems(2)] simulates [OF b(2) _ step.hyps(2)]
  obtain a' where "astep\<^sup>*\<^sup>* b a'" "shows_state z a'" by blast
  with b(1) show ?case by (meson rtranclp_trans)
qed

lemma refines:
  assumes "cstep\<^sup>*\<^sup>* c c'" "shows_state c a" "init a"
  shows "\<exists>a'. astep\<^sup>*\<^sup>* a a' \<and> shows_state c' a' \<and> inv a'"
  using simulation [OF assms(1,2) inv_init [OF assms(3)]] inv_reachable [OF assms(3)] by blast

end

text \<open>What a repository shows of a governed state: the texts it stores.\<close>

type_synonym gov_view = "(string \<rightharpoonup> string \<times> RunID) \<times> (DecisionID \<rightharpoonup> string \<times> string \<times> RunID) \<times> (RunID \<rightharpoonup> string)"

definition gov_text :: "Governance \<Rightarrow> gov_view" where
  "gov_text g =
    (\<lambda>i. map_option (\<lambda>(st, k). (SprintStatusString st, k)) (gov_sprints g i),
     \<lambda>d. map_option (\<lambda>(st, i, k). (DecisionStatusString st, i, k)) (gov_decisions g d),
     \<lambda>k. map_option StateString (gov_runs g k))"

definition mem_view :: "'h MemoryRepository \<Rightarrow> gov_view" where
  "mem_view s =
    (\<lambda>i. map_option (\<lambda>sp. (sprint_status sp, sprint_run_id sp)) (map_of (sprints s) i),
     \<lambda>d. map_option (\<lambda>x. (decision_status x, decision_sprint_id x, decision_run_id x)) (decisions s d),
     \<lambda>k. map_option run_state (mruns s k))"

definition pg_view :: "'h PgDB \<Rightarrow> gov_view" where
  "pg_view db =
    (\<lambda>i. map_option (\<lambda>row. (sr_status row, sr_run_id row)) (map_of (pg_sprints db) i),
     \<lambda>d. map_option (\<lambda>row. (dr_status row, dr_sprint_id row, dr_run_id row)) (map_of (pg_decisions db) d),
     \<lambda>k. map_option rr_state (map_of (pg_runs db) k))"

text \<open>What a repository shows of the machine determines the guards, and its updates are those of the machine.\<close>

lemma gov_text_lookup:
  assumes "(F, D, M) = gov_text g"
  shows "F i = None \<longleftrightarrow> gov_sprints g i = None"
    and "F i = Some (t, k) \<longleftrightarrow> (\<exists>st. gov_sprints g i = Some (st, k) \<and> t = SprintStatusString st)"
    and "D d = None \<longleftrightarrow> gov_decisions g d = None"
    and "D d = Some (t, i, k) \<longleftrightarrow> (\<exists>st. gov_decisions g d = Some (st, i, k) \<and> t = DecisionStatusString st)"
    and "M k = None \<longleftrightarrow> gov_runs g k = None"
    and "M k = Some t \<longleftrightarrow> (\<exists>r. gov_runs g k = Some r \<and> t = StateString r)"
  using assms by (auto simp: gov_text_def)

lemma gov_text_update:
  assumes "(F, D, M) = gov_text g"
  shows "(F(i \<mapsto> (SprintStatusString st, k)), D, M(k \<mapsto> StateString r))
      = gov_text (g\<lparr>gov_sprints := (gov_sprints g)(i \<mapsto> (st, k)), gov_runs := (gov_runs g)(k \<mapsto> r)\<rparr>)"
    and "(F(i \<mapsto> (SprintStatusString st, k)), D(d \<mapsto> (DecisionStatusString dst, i, k)), M(k \<mapsto> StateString r))
      = gov_text (g\<lparr>gov_sprints := (gov_sprints g)(i \<mapsto> (st, k)), gov_decisions := (gov_decisions g)(d \<mapsto> (dst, i, k)),
          gov_runs := (gov_runs g)(k \<mapsto> r)\<rparr>)"
    and "(F, D, M(k \<mapsto> StateString r)) = gov_text (g\<lparr>gov_runs := (gov_runs g)(k \<mapsto> r)\<rparr>)"
  using assms by (auto simp: gov_text_def fun_eq_iff)

definition steps_to :: "Governance \<Rightarrow> gov_view \<Rightarrow> bool" where
  "steps_to g v \<longleftrightarrow> (\<exists>g'. gov_step\<^sup>*\<^sup>* g g' \<and> v = gov_text g')"

lemma steps_toI: "gov_step g g' \<Longrightarrow> v = gov_text g' \<Longrightarrow> steps_to g v"
  unfolding steps_to_def by blast

lemma view_same: "v = gov_text g \<Longrightarrow> steps_to g v"
  unfolding steps_to_def by blast

lemma view_create:
  assumes v: "(F, D, M) = gov_text g"
  shows "M k = None \<Longrightarrow> steps_to g (F, D, M(k \<mapsto> StateString StateDraft))"
  by (rule steps_toI [OF gov_create gov_text_update(3) [OF v]]) (simp add: gov_text_lookup [OF v])

lemma view_plan:
  assumes v: "(F, D, M) = gov_text g"
  shows "F i = None \<Longrightarrow> M k = None \<Longrightarrow>
   steps_to g (F(i \<mapsto> (SprintStatusString SprintProposed, k)), D, M(k \<mapsto> StateString StateDraft))"
  by (rule steps_toI [OF gov_plan gov_text_update(1) [OF v]]) (simp_all add: gov_text_lookup [OF v])

lemma view_submit:
  assumes v: "(F, D, M) = gov_text g" and inv: "gov_inv g"
    and "F i = Some (SprintStatusString SprintProposed, k)" "D d = None"
  shows "steps_to g (F(i \<mapsto> (SprintStatusString SprintAwaitingApproval, k)),
    D(d \<mapsto> (DecisionStatusString DecisionPending, i, k)), M(k \<mapsto> StateString StateAwaitingApproval))"
proof (rule steps_toI [OF gov_submit gov_text_update(2) [OF v]])
  show sp: "gov_sprints g i = Some (SprintProposed, k)" using assms(3) by (simp add: gov_text_lookup [OF v])
  show "gov_runs g k = Some StateDraft" using gov_invD(1) [OF inv sp] by (auto simp: gov_status_ok_def)
qed (use assms(4) in \<open>simp add: gov_text_lookup [OF v]\<close>)

lemma view_pending:
  assumes v: "(F, D, M) = gov_text g" and inv: "gov_inv g"
    and "D d = Some (DecisionStatusString DecisionPending, i, k)"
  shows "gov_decisions g d = Some (DecisionPending, i, k)" "gov_sprints g i = Some (SprintAwaitingApproval, k)"
    "gov_runs g k = Some StateAwaitingApproval"
proof -
  show d: "gov_decisions g d = Some (DecisionPending, i, k)" using assms(3) by (simp add: gov_text_lookup [OF v])
  from gov_invD(3) [OF inv d] show sp: "gov_sprints g i = Some (SprintAwaitingApproval, k)" .
  from gov_invD(1) [OF inv sp] show "gov_runs g k = Some StateAwaitingApproval" by (auto simp: gov_status_ok_def)
qed

lemma view_resolve:
  assumes v: "(F, D, M) = gov_text g" and inv: "gov_inv g"
    and "D d = Some (DecisionStatusString DecisionPending, i, k)"
  shows "steps_to g (F(i \<mapsto> (SprintStatusString (if ap then SprintApproved else SprintRejected), k)),
    D(d \<mapsto> (DecisionStatusString (if ap then DecisionApproved else DecisionRejected), i, k)),
    M(k \<mapsto> StateString (if ap then StateQueued else StateCancelling)))"
  using steps_toI [OF gov_approve [OF view_pending [OF assms]] gov_text_update(2) [OF v]]
    steps_toI [OF gov_reject [OF view_pending [OF assms]] gov_text_update(2) [OF v]]
  by (cases ap) simp_all

lemma view_move_free:
  assumes v: "(F, D, M) = gov_text g" and inv: "gov_inv g"
    and "M k = Some (StateString r)" "CanTransition r target" "\<And>i t. F i \<noteq> Some (t, k)"
  shows "steps_to g (F, D, M(k \<mapsto> StateString target))"
proof (rule steps_toI [OF gov_move_free gov_text_update(3) [OF v]])
  show "gov_sprints g i \<noteq> Some (st, k)" for i st
    using assms(5) [of i "SprintStatusString st"] by (auto simp: gov_text_lookup [OF v])
qed (use assms(3-) in \<open>simp_all add: gov_text_lookup [OF v]\<close>)

lemma view_move:
  assumes v: "(F, D, M) = gov_text g" and inv: "gov_inv g"
    and "M k = Some (StateString r)" "CanTransition r target" "F i = Some (SprintStatusString st, k)"
    "st \<noteq> SprintAwaitingApproval" "st = SprintProposed \<longrightarrow> target = StateCancelling"
  shows "steps_to g (F(i \<mapsto> (SprintStatusString (gov_cancel target st), k)), D, M(k \<mapsto> StateString target))"
  by (rule steps_toI [OF gov_move gov_text_update(1) [OF v]])
    (use assms(3-) in \<open>simp_all add: gov_text_lookup [OF v]\<close>)

section \<open>The in-memory repository\<close>

definition mem_shows :: "'h MemoryRepository \<Rightarrow> Governance \<Rightarrow> bool" where
  "mem_shows s g \<longleftrightarrow> control_inv s \<and> mem_view s = gov_text g"

lemma mem_plan:
  assumes "planSprintLocked now c s = Inr (r, u)" "mem_view s = gov_text g"
  shows "steps_to g (mem_view u)"
proof -
  have v: "(fst (mem_view s), fst (snd (mem_view s)), snd (snd (mem_view s))) = gov_text g" using assms(2) by simp
  have fresh: "map_of (sprints s) (pc_SprintID c) = None" "mruns s (pc_RunID c) = None"
    and u: "mem_view u = ((fst (mem_view s))(pc_SprintID c \<mapsto> (SprintStatusString SprintProposed, pc_RunID c)),
      fst (snd (mem_view s)), (snd (snd (mem_view s)))(pc_RunID c \<mapsto> StateString StateDraft))"
    using assms(1) by (auto simp: planSprintLocked_def Let_def mem_view_def update_conv' draftRun_def fun_eq_iff split: if_splits)
  show ?thesis unfolding u
    by (rule view_plan [OF v]) (use fresh in \<open>simp_all add: mem_view_def\<close>)
qed

lemma mem_submit:
  assumes "submitSprintLocked now c m s = Inr (r, u)" "decisions s (sc_DecisionID c) = None"
    "control_inv s" "mem_view s = gov_text g" "gov_inv g"
  shows "steps_to g (mem_view u)"
proof -
  have v: "(fst (mem_view s), fst (snd (mem_view s)), snd (snd (mem_view s))) = gov_text g" using assms(4) by simp
  obtain sp rid r1 where sp: "map_of (sprints s) (sc_SprintID c) = Some sp"
      "sprint_status sp = SprintStatusString SprintProposed" "ParseRunID (sprint_run_id sp) = Inr rid"
    and r1: "Machine_Transition (now 0) (case mruns s rid of Some run \<Rightarrow> run | None \<Rightarrow> zero_Run) StateAwaitingApproval = Inr r1"
    using assms(1) unfolding submitSprintLocked_def Let_def
    by (auto split: option.splits if_splits sum.splits)
  have i: "sprint_id sp = sc_SprintID c" using governed_invD(1) [OF control_invD(3) [OF assms(3)] sp(1)] by simp
  have u: "mem_view u = ((fst (mem_view s))(sc_SprintID c \<mapsto> (SprintStatusString SprintAwaitingApproval, sprint_run_id sp)),
      (fst (snd (mem_view s)))(sc_DecisionID c \<mapsto> (DecisionStatusString DecisionPending, sc_SprintID c, sprint_run_id sp)),
      (snd (snd (mem_view s)))(sprint_run_id sp \<mapsto> StateString StateAwaitingApproval))"
    using assms(1) sp r1 ParseRunID_Inr [OF sp(3)] i Machine_Transition_run_id [OF r1]
    by (auto simp: submitSprintLocked_def Let_def mem_view_def update_conv' fun_eq_iff split: if_splits)
  show ?thesis unfolding u
    by (rule view_submit [OF v assms(5)]) (use sp assms(2) in \<open>simp_all add: mem_view_def\<close>)
qed

lemma mem_resolve:
  assumes "resolveDecisionLocked now c m s = Inr (r, u)" "mem_view s = gov_text g" "gov_inv g"
  shows "steps_to g (mem_view u)"
proof -
  let ?ap = "dc_Approve c" and ?k = "dc_DecisionID c"
  obtain x sid rid r1 where x: "decisions s ?k = Some x"
      "decision_status x = DecisionStatusString DecisionPending"
      "ParseSprintID (decision_sprint_id x) = Inr sid" "ParseRunID (decision_run_id x) = Inr rid"
    and r1: "Machine_Transition (now 0) (case mruns s rid of Some run \<Rightarrow> run | None \<Rightarrow> zero_Run)
        (if ?ap then StateQueued else StateCancelling) = Inr r1"
    using assms(1) unfolding resolveDecisionLocked_def Let_def
    by (auto split: option.splits if_splits sum.splits)
  note ids = ParseSprintID_Inr [OF x(3)] ParseRunID_Inr [OF x(4)]
  have v: "(fst (mem_view s), fst (snd (mem_view s)), snd (snd (mem_view s))) = gov_text g" using assms(2) by simp
  have d: "fst (snd (mem_view s)) ?k = Some (DecisionStatusString DecisionPending, sid, rid)"
    using x ids by (simp add: mem_view_def)
  from view_pending(2) [OF v assms(3) d] gov_text_lookup(2) [OF v, of sid "SprintStatusString SprintAwaitingApproval" rid]
  obtain sp where sp: "map_of (sprints s) sid = Some sp" "sprint_run_id sp = rid"
    by (auto simp: mem_view_def)
  have u: "mem_view u = ((fst (mem_view s))(sid \<mapsto> (SprintStatusString (if ?ap then SprintApproved else SprintRejected), rid)),
      (fst (snd (mem_view s)))(?k \<mapsto> (DecisionStatusString (if ?ap then DecisionApproved else DecisionRejected), sid, rid)),
      (snd (snd (mem_view s)))(rid \<mapsto> StateString (if ?ap then StateQueued else StateCancelling)))"
    using assms(1) sp r1 x ids Machine_Transition_run_id [OF r1]
    by (auto simp: resolveDecisionLocked_def Let_def mem_view_def update_conv' fun_eq_iff split: if_splits)
  show ?thesis unfolding u by (rule view_resolve [OF v assms(3) d])
qed

lemma mem_move:
  assumes "transitionRunLocked now k w target s = Inr (r, u)" "control_inv s" "mem_view s = gov_text g" "gov_inv g"
  shows "steps_to g (mem_view u)"
proof -
  have v: "(fst (mem_view s), fst (snd (mem_view s)), snd (snd (mem_view s))) = gov_text g" using assms(3) by simp
  obtain r0 lid linked where r0: "mruns s k = Some r0" "Machine_Transition (now 0) r0 target = Inr r"
    and link: "linkedSprint k target (sprints s) = Inr (lid, linked)"
    and u: "u = (if lid \<noteq> [] \<and> (sprint_status linked = SprintStatusString SprintProposed
                    \<or> sprint_status linked = SprintStatusString SprintApproved) then
         s\<lparr>mruns := (mruns s)(k \<mapsto> r), sprints := AList.update lid
            (linked\<lparr>sprint_status := SprintStatusString SprintCancelling,
               sprint_version := sprint_version linked + 1,
               sprint_updated_at := run_updated_at r\<rparr>) (sprints s)\<rparr>
       else s\<lparr>mruns := (mruns s)(k \<mapsto> r)\<rparr>)"
    using assms(1) unfolding transitionRunLocked_def Let_def
    by (auto split: option.splits if_splits sum.splits prod.splits)
  obtain sid sp where sp: "map_of (sprints s) sid = Some sp" "sprint_run_id sp = k" "sid \<noteq> []" "agrees (decisions s) sp r0"
    "sprint_status sp \<noteq> SprintStatusString SprintAwaitingApproval" "sprint_pending_decision_id sp = None"
    "sprint_status sp = SprintStatusString SprintProposed \<longrightarrow> target = StateCancelling"
    "(lid, linked) = (if target = StateCancelling then (sid, sp) else ([], zero_Sprint))"
    by (rule linkedSprint_inv [OF assms(2) r0(1) link])
  obtain st rs where st: "sprint_status sp = SprintStatusString st" "run_state r0 = StateString rs"
    using sp(4) by (auto simp: agrees_def)
  have can: "CanTransition rs target" "run_state r = StateString target"
    using r0(2) st by (auto simp: Machine_Transition_Inr_iff)
  have u': "mem_view u = ((fst (mem_view s))(sid \<mapsto> (SprintStatusString (gov_cancel target st), k)), fst (snd (mem_view s)),
      (snd (snd (mem_view s)))(k \<mapsto> StateString target))"
    using sp st can unfolding u
    by (auto simp: mem_view_def update_conv' fun_eq_iff gov_cancel_def split: if_splits)
  show ?thesis unfolding u'
    by (rule view_move [OF v assms(4), where r = rs]) (use sp st r0 can in \<open>simp_all add: mem_view_def\<close>)
qed

lemma mem_resume:
  assumes "resumeRunLocked now k w s = Inr (r, u)" "control_inv s" "mem_view s = gov_text g" "gov_inv g"
  shows "steps_to g (mem_view u)"
proof -
  have v: "(fst (mem_view s), fst (snd (mem_view s)), snd (snd (mem_view s))) = gov_text g" using assms(3) by simp
  obtain r0 where r0: "mruns s k = Some r0" "Machine_Transition (now 0) r0 StateQueued = Inr r"
      "run_state r0 \<in> {StateString StateFailedRetryable, StateString StateAwaitingDecision}"
    and u: "u = s\<lparr>mruns := (mruns s)(k \<mapsto> r)\<rparr>"
    using assms(1) unfolding resumeRunLocked_def resumeTarget_def
    by (auto split: option.splits if_splits sum.splits)
  note inv = control_invD(3) [OF assms(2)]
  obtain sid sp where sp: "map_of (sprints s) sid = Some sp" "sprint_run_id sp = k"
    using governed_invD(5) [OF inv r0(1)] by blast
  then have "sprint_status sp = SprintStatusString SprintApproved"
    using agrees_resumable [OF _ r0(3)] governed_invD(2) [OF inv sp(1)] r0(1) by auto
  moreover obtain rs where rs: "run_state r0 = StateString rs" using r0(3) by auto
  moreover have "CanTransition rs StateQueued" "run_state r = StateString StateQueued"
    using r0(2) rs by (auto simp: Machine_Transition_Inr_iff)
  moreover have "mem_view u = ((fst (mem_view s))(sid \<mapsto> (SprintStatusString (gov_cancel StateQueued SprintApproved), k)),
      fst (snd (mem_view s)), (snd (snd (mem_view s)))(k \<mapsto> StateString StateQueued))"
    using sp calculation unfolding u by (auto simp: mem_view_def fun_eq_iff gov_cancel_def)
  ultimately show ?thesis
    using view_move [OF v assms(4), of k rs StateQueued sid SprintApproved] sp r0(1) by (simp add: mem_view_def)
qed

lemma mem_simulates:
  assumes "mem_shows s g" "gov_inv g" "control_step sha256 s t"
  shows "\<exists>g'. gov_step\<^sup>*\<^sup>* g g' \<and> mem_shows t g'"
proof -
  have inv: "control_inv s" and v: "mem_view s = gov_text g" using assms(1) by (auto simp: mem_shows_def)
  have same: "mem_view t' = mem_view u" if "same_governed u t'" for u t' :: "'a MemoryRepository"
    using that by (simp add: same_governed_def mem_view_def)
  have "steps_to g (mem_view t)"
    using assms(3)
  proof (cases rule: control_step_work)
    case same
    then show ?thesis using view_same [OF v] \<open>\<And>u t'. same_governed u t' \<Longrightarrow> mem_view t' = mem_view u\<close> by simp
  next
    case (plan now c r u)
    then show ?thesis using mem_plan [OF plan(1) v] same by simp
  next
    case (submit now c m r u)
    then show ?thesis using mem_submit [OF submit(1,2) inv v assms(2)] same by simp
  next
    case (resolve now c m r u)
    then show ?thesis using mem_resolve [OF resolve(1) v assms(2)] same by simp
  next
    case (move now i w target r u)
    then show ?thesis using mem_move [OF move(1) inv v assms(2)] same by simp
  next
    case (resume now i w r u)
    then show ?thesis using mem_resume [OF resume(1) inv v assms(2)] same by simp
  qed
  moreover have "control_inv t" by (rule control.inv_step [OF inv assms(3)])
  ultimately show ?thesis unfolding steps_to_def mem_shows_def by blast
qed

interpretation mem_sim: forward_simulation "\<lambda>g. g = gov_empty" gov_step gov_inv "control_step sha256" mem_shows for sha256
  by unfold_locales (rule mem_simulates)

lemma mem_shows_empty: "mem_shows NewMemoryRepository gov_empty"
  using control.inv_init [OF refl]
  by (simp add: mem_shows_def mem_view_def NewMemoryRepository_def gov_text_def gov_empty_def)

section \<open>The durable repository\<close>

definition pg_shows :: "'h PgDB \<Rightarrow> Governance \<Rightarrow> bool" where
  "pg_shows db g \<longleftrightarrow> distinct (map fst (pg_sprints db)) \<and> pg_view db = gov_text g"

lemma pg_view_pair:
  "pg_view db = gov_text g \<Longrightarrow> (fst (pg_view db), fst (snd (pg_view db)), snd (snd (pg_view db))) = gov_text g"
  by simp

lemma pg_view_sel:
  "fst (pg_view db) i = map_option (\<lambda>row. (sr_status row, sr_run_id row)) (map_of (pg_sprints db) i)"
  "fst (snd (pg_view db)) d = map_option (\<lambda>row. (dr_status row, dr_sprint_id row, dr_run_id row)) (map_of (pg_decisions db) d)"
  "snd (snd (pg_view db)) k = map_option rr_state (map_of (pg_runs db) k)"
  by (simp_all add: pg_view_def)

lemma moved_state:
  assumes "Machine_Transition now (scanRun k row) target = Inr moved"
  shows "rr_state (moved_row row (stamped moved)) = StateString target"
    and "\<exists>r. rr_state row = StateString r \<and> CanTransition r target"
  using assms by (auto simp: Machine_Transition_Inr_iff moved_row_def stamped_def scanRun_def)

lemma pg_create:
  assumes "pg_createRunTx env scope h k obj m db = Inr ((c, r), db')" "pg_view db = gov_text g"
  shows "steps_to g (pg_view db')"
proof -
  note e = createRun_effect [OF assms(1)]
  have u: "pg_view db' = (fst (pg_view db), fst (snd (pg_view db)), (snd (snd (pg_view db)))(k \<mapsto> StateString StateDraft))"
    using e by (auto simp: core_eqs pg_view_def update_conv' fun_eq_iff run_row_def draftRun_def)
  show ?thesis unfolding u by (rule view_create [OF pg_view_pair [OF assms(2)]]) (use e in \<open>simp add: pg_view_sel\<close>)
qed

lemma pg_plan:
  assumes "pg_planSprintTx env scope h command m db = Inr ((c, r), db')" "pg_view db = gov_text g"
  shows "steps_to g (pg_view db')"
proof -
  let ?uuid = "SprintID_UUID (pc_SprintID command)" and ?k = "pc_RunID command"
  from planSprint_effect [OF assms(1)] obtain run where e: "run = draftRun (postgresTimestamp (pg_now env 0)) ?k (pc_Objective command)"
    "map_of (pg_sprints db) ?uuid = None" "map_of (pg_runs db) ?k = None"
    "core db' = (AList.update ?k (run_row run (Some ?uuid)) (pg_runs db),
        AList.update ?uuid (planned_row env command db) (pg_sprints db), pg_decisions db)" by blast
  have u: "pg_view db' = ((fst (pg_view db))(?uuid \<mapsto> (SprintStatusString SprintProposed, ?k)), fst (snd (pg_view db)),
      (snd (snd (pg_view db)))(?k \<mapsto> StateString StateDraft))"
    using e(4) by (auto simp: core_eqs pg_view_def update_conv' fun_eq_iff run_row_def draftRun_def e(1) planned_row_def Let_def)
  show ?thesis unfolding u by (rule view_plan [OF pg_view_pair [OF assms(2)]]) (use e in \<open>simp_all add: pg_view_sel\<close>)
qed

lemma pg_submit:
  assumes "pg_submitSprintTx env scope h command m db = Inr ((c, r), db')" "pg_view db = gov_text g" "gov_inv g"
  shows "steps_to g (pg_view db')"
proof -
  let ?uuid = "SprintID_UUID (sc_SprintID command)" and ?d = "sc_DecisionID command"
  from submitSprint_effect [OF assms(1)] obtain srow row moved run' sprint d where
    e: "map_of (pg_sprints db) ?uuid = Some (srow :: SprintRow)" "sr_status srow = SprintStatusString SprintProposed"
    "Machine_Transition (pg_now env 0) (scanRun (sr_run_id srow) row) StateAwaitingApproval = Inr moved" "run' = stamped moved"
    "sprint = (scanSprint ?uuid srow None)\<lparr>sprint_status := SprintStatusString SprintAwaitingApproval,
         sprint_version := sr_version srow + 1, sprint_updated_at := run_updated_at run',
         sprint_pending_decision_id := Some (sc_DecisionID command)\<rparr>"
    "d = requested_decision command m sprint (run_updated_at run')" "map_of (pg_decisions db) ?d = None"
    "core db' = (AList.update (sr_run_id srow) (moved_row row run') (pg_runs db),
        AList.update ?uuid (srow\<lparr>sr_status := SprintStatusString SprintAwaitingApproval, sr_version := sr_version srow + 1,
          sr_updated_at := run_updated_at run'\<rparr>) (pg_sprints db),
        AList.update ?d (decision_row ?uuid d) (pg_decisions db))" by blast
  have u: "pg_view db' = ((fst (pg_view db))(?uuid \<mapsto> (SprintStatusString SprintAwaitingApproval, sr_run_id srow)),
      (fst (snd (pg_view db)))(?d \<mapsto> (DecisionStatusString DecisionPending, ?uuid, sr_run_id srow)),
      (snd (snd (pg_view db)))(sr_run_id srow \<mapsto> StateString StateAwaitingApproval))"
    using moved_state(1) [OF e(3)] e(8)
    by (auto simp: core_eqs pg_view_def update_conv' fun_eq_iff e(4,5,6) decision_row_def requested_decision_def scanSprint_def)
  show ?thesis unfolding u
    by (rule view_submit [OF pg_view_pair [OF assms(2)] assms(3)]) (use e in \<open>simp_all add: pg_view_sel\<close>)
qed

lemma pg_resolve:
  assumes "pg_resolveDecisionTx env scope h command m db = Inr ((c, r), db')" "pg_view db = gov_text g" "gov_inv g"
  shows "steps_to g (pg_view db')"
proof -
  let ?ap = "dc_Approve command" and ?d = "dc_DecisionID command"
  from resolveDecision_effect [OF assms(1)] obtain drow srow row moved run' now where
    e: "map_of (pg_decisions db) ?d = Some (drow :: DecisionRow)" "dr_status drow = DecisionStatusString DecisionPending"
    "map_of (pg_sprints db) (dr_sprint_id drow) = Some (srow :: SprintRow)"
    "Machine_Transition (pg_now env 0) (scanRun (dr_run_id drow) row) (if ?ap then StateQueued else StateCancelling) = Inr moved"
    "run' = stamped moved"
    "core db' = (AList.update (dr_run_id drow) (moved_row row run') (pg_runs db),
        AList.update (dr_sprint_id drow) (srow\<lparr>sr_status := SprintStatusString (if ?ap then SprintApproved else SprintRejected),
          sr_version := sr_version srow + 1, sr_updated_at := now\<rparr>) (pg_sprints db),
        AList.update ?d (drow\<lparr>dr_status := DecisionStatusString (if ?ap then DecisionApproved else DecisionRejected),
          dr_version := dr_version drow + 1, dr_decided_by := Some (ActorID m), dr_reason := Some (dc_Reason command),
          dr_decided_at := Some now, dr_updated_at := now\<rparr>) (pg_decisions db))" by blast
  note v = pg_view_pair [OF assms(2)]
  have d: "fst (snd (pg_view db)) ?d = Some (DecisionStatusString DecisionPending, dr_sprint_id drow, dr_run_id drow)"
    using e by (simp add: pg_view_sel)
  have run: "sr_run_id srow = dr_run_id drow"
    using view_pending(2) [OF v assms(3) d] e(3)
      gov_text_lookup(2) [OF v, of "dr_sprint_id drow" "SprintStatusString SprintAwaitingApproval" "dr_run_id drow"]
    by (simp add: pg_view_sel)
  have u: "pg_view db' = ((fst (pg_view db))(dr_sprint_id drow \<mapsto>
        (SprintStatusString (if ?ap then SprintApproved else SprintRejected), dr_run_id drow)),
      (fst (snd (pg_view db)))(?d \<mapsto> (DecisionStatusString (if ?ap then DecisionApproved else DecisionRejected),
         dr_sprint_id drow, dr_run_id drow)),
      (snd (snd (pg_view db)))(dr_run_id drow \<mapsto> StateString (if ?ap then StateQueued else StateCancelling)))"
    using moved_state(1) [OF e(4)] run e(6)
    by (simp add: core_eqs pg_view_def update_conv' fun_eq_iff e(5))
  show ?thesis unfolding u by (rule view_resolve [OF v assms(3) d])
qed

lemma find_SomeD: "find P xs = Some x \<Longrightarrow> x \<in> set xs \<and> P x"
  by (auto simp: find_Some_iff)

lemma pg_sprint_of_run:
  assumes "distinct (map fst (pg_sprints db))"
  shows "sprint_of_run db k = Some (uuid, sp) \<Longrightarrow>
      \<exists>row. map_of (pg_sprints db) uuid = Some row \<and> sr_run_id row = k \<and> sprint_status sp = sr_status row"
    and "sprint_of_run db k = None \<Longrightarrow> fst (pg_view db) i \<noteq> Some (t, k)"
  using assms
  by (auto simp: sprint_of_run_def scanSprint_def pg_view_sel find_None_iff map_of_eq_Some_iff dest!: find_SomeD)

lemma pg_move:
  assumes "pg_transitionRunTx env scope h k v target m db = Inr ((c, r), db')" "pg_shows db g" "gov_inv g"
  shows "steps_to g (pg_view db')"
proof -
  have dist: "distinct (map fst (pg_sprints db))" and w: "pg_view db = gov_text g" using assms(2) by (auto simp: pg_shows_def)
  note v = pg_view_pair [OF w]
  from transitionRun_effect [OF assms(1)] obtain row moved cancelling a where
    e: "map_of (pg_runs db) k = Some (row :: RunRow)" "cancellingSprint target (sprint_of_run db k) = Inr cancelling"
    "Machine_Transition (pg_now env 0) (scanRun k row) target = Inr moved" "r = stamped moved"
    "cancelSprint env cancelling (run_updated_at r) m (db\<lparr>pg_runs := AList.update k (moved_row row r) (pg_runs db)\<rparr>) = Inr a"
    "core db' = core a" by blast
  obtain rs where rs: "rr_state row = StateString rs" "CanTransition rs target" using moved_state(2) [OF e(3)] by blast
  have state: "rr_state (moved_row row r) = StateString target" using moved_state(1) [OF e(3)] e(4) by simp
  have m: "snd (snd (pg_view db)) k = Some (StateString rs)" using e(1) rs by (simp add: pg_view_sel)
  show ?thesis
  proof (cases "sprint_of_run db k")
    case None
    then have "cancelling = None" using e(2) by (simp add: cancellingSprint_def)
    then have "core db' = (AList.update k (moved_row row r) (pg_runs db), pg_sprints db, pg_decisions db)"
      using e(5,6) by (auto simp: cancelSprint_def core_def)
    then have u: "pg_view db' = (fst (pg_view db), fst (snd (pg_view db)), (snd (snd (pg_view db)))(k \<mapsto> StateString target))"
      using state by (simp add: core_eqs pg_view_def update_conv' fun_eq_iff)
    show ?thesis unfolding u by (rule view_move_free [OF v assms(3) m rs(2) pg_sprint_of_run(2) [OF dist None]])
  next
    case (Some p)
    then obtain uuid sp where p: "sprint_of_run db k = Some (uuid, sp)" by (cases p) simp
    from pg_sprint_of_run(1) [OF dist p] obtain srow where
      srow: "map_of (pg_sprints db) uuid = Some srow" "sr_run_id srow = k" "sprint_status sp = sr_status srow" by blast
    from srow have f: "fst (pg_view db) uuid = Some (sr_status srow, k)" by (simp add: pg_view_sel)
    then obtain st where st: "sr_status srow = SprintStatusString st" using gov_text_lookup(2) [OF v] by blast
    have guard: "st \<noteq> SprintAwaitingApproval" "st = SprintProposed \<longrightarrow> target = StateCancelling"
      "cancelling = (if target = StateCancelling then Some (uuid, sp) else None)"
      using e(2) p srow st by (auto simp: cancellingSprint_def split: if_splits)
    have u: "pg_view db' = ((fst (pg_view db))(uuid \<mapsto> (SprintStatusString (gov_cancel target st), k)), fst (snd (pg_view db)),
        (snd (snd (pg_view db)))(k \<mapsto> StateString target))"
      using cancelSprint_Inr [OF e(5)] e(6) guard(3) srow st state
      by (auto simp: core_def pg_view_def update_conv' fun_eq_iff gov_cancel_def split: if_splits)
    show ?thesis unfolding u by (rule view_move [OF v assms(3) m rs(2) f [unfolded st] guard(1,2)])
  qed
qed

lemma pg_resume:
  assumes "pg_resumeRunTx env scope h k v m db = Inr ((c, r), db')" "pg_view db = gov_text g" "gov_inv g"
  shows "steps_to g (pg_view db')"
proof -
  note v = pg_view_pair [OF assms(2)]
  from resumeRun_effect [OF assms(1)] obtain row moved where
    e: "map_of (pg_runs db) k = Some (row :: RunRow)" "rr_state row \<in> {StateString StateFailedRetryable, StateString StateAwaitingDecision}"
    "Machine_Transition (pg_now env 0) (scanRun k row) StateQueued = Inr moved" "r = stamped moved"
    "core db' = (AList.update k (moved_row row r) (pg_runs db), pg_sprints db, pg_decisions db)" by blast
  obtain rs where rs: "rr_state row = StateString rs" "CanTransition rs StateQueued" using moved_state(2) [OF e(3)] by blast
  have m: "snd (snd (pg_view db)) k = Some (StateString rs)" using e(1) rs by (simp add: pg_view_sel)
  have u: "pg_view db' = (fst (pg_view db), fst (snd (pg_view db)), (snd (snd (pg_view db)))(k \<mapsto> StateString StateQueued))"
    using e(4,5) moved_state(1) [OF e(3)] by (simp add: core_eqs pg_view_def update_conv' fun_eq_iff)
  show ?thesis
  proof (cases "\<exists>i st. gov_sprints g i = Some (st, k)")
    case True
    then obtain i st where sp: "gov_sprints g i = Some (st, k)" by blast
    have "gov_runs g k = Some rs" using m gov_text_lookup(6) [OF v] by simp
    then have "gov_status_ok g i st k rs" using gov_invD(1) [OF assms(3) sp] by simp
    then have st: "st = SprintApproved" using e(2) rs by (cases st) (auto simp: gov_status_ok_def)
    have f: "fst (pg_view db) i = Some (SprintStatusString st, k)" using sp gov_text_lookup(2) [OF v] by blast
    then have "(fst (pg_view db))(i \<mapsto> (SprintStatusString (gov_cancel StateQueued st), k)) = fst (pg_view db)"
      by (simp add: gov_cancel_def fun_upd_idem)
    with view_move [OF v assms(3) m rs(2) f] st show ?thesis unfolding u by simp
  next
    case False
    have "fst (pg_view db) i \<noteq> Some (t, k)" for i t
      using False unfolding gov_text_lookup(2) [OF v] by blast
    then show ?thesis unfolding u by (rule view_move_free [OF v assms(3) m rs(2)])
  qed
qed

lemma pg_sprints_distinct:
  assumes "pg_step sha256 s db db'" "distinct (map fst (pg_sprints db))"
  shows "distinct (map fst (pg_sprints db'))"
  using assms(1)
proof (cases rule: pg_step_governed)
  case untouched
  then show ?thesis using assms(2) by (simp add: untouched_def core_def)
next
  case (create env scope h i obj m c r)
  then show ?thesis using createRun_effect [OF create(2)] assms(2) by (auto simp: core_eqs)
next
  case (transition env scope h i v target m c r)
  from transitionRun_effect [OF transition(2)] obtain cancelling row a where
    "cancelSprint env cancelling (run_updated_at r) m (db\<lparr>pg_runs := AList.update i (moved_row row r) (pg_runs db)\<rparr>) = Inr a"
    "core db' = core a" by blast
  from cancelSprint_Inr [OF this(1)] this(2) show ?thesis using assms(2) by (auto simp: core_def distinct_update)
next
  case (resume env scope h i v m c r)
  then show ?thesis using resumeRun_effect [OF resume(2)] assms(2) by (auto simp: core_eqs)
next
  case (plan env scope h command m c r)
  then show ?thesis using planSprint_effect [OF plan(2)] assms(2) by (auto simp: core_eqs distinct_update)
next
  case (submit env scope h command m c r)
  then show ?thesis using submitSprint_effect [OF submit(2)] assms(2) by (auto simp: core_eqs distinct_update)
next
  case (resolve env scope h command m c r)
  then show ?thesis using resolveDecision_effect [OF resolve(2)] assms(2) by (auto simp: core_eqs distinct_update)
qed

lemma pg_simulates:
  assumes "pg_shows db g" "gov_inv g" "pg_step sha256 s db db'"
  shows "\<exists>g'. gov_step\<^sup>*\<^sup>* g g' \<and> pg_shows db' g'"
proof -
  have dist: "distinct (map fst (pg_sprints db))" and v: "pg_view db = gov_text g" using assms(1) by (auto simp: pg_shows_def)
  have "steps_to g (pg_view db')"
    using assms(3)
  proof (cases rule: pg_step_governed)
    case untouched
    then have "pg_view db' = pg_view db" by (simp add: untouched_def core_def pg_view_def)
    then show ?thesis using view_same [OF v] by simp
  next
    case (create env scope h i obj m c r)
    show ?thesis by (rule pg_create [OF create(2) v])
  next
    case (transition env scope h i w target m c r)
    show ?thesis by (rule pg_move [OF transition(2) assms(1,2)])
  next
    case (resume env scope h i w m c r)
    show ?thesis by (rule pg_resume [OF resume(2) v assms(2)])
  next
    case (plan env scope h command m c r)
    show ?thesis by (rule pg_plan [OF plan(2) v])
  next
    case (submit env scope h command m c r)
    show ?thesis by (rule pg_submit [OF submit(2) v assms(2)])
  next
    case (resolve env scope h command m c r)
    show ?thesis by (rule pg_resolve [OF resolve(2) v assms(2)])
  qed
  with pg_sprints_distinct [OF assms(3) dist] show ?thesis unfolding steps_to_def pg_shows_def by blast
qed

interpretation pg_sim: forward_simulation "\<lambda>g. g = gov_empty" gov_step gov_inv "pg_step sha256 s" pg_shows for sha256 s
  by unfold_locales (rule pg_simulates)

lemma pg_shows_empty: "pg_shows empty_pg gov_empty"
  by (simp add: pg_shows_def pg_view_def empty_pg_def gov_text_def gov_empty_def)

section \<open>A governed history of the durable repository\<close>

definition sample_step_env :: "8 word \<Rightarrow> PgEnv" where
  "sample_step_env b = sample_pg_env\<lparr>pg_entropy := (\<lambda>n. b # (if n = 0 then 0 else if n = 1 then 1 else 2) # replicate 14 0)\<rparr>"

definition sample_pg_planned :: "string PgDB" where
  "sample_pg_planned = snd (Pg_PlanSprint id (sample_step_env 1) sample_lease_store sample_plan sample_metadata empty_pg)"

definition sample_pg_submitted :: "string PgDB" where
  "sample_pg_submitted = snd (Pg_SubmitSprint id (sample_step_env 2) sample_lease_store sample_submit sample_metadata sample_pg_planned)"

definition sample_pg_approved :: "string PgDB" where
  "sample_pg_approved = snd (Pg_ResolveDecision id (sample_step_env 3) sample_lease_store sample_approve sample_metadata sample_pg_submitted)"

lemma sample_step_clock: "clock_ok (sample_step_env b)"
  by (simp add: clock_ok_def sample_step_env_def sample_pg_env_def DBEnv.extend_def PgEnv.fields_def zero_time_def)

lemma sample_pg_approved_reached: "(pg_step id sample_lease_store)\<^sup>*\<^sup>* empty_pg sample_pg_approved"
proof -
  have "pg_step id sample_lease_store empty_pg sample_pg_planned"
    unfolding sample_pg_planned_def by (rule step_PlanSprint [OF sample_step_clock surjective_pairing])
  moreover have "pg_step id sample_lease_store sample_pg_planned sample_pg_submitted"
    unfolding sample_pg_submitted_def by (rule step_SubmitSprint [OF sample_step_clock surjective_pairing])
  moreover have "pg_step id sample_lease_store sample_pg_submitted sample_pg_approved"
    unfolding sample_pg_approved_def by (rule step_ResolveDecision [OF sample_step_clock surjective_pairing])
  ultimately show ?thesis by (meson converse_rtranclp_into_rtranclp r_into_rtranclp)
qed

lemma sample_pg_approved_rows:
  "map (\<lambda>(k, r). (k, rr_state r)) (pg_runs sample_pg_approved) = [(sample_rid, ''queued'')]
   \<and> map (\<lambda>(k, r). (k, sr_status r, sr_run_id r)) (pg_sprints sample_pg_approved) = [(SprintID_UUID sample_sid, ''approved'', sample_rid)]"
  by code_simp

section \<open>Refinement\<close>

text \<open>
  C2. The durable repository refines the governance machine: whatever commands, queue
  operations, rebuilds and writes of other components ran, and whatever statements failed, the
  sprints, decisions and runs in the tables are a state that the machine reaches from
  nothing.
\<close>

theorem pg_refines_governance:
  assumes "(pg_step sha256 s)\<^sup>*\<^sup>* empty_pg db"
  shows "\<exists>g. gov_step\<^sup>*\<^sup>* gov_empty g \<and> pg_view db = gov_text g"
  using pg_sim.refines [OF assms pg_shows_empty refl] unfolding pg_shows_def by blast

theorem pg_refines_governance_witness: "\<exists>g. gov_step\<^sup>*\<^sup>* gov_empty g \<and> pg_view sample_pg_approved = gov_text g"
  by (rule pg_refines_governance [OF sample_pg_approved_reached])

text \<open>
  C14. The in-memory repository refines the same machine: after any history with fresh
  identifiers of decisions, its sprints, decisions and runs are a state that the machine
  reaches from nothing.
\<close>

theorem memory_refines_governance:
  assumes "(control_step sha256)\<^sup>*\<^sup>* NewMemoryRepository s"
  shows "\<exists>g. gov_step\<^sup>*\<^sup>* gov_empty g \<and> mem_view s = gov_text g"
  using mem_sim.refines [OF assms mem_shows_empty refl] unfolding mem_shows_def by blast

theorem memory_refines_governance_witness: "\<exists>g. gov_step\<^sup>*\<^sup>* gov_empty g \<and> mem_view sample_approved = gov_text g"
  by (rule memory_refines_governance [OF sample_reachable(3)])

text \<open>
  C8. No durable work without approval: in every reachable database the run of a sprint
  that is past approval and not being cancelled belongs to an approved sprint, and the
  approved decision about that sprint and run is on record.
\<close>

theorem durable_work_was_approved:
  assumes "(pg_step sha256 s)\<^sup>*\<^sup>* empty_pg db"
    and "map_of (pg_sprints db) uuid = Some srow" "map_of (pg_runs db) (sr_run_id srow) = Some row"
    and "rr_state row = StateString st" "st \<notin> {StateDraft, StateAwaitingApproval, StateCancelling, StateCancelled}"
  shows "sr_status srow = SprintStatusString SprintApproved
    \<and> (\<exists>d drow. map_of (pg_decisions db) d = Some drow \<and> dr_status drow = DecisionStatusString DecisionApproved
        \<and> dr_sprint_id drow = uuid \<and> dr_run_id drow = sr_run_id srow)"
proof -
  obtain g where "pg_view db = gov_text g" and inv: "gov_inv g"
    using pg_sim.refines [OF assms(1) pg_shows_empty refl] unfolding pg_shows_def by blast
  note v = pg_view_pair [OF this(1)]
  have "fst (pg_view db) uuid = Some (sr_status srow, sr_run_id srow)" using assms(2) by (simp add: pg_view_sel)
  then obtain ss where ss: "gov_sprints g uuid = Some (ss, sr_run_id srow)" "sr_status srow = SprintStatusString ss"
    using gov_text_lookup(2) [OF v] by blast
  have "snd (snd (pg_view db)) (sr_run_id srow) = Some (StateString st)" using assms(3,4) by (simp add: pg_view_sel)
  then have "gov_runs g (sr_run_id srow) = Some st" using gov_text_lookup(6) [OF v] by auto
  then have ok: "gov_status_ok g uuid ss (sr_run_id srow) st" using gov_invD(1) [OF inv ss(1)] by simp
  with assms(5) obtain d where "ss = SprintApproved" "gov_decisions g d = Some (DecisionApproved, uuid, sr_run_id srow)"
    by (cases ss) (auto simp: gov_status_ok_def)
  moreover from this(2) have "fst (snd (pg_view db)) d = Some (DecisionStatusString DecisionApproved, uuid, sr_run_id srow)"
    using gov_text_lookup(4) [OF v] by blast
  ultimately show ?thesis using ss(2) by (auto simp: pg_view_sel)
qed

theorem durable_work_was_approved_witness:
  "\<exists>d drow. map_of (pg_decisions sample_pg_approved) d = Some drow \<and> dr_status drow = DecisionStatusString DecisionApproved
     \<and> dr_sprint_id drow = SprintID_UUID sample_sid \<and> dr_run_id drow = sample_rid"
proof -
  obtain row where row: "pg_runs sample_pg_approved = [(sample_rid, row)]" "rr_state row = StateString StateQueued"
    using sample_pg_approved_rows by (auto simp: map_eq_Cons_conv StateString.simps)
  obtain srow where "pg_sprints sample_pg_approved = [(SprintID_UUID sample_sid, srow)]" "sr_run_id srow = sample_rid"
    using sample_pg_approved_rows by (auto simp: map_eq_Cons_conv)
  with durable_work_was_approved [OF sample_pg_approved_reached, of "SprintID_UUID sample_sid" srow row StateQueued] row
  show ?thesis by simp
qed

end
