(* ===== verification/QueueSafety.thy ===== *)
theory QueueSafety
  imports Governance
begin

text \<open>
  What the queues of the durable repository promise over whole histories: the fencing
  token of a row never decreases, so that a worker whose claim was taken over can neither
  publish nor fail the row, and the checkpoint of a projector never runs ahead of what the
  projector has published.
\<close>

section \<open>Commands only enqueue\<close>

definition queues :: "'h PgDB \<Rightarrow> (int \<times> OutboxRow) list \<times> (string \<times> 'h ConsumerRow) list
    \<times> ((string \<times> int) \<times> QueueRow) list \<times> (string \<times> int) list" where
  "queues db = (pg_outbox db, pg_consumers db, pg_deliveries db, pg_checkpoints db)"

lemma queues_simps [simp]:
  "queues (db\<lparr>pg_runs := a\<rparr>) = queues db" "queues (db\<lparr>pg_sprints := b\<rparr>) = queues db"
  "queues (db\<lparr>pg_decisions := c\<rparr>) = queues db" "queues (db\<lparr>pg_events := d\<rparr>) = queues db"
  "queues (db\<lparr>pg_idempotency := e\<rparr>) = queues db" "queues (db\<lparr>pg_dead_letters := f\<rparr>) = queues db"
  "queues (db\<lparr>pg_projections := g\<rparr>) = queues db" "queues (db\<lparr>pg_publications := h\<rparr>) = queues db"
  "queues (db\<lparr>pg_generations := i\<rparr>) = queues db" "queues (db\<lparr>pg_points := j\<rparr>) = queues db"
  by (simp_all add: queues_def)

inductive enqueues :: "'h PgDB \<Rightarrow> 'h PgDB \<Rightarrow> bool" where
  enqueues_same: "queues db' = queues db \<Longrightarrow> enqueues db db'"
| enqueues_event: "enqueues db u \<Longrightarrow> queues db' = queues (insert_event env n ev u) \<Longrightarrow> enqueues db db'"

lemma enqueues_refl [simp]: "enqueues db db"
  by (rule enqueues_same) simp

lemma insert_event_queues: "queues u = queues v \<Longrightarrow> queues (insert_event env n ev u) = queues (insert_event env n ev v)"
  by (simp add: queues_def insert_event_def fanout_projection_delivery_def next_outbox_id_def Let_def)

lemma enqueues_trans:
  assumes "enqueues u v" "enqueues v w"
  shows "enqueues u w"
  using assms(2,1)
proof induction
  case (enqueues_same w v)
  from enqueues_same(2,1) show ?case
    by cases (auto intro: enqueues.intros)
qed (auto intro: enqueues.intros)

named_theorems enqueue

lemma appendEvent_enqueues [enqueue]: "appendEvent env n ty i v et t p m db = Inr db' \<Longrightarrow> enqueues db db'"
  by (elim appendEvent_Inr) (auto intro: enqueues_event [OF enqueues_refl refl])

lemma statement_enqueues [enqueue]:
  "insert_run e op i r db = Inr db' \<Longrightarrow> enqueues db db'"
  "update_run e op stale run v db = Inr db' \<Longrightarrow> enqueues db db'"
  "insert_sprint e op uuid row db = Inr db' \<Longrightarrow> enqueues db db'"
  "update_sprint e op stale uuid status version t v db = Inr db' \<Longrightarrow> enqueues db db'"
  "insert_decision e op d drow db = Inr db' \<Longrightarrow> enqueues db db'"
  "update_decision e op stale dec w db = Inr db' \<Longrightarrow> enqueues db db'"
  "saveReplay e op failure scope key h code response db = Inr db' \<Longrightarrow> enqueues db db'"
  by (auto simp: insert_run_Inr insert_sprint_Inr saveReplay_def db_exec_Inr dest!: insert_decision_Inr
      elim!: update_run_Inr update_sprint_Inr update_decision_Inr intro!: enqueues_same split: option.splits)

lemma append_enqueues [enqueue]:
  "appendControlEvent env n ty i v et t p m db = Inr db' \<Longrightarrow> enqueues db db'"
  "appendRunEvent env n et run m db = Inr db' \<Longrightarrow> enqueues db db'"
  "appendToolAudit env n rec m db = Inr db' \<Longrightarrow> enqueues db db'"
  "appendSuccessToolAudit env n m scope t replay db = Inr db' \<Longrightarrow> enqueues db db'"
  by (auto simp: appendControlEvent_def appendRunEvent_def appendToolAudit_def appendSuccessToolAudit_def Let_def
      split: option.splits sum.splits if_splits intro: appendEvent_enqueues)

lemma replay_enqueues [enqueue]:
  "saveRunReplay e scope key h status run db = Inr db' \<Longrightarrow> enqueues db db'"
  "saveControlReplay e scope key h status response db = Inr db' \<Longrightarrow> enqueues db db'"
  by (auto simp: saveRunReplay_def saveControlReplay_def intro: enqueue)

lemma cancelSprint_enqueues [enqueue]: "cancelSprint env cancelling t m db = Inr db' \<Longrightarrow> enqueues db db'"
  by (auto simp: cancelSprint_def Let_def split: option.splits if_splits dest!: enqueue intro: enqueues_trans)

lemma tx_enqueues:
  "pg_createRunTx env scope h i obj m db = Inr (r, db') \<Longrightarrow> enqueues db db'"
  "pg_transitionRunTx env scope h i v target m db = Inr (r, db') \<Longrightarrow> enqueues db db'"
  "pg_resumeRunTx env scope h i v m db = Inr (r, db') \<Longrightarrow> enqueues db db'"
  subgoal by (auto simp: pg_createRunTx_def Let_def dest!: enqueue) (meson enqueues_trans)
  subgoal by (auto simp: pg_transitionRunTx_def Let_def requireRunPublicationTransition_def split: option.splits dest!: enqueue) (meson enqueues_trans)+
  subgoal by (auto simp: pg_resumeRunTx_def Let_def requireRunPublicationTransition_def split: option.splits dest!: enqueue) (meson enqueues_trans)+
  done

lemma sprint_tx_enqueues:
  "pg_planSprintTx env scope h pc m db = Inr (rp, db') \<Longrightarrow> enqueues db db'"
  "write_submission env scope h sc m sprint decision updated v db = Inr (rs, db') \<Longrightarrow> enqueues db db'"
  "write_resolution env scope h dc m uuid sprint decision updated v db = Inr (rd, db') \<Longrightarrow> enqueues db db'"
  subgoal by (auto simp: pg_planSprintTx_def Let_def uuid_cast_def split: if_splits dest!: enqueue) (meson enqueues_trans)+
  subgoal by (auto simp: write_submission_def Let_def dest!: enqueue) (meson enqueues_trans)
  subgoal by (auto simp: write_resolution_def Let_def dest!: enqueue) (meson enqueues_trans)
  done

lemma decide_tx_enqueues:
  "pg_submitSprintTx env scope h sc m db = Inr (rs, db') \<Longrightarrow> enqueues db db'"
  "pg_resolveDecisionTx env scope h dc m db = Inr (rd, db') \<Longrightarrow> enqueues db db'"
  by (auto simp: pg_submitSprintTx_def pg_resolveDecisionTx_def Let_def uuid_cast_def split: option.splits sum.splits if_splits
      dest!: sprint_tx_enqueues(2,3))

lemma replayed_enqueues:
  assumes "run_tx env (pg_command e operation lookup (audited_replay env operation m scope db) work) db = (res, db')"
    "\<And>r. work = Inr (r, db') \<Longrightarrow> enqueues db db'"
  shows "enqueues db db'"
  using run_tx_state [OF assms(1)] assms(2) append_enqueues(4)
  by (fastforce simp: pg_command_Inr audited_replay_def)

lemma command_enqueues:
  "Pg_CreateRun sha256 env s i obj m db = (r, db') \<Longrightarrow> enqueues db db'"
  "Pg_TransitionRun sha256 env s i v target m db = (r, db') \<Longrightarrow> enqueues db db'"
  "Pg_ResumeRun sha256 env s i v m db = (r, db') \<Longrightarrow> enqueues db db'"
  "Pg_PlanSprint sha256 env s pc m db = (rp, db') \<Longrightarrow> enqueues db db'"
  "Pg_SubmitSprint sha256 env s sc m db = (rs, db') \<Longrightarrow> enqueues db db'"
  "Pg_ResolveDecision sha256 env s dc m db = (rd, db') \<Longrightarrow> enqueues db db'"
  "Pg_RecordToolAudit env rec db = (u, db') \<Longrightarrow> enqueues db db'"
  subgoal using tx_enqueues(1) by (fastforce dest!: Pg_CreateRun_state)
  subgoal by (auto simp: Pg_TransitionRun_def Let_def split: option.splits if_splits elim!: replayed_enqueues tx_enqueues(2))
  subgoal by (auto simp: Pg_ResumeRun_def Let_def split: option.splits if_splits elim!: replayed_enqueues tx_enqueues(3))
  subgoal by (auto simp: Pg_PlanSprint_def Let_def split: option.splits elim!: replayed_enqueues sprint_tx_enqueues(1))
  subgoal by (auto simp: Pg_SubmitSprint_def Let_def split: option.splits elim!: replayed_enqueues decide_tx_enqueues(1))
  subgoal by (auto simp: Pg_ResolveDecision_def Let_def split: option.splits elim!: replayed_enqueues decide_tx_enqueues(2))
  subgoal using append_enqueues(3) by (fastforce simp: Pg_RecordToolAudit_def Let_def split: option.splits dest!: run_tx_state)
  done

lemma rebuild_queues:
  "RebuildRunProjection env p db = (u, db') \<Longrightarrow> pg_outbox db' = pg_outbox db \<and> pg_consumers db' = pg_consumers db
     \<and> pg_deliveries db' = pg_deliveries db \<and> (\<forall>q. q \<noteq> p \<longrightarrow> map_of (pg_checkpoints db') q = map_of (pg_checkpoints db) q)"
  by (drule rebuild_state) (auto simp: update_conv')

section \<open>Fencing tokens\<close>

definition token_le :: "'a QueueRow_scheme \<Rightarrow> 'a QueueRow_scheme \<Rightarrow> bool" where
  "token_le row row' \<longleftrightarrow> qr_fencing_token row \<le> qr_fencing_token row'"

definition tokens_grow :: "'h PgDB \<Rightarrow> 'h PgDB \<Rightarrow> bool" where
  "tokens_grow db db' \<longleftrightarrow> map_evolves token_le (map_of (pg_outbox db)) (map_of (pg_outbox db'))
     \<and> map_evolves token_le (map_of (pg_deliveries db)) (map_of (pg_deliveries db'))"

lemma token_le_refl: "reflp token_le" and token_le_trans: "transp token_le"
  by (auto simp: token_le_def reflp_def transp_def)

lemma tokens_grow_refl: "tokens_grow db db"
  by (simp add: tokens_grow_def map_evolves_refl token_le_refl)

lemma tokens_grow_trans:
  assumes "tokens_grow a b" "tokens_grow b c"
  shows "tokens_grow a c"
  using assms unfolding tokens_grow_def
  by (auto intro: map_evolves_trans [OF token_le_trans, of _ "map_of (pg_outbox b)"]
      map_evolves_trans [OF token_le_trans, of _ "map_of (pg_deliveries b)"])

lemma map_of_map_row: "map_of (map (\<lambda>(i, row). (i, f i row)) xs) k = map_option (f k) (map_of xs k)"
  by (induction xs) auto

lemma map_of_update_deliveries:
  "map_of (pg_deliveries (update_deliveries p f db)) (q, i)
     = map_option (\<lambda>row. if q = p then f i row else row) (map_of (pg_deliveries db) (q, i))"
proof -
  have "map_of (map (\<lambda>((p', i), row). ((p', i), if p' = p then f i row else row)) xs) (q, i)
      = map_option (\<lambda>row. if q = p then f i row else row) (map_of xs (q, i))" for xs
    by (induction xs) auto
  then show ?thesis by (simp add: update_deliveries_def)
qed

lemma evolves_append: "map_evolves token_le (map_of xs) (map_of (xs @ ys))"
  by (simp add: map_evolves_def token_le_def)

lemma evolves_rows: "(\<And>i row. token_le row (f i row)) \<Longrightarrow>
    map_evolves token_le (map_of xs) (map_of (map (\<lambda>(i, row). (i, f i row)) xs))"
  by (simp add: map_evolves_def map_of_map_row)

lemma evolves_update: "map_of xs k = Some row \<Longrightarrow> token_le row row' \<Longrightarrow>
    map_evolves token_le (map_of xs) (map_of (AList.update k row' xs))"
  by (simp add: map_evolves_def update_conv' token_le_def)

lemma evolves_deliveries: "(\<And>i row. token_le row (f i row)) \<Longrightarrow>
    map_evolves token_le (map_of (pg_deliveries db)) (map_of (pg_deliveries (update_deliveries p f db)))"
  unfolding map_evolves_def
proof (intro allI impI)
  fix k v assume "\<And>i row. token_le row (f i row)" "map_of (pg_deliveries db) k = Some v"
  then show "\<exists>v'. map_of (pg_deliveries (update_deliveries p f db)) k = Some v' \<and> token_le v v'"
    by (cases k) (simp add: map_of_update_deliveries token_le_def)
qed

lemma queues_of_update [simp]:
  "pg_outbox (update_deliveries p f db) = pg_outbox db" "pg_outbox (backfill_deliveries p db) = pg_outbox db"
  "pg_consumers (update_deliveries p f db) = pg_consumers db" "pg_consumers (backfill_deliveries p db) = pg_consumers db"
  "pg_checkpoints (update_deliveries p f db) = pg_checkpoints db" "pg_checkpoints (backfill_deliveries p db) = pg_checkpoints db"
  by (simp_all add: update_deliveries_def backfill_deliveries_def)

lemma tokens_grow_backfill: "tokens_grow db (backfill_deliveries p db)"
  by (simp add: tokens_grow_def map_evolves_refl token_le_refl)
    (simp add: backfill_deliveries_def evolves_append del: map_of_append)

lemma tokens_grow_update: "(\<And>i row. token_le row (f i row)) \<Longrightarrow> tokens_grow db (update_deliveries p f db)"
  by (simp add: tokens_grow_def map_evolves_refl token_le_refl evolves_deliveries)

lemma tokens_grow_queues: "queues db' = queues db \<Longrightarrow> tokens_grow db db'"
  by (simp add: tokens_grow_def queues_def map_evolves_refl token_le_refl)

lemma tokens_grow_event: "tokens_grow db (insert_event env n ev db)"
  by (simp add: tokens_grow_def insert_event_def fanout_projection_delivery_def Let_def evolves_append del: map_of_append)

lemma tokens_grow_enqueues: "enqueues db db' \<Longrightarrow> tokens_grow db db'"
proof (induction rule: enqueues.induct)
  case (enqueues_event db u db' env n ev)
  then show ?case using tokens_grow_trans tokens_grow_event tokens_grow_queues by metis
qed (rule tokens_grow_queues)

lemma token_le_rows [simp]:
  "token_le row (claim_row env w ttl i row)" "token_le row (publish_row t row)" "token_le row (fail_row st at c row)"
  "token_le row row"
  by (simp_all add: token_le_def claim_row_def publish_row_def fail_row_def)

lemma token_le_reset [simp]: "token_le row (reset_row t row)"
  by (simp add: token_le_def reset_row_def)

lemma tokens_grow_step:
  assumes "pg_step sha256 s db db'"
  shows "tokens_grow db db'"
  using assms
proof cases
  case step_RebuildRunProjection
  then show ?thesis by (drule_tac rebuild_queues) (simp add: tokens_grow_def map_evolves_refl token_le_refl)
next
  case (step_ClaimOutbox env w limit ttl ms)
  then show ?thesis using ClaimOutbox_state [OF step_ClaimOutbox]
    by (auto simp: tokens_grow_def map_evolves_refl token_le_refl intro!: evolves_rows)
next
  case (step_CompleteOutbox env n w token u)
  then show ?thesis using CompleteOutbox_state [OF step_CompleteOutbox]
    by (auto simp: tokens_grow_def map_evolves_refl token_le_refl intro!: evolves_update)
next
  case (step_FailOutbox env n w token cause at maxAttempts u)
  then show ?thesis using FailOutbox_state [OF step_FailOutbox]
    by (auto simp: tokens_grow_def map_evolves_refl token_le_refl intro!: evolves_update)
next
  case (step_EnsureProjectionConsumer env p h u)
  then show ?thesis using EnsureProjectionConsumer_state [OF step_EnsureProjectionConsumer]
    tokens_grow_backfill [of "consumer_added p h db" p]
    by (auto simp: tokens_grow_refl) (auto simp: tokens_grow_def checkpoint_added_def consumer_added_def)
next
  case (step_ClaimProjectionDeliveries env p w limit ttl ds)
  then show ?thesis using ClaimProjectionDeliveries_state [OF step_ClaimProjectionDeliveries]
    by (auto simp: tokens_grow_refl intro!: tokens_grow_update)
next
  case (step_CompleteProjectionDelivery env p n w token u)
  then show ?thesis using CompleteProjectionDelivery_state [OF step_CompleteProjectionDelivery]
    by (auto simp: tokens_grow_def map_evolves_refl token_le_refl intro!: evolves_update)
next
  case (step_FailProjectionDelivery env p n w token cause at maxAttempts u)
  then show ?thesis using FailProjectionDelivery_state [OF step_FailProjectionDelivery]
    by (auto simp: tokens_grow_def map_evolves_refl token_le_refl intro!: evolves_update)
next
  case (step_RequeueProjectionDelivery env p n u)
  then show ?thesis using RequeueProjectionDelivery_state [OF step_RequeueProjectionDelivery]
    by (auto simp: tokens_grow_def map_evolves_refl token_le_refl token_le_def intro!: evolves_update)
next
  case (step_ResetRetrievalProjection z env p h g u)
  then show ?thesis
    using ResetRetrievalProjection_state [OF step_ResetRetrievalProjection]
  proof (elim disjE exE conjE)
    fix pts ck f
    assume f: "f = (\<lambda>i. reset_row (db_row_clock env 0 [itoa i]))"
      and db': "db' = (update_deliveries p f (backfill_deliveries p (db\<lparr>pg_points := pts\<rparr>)))\<lparr>pg_checkpoints := ck\<rparr>"
    have "tokens_grow (db\<lparr>pg_points := pts\<rparr>) (update_deliveries p f (backfill_deliveries p (db\<lparr>pg_points := pts\<rparr>)))"
      by (rule tokens_grow_trans [OF tokens_grow_backfill tokens_grow_update]) (simp add: f)
    then show ?thesis by (simp add: tokens_grow_def db')
  qed (simp add: tokens_grow_refl)
next
  case step_other_table
  then show ?thesis by (simp add: tokens_grow_queues)
qed (auto intro: tokens_grow_enqueues command_enqueues appendEvent_enqueues)

interpretation queue_tokens: step_invariant "tokens_grow db" "pg_step sha256 s" "tokens_grow db" for db sha256 s
  by unfold_locales (auto intro: tokens_grow_step tokens_grow_trans)

lemma read_rows_Inr: "read_rows e operation outcome db = (Inr r, db') \<Longrightarrow> outcome = (Inr r, db')"
  by (auto simp: read_rows_def split: prod.splits sum.splits option.splits if_splits)

lemma db_commit_success: "db_commit e operation work db = (Inr r, db') \<Longrightarrow> work = Inr (r, db')"
  by (auto simp: db_commit_def split: sum.splits option.splits if_splits)

lemma ClaimOutbox_message:
  assumes "ClaimOutbox env w limit ttl db = (Inr ms, db')" "m \<in> set ms"
  shows "\<exists>row. map_of (pg_outbox db) (om_OutboxID m) = Some row
    \<and> map_of (pg_outbox db') (om_OutboxID m) = Some (claim_row env w ttl (om_OutboxID m) row)
    \<and> om_FencingToken m = qr_fencing_token row + 1"
proof -
  let ?ids = "claim_ids env limit (pg_outbox db)"
  have db': "db' = db\<lparr>pg_outbox := map (\<lambda>(i, row). (i, if i \<in> set ?ids then claim_row env w ttl i row else row)) (pg_outbox db)\<rparr>"
    and ms: "ms = claimed_messages db' ?ids (pg_outbox db')"
    using assms(1) by (auto simp: ClaimOutbox_def Let_def split: if_splits dest!: read_rows_Inr db_commit_success)
  obtain i where i: "i \<in> set ?ids" "Option.bind (map_of (pg_outbox db') i) (message_of db' i) = Some m"
    using assms(2) unfolding ms claimed_messages_def by (auto simp: map_filter_def)
  then obtain row where row: "map_of (pg_outbox db) i = Some row"
      "map_of (pg_outbox db') i = Some (claim_row env w ttl i row)"
    by (auto simp: db' map_of_map_row bind_eq_Some_conv)
  then have "om_OutboxID m = i" "om_FencingToken m = qr_fencing_token row + 1"
    using i(2) by (auto simp: message_of_def claim_row_def bind_eq_Some_conv)
  with row show ?thesis by auto
qed

lemma claim_row_token [simp]: "qr_fencing_token (claim_row env w ttl i row) = qr_fencing_token row + 1"
  by (simp add: claim_row_def)

lemma stale_outbox_claim:
  assumes "map_of (pg_outbox db) n = Some row" "token < qr_fencing_token row"
  shows "CompleteOutbox env n w token db = (r, db') \<Longrightarrow> isl r \<and> db' = db"
    and "FailOutbox env n w token cause at k db = (r, db') \<Longrightarrow> isl r \<and> db' = db"
proof -
  have no: "\<not> holds_claim t w token row" for t using assms(2) by (auto simp: holds_claim_def)
  show "isl r \<and> db' = db" if c: "CompleteOutbox env n w token db = (r, db')"
    using that no assms(1)
    by (auto simp: CompleteOutbox_def Let_def db_commit_def reject_def db_exec_def db_call_def split: if_splits option.splits)
  show "isl r \<and> db' = db" if "FailOutbox env n w token cause at k db = (r, db')"
    using that no assms(1)
    by (auto simp: FailOutbox_def Let_def run_tx_def reject_def db_exec_def db_call_def split: if_splits option.splits)
qed

text \<open>
  C9. A worker whose claim on an outbox message was taken over is fenced out: once another
  claim returned the same message, its token is larger, and whatever happens afterwards the
  former claim can neither publish nor fail the message; the attempt is an error and changes
  nothing.
\<close>

theorem outbox_takeover_fences:
  assumes "ClaimOutbox env1 w1 limit1 ttl1 db1 = (Inr ms1, db2)" "m1 \<in> set ms1"
    and "(pg_step sha256 s)\<^sup>*\<^sup>* db2 db3"
    and "ClaimOutbox env2 w2 limit2 ttl2 db3 = (Inr ms2, db4)" "m2 \<in> set ms2" "om_OutboxID m2 = om_OutboxID m1"
    and "(pg_step sha256 s)\<^sup>*\<^sup>* db4 db5"
  shows "om_FencingToken m1 < om_FencingToken m2
    \<and> (CompleteOutbox env (om_OutboxID m1) w (om_FencingToken m1) db5 = (r, db6) \<longrightarrow> isl r \<and> db6 = db5)
    \<and> (FailOutbox env (om_OutboxID m1) w (om_FencingToken m1) cause at k db5 = (r', db7) \<longrightarrow> isl r' \<and> db7 = db5)"
proof -
  let ?n = "om_OutboxID m1"
  obtain row1 where r1: "map_of (pg_outbox db2) ?n = Some row1" "om_FencingToken m1 = qr_fencing_token row1"
    using ClaimOutbox_message [OF assms(1,2)] by force
  have grow: "tokens_grow a b" if "(pg_step sha256 s)\<^sup>*\<^sup>* a b" for a b
    using queue_tokens.inv_steps [OF that tokens_grow_refl] .
  obtain row2 where r2: "map_of (pg_outbox db3) ?n = Some row2" "om_FencingToken m2 = qr_fencing_token row2 + 1"
      "map_of (pg_outbox db4) ?n = Some (claim_row env2 w2 ttl2 ?n row2)"
    using ClaimOutbox_message [OF assms(4,5)] assms(6) by auto
  have "qr_fencing_token row1 \<le> qr_fencing_token row2"
    using grow [OF assms(3)] r1(1) r2(1) unfolding tokens_grow_def token_le_def by (auto dest!: map_evolvesD)
  then have lt: "om_FencingToken m1 < om_FencingToken m2" using r1(2) r2(2) by simp
  obtain row3 where r3: "map_of (pg_outbox db5) ?n = Some row3" "om_FencingToken m2 \<le> qr_fencing_token row3"
    using grow [OF assms(7)] r2(2,3) unfolding tokens_grow_def token_le_def by (auto dest!: map_evolvesD)
  then have "om_FencingToken m1 < qr_fencing_token row3" using lt by simp
  with lt r3(1) show ?thesis using stale_outbox_claim by blast
qed

section \<open>Checkpoints\<close>

text \<open>
  The deliveries of a projector and its checkpoint, in a database where the name of the
  projector belongs to a delivery consumer: a rebuild of the run projection under the same
  name would set the checkpoint to the end of the outbox.
\<close>

definition published_upto :: "string \<Rightarrow> int \<Rightarrow> 'h PgDB \<Rightarrow> bool" where
  "published_upto p c db \<longleftrightarrow> (\<forall>n row. ((p, n), row) \<in> set (pg_deliveries db) \<longrightarrow> n \<le> c \<longrightarrow> qr_state row = ''published'')"

definition outbox_bound :: "'h PgDB \<Rightarrow> int" where
  "outbox_bound db = foldr max (map fst (pg_outbox db)) 0"

definition delivery_inv :: "string \<Rightarrow> 'h PgDB \<Rightarrow> bool" where
  "delivery_inv p db \<longleftrightarrow>
     (\<forall>n \<in> fst ` set (pg_outbox db). 1 \<le> n)
   \<and> (\<forall>n row. ((p, n), row) \<in> set (pg_deliveries db) \<longrightarrow> 1 \<le> n \<and> n \<le> outbox_bound db)
   \<and> (map_of (pg_consumers db) p = None \<longrightarrow> map_of (pg_checkpoints db) p = None \<and> (\<forall>n row. ((p, n), row) \<notin> set (pg_deliveries db)))
   \<and> (\<forall>consumer. map_of (pg_consumers db) p = Some consumer \<longrightarrow> cn_status consumer = ''active''
        \<and> (\<forall>n \<in> fst ` set (pg_outbox db). \<exists>d. map_of (pg_deliveries db) (p, n) = Some d))
   \<and> (\<forall>c. map_of (pg_checkpoints db) p = Some c \<longrightarrow> c \<le> outbox_bound db \<and> published_upto p c db)"

lemma delivery_invD:
  assumes "delivery_inv p db"
  shows "n \<in> fst ` set (pg_outbox db) \<Longrightarrow> 1 \<le> n"
    and "((p, n), row) \<in> set (pg_deliveries db) \<Longrightarrow> 1 \<le> n \<and> n \<le> outbox_bound db"
    and "map_of (pg_consumers db) p = None \<Longrightarrow> map_of (pg_checkpoints db) p = None \<and> ((p, n), row) \<notin> set (pg_deliveries db)"
    and "map_of (pg_consumers db) p = Some consumer \<Longrightarrow> cn_status consumer = ''active''"
    and "map_of (pg_consumers db) p = Some consumer \<Longrightarrow> n \<in> fst ` set (pg_outbox db) \<Longrightarrow> \<exists>d. map_of (pg_deliveries db) (p, n) = Some d"
    and "map_of (pg_checkpoints db) p = Some c \<Longrightarrow> c \<le> outbox_bound db \<and> published_upto p c db"
  using assms unfolding delivery_inv_def by blast+

lemma outbox_bound_ge: "n \<in> fst ` set (pg_outbox db) \<Longrightarrow> n \<le> outbox_bound db" and outbox_bound_nonneg: "0 \<le> outbox_bound db"
proof -
  have "n \<in> set xs \<Longrightarrow> n \<le> foldr max xs 0" "(0::int) \<le> foldr max xs 0" for xs
    by (induction xs) auto
  then show "n \<in> fst ` set (pg_outbox db) \<Longrightarrow> n \<le> outbox_bound db" "0 \<le> outbox_bound db" by (auto simp: outbox_bound_def)
qed

lemma delivery_inv_queues:
  assumes "queues db' = queues db" "delivery_inv p db"
  shows "delivery_inv p db'"
proof -
  have eqs: "pg_outbox db' = pg_outbox db" "pg_consumers db' = pg_consumers db" "pg_deliveries db' = pg_deliveries db"
    "pg_checkpoints db' = pg_checkpoints db" using assms(1) by (simp_all add: queues_def)
  show ?thesis using assms(2) unfolding delivery_inv_def outbox_bound_def published_upto_def by (simp only: eqs)
qed

lemma published_upto_append:
  "published_upto p c db \<Longrightarrow> pg_deliveries db' = pg_deliveries db @ ds \<Longrightarrow> (\<And>n row. ((p, n), row) \<in> set ds \<Longrightarrow> c < n) \<Longrightarrow>
   published_upto p c db'"
  unfolding published_upto_def by fastforce

lemma delivery_inv_event:
  assumes inv: "delivery_inv p db"
  shows "delivery_inv p (insert_event env k ev db)"
proof -
  let ?n = "next_outbox_id env k db" and ?db = "insert_event env k ev db"
  define ds where "ds = map (\<lambda>(projector, _). ((projector, ?n), pending_row (pg_available env k)))
      (filter (\<lambda>(_, consumer). cn_status consumer = ''active'') (pg_consumers db))"
  define orow where "orow = snd (last (pg_outbox ?db))"
  have q: "pg_outbox ?db = pg_outbox db @ [(?n, orow)]" "pg_consumers ?db = pg_consumers db"
      "pg_checkpoints ?db = pg_checkpoints db" "pg_deliveries ?db = pg_deliveries db @ ds"
    by (simp_all add: insert_event_def fanout_projection_delivery_def Let_def ds_def orow_def)
  have n: "?n > outbox_bound db" "1 \<le> ?n"
    using outbox_bound_nonneg [of db] by (simp_all add: next_outbox_id_def outbox_bound_def)
  have "foldr max (xs @ [y]) (0 :: int) = max y (foldr max xs 0)" if "0 \<le> y" for xs y
    using that by (induction xs) auto
  from this [of ?n "map fst (pg_outbox db)"] have bound: "outbox_bound ?db = ?n"
    using n by (simp add: outbox_bound_def q)
  have new: "m = ?n" "map_of (pg_consumers db) p \<noteq> None" if "((p, m), row) \<in> set ds" for m row
    using that by (auto simp: ds_def map_of_eq_None_iff intro: rev_image_eqI)
  have fan: "\<exists>d. map_of ds (p, ?n) = Some d" if "map_of (pg_consumers db) p = Some consumer" for consumer
  proof -
    have "(p, consumer) \<in> set (pg_consumers db)" using that by (rule map_of_SomeD)
    with delivery_invD(4) [OF inv that] have "((p, ?n), pending_row (pg_available env k)) \<in> set ds"
      by (auto simp: ds_def image_iff intro!: bexI [of _ "(p, consumer)"])
    then have "(p, ?n) \<in> fst ` set ds" by (metis fst_conv image_eqI)
    then show ?thesis by (metis map_of_eq_None_iff not_None_eq)
  qed
  show ?thesis
    unfolding delivery_inv_def bound q
  proof (intro conjI ballI allI impI)
    fix c assume "map_of (pg_checkpoints db) p = Some c"
    note c = delivery_invD(6) [OF inv this]
    then show "c \<le> ?n" using n by simp
    show "published_upto p c ?db"
      by (rule published_upto_append [OF conjunct2 [OF c] q(4)]) (use new(1) n c in \<open>metis le_less_trans\<close>)
  next
    fix m assume "m \<in> fst ` set (pg_outbox db @ [(?n, orow)])"
    then show "1 \<le> m" using delivery_invD(1) [OF inv, of m] n by auto
  next
    fix m row assume "((p, m), row) \<in> set (pg_deliveries db @ ds)"
    then consider "((p, m), row) \<in> set (pg_deliveries db)" | "m = ?n" using new(1) by auto
    then have "1 \<le> m \<and> m \<le> ?n" by cases (use delivery_invD(2) [OF inv, of m row] n in simp_all)
    then show "1 \<le> m" "m \<le> ?n" by auto
  next
    assume "map_of (pg_consumers db) p = None"
    note none = delivery_invD(3) [OF inv this]
    show "map_of (pg_checkpoints db) p = None" using none by blast
    show "((p, m), row) \<notin> set (pg_deliveries db @ ds)" for m row
      using none new(2) \<open>map_of (pg_consumers db) p = None\<close> by auto
  next
    fix consumer assume "map_of (pg_consumers db) p = Some consumer"
    then show "cn_status consumer = ''active''" by (rule delivery_invD(4) [OF inv])
  next
    fix consumer m assume cons: "map_of (pg_consumers db) p = Some consumer" and m: "m \<in> fst ` set (pg_outbox db @ [(?n, orow)])"
    then show "\<exists>d. map_of (pg_deliveries db @ ds) (p, m) = Some d"
      using delivery_invD(5) [OF inv cons, of m] fan [OF cons] by (cases "map_of (pg_deliveries db) (p, m)") (auto simp: map_add_def)
  qed
qed

lemma delivery_inv_enqueues: "enqueues db db' \<Longrightarrow> delivery_inv p db \<Longrightarrow> delivery_inv p db'"
  by (induction rule: enqueues.induct) (auto intro: delivery_inv_event delivery_inv_queues)

text \<open>What a change that neither adds outbox rows nor deliveries of the projector has to establish.\<close>

lemma delivery_inv_change:
  assumes inv: "delivery_inv p db"
    and fsts: "map fst (pg_outbox db') = map fst (pg_outbox db)" and cons: "map_of (pg_consumers db') p = map_of (pg_consumers db) p"
    and keys: "\<And>n. (p, n) \<in> fst ` set (pg_deliveries db') \<longleftrightarrow> (p, n) \<in> fst ` set (pg_deliveries db)"
    and none: "map_of (pg_checkpoints db) p = None \<Longrightarrow> map_of (pg_checkpoints db') p = None"
    and some: "\<And>c c'. map_of (pg_checkpoints db) p = Some c \<Longrightarrow> published_upto p c db \<Longrightarrow> c \<le> outbox_bound db \<Longrightarrow>
      map_of (pg_checkpoints db') p = Some c' \<Longrightarrow> c' \<le> outbox_bound db \<and> published_upto p c' db'"
  shows "delivery_inv p db'"
proof -
  have ids: "fst ` set (pg_outbox db') = fst ` set (pg_outbox db)" using fsts by (metis list.set_map)
  have bound: "outbox_bound db' = outbox_bound db" by (simp add: outbox_bound_def fsts)
  have old: "\<exists>row'. ((p, n), row') \<in> set (pg_deliveries db)" if "((p, n), row) \<in> set (pg_deliveries db')" for n row
  proof -
    have "(p, n) \<in> fst ` set (pg_deliveries db)" using that keys by (metis fst_conv image_eqI)
    then show ?thesis by auto
  qed
  have dom: "map_of (pg_deliveries db') (p, n) = None \<longleftrightarrow> map_of (pg_deliveries db) (p, n) = None" for n
    by (simp add: map_of_eq_None_iff keys)
  show ?thesis
    unfolding delivery_inv_def cons ids bound
  proof (intro conjI ballI allI impI)
    fix n row assume "((p, n), row) \<in> set (pg_deliveries db')"
    then show "1 \<le> n" "n \<le> outbox_bound db" using old delivery_invD(2) [OF inv] by blast+
  next
    assume no: "map_of (pg_consumers db) p = None"
    show "map_of (pg_checkpoints db') p = None" using delivery_invD(3) [OF inv no] none by simp
    show "((p, n), row) \<notin> set (pg_deliveries db')" for n row using old delivery_invD(3) [OF inv no] by blast
  next
    fix consumer n assume "map_of (pg_consumers db) p = Some consumer" "n \<in> fst ` set (pg_outbox db)"
    then show "\<exists>d. map_of (pg_deliveries db') (p, n) = Some d" using delivery_invD(5) [OF inv] dom by (metis not_None_eq)
  next
    fix c' assume c': "map_of (pg_checkpoints db') p = Some c'"
    then obtain c where "map_of (pg_checkpoints db) p = Some c" using none by (cases "map_of (pg_checkpoints db) p") auto
    then have "c' \<le> outbox_bound db \<and> published_upto p c' db'" using some c' delivery_invD(6) [OF inv] by blast
    then show "c' \<le> outbox_bound db" "published_upto p c' db'" by auto
  qed (use delivery_invD [OF inv] in blast)+
qed

lemma set_update_elem: "x \<in> set (AList.update k v xs) \<Longrightarrow> x = (k, v) \<or> x \<in> set xs"
  by (induction xs) (auto split: if_splits)

lemma update_dom: "map_of xs k = Some v \<Longrightarrow> fst ` set (AList.update k v' xs) = fst ` set xs"
  using map_of_SomeD [of xs k v] by (auto simp: dom_update intro: rev_image_eqI)

lemma published_upto_update:
  assumes "published_upto p c db" "qr_state row' = ''published'' \<or> (map_of (pg_deliveries db) (q, i) = Some row \<and> qr_state row \<noteq> ''published'')"
    and "pg_deliveries db' = AList.update (q, i) row' (pg_deliveries db)"
  shows "published_upto p c db'"
  unfolding published_upto_def assms(3)
proof (intro allI impI)
  fix n r assume r: "((p, n), r) \<in> set (AList.update (q, i) row' (pg_deliveries db))" "n \<le> c"
  have "\<not> i \<le> c" if "q = p" "qr_state row' \<noteq> ''published''"
    using assms(1,2) that by (auto simp: published_upto_def dest: map_of_SomeD)
  with set_update_elem [OF r(1)] r(2) assms(1) show "qr_state r = ''published''" by (auto simp: published_upto_def)
qed

lemma delivery_inv_update:
  assumes inv: "delivery_inv p db" and row: "map_of (pg_deliveries db) (q, i) = Some row" "qr_state row \<noteq> ''published''"
    and q: "pg_outbox db' = pg_outbox db" "pg_consumers db' = pg_consumers db" "pg_checkpoints db' = pg_checkpoints db"
      "pg_deliveries db' = AList.update (q, i) row' (pg_deliveries db)"
  shows "delivery_inv p db'"
  by (rule delivery_inv_change [OF inv]) (use q row update_dom [OF row(1)] published_upto_update [of p _ db row' q i row db'] in auto)

text \<open>The checkpoint advances to the identity before the first unpublished delivery.\<close>

lemma advanced_checkpoint_published:
  assumes "(i, row) \<in> set queue" "i \<le> advanced_checkpoint queue c" "c < i"
  shows "qr_state row = ''published''"
proof (rule ccontr)
  let ?pending = "map fst (filter (\<lambda>(i, row). i > c \<and> qr_state row \<noteq> ''published'') queue)"
  assume "qr_state row \<noteq> ''published''"
  with assms have "i \<in> set ?pending" by force
  moreover have "x \<in> set (y # ys) \<Longrightarrow> foldr min ys y \<le> x" for x y :: int and ys by (induction ys) auto
  ultimately obtain y ys where p: "?pending = y # ys" "foldr min ys y \<le> i" by (cases ?pending) auto
  then have "advanced_checkpoint queue c = max c (foldr min ys y - 1)" by (simp add: advanced_checkpoint_def Let_def)
  with p(2) assms(2,3) show False by simp
qed

lemma advanced_checkpoint_bound:
  assumes "\<And>i row. (i, row) \<in> set queue \<Longrightarrow> i \<le> b" "c \<le> b"
  shows "advanced_checkpoint queue c \<le> b"
proof -
  let ?pending = "map fst (filter (\<lambda>(i, row). i > c \<and> qr_state row \<noteq> ''published'') queue)"
  have max: "foldr max ys y \<le> b" if "\<forall>x \<in> set (y # ys). x \<le> b" for y ys using that by (induction ys) auto
  have min: "foldr min ys y \<le> b" if "y \<le> b" for y ys using that by (induction ys) auto
  have ids: "\<forall>x \<in> set (map fst queue). x \<le> b" "\<forall>x \<in> set ?pending. x \<le> b" using assms(1) by auto
  show ?thesis
  proof (cases ?pending)
    case (Cons y ys)
    then have "y \<le> b" using ids(2) by (metis list.set_intros(1))
    then show ?thesis using Cons min [of y ys] assms(2) by (simp add: advanced_checkpoint_def)
  next
    case Nil
    then have "advanced_checkpoint queue c = max c (case map fst queue of i # is \<Rightarrow> foldr max is i | [] \<Rightarrow> c)"
      unfolding advanced_checkpoint_def Let_def by (simp only: list.case)
    then show ?thesis using assms(2) ids(1) by (cases "map fst queue") (simp_all add: max del: list.map)
  qed
qed

lemma projector_queue_elem: "(i, row) \<in> set (projector_queue p db) \<longleftrightarrow> ((p, i), row) \<in> set (pg_deliveries db)"
  by (force simp: projector_queue_def map_filter_def split: if_splits)

lemma delivery_inv_complete:
  assumes inv: "delivery_inv p db" and row: "map_of (pg_deliveries db) (q, i) = Some row" and c: "map_of (pg_checkpoints db) q = Some c"
    and db1: "db1 = db\<lparr>pg_deliveries := AList.update (q, i) (publish_row t row) (pg_deliveries db)\<rparr>"
    and db': "db' = db1\<lparr>pg_checkpoints := AList.update q (advanced_checkpoint (projector_queue q db1) c) (pg_checkpoints db)\<rparr>"
  shows "delivery_inv p db'"
proof (rule delivery_inv_change [OF inv])
  have keys: "fst ` set (pg_deliveries db1) = fst ` set (pg_deliveries db)" using update_dom [OF row] by (simp add: db1)
  then show "(p, n) \<in> fst ` set (pg_deliveries db') \<longleftrightarrow> (p, n) \<in> fst ` set (pg_deliveries db)" for n by (simp add: db')
  fix d c' assume d: "map_of (pg_checkpoints db) p = Some d" "published_upto p d db" "d \<le> outbox_bound db"
    and c': "map_of (pg_checkpoints db') p = Some c'"
  have up: "published_upto p d db1"
    by (rule published_upto_update [OF d(2)]) (simp_all add: db1 publish_row_def)
  have up': "published_upto p x db' = published_upto p x db1" for x by (simp add: published_upto_def db')
  show "c' \<le> outbox_bound db \<and> published_upto p c' db'"
  proof (cases "q = p")
    case True
    then have c'_eq: "c' = advanced_checkpoint (projector_queue p db1) d" using c c' d(1) by (simp add: db' update_conv')
    have "n \<le> outbox_bound db" if "(n, r) \<in> set (projector_queue p db1)" for n r
    proof -
      have "(p, n) \<in> fst ` set (pg_deliveries db1)" using that by (force simp: projector_queue_elem)
      then obtain r' where "((p, n), r') \<in> set (pg_deliveries db)" unfolding keys by auto
      then show ?thesis using delivery_invD(2) [OF inv] by blast
    qed
    then have "c' \<le> outbox_bound db" unfolding c'_eq by (rule advanced_checkpoint_bound [OF _ d(3)])
    moreover have "published_upto p c' db1"
      unfolding published_upto_def
    proof (intro allI impI)
      fix n r assume r: "((p, n), r) \<in> set (pg_deliveries db1)" "n \<le> c'"
      show "qr_state r = ''published''"
      proof (cases "n \<le> d")
        case True
        then show ?thesis using up r(1) by (auto simp: published_upto_def)
      next
        case False
        then show ?thesis using advanced_checkpoint_published [of n r "projector_queue p db1" d] r
          by (simp add: projector_queue_elem c'_eq)
      qed
    qed
    ultimately show ?thesis by (simp add: up')
  next
    case False
    then have "c' = d" using c' d(1) by (simp add: db' update_conv')
    then show ?thesis using d(3) up by (simp add: up')
  qed
qed (use c in \<open>auto simp: db1 db' update_conv' split: if_splits\<close>)

lemma claim_ids_unpublished:
  assumes "i \<in> set (claim_ids env limit queue)"
  shows "\<exists>row. (i, row) \<in> set queue \<and> qr_state row \<noteq> ''published''"
proof -
  have "i \<in> set (map fst (filter (\<lambda>(i, row). claimable env i row) queue))"
    using assms unfolding claim_ids_def by (metis in_set_takeD set_sort)
  then show ?thesis by (auto simp: claimable_def)
qed

lemma update_deliveries_elem:
  "x \<in> set (pg_deliveries (update_deliveries q f db)) \<longleftrightarrow>
     (\<exists>r i row. ((r, i), row) \<in> set (pg_deliveries db) \<and> x = ((r, i), if r = q then f i row else row))"
  by (force simp: update_deliveries_def)

lemma update_deliveries_keys:
  "(p, n) \<in> fst ` set (pg_deliveries (update_deliveries q f db)) \<longleftrightarrow> (p, n) \<in> fst ` set (pg_deliveries db)"
  by (force simp: update_deliveries_def image_iff)

lemma delivery_inv_claim:
  assumes inv: "delivery_inv p db"
    and db': "db' = update_deliveries q (\<lambda>i row. if i \<in> set (claim_ids env limit (projector_queue q db))
      then claim_row env w ttl i row else row) db"
  shows "delivery_inv p db'"
proof (rule delivery_inv_change [OF inv])
  fix c c' assume c: "map_of (pg_checkpoints db) p = Some c" "published_upto p c db" "c \<le> outbox_bound db"
    "map_of (pg_checkpoints db') p = Some c'"
  have "qr_state row' = ''published''" if mem: "((p, n), row') \<in> set (pg_deliveries db')" and le: "n \<le> c" for n row'
  proof -
    obtain row where row: "((p, n), row) \<in> set (pg_deliveries db)"
      "row' = (if p = q \<and> n \<in> set (claim_ids env limit (projector_queue q db)) then claim_row env w ttl n row else row)"
      using mem unfolding db' update_deliveries_elem by auto
    have "\<not> (p = q \<and> n \<in> set (claim_ids env limit (projector_queue q db)))"
      using claim_ids_unpublished [of n env limit "projector_queue q db"] c(2) le
      by (auto simp: projector_queue_elem published_upto_def)
    with row c(2) le show ?thesis by (auto simp: published_upto_def)
  qed
  then show "c' \<le> outbox_bound db \<and> published_upto p c' db'"
    using c by (auto simp: published_upto_def db')
qed (simp_all add: db' update_deliveries_keys)

lemma delivery_inv_consumer:
  assumes inv: "delivery_inv p db"
    and db': "pg_outbox db' = pg_outbox db" "pg_deliveries db' = pg_deliveries (backfill_deliveries p db)"
    and active: "map_of (pg_consumers db') p = Some consumer" "cn_status consumer = ''active''"
    and ck: "\<And>c. map_of (pg_checkpoints db') p = Some c \<Longrightarrow> c = 0 \<or> map_of (pg_checkpoints db) p = Some c"
  shows "delivery_inv p db'"
proof -
  have bound: "outbox_bound db' = outbox_bound db" by (simp add: outbox_bound_def db')
  have elem: "((p, n), row) \<in> set (pg_deliveries db) \<or> n \<in> fst ` set (pg_outbox db) \<and> map_of (pg_deliveries db) (p, n) = None"
    if "((p, n), row) \<in> set (pg_deliveries db')" for n row
    using that unfolding db' by (force simp: backfill_deliveries_def)
  have ids: "1 \<le> n \<and> n \<le> outbox_bound db" if "((p, n), row) \<in> set (pg_deliveries db')" for n row
    using elem [OF that] delivery_invD(1,2) [OF inv] outbox_bound_ge by blast
  show ?thesis
    unfolding delivery_inv_def bound
  proof (intro conjI ballI allI impI)
    fix n assume "n \<in> fst ` set (pg_outbox db')"
    then show "1 \<le> n" using delivery_invD(1) [OF inv] db'(1) by simp
  next
    fix consumer' n assume "n \<in> fst ` set (pg_outbox db')"
    then obtain ob where ob: "(n, ob) \<in> set (pg_outbox db)" by (auto simp: db')
    show "\<exists>d. map_of (pg_deliveries db') (p, n) = Some d"
    proof (cases "map_of (pg_deliveries db) (p, n)")
      case None
      with ob have "((p, n), pending_row (qr_available_at ob)) \<in> set (pg_deliveries db')"
        by (force simp: db' backfill_deliveries_def)
      then have "(p, n) \<in> fst ` set (pg_deliveries db')" by (metis fst_conv image_eqI)
      then show ?thesis by (metis map_of_eq_None_iff not_None_eq)
    qed (simp add: db' backfill_deliveries_def)
  next
    fix c assume c: "map_of (pg_checkpoints db') p = Some c"
    have "c \<le> outbox_bound db \<and> published_upto p c db'"
    proof (cases "c = 0")
      case True
      then show ?thesis using ids outbox_bound_nonneg [of db] by (fastforce simp: published_upto_def)
    next
      case False
      then have old: "map_of (pg_checkpoints db) p = Some c" using ck [OF c] by simp
      then obtain cn where "map_of (pg_consumers db) p = Some cn"
        using delivery_invD(3) [OF inv] by (cases "map_of (pg_consumers db) p") auto
      then have "((p, n), row) \<in> set (pg_deliveries db)" if "((p, n), row) \<in> set (pg_deliveries db')" for n row
        using elem [OF that] delivery_invD(5) [OF inv] by fastforce
      then show ?thesis using delivery_invD(6) [OF inv old] by (auto simp: published_upto_def)
    qed
    then show "c \<le> outbox_bound db" "published_upto p c db'" by auto
  qed (use ids active in auto)
qed

lemma delivery_inv_other:
  assumes inv: "delivery_inv p db" and same: "pg_outbox db' = pg_outbox db" "map_of (pg_consumers db') p = map_of (pg_consumers db) p"
    "map_of (pg_checkpoints db') p = map_of (pg_checkpoints db) p"
    "\<And>n row. ((p, n), row) \<in> set (pg_deliveries db') \<longleftrightarrow> ((p, n), row) \<in> set (pg_deliveries db)"
  shows "delivery_inv p db'"
proof (rule delivery_inv_change [OF inv])
  show "(p, n) \<in> fst ` set (pg_deliveries db') \<longleftrightarrow> (p, n) \<in> fst ` set (pg_deliveries db)" for n
    using same(4) by (force simp: image_iff)
qed (use same in \<open>auto simp: published_upto_def\<close>)

lemma backfill_other: "q \<noteq> p \<Longrightarrow> ((p, n), row) \<in> set (pg_deliveries (backfill_deliveries q db)) \<longleftrightarrow> ((p, n), row) \<in> set (pg_deliveries db)"
  by (auto simp: backfill_deliveries_def)

lemma delivery_inv_ensure:
  assumes inv: "delivery_inv p db" and db': "db' = checkpoint_added q (backfill_deliveries q (consumer_added q h db))"
  shows "delivery_inv p db'"
proof (cases "q = p")
  case True
  obtain consumer where cn: "map_of (pg_consumers (consumer_added p h db)) p = Some consumer" "cn_status consumer = ''active''"
    using delivery_invD(4) [OF inv] by (cases "map_of (pg_consumers db) p") (auto simp: consumer_added_def update_conv')
  show ?thesis
    by (rule delivery_inv_consumer [OF inv, where consumer = consumer])
      (use cn True in \<open>auto simp: db' checkpoint_added_def consumer_added_def backfill_deliveries_def update_conv' split: if_splits\<close>)
next
  case False
  show ?thesis
    by (rule delivery_inv_other [OF inv])
      (use False backfill_other [of q p] in \<open>auto simp: db' checkpoint_added_def consumer_added_def update_conv' backfill_deliveries_def\<close>)
qed

lemma delivery_inv_reset:
  assumes inv: "delivery_inv p db" and q: "map_of (pg_consumers db) q \<noteq> None"
    and f: "f = (\<lambda>i. reset_row (t i))"
    and db': "db' = (update_deliveries q f (backfill_deliveries q (db\<lparr>pg_points := pts\<rparr>)))
      \<lparr>pg_checkpoints := map (\<lambda>(r, c). (r, if r = q then 0 else c)) (pg_checkpoints db)\<rparr>"
  shows "delivery_inv p db'"
proof (cases "q = p")
  case False
  have ck: "map_of (pg_checkpoints db') p = map_of (pg_checkpoints db) p"
    using False by (simp add: db' map_of_map_row option.map_ident)
  show ?thesis
  proof (rule delivery_inv_other [OF inv _ _ ck])
    show "((p, n), row) \<in> set (pg_deliveries db') \<longleftrightarrow> ((p, n), row) \<in> set (pg_deliveries db)" for n row
      using False backfill_other [of q p n row "db\<lparr>pg_points := pts\<rparr>"] by (auto simp: db' update_deliveries_elem)
  qed (simp_all add: db')
next
  case True
  let ?db1 = "backfill_deliveries p (db\<lparr>pg_points := pts\<rparr>)"
  obtain consumer where cn: "map_of (pg_consumers db) p = Some consumer" using q True by auto
  have inv1: "delivery_inv p ?db1"
    by (rule delivery_inv_consumer [OF inv, where consumer = consumer])
      (use cn delivery_invD(4) [OF inv cn] in \<open>auto simp: backfill_deliveries_def\<close>)
  have ck: "map_of (pg_checkpoints db') p = map_option (\<lambda>_. 0) (map_of (pg_checkpoints db) p)"
    using True by (simp add: db' map_of_map_row)
  have keys: "(p, n) \<in> fst ` set (pg_deliveries db') \<longleftrightarrow> (p, n) \<in> fst ` set (pg_deliveries ?db1)" for n
    using True by (simp add: db' update_deliveries_keys)
  have zero: "published_upto p 0 db'"
    unfolding published_upto_def
  proof (intro allI impI)
    fix n row assume "((p, n), row) \<in> set (pg_deliveries db')" "n \<le> 0"
    then obtain row' where "((p, n), row') \<in> set (pg_deliveries ?db1)" using keys [of n] by (force simp: image_iff)
    then show "qr_state row = ''published''" using delivery_invD(2) [OF inv1] \<open>n \<le> 0\<close> by fastforce
  qed
  show ?thesis
    by (rule delivery_inv_change [OF inv1]) (use keys ck zero outbox_bound_nonneg in \<open>auto simp: db'\<close>)
qed

lemma update_fsts: "map_of xs k = Some v \<Longrightarrow> map fst (AList.update k v' xs) = map fst xs"
  by (auto simp: update_keys intro: rev_image_eqI dest: map_of_SomeD)

text \<open>A rebuild of the run projection under the name of the projector.\<close>

definition rebuilds :: "string \<Rightarrow> 'h PgDB \<Rightarrow> 'h PgDB \<Rightarrow> bool" where
  "rebuilds p db db' \<longleftrightarrow> (\<exists>env r. RebuildRunProjection env p db = (r, db'))"

lemma delivery_inv_step:
  assumes "pg_step sha256 s db db'" "\<not> rebuilds p db db'" and inv: "delivery_inv p db"
  shows "delivery_inv p db'"
  using assms(1)
proof cases
  case (step_RebuildRunProjection env q u)
  then have "q \<noteq> p" using assms(2) by (auto simp: rebuilds_def)
  with rebuild_queues [OF step_RebuildRunProjection] show ?thesis by (intro delivery_inv_other [OF inv]) auto
next
  case (step_ClaimOutbox env w limit ttl ms)
  have "map fst (pg_outbox db') = map fst (pg_outbox db)" "pg_consumers db' = pg_consumers db"
      "pg_checkpoints db' = pg_checkpoints db" "pg_deliveries db' = pg_deliveries db"
    using ClaimOutbox_state [OF step_ClaimOutbox] by (auto simp: comp_def case_prod_unfold)
  then show ?thesis by (intro delivery_inv_change [OF inv]) (auto simp: published_upto_def)
next
  case (step_CompleteOutbox env n w token u)
  have "map fst (pg_outbox db') = map fst (pg_outbox db)" "pg_consumers db' = pg_consumers db"
      "pg_checkpoints db' = pg_checkpoints db" "pg_deliveries db' = pg_deliveries db"
    using CompleteOutbox_state [OF step_CompleteOutbox] by (auto simp: update_fsts)
  then show ?thesis by (intro delivery_inv_change [OF inv]) (auto simp: published_upto_def)
next
  case (step_FailOutbox env n w token cause at maxAttempts u)
  have "map fst (pg_outbox db') = map fst (pg_outbox db)" "pg_consumers db' = pg_consumers db"
      "pg_checkpoints db' = pg_checkpoints db" "pg_deliveries db' = pg_deliveries db"
    using FailOutbox_state [OF step_FailOutbox] by (auto simp: update_fsts)
  then show ?thesis by (intro delivery_inv_change [OF inv]) (auto simp: published_upto_def)
next
  case (step_EnsureProjectionConsumer env q h u)
  from EnsureProjectionConsumer_state [OF step_EnsureProjectionConsumer] show ?thesis
    by (elim disjE) (simp add: inv, erule delivery_inv_ensure [OF inv])
next
  case (step_ClaimProjectionDeliveries env q w limit ttl ds)
  from ClaimProjectionDeliveries_state [OF step_ClaimProjectionDeliveries] show ?thesis
    by (elim disjE) (simp add: inv, erule delivery_inv_claim [OF inv])
next
  case (step_CompleteProjectionDelivery env q n w token u)
  from CompleteProjectionDelivery_state [OF step_CompleteProjectionDelivery] show ?thesis
    by (elim disjE exE conjE) (simp add: inv, rule delivery_inv_complete [OF inv])
next
  case (step_FailProjectionDelivery env q n w token cause at maxAttempts u)
  from FailProjectionDelivery_state [OF step_FailProjectionDelivery] show ?thesis
  proof (elim disjE exE conjE)
    fix row c st dls
    assume row: "map_of (pg_deliveries db) (q, n) = Some row" "holds_claim (db_clock env 0) w token row"
      and db': "db' = db\<lparr>pg_dead_letters := dls, pg_deliveries := AList.update (q, n) (fail_row st at c row) (pg_deliveries db)\<rparr>"
    show ?thesis by (rule delivery_inv_update [OF inv row(1)]) (use row(2) in \<open>simp_all add: db' holds_claim_def\<close>)
  qed (simp add: inv)
next
  case (step_RequeueProjectionDelivery env q n u)
  from RequeueProjectionDelivery_state [OF step_RequeueProjectionDelivery] show ?thesis
  proof (elim disjE exE conjE)
    fix row t
    assume row: "map_of (pg_deliveries db) (q, n) = Some row" "qr_state row = ''dead''"
      and db': "db' = db\<lparr>pg_deliveries := AList.update (q, n) (row\<lparr>qr_state := ''pending'', qr_available_at := t, qr_locked_by := None,
         qr_locked_until := None, qr_attempts := 0, qr_last_error := None\<rparr>) (pg_deliveries db)\<rparr>"
    show ?thesis by (rule delivery_inv_update [OF inv row(1)]) (use row(2) in \<open>simp_all add: db'\<close>)
  qed (simp add: inv)
next
  case (step_ResetRetrievalProjection z env q h g u)
  from ResetRetrievalProjection_state [OF step_ResetRetrievalProjection] show ?thesis
  proof (elim disjE exE conjE)
    fix pts ck f
    assume "map_of (pg_consumers db) q \<noteq> None" "f = (\<lambda>i. reset_row (db_row_clock env 0 [itoa i]))"
      "ck = map (\<lambda>(r, c). (r, if r = q then 0 else c)) (pg_checkpoints db)"
      "db' = (update_deliveries q f (backfill_deliveries q (db\<lparr>pg_points := pts\<rparr>)))\<lparr>pg_checkpoints := ck\<rparr>"
    then show ?thesis by (intro delivery_inv_reset [OF inv]) simp_all
  qed (simp add: inv)
next
  case step_other_table
  then show ?thesis by (intro delivery_inv_queues [OF _ inv]) simp
qed (auto intro: delivery_inv_enqueues [OF _ inv] command_enqueues appendEvent_enqueues)

interpretation deliveries: step_invariant "\<lambda>db. db = empty_pg" "\<lambda>a b. pg_step sha256 s a b \<and> \<not> rebuilds p a b" "delivery_inv p" for sha256 s p
proof unfold_locales
  show "delivery_inv p db" if "db = empty_pg" for db using that by (simp add: delivery_inv_def empty_pg_def)
qed (blast intro: delivery_inv_step)

text \<open>
  C5. The checkpoint of a projector never runs ahead: in every history without a rebuild of
  the run projection under the name of the projector, every outbox message up to the
  checkpoint has a delivery for the projector, and the delivery was published, whatever
  workers claimed, failed, lost their claims, or asked for a reset.
\<close>

theorem checkpoint_covers_published:
  assumes "(\<lambda>a b. pg_step sha256 s a b \<and> \<not> rebuilds p a b)\<^sup>*\<^sup>* empty_pg db"
    and "map_of (pg_checkpoints db) p = Some c" "(n, ob) \<in> set (pg_outbox db)" "n \<le> c"
  shows "\<exists>row. map_of (pg_deliveries db) (p, n) = Some row \<and> qr_state row = ''published''"
proof -
  have inv: "delivery_inv p db" by (rule deliveries.inv_reachable [OF refl assms(1)])
  obtain consumer where "map_of (pg_consumers db) p = Some consumer"
    using delivery_invD(3) [OF inv] assms(2) by (cases "map_of (pg_consumers db) p") auto
  then obtain row where "map_of (pg_deliveries db) (p, n) = Some row"
    using delivery_invD(5) [OF inv] assms(3) by force
  with delivery_invD(6) [OF inv assms(2)] assms(4) show ?thesis by (auto simp: published_upto_def dest: map_of_SomeD)
qed

section \<open>A sample history\<close>

definition sample_late_env :: PgEnv where
  "sample_late_env = sample_pg_env\<lparr>db_row_clock := (\<lambda>_ _. 1000000000)\<rparr>"

definition sample_claim1 :: "OutboxMessage list result \<times> string PgDB" where
  "sample_claim1 = ClaimOutbox sample_pg_env ''w1'' 10 Second sample_pg"

definition sample_claim2 :: "OutboxMessage list result \<times> string PgDB" where
  "sample_claim2 = ClaimOutbox sample_late_env ''w2'' 10 Second (snd sample_claim1)"

lemma sample_claims:
  "(\<lambda>r. map (\<lambda>m. (om_OutboxID m, om_FencingToken m)) (case r of Inr ms \<Rightarrow> ms | Inl _ \<Rightarrow> [])) (fst sample_claim1) = [(1, 1)]"
  "(\<lambda>r. map (\<lambda>m. (om_OutboxID m, om_FencingToken m)) (case r of Inr ms \<Rightarrow> ms | Inl _ \<Rightarrow> [])) (fst sample_claim2) = [(1, 2)]"
  by code_simp+

theorem outbox_takeover_fences_witness:
  "isl (fst (CompleteOutbox sample_pg_env 1 ''w1'' 1 (snd sample_claim2)))
   \<and> snd (CompleteOutbox sample_pg_env 1 ''w1'' 1 (snd sample_claim2)) = snd sample_claim2"
proof -
  obtain m1 ms1 where m1: "fst sample_claim1 = Inr (m1 # ms1)" "om_OutboxID m1 = 1" "om_FencingToken m1 = 1"
    using sample_claims(1) by (auto split: sum.splits)
  obtain m2 ms2 where m2: "fst sample_claim2 = Inr (m2 # ms2)" "om_OutboxID m2 = 1"
    using sample_claims(2) by (auto split: sum.splits)
  have c1: "ClaimOutbox sample_pg_env ''w1'' 10 Second sample_pg = (Inr (m1 # ms1), snd sample_claim1)"
    using m1(1) by (metis prod.collapse sample_claim1_def)
  have c2: "ClaimOutbox sample_late_env ''w2'' 10 Second (snd sample_claim1) = (Inr (m2 # ms2), snd sample_claim2)"
    using m2(1) by (metis prod.collapse sample_claim2_def)
  show ?thesis
    using outbox_takeover_fences [OF c1 _ rtranclp.rtrancl_refl c2 _ _ rtranclp.rtrancl_refl, of m1 m2 sample_pg_env "''w1''"] m1 m2
    by (metis list.set_intros(1) prod.collapse)
qed

definition sample_registered :: "string PgDB" where
  "sample_registered = snd (EnsureProjectionConsumer sample_pg_env ''qdrant.retrieval'' ''hash'' sample_pg)"

definition sample_claimed :: "string PgDB" where
  "sample_claimed = snd (ClaimProjectionDeliveries sample_pg_env ''qdrant.retrieval'' ''w'' 10 Second sample_registered)"

definition sample_delivered :: "string PgDB" where
  "sample_delivered = snd (CompleteProjectionDelivery sample_pg_env ''qdrant.retrieval'' 1 ''w'' 1 sample_claimed)"

lemma sample_delivery_states:
  "map (\<lambda>(_, row). qr_state row) (pg_deliveries sample_pg) = []"
  "map (\<lambda>(_, row). qr_state row) (pg_deliveries sample_registered) = [''pending'']"
  "map (\<lambda>(_, row). qr_state row) (pg_deliveries sample_claimed) = [''inflight'']"
  "map (\<lambda>(_, row). qr_state row) (pg_deliveries sample_delivered) = [''published'']"
  "map fst (pg_outbox sample_delivered) = [1]" "map_of (pg_checkpoints sample_delivered) ''qdrant.retrieval'' = Some 1"
  by code_simp+

lemma rebuilds_keeps: "rebuilds p db db' \<Longrightarrow> pg_runs db' = pg_runs db \<and> pg_deliveries db' = pg_deliveries db"
  by (auto simp: rebuilds_def dest!: rebuild_state)

theorem checkpoint_covers_published_witness:
  "\<exists>row. map_of (pg_deliveries sample_delivered) (''qdrant.retrieval'', 1) = Some row \<and> qr_state row = ''published''"
proof -
  let ?p = "''qdrant.retrieval''" and ?s = "pg_step id sample_lease_store"
  let ?step = "\<lambda>a b. ?s a b \<and> \<not> rebuilds ?p a b"
  have "?s empty_pg sample_pg"
    unfolding sample_pg_def by (rule step_CreateRun [OF _ surjective_pairing])
      (simp add: clock_ok_def sample_pg_env_def DBEnv.extend_def PgEnv.fields_def zero_time_def)
  moreover have "\<not> rebuilds ?p empty_pg sample_pg"
    using rebuilds_keeps [of ?p empty_pg sample_pg] sample_pg_runs by (auto simp: empty_pg_def)
  ultimately have 1: "?step empty_pg sample_pg" by blast
  have differ: "\<not> rebuilds ?p a b" if "map (\<lambda>(_, row). qr_state row) (pg_deliveries a) \<noteq> map (\<lambda>(_, row). qr_state row) (pg_deliveries b)"
    for a b :: "string PgDB" using rebuilds_keeps [of ?p a b] that by auto
  have "?s sample_pg sample_registered" unfolding sample_registered_def by (rule step_EnsureProjectionConsumer [OF surjective_pairing])
  then have 2: "?step sample_pg sample_registered" using differ [of sample_pg sample_registered] sample_delivery_states by simp
  have "?s sample_registered sample_claimed" unfolding sample_claimed_def by (rule step_ClaimProjectionDeliveries [OF surjective_pairing])
  then have 3: "?step sample_registered sample_claimed" using differ [of sample_registered sample_claimed] sample_delivery_states by simp
  have "?s sample_claimed sample_delivered" unfolding sample_delivered_def by (rule step_CompleteProjectionDelivery [OF surjective_pairing])
  then have 4: "?step sample_claimed sample_delivered" using differ [of sample_claimed sample_delivered] sample_delivery_states by simp
  have reach: "?step\<^sup>*\<^sup>* empty_pg sample_delivered"
    by (intro converse_rtranclp_into_rtranclp [of ?step, OF 1] converse_rtranclp_into_rtranclp [of ?step, OF 2]
        converse_rtranclp_into_rtranclp [of ?step, OF 3] r_into_rtranclp [of ?step, OF 4])
  obtain ob where ob: "(1, ob) \<in> set (pg_outbox sample_delivered)" using sample_delivery_states(5) by auto
  show ?thesis by (rule checkpoint_covers_published [OF reach sample_delivery_states(6) ob]) simp
qed

end
