(* ===== verification/WorkerResults.thy ===== *)
theory WorkerResults
  imports PgDatabase
begin

text \<open>
  What a finished attempt has to prove: the contract of a worker result
  (\<open>validateCompletion\<close>) and the parts of it that enter the hash of the command
  (\<open>workerResultHashParts\<close>), from \<open>internal/postgres/attempt_lifecycle.go\<close>, with
  \<open>ValidateJSON\<close> of \<open>internal/contracts/registry.go\<close>.

  Compiling the embedded schemas and validating a document against one of them is the work
  of a third-party library: the compiled schemas are an argument, a validator per schema
  name. SHA-256 in hexadecimal is an argument too.
\<close>

section \<open>Texts of the standard library\<close>

text \<open>\<open>time.RFC3339Nano\<close> in UTC: the civil date of a day number, the time of the day, and the fraction without its trailing zeros.\<close>

definition civil :: "int \<Rightarrow> int \<times> int \<times> int" where
  "civil days =
    (let z = days + 719468; era = z div 146097; doe = z mod 146097;
         yoe = (doe - doe div 1460 + doe div 36524 - doe div 146096) div 365;
         doy = doe - (365 * yoe + yoe div 4 - yoe div 100);
         mp = (5 * doy + 2) div 153;
         d = doy - (153 * mp + 2) div 5 + 1;
         m = (if mp < 10 then mp + 3 else mp - 9)
     in (yoe + era * 400 + (if m \<le> 2 then 1 else 0), m, d))"

definition pad :: "nat \<Rightarrow> int \<Rightarrow> string" where
  "pad width i =
    (let ds = nat_digits (nat \<bar>i\<bar>)
     in (if i < 0 then ''-'' else []) @ replicate (width - length ds) (CHR ''0'') @ ds)"

definition fraction :: "int \<Rightarrow> string" where
  "fraction ns = (if ns = 0 then [] else
     ''.'' @ rev (dropWhile (\<lambda>c. c = CHR ''0'') (map (\<lambda>k. digit_char (nat (ns div 10 ^ k mod 10))) [0..<9])))"

definition RFC3339Nano :: "time \<Rightarrow> string" where
  "RFC3339Nano t =
    (case civil (t div 86400000000000) of (y, m, d) \<Rightarrow>
      let sec = (t mod 86400000000000) div 1000000000 in
      pad 4 y @ ''-'' @ pad 2 m @ ''-'' @ pad 2 d @ ''T''
      @ pad 2 (sec div 3600) @ '':'' @ pad 2 (sec mod 3600 div 60) @ '':'' @ pad 2 (sec mod 60)
      @ fraction (t mod 1000000000) @ ''Z'')"

definition FormatBool :: "bool \<Rightarrow> string" where
  "FormatBool b = (if b then ''true'' else ''false'')"

text \<open>\<open>Time.Sub\<close> saturates at the bounds of a \<open>Duration\<close>; \<open>Milliseconds\<close> truncates.\<close>

definition time_Sub :: "time \<Rightarrow> time \<Rightarrow> duration" where
  "time_Sub t u = max (- (2 ^ 63)) (min (2 ^ 63 - 1) (t - u))"

definition Milliseconds :: "duration \<Rightarrow> int" where
  "Milliseconds d = (if d < 0 then - ((- d) div 1000000) else d div 1000000)"

definition filepath_Base :: "string \<Rightarrow> string" where
  "filepath_Base p =
    (let q = rev (dropWhile (\<lambda>c. c = CHR ''/'') (rev p))
     in if p = [] then ''.'' else if q = [] then ''/''
        else rev (takeWhile (\<lambda>c. c \<noteq> CHR ''/'') (rev q)))"

text \<open>\<open>hex.DecodeString\<close> delivers \<open>n\<close> bytes.\<close>

definition hex_decodes :: "nat \<Rightarrow> string \<Rightarrow> bool" where
  "hex_decodes n s \<longleftrightarrow> length s = 2 * n
     \<and> list_all (\<lambda>c. byte_in 0x30 0x39 c \<or> byte_in 0x41 0x46 c \<or> byte_in 0x61 0x66 c) s"

section \<open>The contract of a worker result\<close>

type_synonym Registry = "string \<rightharpoonup> (json \<Rightarrow> error option)"

definition ValidateJSON :: "Registry \<Rightarrow> string \<Rightarrow> json \<Rightarrow> error option" where
  "ValidateJSON compiled schemaName instance =
    (let name = filepath_Base schemaName in
     case compiled name of
       None \<Rightarrow> Some (Errorf ''unknown schema %q'' [FStr schemaName])
     | Some validate \<Rightarrow>
         map_option (\<lambda>err. PlainError (Msg ''validate instance against %s: %w'' [FStr name]) (Some err)) (validate instance))"

definition terminalAttemptStatuses :: "string list" where
  "terminalAttemptStatuses = [''succeeded'', ''blocked'', ''failed_retryable'', ''failed_terminal'', ''cancelled'']"

definition validateCompletion ::
    "(string \<Rightarrow> string) \<Rightarrow> Registry result \<Rightarrow> string \<Rightarrow> WorkerResult \<Rightarrow> error option" where
  "validateCompletion hexsum registry attemptID r =
    (case registry of
       Inl err \<Rightarrow> Some (WrapErr CodeInternal ''postgres.FinishAttempt'' (Msg ''compile worker contracts'' []) err)
     | Inr compiled \<Rightarrow>
         if \<not> valid_utf8 (res_Stdout r) \<or> \<not> valid_utf8 (res_Stderr r) then
           Some (New CodeInvalidArgument ''postgres.FinishAttempt'' (Msg ''worker output must be valid UTF-8'' []))
         else (case marshal_WorkerResult r of
           None \<Rightarrow> Some (WrapErr CodeInvalidArgument ''postgres.FinishAttempt'' (Msg ''encode worker result'' []) (Errorf ''json: encode'' []))
         | Some encoded \<Rightarrow> (case ValidateJSON compiled ''worker-result.schema.json'' encoded of
           Some err \<Rightarrow> Some (WrapErr CodeInvalidArgument ''postgres.FinishAttempt'' (Msg ''worker result violates its contract'' []) err)
         | None \<Rightarrow>
             if res_AttemptID r \<noteq> attemptID \<or> res_SchemaVersion r \<noteq> ''1.0'' \<or> res_Status r \<notin> set terminalAttemptStatuses
                 \<or> res_StartedAt r = zero_time \<or> res_FinishedAt r = zero_time \<or> res_FinishedAt r < res_StartedAt r
                 \<or> res_DurationMS r < 0 then
               Some (New CodeInvalidArgument ''postgres.FinishAttempt'' (Msg ''invalid terminal worker result'' []))
             else if \<not> hex_decodes 32 (res_StdoutSHA256 r) \<or> \<not> hex_decodes 32 (res_StderrSHA256 r) then
               Some (New CodeInvalidArgument ''postgres.FinishAttempt'' (Msg ''invalid output digest'' []))
             else if res_StdoutSHA256 r \<noteq> hexsum (res_Stdout r) \<or> res_StderrSHA256 r \<noteq> hexsum (res_Stderr r) then
               Some (New CodeInvalidArgument ''postgres.FinishAttempt'' (Msg ''output digest does not match captured output'' []))
             else if wu_InputTokens (res_Usage r) < 0 \<or> wu_CachedInputTokens (res_Usage r) < 0
                 \<or> wu_OutputTokens (res_Usage r) < 0 \<or> wu_ToolCalls (res_Usage r) < 0 then
               Some (New CodeInvalidArgument ''postgres.FinishAttempt'' (Msg ''invalid worker usage'' []))
             else None)))"

section \<open>The hashed parts\<close>

text \<open>\<open>json.Marshal\<close> of a slice of strings and of a report, as text.\<close>

definition json_strings_text :: "string list option \<Rightarrow> string" where
  "json_strings_text ss = (case ss of None \<Rightarrow> ''null'' | Some ss \<Rightarrow> json_string_array ss)"

definition json_report_text :: "WorkerReport option \<Rightarrow> string" where
  "json_report_text report = (case report of None \<Rightarrow> ''null'' | Some r \<Rightarrow>
     ''{'' @ Join
       [json_quote ''status'' @ '':'' @ json_quote (wr_Status r), json_quote ''summary'' @ '':'' @ json_quote (wr_Summary r),
        json_quote ''changed_paths'' @ '':'' @ json_strings_text (wr_ChangedPaths r),
        json_quote ''evidence_refs'' @ '':'' @ json_strings_text (wr_EvidenceRefs r),
        json_quote ''risks'' @ '':'' @ json_strings_text (wr_Risks r)] '','' @ ''}'')"

definition workerReportSHA256 :: "(string \<Rightarrow> string) \<Rightarrow> WorkerReport option \<Rightarrow> string" where
  "workerReportSHA256 hexsum report = hexsum (json_report_text report)"

definition workerResultHashParts :: "(string \<Rightarrow> string) \<Rightarrow> WorkerResult \<Rightarrow> string list" where
  "workerResultHashParts hexsum r =
     [res_TaskID r, res_Adapter r, res_Status r, FormatBool (res_Retryable r), res_TerminationReason r,
      RFC3339Nano (res_StartedAt r), RFC3339Nano (res_FinishedAt r), itoa (res_DurationMS r),
      case res_ExitCode r of None \<Rightarrow> ''null'' | Some c \<Rightarrow> itoa c,
      res_StdoutSHA256 r, res_StderrSHA256 r, workerReportSHA256 hexsum (res_Report r),
      itoa (wu_InputTokens (res_Usage r)), itoa (wu_CachedInputTokens (res_Usage r)),
      itoa (wu_OutputTokens (res_Usage r)), itoa (wu_ToolCalls (res_Usage r)),
      json_strings_text (res_EvidenceRefs r)]"

end
