(* ===== verification/Attempts.thy ===== *)
theory Attempts
  imports WorkerResults PgStore
begin

text \<open>
  Durable execution attempts of runs: \<open>internal/postgres/attempts.go\<close> and
  \<open>attempt_lifecycle.go\<close>. A scheduler that holds the fenced lease of its resource creates an
  attempt, starts it and finishes it with the result of a worker; the attempts of a scheduler
  whose lease is gone are reconciled by the next one.

  The database has the tables of the control plane, the leases and the attempts. A row of
  the table \<open>attempts\<close> has the fields of \<open>persistence.Attempt\<close>, so a scanned row is the record
  itself; all times are in UTC. \<open>db_clock env n\<close> is the reading \<open>n\<close> of \<open>clock_timestamp()\<close> in a
  call: \<open>0\<close> where the fence is verified, \<open>1\<close> where an attempt is inserted, \<open>2\<close> and \<open>3\<close> for its
  two default times, \<open>4\<close> where the fence is enforced and \<open>5\<close> at the commit of an insert.
\<close>

section \<open>Attempts and the database\<close>

record Attempt =
  at_AttemptID :: string
  at_RunID :: string
  at_Ordinal :: int
  at_Status :: string
  at_LeaseResourceType :: string
  at_LeaseResourceID :: string
  at_WorkerID :: string
  at_FencingToken :: int
  at_StartedAt :: "time option"
  at_FinishedAt :: "time option"
  at_Version :: int
  at_CreatedAt :: time
  at_UpdatedAt :: time

record 'h AttemptDB =
  ad_pg :: "'h PgDB"
  ad_leases :: "'h LeaseDB"
  ad_attempts :: "(string \<times> Attempt) list"

text \<open>An instant of the database as a \<open>time.Time\<close>.\<close>

definition pg_instant :: "pgtime \<Rightarrow> time" where
  "pg_instant t = t * 1000"

definition attempt_id_chars :: "string \<Rightarrow> bool" where
  "attempt_id_chars s \<longleftrightarrow> s \<noteq> [] \<and> list_all (\<lambda>c. byte_in 0x30 0x39 c \<or> byte_in 0x41 0x5A c \<or> byte_in 0x61 0x7A c
      \<or> c = CHR ''_'' \<or> c = CHR ''-'') s"

text \<open>The constraints of the table on one row.\<close>

definition check_attempt :: "Attempt \<Rightarrow> PgError option" where
  "check_attempt a =
    (if at_Ordinal a > 2 ^ 31 - 1 \<or> at_Version a > 2 ^ 31 - 1 then Some (PgError ''22003'')
     else if \<not> prefix ''attempt_'' (at_AttemptID a) \<or> \<not> attempt_id_chars (TrimPrefix (at_AttemptID a) ''attempt_'')
        \<or> at_Ordinal a \<le> 0 \<or> \<not> char_length_in 1 100 (at_Status a) \<or> at_LeaseResourceType a \<noteq> ''scheduler''
        \<or> \<not> char_length_in 1 500 (at_LeaseResourceID a) \<or> \<not> char_length_in 1 500 (at_WorkerID a)
        \<or> at_FencingToken a \<le> 0 \<or> at_Version a \<le> 0 then Some (PgError ''23514'')
     else None)"

text \<open>\<open>COALESCE(max(ordinal), 0) + 1\<close> over the attempts of a run.\<close>

definition next_ordinal :: "string \<Rightarrow> (string \<times> Attempt) list \<Rightarrow> int" where
  "next_ordinal runID t = foldr max (map (at_Ordinal \<circ> snd) (filter (\<lambda>(_, a). at_RunID a = runID) t)) 0 + 1"

text \<open>The row of a lease exists, with this owner and token, and has not expired.\<close>

definition live_fence :: "LeaseKey \<Rightarrow> string \<Rightarrow> int \<Rightarrow> pgtime \<Rightarrow> 'h AttemptDB \<Rightarrow> bool" where
  "live_fence key ownerID token now d \<longleftrightarrow>
    (case map_of (leases (ad_leases d)) key of None \<Rightarrow> False
     | Some row \<Rightarrow> lr_owner_id row = ownerID \<and> lr_fencing_token row = token \<and> lr_expires_at row > now)"

definition attempt_key :: "LeaseStore \<Rightarrow> Attempt \<Rightarrow> LeaseKey" where
  "attempt_key s a = \<lparr>lk_TenantID = st_tenantID s, lk_RepositoryID = st_repositoryID s,
     lk_ResourceType = at_LeaseResourceType a, lk_ResourceID = at_LeaseResourceID a\<rparr>"

definition with_pg :: "'h AttemptDB \<Rightarrow> 'h PgDB result \<Rightarrow> 'h AttemptDB result" where
  "with_pg d r = andThen r (\<lambda>pg. Inr (d\<lparr>ad_pg := pg\<rparr>))"

text \<open>\<open>BeginTx\<close> and the lock of the idempotency key.\<close>

definition begin_command :: "DBEnv \<Rightarrow> string \<Rightarrow> 'a result \<Rightarrow> 'a result" where
  "begin_command env operation k = db_call env (operation @ ''.begin'') (lockIdempotency env k)"

section \<open>Attempts as documents\<close>

definition marshal_Attempt :: "Attempt \<Rightarrow> json option" where
  "marshal_Attempt a =
    (if json_time_ok (at_CreatedAt a) \<and> json_time_ok (at_UpdatedAt a)
        \<and> pred_option json_time_ok (at_StartedAt a) \<and> pred_option json_time_ok (at_FinishedAt a) then
      Some (JObj
        ([(''attempt_id'', jstr (at_AttemptID a)), (''run_id'', jstr (at_RunID a)), (''ordinal'', JInt (at_Ordinal a)),
          (''status'', jstr (at_Status a)), (''lease_resource_type'', jstr (at_LeaseResourceType a)),
          (''lease_resource_id'', jstr (at_LeaseResourceID a)), (''worker_id'', jstr (at_WorkerID a)),
          (''fencing_token'', JInt (at_FencingToken a))]
         @ omitempty ''started_at'' JTime (at_StartedAt a) @ omitempty ''finished_at'' JTime (at_FinishedAt a)
         @ [(''version'', JInt (at_Version a)), (''created_at'', JTime (at_CreatedAt a)),
            (''updated_at'', JTime (at_UpdatedAt a))]))
     else None)"

text \<open>\<open>createdAttemptSnapshot\<close>, encoded: a new attempt without the time of its last update.\<close>

definition createdAttemptSnapshot :: "Attempt \<Rightarrow> json option" where
  "createdAttemptSnapshot a =
    (if json_time_ok (at_CreatedAt a) then
      Some (JObj
        [(''attempt_id'', jstr (at_AttemptID a)), (''run_id'', jstr (at_RunID a)), (''ordinal'', JInt (at_Ordinal a)),
         (''status'', jstr (at_Status a)), (''lease_resource_type'', jstr (at_LeaseResourceType a)),
         (''lease_resource_id'', jstr (at_LeaseResourceID a)), (''worker_id'', jstr (at_WorkerID a)),
         (''fencing_token'', JInt (at_FencingToken a)), (''version'', JInt (at_Version a)),
         (''created_at'', JTime (at_CreatedAt a))])
     else None)"

definition attempt_fields :: "string list" where
  "attempt_fields = [''attempt_id'', ''run_id'', ''ordinal'', ''status'', ''lease_resource_type'',
     ''lease_resource_id'', ''worker_id'', ''fencing_token'', ''started_at'', ''finished_at'', ''version'',
     ''created_at'', ''updated_at'']"

definition decode_Attempt :: "json \<Rightarrow> Attempt option" where
  "decode_Attempt j =
    Option.bind (known_fields attempt_fields j) (\<lambda>fs.
    Option.bind (read_str (field fs ''attempt_id'')) (\<lambda>i.
    Option.bind (read_str (field fs ''run_id'')) (\<lambda>r.
    Option.bind (read_int (field fs ''ordinal'')) (\<lambda>n.
    Option.bind (read_str (field fs ''status'')) (\<lambda>st.
    Option.bind (read_str (field fs ''lease_resource_type'')) (\<lambda>lt.
    Option.bind (read_str (field fs ''lease_resource_id'')) (\<lambda>li.
    Option.bind (read_str (field fs ''worker_id'')) (\<lambda>w.
    Option.bind (read_int (field fs ''fencing_token'')) (\<lambda>tok.
    Option.bind (read_ptr read_time (field fs ''started_at'')) (\<lambda>sa.
    Option.bind (read_ptr read_time (field fs ''finished_at'')) (\<lambda>fa.
    Option.bind (read_int (field fs ''version'')) (\<lambda>v.
    Option.bind (read_time (field fs ''created_at'')) (\<lambda>c.
    Option.bind (read_time (field fs ''updated_at'')) (\<lambda>u.
      Some \<lparr>at_AttemptID = i, at_RunID = r, at_Ordinal = n, at_Status = st, at_LeaseResourceType = lt,
            at_LeaseResourceID = li, at_WorkerID = w, at_FencingToken = tok, at_StartedAt = sa,
            at_FinishedAt = fa, at_Version = v, at_CreatedAt = c, at_UpdatedAt = u\<rparr>))))))))))))))"

text \<open>The text after \<open>attempt_\<close> is the text of a run identifier after \<open>run_\<close>.\<close>

definition parses_attempt_id :: "string \<Rightarrow> bool" where
  "parses_attempt_id attemptID \<longleftrightarrow> prefix ''attempt_'' attemptID
     \<and> (case ParseRunID (''run_'' @ TrimPrefix attemptID ''attempt_'') of
          Inl _ \<Rightarrow> False | Inr parsed \<Rightarrow> ''attempt_'' @ TrimPrefix parsed ''run_'' = attemptID)"

definition checkStoredAttempt :: "Attempt \<Rightarrow> Attempt result" where
  "checkStoredAttempt a =
     reject (ParseRunID (at_RunID a) \<noteq> Inr (at_RunID a)) (Errorf ''invalid stored attempt run ID'' [])
    (reject (\<not> parses_attempt_id (at_AttemptID a)) (Errorf ''invalid stored attempt ID'' [])
    (reject (\<not> char_length_in 1 100 (at_Status a)) (Errorf ''invalid stored attempt status'' [])
    (reject (at_Ordinal a < 1 \<or> at_LeaseResourceType a \<noteq> ''scheduler'' \<or> at_LeaseResourceID a = [] \<or> at_WorkerID a = []
        \<or> at_FencingToken a < 1 \<or> at_Version a < 1 \<or> \<not> ValidTimestamp (at_CreatedAt a))
      (Errorf ''invalid stored attempt ordinal, version, or timestamp'' [])
    (let a = (if at_UpdatedAt a = zero_time then a\<lparr>at_UpdatedAt := at_CreatedAt a\<rparr> else a) in
     reject (\<not> ValidTimestamp (at_UpdatedAt a) \<or> at_UpdatedAt a < at_CreatedAt a)
      (Errorf ''invalid stored attempt update timestamp'' []) (Inr a)))))"

definition decodeStoredAttempt :: "json \<Rightarrow> Attempt result" where
  "decodeStoredAttempt data =
    (case decode_Attempt data of None \<Rightarrow> Inl (Errorf ''json: decode'' []) | Some a \<Rightarrow> checkStoredAttempt a)"

section \<open>Receipts and fences\<close>

definition loadAttemptReplay :: "DBEnv \<Rightarrow> string \<Rightarrow> string \<Rightarrow> 'h \<Rightarrow> 'h AttemptDB \<Rightarrow> Attempt option result" where
  "loadAttemptReplay env scope key requestHash d =
     loadReplay env ''postgres.loadAttemptReplay''
       (\<lambda>data. case decodeStoredAttempt data of
          Inl err \<Rightarrow> Inl (WrapErr CodeInternal ''postgres.loadAttemptReplay'' (Msg ''decode stored command response'' []) err)
        | Inr a \<Rightarrow> Inr a) scope key requestHash (ad_pg d)"

definition saveAttemptReplay ::
    "DBEnv \<Rightarrow> string \<Rightarrow> string \<Rightarrow> 'h \<Rightarrow> Attempt \<Rightarrow> 'h AttemptDB \<Rightarrow> 'h AttemptDB result" where
  "saveAttemptReplay env scope key requestHash a d =
     with_pg d (saveReplay env ''postgres.saveAttemptReplay'' ''encode command response'' scope key requestHash 201
       (marshal_Attempt a) (ad_pg d))"

definition saveCreatedAttemptReplay ::
    "DBEnv \<Rightarrow> string \<Rightarrow> string \<Rightarrow> 'h \<Rightarrow> Attempt \<Rightarrow> 'h AttemptDB \<Rightarrow> 'h AttemptDB result" where
  "saveCreatedAttemptReplay env scope key requestHash a d =
     with_pg d (saveReplay env ''postgres.saveCreatedAttemptReplay'' ''encode command response'' scope key requestHash 201
       (createdAttemptSnapshot a) (ad_pg d))"

definition validateAttemptFence :: "LeaseProof \<Rightarrow> string \<Rightarrow> string \<Rightarrow> error option" where
  "validateAttemptFence p tenantID repositoryID =
    (if lk_TenantID p \<noteq> tenantID \<or> lk_RepositoryID p \<noteq> repositoryID \<or> lk_ResourceType p \<noteq> ''scheduler''
        \<or> lk_ResourceID p = [] \<or> lp_OwnerID p = [] \<or> lp_FencingToken p < 1 then
       Some (New CodeInvalidArgument ''postgres.CreateAttempt'' (Msg ''a valid scheduler lease proof is required'' []))
     else None)"

definition verifyAttemptFence :: "DBEnv \<Rightarrow> LeaseStore \<Rightarrow> LeaseProof \<Rightarrow> 'h AttemptDB \<Rightarrow> unit result" where
  "verifyAttemptFence env s p d =
     db_exec env ''postgres.CreateAttempt.verifyFence'' [lk_ResourceType p, lk_ResourceID p, lp_OwnerID p]
       (reject (\<not> live_fence (row_key (proof_key p) (st_repositoryID s)) (lp_OwnerID p) (lp_FencingToken p) (db_clock env 0) d)
         (New CodeConflict ''postgres.CreateAttempt''
           (Msg ''scheduler lease is expired, replaced, or owned by another worker'' [])) (Inr ()))"

text \<open>The update writes \<open>updated_at\<close> back as it is, so only its row count matters.\<close>

definition enforceAttemptFence :: "DBEnv \<Rightarrow> LeaseProof \<Rightarrow> 'h AttemptDB \<Rightarrow> unit result" where
  "enforceAttemptFence env p d =
     db_exec env ''postgres.CreateAttempt.finalFence'' [lk_ResourceType p, lk_ResourceID p, lp_OwnerID p]
       (reject (\<not> live_fence (proof_key p) (lp_OwnerID p) (lp_FencingToken p) (db_clock env 4) d)
         (New CodeConflict ''postgres.CreateAttempt'' (Msg ''scheduler lease expired before commit'' [])) (Inr ()))"

definition prepareAttemptWrite :: "DBEnv \<Rightarrow> LeaseStore \<Rightarrow> LeaseProof \<Rightarrow> 'h AttemptDB \<Rightarrow> unit result" where
  "prepareAttemptWrite env s p d =
     db_call env ''postgres.lockAttemptWritePrerequisites'' (verifyAttemptFence env s p d)"

section \<open>Creating an attempt\<close>

definition insert_attempt :: "DBEnv \<Rightarrow> LeaseStore \<Rightarrow> LeaseProof \<Rightarrow> string \<Rightarrow> string \<Rightarrow> string \<Rightarrow> 'h AttemptDB
      \<Rightarrow> (Attempt \<times> 'h AttemptDB) result" where
  "insert_attempt env s p attemptID runID status d =
     db_exec env ''postgres.CreateAttempt.insert''
       [attemptID, runID, status, lp_OwnerID p, lk_ResourceType p, lk_ResourceID p]
       (reject (\<not> live_fence (row_key (proof_key p) (st_repositoryID s)) (lp_OwnerID p) (lp_FencingToken p) (db_clock env 1) d)
         (New CodeConflict ''postgres.CreateAttempt'' (Msg ''scheduler lease expired before the protected write'' []))
        (let a = \<lparr>at_AttemptID = attemptID, at_RunID = runID, at_Ordinal = next_ordinal runID (ad_attempts d),
               at_Status = status, at_LeaseResourceType = lk_ResourceType p, at_LeaseResourceID = lk_ResourceID p,
               at_WorkerID = lp_OwnerID p, at_FencingToken = lp_FencingToken p, at_StartedAt = None,
               at_FinishedAt = None, at_Version = 1, at_CreatedAt = pg_instant (db_clock env 2),
               at_UpdatedAt = pg_instant (db_clock env 3)\<rparr>
         in pg_check ''postgres.CreateAttempt.insert'' (check_attempt a)
           (pg_check ''postgres.CreateAttempt.insert''
             (if map_of (ad_attempts d) attemptID \<noteq> None
                 \<or> table_ex (\<lambda>_ b. at_RunID b = runID \<and> at_Ordinal b = at_Ordinal a) (ad_attempts d)
              then Some (PgError ''23505'') else None)
             (Inr (a, d\<lparr>ad_attempts := AList.update attemptID a (ad_attempts d)\<rparr>)))))"

definition createAttemptTx :: "PgEnv \<Rightarrow> LeaseStore \<Rightarrow> string \<Rightarrow> 'h \<Rightarrow> RunID \<Rightarrow> string \<Rightarrow> CommandMetadata \<Rightarrow> LeaseProof
      \<Rightarrow> 'h AttemptDB \<Rightarrow> (Attempt, 'h AttemptDB) tx" where
  "createAttemptTx env s scope requestHash runID status metadata p d =
    (case newPrefixedID ''attempt'' (pg_entropy env 1) of
       Inl err \<Rightarrow> Inl (WrapErr CodeInternal ''postgres.CreateAttempt'' (Msg ''generate attempt ID'' []) err)
     | Inr attemptID \<Rightarrow>
         andThen (insert_attempt (db_of env) s p attemptID runID status d) (\<lambda>(attempt, d).
         (case createdAttemptSnapshot attempt of
            None \<Rightarrow> Inl (WrapErr CodeInternal ''postgres.CreateAttempt'' (Msg ''encode attempt event payload'' []) (Errorf ''json: encode'' []))
          | Some payload \<Rightarrow>
         andThen (with_pg d (appendEvent env 0 ''attempt'' attemptID (at_Version attempt) ''attempt.created''
           (at_CreatedAt attempt) payload metadata (ad_pg d))) (\<lambda>d.
         andThen (saveCreatedAttemptReplay (db_of env) scope (IdempotencyKey metadata) requestHash attempt d) (\<lambda>d.
         andThen (enforceAttemptFence (db_of env) p d) (\<lambda>_.
           Inr ((Some ''postgres.CreateAttempt.commit'', attempt), d)))))))"

text \<open>
  The deferred trigger \<open>zz_attempt_requires_live_lease_at_commit\<close>: the commit of an insert
  fails with a serialization failure when the lease of the new row is gone.
\<close>

definition enforce_attempt_commit_fence ::
    "DBEnv \<Rightarrow> LeaseStore \<Rightarrow> (Attempt, 'h AttemptDB) tx \<Rightarrow> (Attempt, 'h AttemptDB) tx" where
  "enforce_attempt_commit_fence env s work =
     andThen work (\<lambda>((commit, a), d).
       pg_check ''postgres.CreateAttempt.commit''
         (if commit \<noteq> None \<and> \<not> live_fence (attempt_key s a) (at_WorkerID a) (at_FencingToken a) (db_clock env 5) d
          then Some (PgError ''40001'') else None)
         (Inr ((commit, a), d)))"

definition CreateAttempt ::
    "(string \<Rightarrow> 'h) \<Rightarrow> PgEnv \<Rightarrow> LeaseStore \<Rightarrow> RunID \<Rightarrow> string \<Rightarrow> CommandMetadata \<Rightarrow> LeaseProof \<Rightarrow> 'h AttemptDB
      \<Rightarrow> Attempt result \<times> 'h AttemptDB" where
  "CreateAttempt sha256 env s runID status metadata p d =
    (if status \<noteq> ''queued'' then
       (Inl (New CodeInvalidArgument ''postgres.CreateAttempt'' (Msg ''new attempts must start in queued state'' [])), d)
     else if rune_count status < 1 \<or> rune_count status > 100 then
       (Inl (New CodeInvalidArgument ''postgres.CreateAttempt''
         (Msg ''status length must be between 1 and 100 characters'' [])), d)
     else (case ValidateCommandMetadata metadata of Some err \<Rightarrow> (Inl err, d) | None \<Rightarrow>
     (case validateAttemptFence p (st_tenantID s) (st_repositoryID s) of Some err \<Rightarrow> (Inl err, d) | None \<Rightarrow>
       let e = db_of env;
           scope = ''create_attempt:'' @ st_repositoryID s @ '':'' @ runID;
           requestHash = hashCommand sha256 metadata
             [scope, status, lk_ResourceType p, lk_ResourceID p, lp_OwnerID p, itoa (lp_FencingToken p)]
       in run_tx env (begin_command e ''postgres.CreateAttempt''
            (db_exec e ''postgres.CreateAttempt.lockRun'' [runID]
            (reject (map_of (pg_runs (ad_pg d)) runID = None)
              (New CodeNotFound ''postgres.CreateAttempt'' (Msg ''run %s was not found'' [FStr runID]))
            (db_call e ''postgres.CreateAttempt.lockWatermark''
            (andThen (verifyAttemptFence e s p d) (\<lambda>_.
            andThen (loadAttemptReplay e scope (IdempotencyKey metadata) requestHash d) (\<lambda>found.
            case found of
              Some replay \<Rightarrow> Inr ((None, replay), d)
            | None \<Rightarrow> enforce_attempt_commit_fence e s
                (createAttemptTx env s scope requestHash runID status metadata p d)))))))) d)))"

section \<open>Starting and finishing an attempt\<close>

definition validateAttemptID :: "string \<Rightarrow> error option" where
  "validateAttemptID attemptID =
    (if parses_attempt_id attemptID then None
     else Some (New CodeInvalidArgument ''postgres.validateAttemptID'' (Msg ''invalid attempt ID'' [])))"

definition validateAttemptLifecycleInput ::
    "string \<Rightarrow> int \<Rightarrow> CommandMetadata \<Rightarrow> LeaseProof \<Rightarrow> LeaseStore \<Rightarrow> error option" where
  "validateAttemptLifecycleInput attemptID expectedVersion metadata p s =
    (case validateAttemptID attemptID of Some err \<Rightarrow> Some err | None \<Rightarrow>
     if expectedVersion < 1 then
       Some (New CodeInvalidArgument ''postgres.validateAttemptLifecycleInput'' (Msg ''expected version must be positive'' []))
     else (case ValidateCommandMetadata metadata of Some err \<Rightarrow> Some err
       | None \<Rightarrow> validateAttemptFence p (st_tenantID s) (st_repositoryID s)))"

text \<open>An attempt is read through the join with its run.\<close>

definition read_attempt :: "string \<Rightarrow> 'h AttemptDB \<Rightarrow> Attempt option" where
  "read_attempt attemptID d =
    (case map_of (ad_attempts d) attemptID of None \<Rightarrow> None
     | Some a \<Rightarrow> if map_of (pg_runs (ad_pg d)) (at_RunID a) = None then None else Some a)"

definition GetAttempt :: "DBEnv \<Rightarrow> string \<Rightarrow> 'h AttemptDB \<Rightarrow> Attempt result" where
  "GetAttempt env attemptID d =
    (case validateAttemptID attemptID of Some err \<Rightarrow> Inl err | None \<Rightarrow>
       db_exec env ''postgres.GetAttempt'' [attemptID]
         (case read_attempt attemptID d of
            None \<Rightarrow> Inl (New CodeNotFound ''postgres.GetAttempt'' (Msg ''attempt %s was not found'' [FStr attemptID]))
          | Some a \<Rightarrow> Inr a))"

definition lockAttempt :: "DBEnv \<Rightarrow> string \<Rightarrow> 'h AttemptDB \<Rightarrow> Attempt result" where
  "lockAttempt env attemptID d =
     db_exec env ''postgres.lockAttempt'' [attemptID]
       (case read_attempt attemptID d of
          None \<Rightarrow> Inl (New CodeNotFound ''postgres.lockAttempt'' (Msg ''attempt was not found'' []))
        | Some a \<Rightarrow> Inr a)"

definition attemptOwnedBy :: "Attempt \<Rightarrow> LeaseProof \<Rightarrow> bool" where
  "attemptOwnedBy a p \<longleftrightarrow> at_LeaseResourceType a = lk_ResourceType p \<and> at_LeaseResourceID a = lk_ResourceID p
     \<and> at_WorkerID a = lp_OwnerID p \<and> at_FencingToken a = lp_FencingToken p"

text \<open>
  \<open>UPDATE ... SET version=version+1 ... WHERE status IN (...) AND version=$n RETURNING ...\<close>:
  the new row, and a conflict where no row qualifies.
\<close>

definition update_attempt :: "DBEnv \<Rightarrow> string \<Rightarrow> error \<Rightarrow> string list \<Rightarrow> int \<Rightarrow> string \<Rightarrow> string \<Rightarrow> (Attempt \<Rightarrow> Attempt)
      \<Rightarrow> 'h AttemptDB \<Rightarrow> (Attempt \<times> 'h AttemptDB) result" where
  "update_attempt env operation stale statuses expectedVersion attemptID status set_times d =
     db_exec env operation [status, attemptID]
       (case map_of (ad_attempts d) attemptID of
          None \<Rightarrow> Inl stale
        | Some a \<Rightarrow>
            if at_Status a \<notin> set statuses \<or> at_Version a \<noteq> expectedVersion then Inl stale
            else let a = set_times (a\<lparr>at_Status := status, at_Version := at_Version a + 1\<rparr>)
              in pg_check operation (check_attempt a)
                (Inr (a, d\<lparr>ad_attempts := AList.update attemptID a (ad_attempts d)\<rparr>)))"

definition started :: "time \<Rightarrow> Attempt \<Rightarrow> Attempt" where
  "started now a = a\<lparr>at_StartedAt := Some now, at_UpdatedAt := now\<rparr>"

definition finished :: "time \<Rightarrow> Attempt \<Rightarrow> Attempt" where
  "finished now a = a\<lparr>at_FinishedAt := Some now, at_UpdatedAt := now\<rparr>"

definition attempt_event_result :: "(string \<Rightarrow> string) \<Rightarrow> WorkerResult \<Rightarrow> json option" where
  "attempt_event_result hexsum r =
    (if json_time_ok (res_StartedAt r) \<and> json_time_ok (res_FinishedAt r) then
      Some (JObj
        [(''adapter'', jstr (res_Adapter r)), (''duration_ms'', JInt (res_DurationMS r)),
         (''evidence_refs'', jstrings (res_EvidenceRefs r)), (''exit_code'', jnullable JInt (res_ExitCode r)),
         (''finished_at'', JTime (res_FinishedAt r)), (''report_sha256'', jstr (workerReportSHA256 hexsum (res_Report r))),
         (''retryable'', JBool (res_Retryable r)), (''started_at'', JTime (res_StartedAt r)),
         (''status'', jstr (res_Status r)), (''stderr_sha256'', jstr (res_StderrSHA256 r)),
         (''stdout_sha256'', jstr (res_StdoutSHA256 r)), (''task_id'', jstr (res_TaskID r)),
         (''termination_reason'', jstr (res_TerminationReason r)), (''usage'', marshal_WorkerUsage (res_Usage r))])
     else None)"

text \<open>The event of a change; \<open>extra\<close> are the fields beside the attempt, unless their encoding failed.\<close>

definition append_attempt_payload :: "PgEnv \<Rightarrow> nat \<Rightarrow> string \<Rightarrow> string \<Rightarrow> string \<Rightarrow> Attempt \<Rightarrow> (string \<times> json) list option
      \<Rightarrow> CommandMetadata \<Rightarrow> 'h AttemptDB \<Rightarrow> 'h AttemptDB result" where
  "append_attempt_payload env n operation failure eventType a extra metadata d =
    (case Option.bind (marshal_Attempt a) (\<lambda>j. map_option (\<lambda>fs. JObj ((''attempt'', j) # fs)) extra) of
       None \<Rightarrow> Inl (WrapErr CodeInternal operation (Msg failure []) (Errorf ''json: encode'' []))
     | Some payload \<Rightarrow>
         with_pg d (appendEvent env n ''attempt'' (at_AttemptID a) (at_Version a) eventType (at_UpdatedAt a)
           payload metadata (ad_pg d)))"

definition appendAttemptEvent :: "(string \<Rightarrow> string) \<Rightarrow> PgEnv \<Rightarrow> nat \<Rightarrow> string \<Rightarrow> Attempt \<Rightarrow> WorkerResult option
      \<Rightarrow> CommandMetadata \<Rightarrow> 'h AttemptDB \<Rightarrow> 'h AttemptDB result" where
  "appendAttemptEvent hexsum env n eventType a r metadata d =
     append_attempt_payload env n ''postgres.appendAttemptEvent'' ''encode attempt event'' eventType a
       (case r of None \<Rightarrow> Some [] | Some r \<Rightarrow> map_option (\<lambda>j. [(''result'', j)]) (attempt_event_result hexsum r)) metadata d"

text \<open>What starting and finishing share: the locked attempt, the fence and the receipt.\<close>

definition attempt_command :: "PgEnv \<Rightarrow> LeaseStore \<Rightarrow> string \<Rightarrow> string \<Rightarrow> 'h \<Rightarrow> string \<Rightarrow> CommandMetadata \<Rightarrow> LeaseProof
      \<Rightarrow> (Attempt \<Rightarrow> (Attempt, 'h AttemptDB) tx) \<Rightarrow> 'h AttemptDB \<Rightarrow> Attempt result \<times> 'h AttemptDB" where
  "attempt_command env s operation scope requestHash attemptID metadata p work d =
    (let e = db_of env in
     run_tx env (begin_command e operation
       (andThen (lockAttempt e attemptID d) (\<lambda>attempt.
        andThen (prepareAttemptWrite e s p d) (\<lambda>_.
        andThen (loadAttemptReplay e scope (IdempotencyKey metadata) requestHash d) (\<lambda>found.
        case found of Some replay \<Rightarrow> Inr ((None, replay), d) | None \<Rightarrow> work attempt))))) d)"

definition startAttemptTx :: "(string \<Rightarrow> string) \<Rightarrow> PgEnv \<Rightarrow> string \<Rightarrow> 'h \<Rightarrow> string \<Rightarrow> int \<Rightarrow> CommandMetadata \<Rightarrow> LeaseProof
      \<Rightarrow> 'h AttemptDB \<Rightarrow> Attempt \<Rightarrow> (Attempt, 'h AttemptDB) tx" where
  "startAttemptTx hexsum env scope requestHash attemptID expectedVersion metadata p d attempt =
     reject (at_Status attempt \<noteq> ''queued'' \<or> at_Version attempt \<noteq> expectedVersion)
       (New CodeConflict ''postgres.StartAttempt'' (Msg ''attempt state or version changed'' []))
    (reject (\<not> attemptOwnedBy attempt p)
       (New CodeConflict ''postgres.StartAttempt'' (Msg ''attempt belongs to a different scheduler fence'' []))
    (let e = db_of env; now = postgresTimestamp (pg_now env 0) in
     andThen (update_attempt e ''postgres.StartAttempt.update''
       (New CodeConflict ''postgres.StartAttempt'' (Msg ''attempt changed concurrently'' []))
       [''queued''] expectedVersion attemptID ''running'' (started now) d) (\<lambda>(attempt, d).
     andThen (appendAttemptEvent hexsum env 0 ''attempt.started'' attempt None metadata d) (\<lambda>d.
     andThen (saveAttemptReplay e scope (IdempotencyKey metadata) requestHash attempt d) (\<lambda>d.
     andThen (enforceAttemptFence e p d) (\<lambda>_.
       Inr ((Some ''postgres.StartAttempt.commit'', attempt), d)))))))"

definition StartAttempt ::
    "(string \<Rightarrow> 'h) \<Rightarrow> (string \<Rightarrow> string) \<Rightarrow> PgEnv \<Rightarrow> LeaseStore \<Rightarrow> string \<Rightarrow> int \<Rightarrow> CommandMetadata \<Rightarrow> LeaseProof
      \<Rightarrow> 'h AttemptDB \<Rightarrow> Attempt result \<times> 'h AttemptDB" where
  "StartAttempt sha256 hexsum env s attemptID expectedVersion metadata p d =
    (case validateAttemptLifecycleInput attemptID expectedVersion metadata p s of Some err \<Rightarrow> (Inl err, d) | None \<Rightarrow>
       let scope = ''start_attempt:'' @ st_repositoryID s @ '':'' @ attemptID;
           requestHash = hashCommand sha256 metadata
             [scope, itoa expectedVersion, lp_OwnerID p, itoa (lp_FencingToken p)]
       in attempt_command env s ''postgres.StartAttempt'' scope requestHash attemptID metadata p
            (startAttemptTx hexsum env scope requestHash attemptID expectedVersion metadata p d) d)"

definition finishAttemptTx :: "(string \<Rightarrow> string) \<Rightarrow> PgEnv \<Rightarrow> string \<Rightarrow> 'h \<Rightarrow> string \<Rightarrow> int \<Rightarrow> WorkerResult \<Rightarrow> CommandMetadata
      \<Rightarrow> LeaseProof \<Rightarrow> 'h AttemptDB \<Rightarrow> Attempt \<Rightarrow> (Attempt, 'h AttemptDB) tx" where
  "finishAttemptTx hexsum env scope requestHash attemptID expectedVersion r metadata p d attempt =
     reject (at_Status attempt \<noteq> ''running'' \<or> at_Version attempt \<noteq> expectedVersion)
       (New CodeConflict ''postgres.FinishAttempt'' (Msg ''attempt state or version changed'' []))
    (reject (\<not> attemptOwnedBy attempt p)
       (New CodeConflict ''postgres.FinishAttempt'' (Msg ''attempt belongs to a different scheduler fence'' []))
    (let e = db_of env; now = postgresTimestamp (pg_now env 0) in
     reject (res_RunID r \<noteq> at_RunID attempt
         \<or> (case at_StartedAt attempt of None \<Rightarrow> True | Some startedAt \<Rightarrow> res_StartedAt r < startedAt)
         \<or> res_FinishedAt r > now
         \<or> res_DurationMS r \<noteq> Milliseconds (time_Sub (res_FinishedAt r) (res_StartedAt r)))
       (New CodeInvalidArgument ''postgres.FinishAttempt''
         (Msg ''worker result disagrees with the durable attempt timeline'' []))
    (andThen (update_attempt e ''postgres.FinishAttempt.update''
       (New CodeConflict ''postgres.FinishAttempt'' (Msg ''attempt changed concurrently'' []))
       [''running''] expectedVersion attemptID (res_Status r) (finished now) d) (\<lambda>(attempt, d).
     andThen (appendAttemptEvent hexsum env 0 ''attempt.finished'' attempt (Some r) metadata d) (\<lambda>d.
     andThen (saveAttemptReplay e scope (IdempotencyKey metadata) requestHash attempt d) (\<lambda>d.
     andThen (enforceAttemptFence e p d) (\<lambda>_.
       Inr ((Some ''postgres.FinishAttempt.commit'', attempt), d))))))))"

definition FinishAttempt ::
    "(string \<Rightarrow> 'h) \<Rightarrow> (string \<Rightarrow> string) \<Rightarrow> Registry result \<Rightarrow> PgEnv \<Rightarrow> LeaseStore \<Rightarrow> string \<Rightarrow> int \<Rightarrow> WorkerResult
      \<Rightarrow> CommandMetadata \<Rightarrow> LeaseProof \<Rightarrow> 'h AttemptDB \<Rightarrow> Attempt result \<times> 'h AttemptDB" where
  "FinishAttempt sha256 hexsum registry env s attemptID expectedVersion r metadata p d =
    (case validateAttemptLifecycleInput attemptID expectedVersion metadata p s of Some err \<Rightarrow> (Inl err, d) | None \<Rightarrow>
       let r = r\<lparr>res_StartedAt := postgresTimestamp (res_StartedAt r), res_FinishedAt := postgresTimestamp (res_FinishedAt r)\<rparr> in
     (case validateCompletion hexsum registry attemptID r of Some err \<Rightarrow> (Inl err, d) | None \<Rightarrow>
       let scope = ''finish_attempt:'' @ st_repositoryID s @ '':'' @ attemptID;
           requestHash = hashCommand sha256 metadata
             ([scope, itoa expectedVersion] @ workerResultHashParts hexsum r @ [lp_OwnerID p, itoa (lp_FencingToken p)])
       in attempt_command env s ''postgres.FinishAttempt'' scope requestHash attemptID metadata p
            (finishAttemptTx hexsum env scope requestHash attemptID expectedVersion r metadata p d) d))"

section \<open>Reconciling abandoned attempts\<close>

record attemptReconciliationAuthority =
  ra_TenantID :: string
  ra_RepositoryID :: string
  ra_ResourceType :: string
  ra_ResourceID :: string
  ra_OwnerID :: string
  ra_FencingToken :: int

record attemptReconciliationCommand =
  rc_TenantID :: string
  rc_RepositoryID :: string
  rc_IdempotencyKey :: string
  rc_ActorType :: string
  rc_ActorID :: string
  rc_CorrelationID :: string
  rc_CausationID :: string

record attemptReconciliationReplay =
  rp_Attempts :: "Attempt list option"
  rp_Authority :: attemptReconciliationAuthority
  rp_Command :: attemptReconciliationCommand

definition newAttemptReconciliationReplay :: "string \<Rightarrow> string \<Rightarrow> CommandMetadata \<Rightarrow> LeaseProof \<Rightarrow> Attempt list option
      \<Rightarrow> attemptReconciliationReplay" where
  "newAttemptReconciliationReplay tenantID repositoryID metadata p attempts =
     \<lparr>rp_Attempts = (case attempts of None \<Rightarrow> Some [] | Some as \<Rightarrow> Some as),
      rp_Authority = \<lparr>ra_TenantID = tenantID, ra_RepositoryID = repositoryID, ra_ResourceType = lk_ResourceType p,
        ra_ResourceID = lk_ResourceID p, ra_OwnerID = lp_OwnerID p, ra_FencingToken = lp_FencingToken p\<rparr>,
      rp_Command = \<lparr>rc_TenantID = tenantID, rc_RepositoryID = repositoryID, rc_IdempotencyKey = IdempotencyKey metadata,
        rc_ActorType = ActorType metadata, rc_ActorID = ActorID metadata, rc_CorrelationID = CorrelationID metadata,
        rc_CausationID = (case CausationID metadata of None \<Rightarrow> [] | Some c \<Rightarrow> c)\<rparr>\<rparr>"

definition marshal_ReconciliationReplay :: "attemptReconciliationReplay \<Rightarrow> json option" where
  "marshal_ReconciliationReplay r =
    (case (case rp_Attempts r of None \<Rightarrow> Some JNull | Some as \<Rightarrow> map_option JArr (those (map marshal_Attempt as))) of
       None \<Rightarrow> None
     | Some attempts \<Rightarrow> Some (JObj
        [(''attempts'', attempts),
         (''authority'', let a = rp_Authority r in JObj
           [(''tenant_id'', jstr (ra_TenantID a)), (''repository_id'', jstr (ra_RepositoryID a)),
            (''resource_type'', jstr (ra_ResourceType a)), (''resource_id'', jstr (ra_ResourceID a)),
            (''owner_id'', jstr (ra_OwnerID a)), (''fencing_token'', JInt (ra_FencingToken a))]),
         (''command'', let c = rp_Command r in JObj
           [(''tenant_id'', jstr (rc_TenantID c)), (''repository_id'', jstr (rc_RepositoryID c)),
            (''idempotency_key'', jstr (rc_IdempotencyKey c)), (''actor_type'', jstr (rc_ActorType c)),
            (''actor_id'', jstr (rc_ActorID c)), (''correlation_id'', jstr (rc_CorrelationID c)),
            (''causation_id'', jstr (rc_CausationID c))])]))"

fun read_Attempts :: "json \<Rightarrow> Attempt list option option" where
  "read_Attempts (JArr js) = map_option Some (those (map decode_Attempt js))"
| "read_Attempts JNull = Some None"
| "read_Attempts _ = None"

definition decode_Authority :: "json \<Rightarrow> attemptReconciliationAuthority option" where
  "decode_Authority j =
    Option.bind (known_fields [''tenant_id'', ''repository_id'', ''resource_type'', ''resource_id'', ''owner_id'',
      ''fencing_token''] j) (\<lambda>fs.
    Option.bind (read_str (field fs ''tenant_id'')) (\<lambda>t.
    Option.bind (read_str (field fs ''repository_id'')) (\<lambda>r.
    Option.bind (read_str (field fs ''resource_type'')) (\<lambda>rt.
    Option.bind (read_str (field fs ''resource_id'')) (\<lambda>ri.
    Option.bind (read_str (field fs ''owner_id'')) (\<lambda>ow.
    Option.bind (read_int (field fs ''fencing_token'')) (\<lambda>tok.
      Some \<lparr>ra_TenantID = t, ra_RepositoryID = r, ra_ResourceType = rt, ra_ResourceID = ri, ra_OwnerID = ow,
            ra_FencingToken = tok\<rparr>)))))))"

definition decode_Command :: "json \<Rightarrow> attemptReconciliationCommand option" where
  "decode_Command j =
    Option.bind (known_fields [''tenant_id'', ''repository_id'', ''idempotency_key'', ''actor_type'', ''actor_id'',
      ''correlation_id'', ''causation_id''] j) (\<lambda>fs.
    Option.bind (read_str (field fs ''tenant_id'')) (\<lambda>t.
    Option.bind (read_str (field fs ''repository_id'')) (\<lambda>r.
    Option.bind (read_str (field fs ''idempotency_key'')) (\<lambda>k.
    Option.bind (read_str (field fs ''actor_type'')) (\<lambda>ty.
    Option.bind (read_str (field fs ''actor_id'')) (\<lambda>ai.
    Option.bind (read_str (field fs ''correlation_id'')) (\<lambda>co.
    Option.bind (read_str (field fs ''causation_id'')) (\<lambda>ca.
      Some \<lparr>rc_TenantID = t, rc_RepositoryID = r, rc_IdempotencyKey = k, rc_ActorType = ty, rc_ActorID = ai,
            rc_CorrelationID = co, rc_CausationID = ca\<rparr>))))))))"

definition decode_ReconciliationReplay :: "json \<Rightarrow> attemptReconciliationReplay option" where
  "decode_ReconciliationReplay j =
    Option.bind (known_fields [''attempts'', ''authority'', ''command''] j) (\<lambda>fs.
    Option.bind (read_Attempts (field fs ''attempts'')) (\<lambda>as.
    Option.bind (decode_Authority (field fs ''authority'')) (\<lambda>au.
    Option.bind (decode_Command (field fs ''command'')) (\<lambda>c.
      Some \<lparr>rp_Attempts = as, rp_Authority = au, rp_Command = c\<rparr>))))"

definition sameStableReconciliationCommand ::
    "attemptReconciliationCommand \<Rightarrow> attemptReconciliationCommand \<Rightarrow> bool" where
  "sameStableReconciliationCommand stored current \<longleftrightarrow>
     rc_TenantID stored = rc_TenantID current \<and> rc_RepositoryID stored = rc_RepositoryID current
     \<and> rc_IdempotencyKey stored = rc_IdempotencyKey current \<and> rc_ActorType stored = rc_ActorType current
     \<and> rc_ActorID stored = rc_ActorID current \<and> rc_CausationID stored = rc_CausationID current
     \<and> TrimSpace (rc_CorrelationID stored) \<noteq> []"

text \<open>Each attempt of a stored response is encoded again and validated.\<close>

fun validate_stored_attempts :: "Attempt list \<Rightarrow> Attempt list result" where
  "validate_stored_attempts [] = Inr []"
| "validate_stored_attempts (a # as) =
    (case (case marshal_Attempt a of None \<Rightarrow> Inl (Errorf ''EOF'' []) | Some encoded \<Rightarrow> decodeStoredAttempt encoded) of
       Inl err \<Rightarrow> Inl (WrapErr CodeInternal ''postgres.loadAttemptReconciliationReplay'' (Msg ''validate stored attempt'' []) err)
     | Inr validated \<Rightarrow> andThen (validate_stored_attempts as) (\<lambda>rest. Inr (validated # rest)))"

definition loadAttemptReconciliationReplay :: "DBEnv \<Rightarrow> LeaseStore \<Rightarrow> string \<Rightarrow> CommandMetadata \<Rightarrow> LeaseProof \<Rightarrow> 'h
      \<Rightarrow> 'h AttemptDB \<Rightarrow> Attempt list option result" where
  "loadAttemptReconciliationReplay env s scope metadata p requestHash d =
    (let operation = ''postgres.loadAttemptReconciliationReplay'' in
     db_exec env operation [scope, IdempotencyKey metadata]
       (case map_of (pg_idempotency (ad_pg d)) (scope, IdempotencyKey metadata) of
          None \<Rightarrow> Inr None
        | Some receipt \<Rightarrow>
            reject (ik_request_hash receipt \<noteq> requestHash)
              (New CodeConflict operation (Msg ''idempotency key was reused'' []))
              (case decode_ReconciliationReplay (ik_response_body receipt) of
                 None \<Rightarrow> Inl (WrapErr CodeInternal operation (Msg ''decode response'' []) (Errorf ''json: decode'' []))
               | Some replay \<Rightarrow>
                   (case rp_Attempts replay of
                      None \<Rightarrow> Inl (New CodeInternal operation (Msg ''stored reconciliation provenance is invalid'' []))
                    | Some attempts \<Rightarrow>
                        let expected = newAttemptReconciliationReplay (st_tenantID s) (st_repositoryID s) metadata p (Some attempts)
                        in reject (rp_Authority replay \<noteq> rp_Authority expected
                              \<or> \<not> sameStableReconciliationCommand (rp_Command replay) (rp_Command expected))
                             (New CodeInternal operation (Msg ''stored reconciliation provenance is invalid'' []))
                             (andThen (validate_stored_attempts attempts) (\<lambda>as. Inr (Some as)))))))"

definition saveAttemptReconciliationReplay :: "DBEnv \<Rightarrow> LeaseStore \<Rightarrow> string \<Rightarrow> CommandMetadata \<Rightarrow> LeaseProof \<Rightarrow> 'h
      \<Rightarrow> Attempt list \<Rightarrow> 'h AttemptDB \<Rightarrow> 'h AttemptDB result" where
  "saveAttemptReconciliationReplay env s scope metadata p requestHash attempts d =
     with_pg d (saveReplay env ''postgres.saveAttemptReconciliationReplay'' ''encode response'' scope (IdempotencyKey metadata)
       requestHash 200
       (marshal_ReconciliationReplay
         (newAttemptReconciliationReplay (st_tenantID s) (st_repositoryID s) metadata p (Some attempts))) (ad_pg d))"

definition appendReconciledAttemptEvent :: "PgEnv \<Rightarrow> nat \<Rightarrow> Attempt \<Rightarrow> LeaseProof \<Rightarrow> CommandMetadata \<Rightarrow> 'h AttemptDB
      \<Rightarrow> 'h AttemptDB result" where
  "appendReconciledAttemptEvent env n a p metadata d =
     append_attempt_payload env n ''postgres.appendReconciledAttemptEvent'' ''encode event'' ''attempt.reconciled'' a
       (Some [(''reconciled_by'', JObj
         [(''fencing_token'', JInt (lp_FencingToken p)), (''owner_id'', jstr (lp_OwnerID p)),
          (''repository_id'', jstr (lk_RepositoryID p)), (''resource_id'', jstr (lk_ResourceID p)),
          (''resource_type'', jstr (lk_ResourceType p)), (''tenant_id'', jstr (lk_TenantID p))])]) metadata d"

text \<open>
  The active attempts on the resource of the proof whose own fence is neither the proof nor
  live, in the order of run and ordinal. The clock is read once per row.
\<close>

definition abandoned :: "DBEnv \<Rightarrow> LeaseStore \<Rightarrow> LeaseProof \<Rightarrow> 'h AttemptDB \<Rightarrow> Attempt \<Rightarrow> bool" where
  "abandoned env s p d a \<longleftrightarrow>
     map_of (pg_runs (ad_pg d)) (at_RunID a) \<noteq> None \<and> at_Status a \<in> {''queued'', ''running''}
     \<and> at_LeaseResourceType a = lk_ResourceType p \<and> at_LeaseResourceID a = lk_ResourceID p
     \<and> \<not> (at_WorkerID a = lp_OwnerID p \<and> at_FencingToken a = lp_FencingToken p)
     \<and> \<not> live_fence (attempt_key s a) (at_WorkerID a) (at_FencingToken a) (db_row_clock env 0 [at_AttemptID a]) d"

definition abandoned_attempts :: "PgEnv \<Rightarrow> LeaseStore \<Rightarrow> LeaseProof \<Rightarrow> 'h AttemptDB \<Rightarrow> Attempt list" where
  "abandoned_attempts env s p d =
     sort_key (pg_collation env \<circ> at_RunID) (sort_key at_Ordinal
       (filter (abandoned (db_of env) s p d) (map snd (ad_attempts d))))"

fun reconcile_attempts :: "PgEnv \<Rightarrow> LeaseProof \<Rightarrow> CommandMetadata \<Rightarrow> time \<Rightarrow> nat \<Rightarrow> Attempt list \<Rightarrow> 'h AttemptDB
      \<Rightarrow> (Attempt list \<times> 'h AttemptDB) result" where
  "reconcile_attempts env p metadata now n [] d = Inr ([], d)"
| "reconcile_attempts env p metadata now n (a # as) d =
     andThen (update_attempt (db_of env) ''postgres.ReconcileAbandonedAttempts.update''
       (New CodeConflict ''postgres.ReconcileAbandonedAttempts'' (Msg ''attempt changed concurrently'' []))
       [''queued'', ''running''] (at_Version a) (at_AttemptID a) ''failed_retryable'' (finished now) d) (\<lambda>(a, d).
     andThen (appendReconciledAttemptEvent env n a p metadata d) (\<lambda>d.
     andThen (reconcile_attempts env p metadata now (n + 1) as d) (\<lambda>(rest, d). Inr (a # rest, d))))"

definition reconcileAttemptsTx :: "PgEnv \<Rightarrow> LeaseStore \<Rightarrow> string \<Rightarrow> 'h \<Rightarrow> CommandMetadata \<Rightarrow> LeaseProof \<Rightarrow> Attempt list
      \<Rightarrow> 'h AttemptDB \<Rightarrow> (Attempt list, 'h AttemptDB) tx" where
  "reconcileAttemptsTx env s scope requestHash metadata p as d =
     andThen (reconcile_attempts env p metadata (postgresTimestamp (pg_now env 0)) 0 as d) (\<lambda>(reconciled, d).
     andThen (saveAttemptReconciliationReplay (db_of env) s scope metadata p requestHash reconciled d) (\<lambda>d.
     andThen (enforceAttemptFence (db_of env) p d) (\<lambda>_.
       Inr ((Some ''postgres.ReconcileAbandonedAttempts.commit'', reconciled), d))))"

definition ReconcileAbandonedAttempts ::
    "(string \<Rightarrow> 'h) \<Rightarrow> PgEnv \<Rightarrow> LeaseStore \<Rightarrow> CommandMetadata \<Rightarrow> LeaseProof \<Rightarrow> 'h AttemptDB
      \<Rightarrow> Attempt list result \<times> 'h AttemptDB" where
  "ReconcileAbandonedAttempts sha256 env s metadata p d =
    (case ValidateCommandMetadata metadata of Some err \<Rightarrow> (Inl err, d) | None \<Rightarrow>
    (case validateAttemptFence p (st_tenantID s) (st_repositoryID s) of Some err \<Rightarrow> (Inl err, d) | None \<Rightarrow>
      let e = db_of env;
          scope = ''reconcile_attempts:'' @ st_repositoryID s @ '':'' @ lk_ResourceID p;
          requestHash = hashCommand sha256 metadata [scope, lp_OwnerID p, itoa (lp_FencingToken p)]
      in run_tx env (begin_command e ''postgres.ReconcileAbandonedAttempts''
           (db_exec e ''postgres.ReconcileAbandonedAttempts.query'' [lk_ResourceType p, lk_ResourceID p, lp_OwnerID p]
           (db_call e ''postgres.ReconcileAbandonedAttempts.scan''
           (db_call e ''postgres.ReconcileAbandonedAttempts.rows''
           (andThen (prepareAttemptWrite e s p d) (\<lambda>_.
           andThen (loadAttemptReconciliationReplay e s scope metadata p requestHash d) (\<lambda>found.
           case found of
             Some replay \<Rightarrow> Inr ((None, replay), d)
           | None \<Rightarrow> reconcileAttemptsTx env s scope requestHash metadata p (abandoned_attempts env s p d) d))))))) d))"

end
