(* ===== verification/AttemptEffects.thy ===== *)
theory AttemptEffects
  imports Attempts LeaseSafety PgProjection
begin

text \<open>
  What the operations on attempts write: one new row, or moves of single rows from one state
  of the lifecycle to the next, each with its event, under the liveness of the fence that the
  operation has checked.
\<close>

section \<open>What the statements write\<close>

lemma with_pg_Inr [simp]: "with_pg d r = Inr d' \<longleftrightarrow> (\<exists>pg. r = Inr pg \<and> d' = d\<lparr>ad_pg := pg\<rparr>)"
  by (auto simp: with_pg_def)

lemma live_fence_cong [simp]:
  "live_fence k ow tok now (d\<lparr>ad_pg := pg\<rparr>) = live_fence k ow tok now d"
  "live_fence k ow tok now (d\<lparr>ad_attempts := tab\<rparr>) = live_fence k ow tok now d"
  by (simp_all add: live_fence_def)

definition attempt_log :: "'h PgDB \<Rightarrow> EventRow list" where
  "attempt_log db = filter (\<lambda>ev. ev_aggregate_type ev = ''attempt'') (pg_events db)"

lemma attempt_log_simps [simp]:
  "attempt_log (db\<lparr>pg_idempotency := x\<rparr>) = attempt_log db"
  "attempt_log (insert_event env n ev db) = attempt_log db @ (if ev_aggregate_type ev = ''attempt'' then [ev] else [])"
  by (simp_all add: attempt_log_def insert_event_events)

definition event_of :: "EventRow \<Rightarrow> Attempt \<Rightarrow> bool" where
  "event_of ev a \<longleftrightarrow> ev_aggregate_id ev = at_AttemptID a \<and> ev_aggregate_version ev = at_Version a
     \<and> (if at_Version a = 1 then ev_occurred_at ev = at_CreatedAt a \<and> createdAttemptSnapshot a = Some (ev_payload ev)
        else ev_occurred_at ev = at_UpdatedAt a
          \<and> (\<exists>j fs. marshal_Attempt a = Some j \<and> ev_payload ev = JObj ((''attempt'', j) # fs)))"

definition logs_attempt :: "'h PgDB \<Rightarrow> Attempt \<Rightarrow> 'h PgDB \<Rightarrow> bool" where
  "logs_attempt db a db' \<longleftrightarrow> core db' = core db \<and> (\<exists>ev. event_of ev a \<and> attempt_log db' = attempt_log db @ [ev])"

lemma saveReplay_attempt_log:
  assumes "saveReplay e operation failure scope key h status response db = Inr db'"
  shows "core db' = core db \<and> attempt_log db' = attempt_log db"
  using assms by (auto simp: saveReplay_def split: option.splits)

lemma appendEvent_attempt_log:
  assumes "appendEvent env n ''attempt'' i v et t j m db = Inr db'"
  shows "core db' = core db \<and> (\<exists>ev. ev_aggregate_id ev = i \<and> ev_aggregate_version ev = v \<and> ev_occurred_at ev = t
    \<and> ev_payload ev = j \<and> attempt_log db' = attempt_log db @ [ev])"
  using assms by (rule appendEvent_Inr) auto

lemma append_attempt_payload_Inr:
  assumes "append_attempt_payload env n operation failure et a extra m d = Inr d'" "at_Version a \<noteq> 1"
  shows "\<exists>pg. d' = d\<lparr>ad_pg := pg\<rparr> \<and> logs_attempt (ad_pg d) a pg"
proof -
  from assms(1) obtain j fs pg where j: "marshal_Attempt a = Some j" "extra = Some fs" "d' = d\<lparr>ad_pg := pg\<rparr>"
    and ev: "appendEvent env n ''attempt'' (at_AttemptID a) (at_Version a) et (at_UpdatedAt a)
      (JObj ((''attempt'', j) # fs)) m (ad_pg d) = Inr pg"
    by (auto simp: append_attempt_payload_def bind_eq_Some_conv split: option.splits)
  with appendEvent_attempt_log [OF ev] assms(2) show ?thesis
    unfolding logs_attempt_def event_of_def by auto
qed

lemma insert_attempt_Inr:
  "insert_attempt e s p i r st d = Inr (a, d') \<longleftrightarrow>
     list_all pg_text_ok [i, r, st, lp_OwnerID p, lk_ResourceType p, lk_ResourceID p]
   \<and> db_error e ''postgres.CreateAttempt.insert'' = None
   \<and> live_fence (row_key (proof_key p) (st_repositoryID s)) (lp_OwnerID p) (lp_FencingToken p) (db_clock e 1) d
   \<and> a = \<lparr>at_AttemptID = i, at_RunID = r, at_Ordinal = next_ordinal r (ad_attempts d),
               at_Status = st, at_LeaseResourceType = lk_ResourceType p, at_LeaseResourceID = lk_ResourceID p,
               at_WorkerID = lp_OwnerID p, at_FencingToken = lp_FencingToken p, at_StartedAt = None,
               at_FinishedAt = None, at_Version = 1, at_CreatedAt = pg_instant (db_clock e 2),
               at_UpdatedAt = pg_instant (db_clock e 3)\<rparr>
   \<and> check_attempt a = None \<and> map_of (ad_attempts d) i = None
   \<and> \<not> table_ex (\<lambda>_ b. at_RunID b = r \<and> at_Ordinal b = at_Ordinal a) (ad_attempts d)
   \<and> d' = d\<lparr>ad_attempts := AList.update i a (ad_attempts d)\<rparr>"
  unfolding insert_attempt_def Let_def db_exec_Inr reject_Inr pg_check_Inr by auto

lemma update_attempt_Inr:
  assumes "update_attempt e operation stale sts v i st f d = Inr (a', d')"
  obtains a where "map_of (ad_attempts d) i = Some a" "at_Status a \<in> set sts" "at_Version a = v"
    "a' = f (a\<lparr>at_Status := st, at_Version := at_Version a + 1\<rparr>)" "check_attempt a' = None"
    "d' = d\<lparr>ad_attempts := AList.update i a' (ad_attempts d)\<rparr>"
  using assms by (auto simp: update_attempt_def Let_def split: option.splits if_splits)

section \<open>What the transactions write\<close>

definition fresh_attempt :: "LeaseStore \<Rightarrow> LeaseProof \<Rightarrow> 'h AttemptDB \<Rightarrow> Attempt \<Rightarrow> bool" where
  "fresh_attempt s p d a \<longleftrightarrow> at_Status a = ''queued'' \<and> at_Version a = 1 \<and> at_StartedAt a = None \<and> at_FinishedAt a = None
     \<and> at_Ordinal a = next_ordinal (at_RunID a) (ad_attempts d) \<and> at_LeaseResourceType a = lk_ResourceType p
     \<and> at_LeaseResourceID a = lk_ResourceID p \<and> at_WorkerID a = lp_OwnerID p \<and> at_FencingToken a = lp_FencingToken p
     \<and> check_attempt a = None \<and> map_of (ad_attempts d) (at_AttemptID a) = None"

lemma createAttemptTx_effect:
  assumes "createAttemptTx env s scope h r ''queued'' m p d = Inr ((c, a), d')"
  shows "fresh_attempt s p d a \<and> at_RunID a = r \<and> c \<noteq> None
    \<and> live_fence (proof_key p) (lp_OwnerID p) (lp_FencingToken p) (db_clock (db_of env) 4) d
    \<and> (\<exists>pg. d' = d\<lparr>ad_attempts := AList.update (at_AttemptID a) a (ad_attempts d), ad_pg := pg\<rparr> \<and> logs_attempt (ad_pg d) a pg)"
proof -
  from assms obtain i d1 where i: "insert_attempt (db_of env) s p i r ''queued'' d = Inr (a, d1)"
    and rest: "(case createdAttemptSnapshot a of None \<Rightarrow> Inl (WrapErr CodeInternal ''postgres.CreateAttempt'' (Msg ''encode attempt event payload'' []) (Errorf ''json: encode'' []))
          | Some payload \<Rightarrow>
         andThen (with_pg d1 (appendEvent env 0 ''attempt'' i (at_Version a) ''attempt.created''
           (at_CreatedAt a) payload m (ad_pg d1))) (\<lambda>d.
         andThen (saveCreatedAttemptReplay (db_of env) scope (IdempotencyKey m) h a d) (\<lambda>d.
         andThen (enforceAttemptFence (db_of env) p d) (\<lambda>_.
           Inr ((Some ''postgres.CreateAttempt.commit'', a), d))))) = Inr ((c, a), d')"
    by (auto simp: createAttemptTx_def split: sum.splits option.splits)
  from rest obtain j pg pg' where j: "createdAttemptSnapshot a = Some j"
    and ev: "appendEvent env 0 ''attempt'' i (at_Version a) ''attempt.created'' (at_CreatedAt a) j m (ad_pg d1) = Inr pg"
    and sv: "saveReplay (db_of env) ''postgres.saveCreatedAttemptReplay'' ''encode command response'' scope (IdempotencyKey m) h 201
      (createdAttemptSnapshot a) pg = Inr pg'"
    and fin: "live_fence (proof_key p) (lp_OwnerID p) (lp_FencingToken p) (db_clock (db_of env) 4) d1"
      "d' = d1\<lparr>ad_pg := pg'\<rparr>" "c \<noteq> None"
    by (auto simp: saveCreatedAttemptReplay_def enforceAttemptFence_def split: option.splits)
  from i have a: "fresh_attempt s p d a" "at_RunID a = r" "at_AttemptID a = i" "at_Version a = 1"
      "d1 = d\<lparr>ad_attempts := AList.update i a (ad_attempts d)\<rparr>"
    unfolding insert_attempt_Inr by (auto simp: fresh_attempt_def)
  have "logs_attempt (ad_pg d) a pg'"
    using appendEvent_attempt_log [OF ev] saveReplay_attempt_log [OF sv] a j
    by (auto simp: logs_attempt_def event_of_def)
  with a fin show ?thesis by auto
qed

definition running_of :: "time \<Rightarrow> Attempt \<Rightarrow> Attempt" where
  "running_of now a = started now (a\<lparr>at_Status := ''running'', at_Version := at_Version a + 1\<rparr>)"

definition ended_of :: "string \<Rightarrow> time \<Rightarrow> Attempt \<Rightarrow> Attempt" where
  "ended_of st now a = finished now (a\<lparr>at_Status := st, at_Version := at_Version a + 1\<rparr>)"

lemma lifecycleTx_tail:
  assumes "andThen (appendAttemptEvent hexsum env n et a r m d) (\<lambda>d.
       andThen (saveAttemptReplay (db_of env) scope key h a d) (\<lambda>d.
       andThen (enforceAttemptFence (db_of env) p d) (\<lambda>_. Inr ((c, a), d)))) = Inr ((c', a'), d')" "at_Version a \<noteq> 1"
  shows "a' = a \<and> live_fence (proof_key p) (lp_OwnerID p) (lp_FencingToken p) (db_clock (db_of env) 4) d
    \<and> (\<exists>pg. d' = d\<lparr>ad_pg := pg\<rparr> \<and> logs_attempt (ad_pg d) a pg)"
proof -
  from assms(1) obtain d1 pg where ev: "appendAttemptEvent hexsum env n et a r m d = Inr d1"
    and sv: "saveReplay (db_of env) ''postgres.saveAttemptReplay'' ''encode command response'' scope key h 201
      (marshal_Attempt a) (ad_pg d1) = Inr pg"
    and rest: "live_fence (proof_key p) (lp_OwnerID p) (lp_FencingToken p) (db_clock (db_of env) 4) d1" "d' = d1\<lparr>ad_pg := pg\<rparr>" "a' = a"
    by (auto simp: saveAttemptReplay_def enforceAttemptFence_def)
  from append_attempt_payload_Inr [OF ev [unfolded appendAttemptEvent_def] assms(2)]
  obtain pg1 where "d1 = d\<lparr>ad_pg := pg1\<rparr>" "logs_attempt (ad_pg d) a pg1" by blast
  with rest saveReplay_attempt_log [OF sv] show ?thesis by (auto simp: logs_attempt_def)
qed

lemma startAttemptTx_effect:
  assumes "startAttemptTx hexsum env scope h i v m p d b = Inr ((c, a'), d')" "map_of (ad_attempts d) i = Some b"
    "at_Version b > 0"
  shows "at_Status b = ''queued'' \<and> at_Version b = v \<and> attemptOwnedBy b p \<and> (\<exists>now. a' = running_of now b)
    \<and> live_fence (proof_key p) (lp_OwnerID p) (lp_FencingToken p) (db_clock (db_of env) 4) d
    \<and> (\<exists>pg. d' = d\<lparr>ad_attempts := AList.update i a' (ad_attempts d), ad_pg := pg\<rparr> \<and> logs_attempt (ad_pg d) a' pg)"
proof -
  from assms(1) obtain a1 d1 where up: "update_attempt (db_of env) ''postgres.StartAttempt.update''
       (New CodeConflict ''postgres.StartAttempt'' (Msg ''attempt changed concurrently'' []))
       [''queued''] v i ''running'' (started (postgresTimestamp (pg_now env 0))) d = Inr (a1, d1)"
    and own: "attemptOwnedBy b p" "at_Status b = ''queued''" "at_Version b = v"
    and tail: "andThen (appendAttemptEvent hexsum env 0 ''attempt.started'' a1 None m d1) (\<lambda>d.
       andThen (saveAttemptReplay (db_of env) scope (IdempotencyKey m) h a1 d) (\<lambda>d.
       andThen (enforceAttemptFence (db_of env) p d) (\<lambda>_. Inr ((Some ''postgres.StartAttempt.commit'', a1), d)))) = Inr ((c, a'), d')"
    unfolding startAttemptTx_def Let_def reject_Inr by (auto simp del: New_def)
  from up obtain b1 where "map_of (ad_attempts d) i = Some b1" "a1 = running_of (postgresTimestamp (pg_now env 0)) b1"
      "d1 = d\<lparr>ad_attempts := AList.update i a1 (ad_attempts d)\<rparr>"
    unfolding running_of_def by (rule update_attempt_Inr) blast
  moreover from this assms(2,3) have "at_Version a1 \<noteq> 1" by (simp add: running_of_def started_def)
  ultimately show ?thesis using lifecycleTx_tail [OF tail] own assms(2) by auto
qed

lemma finishAttemptTx_effect:
  assumes "finishAttemptTx hexsum env scope h i v r m p d b = Inr ((c, a'), d')" "map_of (ad_attempts d) i = Some b"
    "at_Version b > 0"
  shows "at_Status b = ''running'' \<and> at_Version b = v \<and> attemptOwnedBy b p \<and> (\<exists>now. a' = ended_of (res_Status r) now b)
    \<and> live_fence (proof_key p) (lp_OwnerID p) (lp_FencingToken p) (db_clock (db_of env) 4) d
    \<and> (\<exists>pg. d' = d\<lparr>ad_attempts := AList.update i a' (ad_attempts d), ad_pg := pg\<rparr> \<and> logs_attempt (ad_pg d) a' pg)"
proof -
  from assms(1) obtain a1 d1 where up: "update_attempt (db_of env) ''postgres.FinishAttempt.update''
       (New CodeConflict ''postgres.FinishAttempt'' (Msg ''attempt changed concurrently'' []))
       [''running''] v i (res_Status r) (finished (postgresTimestamp (pg_now env 0))) d = Inr (a1, d1)"
    and own: "attemptOwnedBy b p" "at_Status b = ''running''" "at_Version b = v"
    and tail: "andThen (appendAttemptEvent hexsum env 0 ''attempt.finished'' a1 (Some r) m d1) (\<lambda>d.
       andThen (saveAttemptReplay (db_of env) scope (IdempotencyKey m) h a1 d) (\<lambda>d.
       andThen (enforceAttemptFence (db_of env) p d) (\<lambda>_. Inr ((Some ''postgres.FinishAttempt.commit'', a1), d)))) = Inr ((c, a'), d')"
    unfolding finishAttemptTx_def Let_def reject_Inr by auto
  from up obtain b1 where "map_of (ad_attempts d) i = Some b1" "a1 = ended_of (res_Status r) (postgresTimestamp (pg_now env 0)) b1"
      "d1 = d\<lparr>ad_attempts := AList.update i a1 (ad_attempts d)\<rparr>"
    unfolding ended_of_def by (rule update_attempt_Inr) blast
  moreover from this assms(2,3) have "at_Version a1 \<noteq> 1" by (simp add: ended_of_def finished_def)
  ultimately show ?thesis using lifecycleTx_tail [OF tail] own assms(2) by auto
qed

lemma ended_of_simps [simp]:
  "at_AttemptID (ended_of st now a) = at_AttemptID a" "at_RunID (ended_of st now a) = at_RunID a"
  "at_Ordinal (ended_of st now a) = at_Ordinal a" "at_Status (ended_of st now a) = st"
  "at_LeaseResourceType (ended_of st now a) = at_LeaseResourceType a" "at_LeaseResourceID (ended_of st now a) = at_LeaseResourceID a"
  "at_WorkerID (ended_of st now a) = at_WorkerID a" "at_FencingToken (ended_of st now a) = at_FencingToken a"
  "at_StartedAt (ended_of st now a) = at_StartedAt a" "at_FinishedAt (ended_of st now a) = Some now"
  "at_Version (ended_of st now a) = at_Version a + 1" "at_CreatedAt (ended_of st now a) = at_CreatedAt a"
  "at_UpdatedAt (ended_of st now a) = now"
  by (simp_all add: ended_of_def finished_def)

lemma running_of_simps [simp]:
  "at_AttemptID (running_of now a) = at_AttemptID a" "at_RunID (running_of now a) = at_RunID a"
  "at_Ordinal (running_of now a) = at_Ordinal a" "at_Status (running_of now a) = ''running''"
  "at_LeaseResourceType (running_of now a) = at_LeaseResourceType a" "at_LeaseResourceID (running_of now a) = at_LeaseResourceID a"
  "at_WorkerID (running_of now a) = at_WorkerID a" "at_FencingToken (running_of now a) = at_FencingToken a"
  "at_StartedAt (running_of now a) = Some now" "at_FinishedAt (running_of now a) = at_FinishedAt a"
  "at_Version (running_of now a) = at_Version a + 1" "at_CreatedAt (running_of now a) = at_CreatedAt a"
  "at_UpdatedAt (running_of now a) = now"
  by (simp_all add: running_of_def started_def)

text \<open>The attempts of a list are ended in the table, each once, each with an event.\<close>

definition reconciled :: "time \<Rightarrow> Attempt list \<Rightarrow> 'h AttemptDB \<Rightarrow> Attempt list \<Rightarrow> 'h AttemptDB \<Rightarrow> bool" where
  "reconciled now as d rs d' \<longleftrightarrow>
     (\<forall>b \<in> set as. \<exists>a. map_of (ad_attempts d) (at_AttemptID b) = Some a \<and> at_Status a \<in> {''queued'', ''running''}
        \<and> at_Version a = at_Version b)
   \<and> distinct (map at_AttemptID as)
   \<and> rs = map (\<lambda>b. ended_of ''failed_retryable'' now (the (map_of (ad_attempts d) (at_AttemptID b)))) as
   \<and> map fst (ad_attempts d') = map fst (ad_attempts d)
   \<and> (\<forall>i. map_of (ad_attempts d') i = (if i \<in> at_AttemptID ` set as
        then map_option (ended_of ''failed_retryable'' now) (map_of (ad_attempts d) i) else map_of (ad_attempts d) i))
   \<and> ad_leases d' = ad_leases d \<and> core (ad_pg d') = core (ad_pg d)
   \<and> (\<exists>evs. attempt_log (ad_pg d') = attempt_log (ad_pg d) @ evs \<and> list_all2 event_of evs rs)"

lemma reconciled_Cons:
  assumes row: "map_of (ad_attempts d) (at_AttemptID b) = Some a" "at_Status a \<in> {''queued'', ''running''}"
      "at_Version a = at_Version b"
    and dm: "dm = d\<lparr>ad_attempts := AList.update (at_AttemptID b) (ended_of ''failed_retryable'' now a) (ad_attempts d), ad_pg := pg\<rparr>"
    and log: "logs_attempt (ad_pg d) (ended_of ''failed_retryable'' now a) pg"
    and rest: "reconciled now as dm rs d'"
  shows "reconciled now (b # as) d (ended_of ''failed_retryable'' now a # rs) d'"
proof -
  let ?e = "ended_of ''failed_retryable'' now"
  have tab: "map_of (ad_attempts dm) = (map_of (ad_attempts d))(at_AttemptID b \<mapsto> ?e a)"
    by (simp add: dm update_conv')
  have keys: "map fst (ad_attempts dm) = map fst (ad_attempts d)"
    using row(1) by (auto simp: dm update_keys dest: map_of_SomeD intro: rev_image_eqI)
  have new: "at_AttemptID b \<notin> at_AttemptID ` set as"
  proof
    assume "at_AttemptID b \<in> at_AttemptID ` set as"
    then obtain c where c: "c \<in> set as" "at_AttemptID c = at_AttemptID b" by auto
    with rest have "\<exists>x. map_of (ad_attempts dm) (at_AttemptID c) = Some x \<and> at_Status x \<in> {''queued'', ''running''}"
      unfolding reconciled_def by blast
    then show False using c tab by simp
  qed
  have ne: "at_AttemptID c \<noteq> at_AttemptID b" if "c \<in> set as" for c
    using imageI [OF that, of at_AttemptID] new by metis
  from log obtain ev where ev: "core pg = core (ad_pg d)" "event_of ev (?e a)" "attempt_log pg = attempt_log (ad_pg d) @ [ev]"
    by (auto simp: logs_attempt_def)
  have rs: "rs = map (\<lambda>b. ?e (the (map_of (ad_attempts d) (at_AttemptID b)))) as"
  proof -
    have "rs = map (\<lambda>b. ?e (the (map_of (ad_attempts dm) (at_AttemptID b)))) as" using rest by (simp add: reconciled_def)
    also have "\<dots> = map (\<lambda>b. ?e (the (map_of (ad_attempts d) (at_AttemptID b)))) as"
      by (rule map_cong) (simp_all add: tab ne)
    finally show ?thesis .
  qed
  have act: "\<exists>a. map_of (ad_attempts d) (at_AttemptID c) = Some a \<and> at_Status a \<in> {''queued'', ''running''} \<and> at_Version a = at_Version c"
    if "c \<in> set as" for c
  proof -
    from rest that have "\<exists>a. map_of (ad_attempts dm) (at_AttemptID c) = Some a \<and> at_Status a \<in> {''queued'', ''running''}
        \<and> at_Version a = at_Version c" unfolding reconciled_def by blast
    then show ?thesis using ne [OF that] by (simp add: tab)
  qed
  have map': "map_of (ad_attempts d') i = (if i \<in> at_AttemptID ` set (b # as)
      then map_option ?e (map_of (ad_attempts d) i) else map_of (ad_attempts d) i)" for i
    using rest new row(1) unfolding reconciled_def tab by auto
  from rest obtain evs where evs: "attempt_log (ad_pg d') = attempt_log (ad_pg dm) @ evs" "list_all2 event_of evs rs"
    unfolding reconciled_def by blast
  have dm_fields: "ad_leases dm = ad_leases d" "ad_pg dm = pg" by (simp_all add: dm)
  have "attempt_log (ad_pg d') = attempt_log (ad_pg d) @ ev # evs" "list_all2 event_of (ev # evs) (?e a # rs)"
    using evs ev dm_fields by simp_all
  then have logs: "\<exists>evs. attempt_log (ad_pg d') = attempt_log (ad_pg d) @ evs \<and> list_all2 event_of evs (?e a # rs)" by blast
  have others: "distinct (map at_AttemptID as)" "map fst (ad_attempts d') = map fst (ad_attempts dm)"
      "ad_leases d' = ad_leases dm" "core (ad_pg d') = core (ad_pg dm)"
    using rest unfolding reconciled_def by blast+
  show ?thesis unfolding reconciled_def
    using row act new rs keys map' logs others ev(1) dm_fields by simp
qed

lemma reconcile_attempts_effect:
  assumes "reconcile_attempts env p m now n as d = Inr (rs, d')" "\<forall>i a. map_of (ad_attempts d) i = Some a \<longrightarrow> at_Version a > 0"
  shows "reconciled now as d rs d'"
  using assms
proof (induction as arbitrary: n d rs)
  case Nil
  then show ?case by (simp add: reconciled_def)
next
  case (Cons b as)
  from Cons.prems(1) obtain a1 d1 d2 rs' where
    up: "update_attempt (db_of env) ''postgres.ReconcileAbandonedAttempts.update''
       (New CodeConflict ''postgres.ReconcileAbandonedAttempts'' (Msg ''attempt changed concurrently'' []))
       [''queued'', ''running''] (at_Version b) (at_AttemptID b) ''failed_retryable'' (finished now) d = Inr (a1, d1)"
    and ev: "appendReconciledAttemptEvent env n a1 p m d1 = Inr d2"
    and rec: "reconcile_attempts env p m now (n + 1) as d2 = Inr (rs', d')" and rs: "rs = a1 # rs'"
    by auto
  from up obtain a where a: "map_of (ad_attempts d) (at_AttemptID b) = Some a" "at_Status a \<in> set [''queued'', ''running'']"
      "at_Version a = at_Version b" "a1 = ended_of ''failed_retryable'' now a"
      "d1 = d\<lparr>ad_attempts := AList.update (at_AttemptID b) a1 (ad_attempts d)\<rparr>"
    unfolding ended_of_def by (rule update_attempt_Inr) blast
  have "at_Version a > 0" using a(1) Cons.prems(2) by blast
  then have "at_Version a1 \<noteq> 1" using a(4) by simp
  from append_attempt_payload_Inr [OF ev [unfolded appendReconciledAttemptEvent_def] this] obtain pg where
    pg: "d2 = d1\<lparr>ad_pg := pg\<rparr>" "logs_attempt (ad_pg d1) a1 pg" by blast
  have "\<forall>i c. map_of (ad_attempts d2) i = Some c \<longrightarrow> at_Version c > 0"
    using Cons.prems(2) a pg \<open>at_Version a > 0\<close> by (auto simp: update_conv' split: if_splits)
  from Cons.IH [OF rec this] have "reconciled now as d2 rs' d'" .
  moreover have "at_Status a \<in> {''queued'', ''running''}" using a(2) by simp
  ultimately show ?case unfolding rs a(4)
    by (intro reconciled_Cons [where dm = d2 and pg = pg]) (use a pg in simp_all)
qed

section \<open>What the operations write\<close>

text \<open>
  One attempt changes: it is started or finished while its own fence is live, or reconciled
  while it is not, at a reading of the clock between \<open>t\<close> and \<open>t'\<close>.
\<close>

inductive attempt_change :: "LeaseStore \<Rightarrow> pgtime \<Rightarrow> pgtime \<Rightarrow> 'h AttemptDB \<Rightarrow> Attempt \<Rightarrow> Attempt \<Rightarrow> bool" for s t t' d where
  starts: "at_Status a = ''queued'' \<Longrightarrow> t \<le> c \<Longrightarrow> c \<le> t' \<Longrightarrow>
    live_fence (attempt_key s a) (at_WorkerID a) (at_FencingToken a) c d \<Longrightarrow> attempt_change s t t' d a (running_of now a)"
| ends: "at_Status a = ''running'' \<Longrightarrow> st \<in> set terminalAttemptStatuses \<Longrightarrow> t \<le> c \<Longrightarrow> c \<le> t' \<Longrightarrow>
    live_fence (attempt_key s a) (at_WorkerID a) (at_FencingToken a) c d \<Longrightarrow> attempt_change s t t' d a (ended_of st now a)"
| reconciles: "at_Status a \<in> {''queued'', ''running''} \<Longrightarrow> t \<le> c \<Longrightarrow> c \<le> t' \<Longrightarrow>
    \<not> live_fence (attempt_key s a) (at_WorkerID a) (at_FencingToken a) c d \<Longrightarrow>
    attempt_change s t t' d a (ended_of ''failed_retryable'' now a)"

definition by_id :: "Attempt list \<Rightarrow> string \<rightharpoonup> Attempt" where
  "by_id as = map_of (map (\<lambda>a. (at_AttemptID a, a)) as)"

definition rows_moved :: "LeaseStore \<Rightarrow> pgtime \<Rightarrow> pgtime \<Rightarrow> 'h AttemptDB \<Rightarrow> 'h AttemptDB \<Rightarrow> bool" where
  "rows_moved s t t' d d' \<longleftrightarrow> ad_leases d' = ad_leases d \<and> core (ad_pg d') = core (ad_pg d)
     \<and> map fst (ad_attempts d') = map fst (ad_attempts d)
     \<and> (\<exists>as evs. distinct (map at_AttemptID as) \<and> map_of (ad_attempts d') = map_of (ad_attempts d) ++ by_id as
        \<and> (\<forall>a' \<in> set as. \<exists>a. map_of (ad_attempts d) (at_AttemptID a') = Some a \<and> attempt_change s t t' d a a')
        \<and> attempt_log (ad_pg d') = attempt_log (ad_pg d) @ evs \<and> list_all2 event_of evs as)"

definition row_created :: "LeaseStore \<Rightarrow> pgtime \<Rightarrow> pgtime \<Rightarrow> 'h AttemptDB \<Rightarrow> 'h AttemptDB \<Rightarrow> bool" where
  "row_created s t t' d d' \<longleftrightarrow> (\<exists>p a pg c. fresh_attempt s p d a \<and> map_of (pg_runs (ad_pg d)) (at_RunID a) \<noteq> None
     \<and> t \<le> c \<and> c \<le> t' \<and> live_fence (attempt_key s a) (at_WorkerID a) (at_FencingToken a) c d
     \<and> d' = d\<lparr>ad_attempts := AList.update (at_AttemptID a) a (ad_attempts d), ad_pg := pg\<rparr> \<and> logs_attempt (ad_pg d) a pg)"

lemma proof_key_owned:
  assumes "validateAttemptFence p (st_tenantID s) (st_repositoryID s) = None"
    "at_LeaseResourceType a = lk_ResourceType p" "at_LeaseResourceID a = lk_ResourceID p"
  shows "proof_key p = attempt_key s a"
  using assms by (simp add: validateAttemptFence_def attempt_key_def proof_key_def split: if_splits)

lemma owned_fence_live:
  assumes "validateAttemptFence p (st_tenantID s) (st_repositoryID s) = None" "attemptOwnedBy a p"
    "live_fence (proof_key p) (lp_OwnerID p) (lp_FencingToken p) now d"
  shows "live_fence (attempt_key s a) (at_WorkerID a) (at_FencingToken a) now d"
  using assms proof_key_owned [OF assms(1), of a] by (simp add: attemptOwnedBy_def)

lemma CreateAttempt_state:
  assumes "CreateAttempt sha256 env s r st m p d = (res, d')" "env_ok (db_of env) t t'"
  shows "d' = d \<or> row_created s t t' d d'"
proof (cases "d' = d")
  case False
  from assms(1) False have q: "st = ''queued''" "validateAttemptFence p (st_tenantID s) (st_repositoryID s) = None"
    by (auto simp: CreateAttempt_def split: if_splits option.splits)
  from assms(1) False have "\<exists>scope h c a. map_of (pg_runs (ad_pg d)) r \<noteq> None
      \<and> createAttemptTx env s scope h r st m p d = Inr ((Some c, a), d')"
    unfolding CreateAttempt_def Let_def
    by (fastforce simp: begin_command_def lockIdempotency_def enforce_attempt_commit_fence_def
        split: if_splits option.splits dest!: run_tx_state)
  then obtain scope h c a where run: "map_of (pg_runs (ad_pg d)) r \<noteq> None"
    and tx: "createAttemptTx env s scope h r ''queued'' m p d = Inr ((Some c, a), d')" using q(1) by blast
  from createAttemptTx_effect [OF tx] have e: "fresh_attempt s p d a" "at_RunID a = r"
      "live_fence (proof_key p) (lp_OwnerID p) (lp_FencingToken p) (db_clock (db_of env) 4) d"
    and pg: "\<exists>pg. d' = d\<lparr>ad_attempts := AList.update (at_AttemptID a) a (ad_attempts d), ad_pg := pg\<rparr> \<and> logs_attempt (ad_pg d) a pg"
    by blast+
  have "proof_key p = attempt_key s a" "at_WorkerID a = lp_OwnerID p" "at_FencingToken a = lp_FencingToken p"
    using e(1) proof_key_owned [OF q(2)] by (simp_all add: fresh_attempt_def)
  then have "live_fence (attempt_key s a) (at_WorkerID a) (at_FencingToken a) (db_clock (db_of env) 4) d" using e(3) by simp
  then show ?thesis
    unfolding row_created_def using run e(1,2) pg env_okD(1,2) [OF assms(2), of 4] by blast
qed simp

lemma attempt_command_state:
  assumes "attempt_command env s operation scope h i m p work d = (res, d')"
  shows "d' = d \<or> (\<exists>b c a. map_of (ad_attempts d) i = Some b \<and> work b = Inr ((Some c, a), d'))"
proof (cases "d' = d")
  case False
  with assms show ?thesis
    unfolding attempt_command_def Let_def
    by (fastforce simp: begin_command_def lockIdempotency_def lockAttempt_def read_attempt_def
        split: option.splits if_splits dest!: run_tx_state)
qed simp

definition attempts_keyed :: "'h AttemptDB \<Rightarrow> bool" where
  "attempts_keyed d \<longleftrightarrow> distinct (map fst (ad_attempts d))
     \<and> (\<forall>i a. map_of (ad_attempts d) i = Some a \<longrightarrow> at_AttemptID a = i \<and> at_Version a > 0)"

lemma rows_moved_one:
  assumes keyed: "attempts_keyed d" and row: "map_of (ad_attempts d) i = Some b" and ch: "attempt_change s t t' d b a"
    and id: "at_AttemptID a = at_AttemptID b"
    and d': "d' = d\<lparr>ad_attempts := AList.update i a (ad_attempts d), ad_pg := pg\<rparr>" and log: "logs_attempt (ad_pg d) a pg"
  shows "rows_moved s t t' d d'"
proof -
  have i: "at_AttemptID b = i" using keyed row by (simp add: attempts_keyed_def)
  from log obtain ev where ev: "event_of ev a" "core pg = core (ad_pg d)" "attempt_log pg = attempt_log (ad_pg d) @ [ev]"
    by (auto simp: logs_attempt_def)
  have "map_of (ad_attempts d') = map_of (ad_attempts d) ++ by_id [a]"
    using i id by (simp add: d' by_id_def update_conv' map_add_def fun_eq_iff)
  moreover have "map fst (ad_attempts d') = map fst (ad_attempts d)"
    using row by (auto simp: d' update_keys dest: map_of_SomeD intro: rev_image_eqI)
  ultimately show ?thesis
    unfolding rows_moved_def using ev row ch i id d'
    by (intro conjI exI [of _ "[a]"] exI [of _ "[ev]"]) auto
qed

lemma StartAttempt_state:
  assumes "StartAttempt sha256 hexsum env s i v m p d = (res, d')" "env_ok (db_of env) t t'" "attempts_keyed d"
  shows "d' = d \<or> rows_moved s t t' d d'"
proof (cases "d' = d")
  case False
  with assms(1) have p: "validateAttemptFence p (st_tenantID s) (st_repositoryID s) = None"
    by (auto simp: StartAttempt_def validateAttemptLifecycleInput_def split: option.splits if_splits)
  from assms(1) False have "\<exists>scope h b c a. map_of (ad_attempts d) i = Some b
      \<and> startAttemptTx hexsum env scope h i v m p d b = Inr ((Some c, a), d')"
    unfolding StartAttempt_def Let_def by (fastforce split: option.splits dest!: attempt_command_state)
  then obtain scope h b c a where b: "map_of (ad_attempts d) i = Some b"
    and tx: "startAttemptTx hexsum env scope h i v m p d b = Inr ((Some c, a), d')" by blast
  have pos: "at_Version b > 0" using assms(3) b by (simp add: attempts_keyed_def)
  from startAttemptTx_effect [OF tx b pos] obtain now pg where e: "at_Status b = ''queued''" "attemptOwnedBy b p" "a = running_of now b"
      "live_fence (proof_key p) (lp_OwnerID p) (lp_FencingToken p) (db_clock (db_of env) 4) d"
      "d' = d\<lparr>ad_attempts := AList.update i a (ad_attempts d), ad_pg := pg\<rparr>" "logs_attempt (ad_pg d) a pg" by blast
  then have "live_fence (attempt_key s b) (at_WorkerID b) (at_FencingToken b) (db_clock (db_of env) 4) d"
    by (intro owned_fence_live [OF p])
  with e env_okD(1,2) [OF assms(2)] have "attempt_change s t t' d b a" by (auto intro: starts)
  with e show ?thesis by (intro disjI2 rows_moved_one [OF assms(3) b]) simp_all
qed simp

lemma FinishAttempt_state:
  assumes "FinishAttempt sha256 hexsum registry env s i v r m p d = (res, d')" "env_ok (db_of env) t t'" "attempts_keyed d"
  shows "d' = d \<or> rows_moved s t t' d d'"
proof (cases "d' = d")
  case False
  with assms(1) have p: "validateAttemptFence p (st_tenantID s) (st_repositoryID s) = None"
    by (auto simp: FinishAttempt_def validateAttemptLifecycleInput_def split: option.splits if_splits)
  from assms(1) False have "\<exists>scope h b c a r'. map_of (ad_attempts d) i = Some b \<and> validateCompletion hexsum registry i r' = None
      \<and> finishAttemptTx hexsum env scope h i v r' m p d b = Inr ((Some c, a), d')"
    unfolding FinishAttempt_def Let_def by (fastforce split: option.splits dest!: attempt_command_state)
  then obtain scope h b c a r' where b: "map_of (ad_attempts d) i = Some b"
    and st: "validateCompletion hexsum registry i r' = None"
    and tx: "finishAttemptTx hexsum env scope h i v r' m p d b = Inr ((Some c, a), d')" by blast
  have pos: "at_Version b > 0" using assms(3) b by (simp add: attempts_keyed_def)
  from finishAttemptTx_effect [OF tx b pos] obtain now pg where e: "at_Status b = ''running''" "attemptOwnedBy b p"
      "a = ended_of (res_Status r') now b"
      "live_fence (proof_key p) (lp_OwnerID p) (lp_FencingToken p) (db_clock (db_of env) 4) d"
      "d' = d\<lparr>ad_attempts := AList.update i a (ad_attempts d), ad_pg := pg\<rparr>" "logs_attempt (ad_pg d) a pg" by blast
  then have "live_fence (attempt_key s b) (at_WorkerID b) (at_FencingToken b) (db_clock (db_of env) 4) d"
    by (intro owned_fence_live [OF p])
  moreover have "res_Status r' \<in> set terminalAttemptStatuses"
    using st by (auto simp: validateCompletion_def split: sum.splits if_splits option.splits)
  ultimately have "attempt_change s t t' d b a" using e env_okD(1,2) [OF assms(2)] by (auto intro: ends)
  with e show ?thesis by (intro disjI2 rows_moved_one [OF assms(3) b]) simp_all
qed simp

lemma abandoned_attempts_row:
  assumes "b \<in> set (abandoned_attempts env s p d)" "attempts_keyed d"
  shows "map_of (ad_attempts d) (at_AttemptID b) = Some b" "abandoned (db_of env) s p d b"
proof -
  from assms(1) obtain i where "(i, b) \<in> set (ad_attempts d)" and ab: "abandoned (db_of env) s p d b"
    by (auto simp: abandoned_attempts_def)
  then show "map_of (ad_attempts d) (at_AttemptID b) = Some b" using assms(2)
    unfolding attempts_keyed_def by (metis map_of_eq_Some_iff)
  show "abandoned (db_of env) s p d b" by (rule ab)
qed

lemma reconcileAttemptsTx_effect:
  assumes "reconcileAttemptsTx env s scope h m p as d = Inr ((c, rs), d')"
    "\<forall>i a. map_of (ad_attempts d) i = Some a \<longrightarrow> at_Version a > 0"
  obtains "reconciled (postgresTimestamp (pg_now env 0)) as d rs d'"
proof -
  from assms(1) obtain d1 pg where rec: "reconcile_attempts env p m (postgresTimestamp (pg_now env 0)) 0 as d = Inr (rs, d1)"
    and sv: "saveReplay (db_of env) ''postgres.saveAttemptReconciliationReplay'' ''encode response'' scope (IdempotencyKey m) h 200
       (marshal_ReconciliationReplay (newAttemptReconciliationReplay (st_tenantID s) (st_repositoryID s) m p (Some rs))) (ad_pg d1) = Inr pg"
    and d': "d' = d1\<lparr>ad_pg := pg\<rparr>"
    by (auto simp: reconcileAttemptsTx_def saveAttemptReconciliationReplay_def)
  from reconcile_attempts_effect [OF rec assms(2)] saveReplay_attempt_log [OF sv] d'
  have "reconciled (postgresTimestamp (pg_now env 0)) as d rs d'" by (auto simp: reconciled_def)
  then show ?thesis by (rule that)
qed

lemma by_id_ended:
  assumes "distinct (map at_AttemptID as)" "\<And>b. b \<in> set as \<Longrightarrow> m (at_AttemptID b) = Some b" "\<And>b. at_AttemptID (f b) = at_AttemptID b"
  shows "m ++ by_id (map f as) = (\<lambda>i. if i \<in> at_AttemptID ` set as then map_option f (m i) else m i)"
proof
  fix i
  show "(m ++ by_id (map f as)) i = (if i \<in> at_AttemptID ` set as then map_option f (m i) else m i)"
  proof (cases "i \<in> at_AttemptID ` set as")
    case True
    then obtain b where b: "b \<in> set as" "i = at_AttemptID b" by auto
    have "distinct (map fst (map (\<lambda>a. (at_AttemptID a, a)) (map f as)))" using assms(1) by (simp add: comp_def assms(3))
    moreover have "(i, f b) \<in> set (map (\<lambda>a. (at_AttemptID a, a)) (map f as))" using b assms(3) by (auto intro!: image_eqI)
    ultimately have "by_id (map f as) i = Some (f b)" unfolding by_id_def by (rule map_of_is_SomeI)
    with True b assms(2) show ?thesis by (simp add: map_add_def)
  next
    case False
    then have "by_id (map f as) i = None" using assms(3) by (auto simp: by_id_def map_of_eq_None_iff image_iff)
    with False show ?thesis by (simp add: map_add_def)
  qed
qed

lemma run_tx_result:
  assumes "run_tx env work db = (res, db')"
  shows "db' = db \<or> (\<exists>c r. work = Inr ((Some c, r), db') \<and> (isl res \<or> res = Inr r))"
  using assms by (auto simp: run_tx_def db_commit_def split: sum.splits option.splits if_splits)

lemma ReconcileAbandonedAttempts_work:
  assumes "ReconcileAbandonedAttempts sha256 env s m p d = (res, d')" "d' \<noteq> d" "attempts_keyed d"
  shows "\<exists>rs. reconciled (postgresTimestamp (pg_now env 0)) (abandoned_attempts env s p d) d rs d' \<and> (isl res \<or> res = Inr rs)"
proof -
  have "\<exists>scope h c rs. reconcileAttemptsTx env s scope h m p (abandoned_attempts env s p d) d = Inr ((Some c, rs), d')
      \<and> (isl res \<or> res = Inr rs)"
    using assms(1,2) unfolding ReconcileAbandonedAttempts_def Let_def
    by (fastforce simp: begin_command_def lockIdempotency_def split: option.splits dest!: run_tx_result)
  then show ?thesis using assms(3) unfolding attempts_keyed_def by (blast elim: reconcileAttemptsTx_effect)
qed

lemma ReconcileAbandonedAttempts_state:
  assumes "ReconcileAbandonedAttempts sha256 env s m p d = (res, d')" "env_ok (db_of env) t t'" "attempts_keyed d"
  shows "d' = d \<or> rows_moved s t t' d d'"
proof (cases "d' = d")
  case False
  let ?as = "abandoned_attempts env s p d"
  let ?e = "ended_of ''failed_retryable'' (postgresTimestamp (pg_now env 0))"
  from ReconcileAbandonedAttempts_work [OF assms(1) False assms(3)] obtain rs where
    r: "reconciled (postgresTimestamp (pg_now env 0)) ?as d rs d'" by blast
  note row = abandoned_attempts_row [OF _ assms(3)]
  have rs: "rs = map ?e ?as"
    using r row(1) unfolding reconciled_def by simp
  have dist: "distinct (map at_AttemptID ?as)" using r by (simp add: reconciled_def)
  have "attempt_change s t t' d b (?e b)" if "b \<in> set ?as" for b
    using row(2) [OF that] env_okD(3,4) [OF assms(2)]
    by (intro reconciles [where c = "db_row_clock (db_of env) 0 [at_AttemptID b]"]) (auto simp: abandoned_def)
  then have ch: "\<forall>a' \<in> set rs. \<exists>a. map_of (ad_attempts d) (at_AttemptID a') = Some a \<and> attempt_change s t t' d a a'"
    using row(1) unfolding rs by auto
  have "map_of (ad_attempts d) ++ by_id rs = map_of (ad_attempts d')"
    unfolding rs by (subst by_id_ended [OF dist row(1)]) (use r in \<open>auto simp: reconciled_def fun_eq_iff\<close>)
  moreover have "distinct (map at_AttemptID rs)" using dist by (simp add: rs comp_def)
  moreover obtain evs where "attempt_log (ad_pg d') = attempt_log (ad_pg d) @ evs" "list_all2 event_of evs rs"
    using r unfolding reconciled_def by blast
  moreover have "ad_leases d' = ad_leases d" "core (ad_pg d') = core (ad_pg d)" "map fst (ad_attempts d') = map fst (ad_attempts d)"
    using r unfolding reconciled_def by blast+
  ultimately show ?thesis using ch unfolding rows_moved_def by auto
qed simp

end
