(* ===== verification/ReceiptSafety.thy ===== *)
theory ReceiptSafety
  imports AttemptEffects PgSafety
begin

text \<open>
  The receipts of the idempotency table are written once: no command, no operation of a queue
  and no operation on attempts removes or replaces one. Only \<open>saveReplay\<close> writes the table,
  and its insert is refused by the primary key where the key exists.
\<close>

section \<open>Receipts of the control plane\<close>

definition keeps_receipts :: "'h PgDB \<Rightarrow> 'h PgDB \<Rightarrow> bool" where
  "keeps_receipts db db' \<longleftrightarrow> map_of (pg_idempotency db) \<subseteq>\<^sub>m map_of (pg_idempotency db')"

lemma keeps_receipts_refl [simp]: "keeps_receipts db db"
  by (simp add: keeps_receipts_def)

lemma keeps_receipts_trans: "keeps_receipts a b \<Longrightarrow> keeps_receipts b c \<Longrightarrow> keeps_receipts a c"
  unfolding keeps_receipts_def by (rule map_le_trans)

lemma keeps_receiptsD:
  "keeps_receipts db db' \<Longrightarrow> map_of (pg_idempotency db) k = Some r \<Longrightarrow> map_of (pg_idempotency db') k = Some r"
  unfolding keeps_receipts_def map_le_def by (metis domI)

lemma keeps_receipts_same: "pg_idempotency db' = pg_idempotency db \<Longrightarrow> keeps_receipts db db'"
  by (simp add: keeps_receipts_def)

lemma appendEvent_receipts:
  "appendEvent env n ty i v et t payload m db = Inr db' \<Longrightarrow> pg_idempotency db' = pg_idempotency db"
  by (auto simp: appendEvent_def insert_event_def fanout_projection_delivery_def db_exec_Inr db_call_Inr Let_def
      split: sum.splits)

lemma append_receipts:
  "appendRunEvent env n et r m db = Inr db' \<Longrightarrow> pg_idempotency db' = pg_idempotency db"
  "appendControlEvent env n ty i v et t payload m db = Inr db' \<Longrightarrow> pg_idempotency db' = pg_idempotency db"
  "appendToolAudit env n rec m db = Inr db' \<Longrightarrow> pg_idempotency db' = pg_idempotency db"
  "appendSuccessToolAudit env n m scope t replay db = Inr db' \<Longrightarrow> pg_idempotency db' = pg_idempotency db"
  by (auto simp: appendRunEvent_def appendControlEvent_def appendToolAudit_def appendSuccessToolAudit_def Let_def reject_Inr
      split: option.splits sum.splits if_splits dest: appendEvent_receipts)

lemma write_receipts:
  "insert_run e op i row db = Inr db' \<Longrightarrow> pg_idempotency db' = pg_idempotency db"
  "update_run e op stale run v db = Inr db' \<Longrightarrow> pg_idempotency db' = pg_idempotency db"
  "insert_sprint e op i srow db = Inr db' \<Longrightarrow> pg_idempotency db' = pg_idempotency db"
  "update_sprint e op stale i st n t v db = Inr db' \<Longrightarrow> pg_idempotency db' = pg_idempotency db"
  "insert_decision e op i drow db = Inr db' \<Longrightarrow> pg_idempotency db' = pg_idempotency db"
  "update_decision e op stale dec v db = Inr db' \<Longrightarrow> pg_idempotency db' = pg_idempotency db"
  by (auto simp: insert_run_def update_run_def insert_sprint_def update_sprint_def insert_decision_def update_decision_def
      db_exec_Inr db_call_Inr Let_def split: option.splits if_splits)

lemma cancelSprint_receipts:
  "cancelSprint env cancelling t m db = Inr db' \<Longrightarrow> pg_idempotency db' = pg_idempotency db"
  by (auto simp: cancelSprint_def Let_def split: option.splits if_splits dest!: append_receipts write_receipts)

lemma saveReplay_receipts:
  "saveReplay e operation failure scope key h status response db = Inr db' \<Longrightarrow> keeps_receipts db db'"
  by (auto simp: saveReplay_def keeps_receipts_def map_le_def update_conv' split: option.splits if_splits)

lemma command_receipts:
  "pg_createRunTx env scope h i obj m db = Inr ((c, r), db') \<Longrightarrow> keeps_receipts db db'"
  "pg_transitionRunTx env scope h i v target m db = Inr ((c, r), db') \<Longrightarrow> keeps_receipts db db'"
  "pg_resumeRunTx env scope h i v m db = Inr ((c, r), db') \<Longrightarrow> keeps_receipts db db'"
  "pg_planSprintTx env scope h pc m db = Inr ((c, rp), db') \<Longrightarrow> keeps_receipts db db'"
  by (auto simp: pg_createRunTx_def pg_transitionRunTx_def pg_resumeRunTx_def pg_planSprintTx_def
      requireRunPublicationTransition_def uuid_cast_def saveRunReplay_def saveControlReplay_def Let_def db_exec_Inr db_call_Inr
      split: option.splits dest!: append_receipts write_receipts cancelSprint_receipts saveReplay_receipts
      simp: keeps_receipts_def)

lemma write_command_receipts:
  "write_submission env scope h sc m sp dec run v db = Inr ((c, rs), db') \<Longrightarrow> keeps_receipts db db'"
  "write_resolution env scope h dc m uuid sp dec run v db = Inr ((c, rd), db') \<Longrightarrow> keeps_receipts db db'"
  by (auto simp: write_submission_def write_resolution_def saveControlReplay_def Let_def db_exec_Inr db_call_Inr
      split: if_splits dest!: append_receipts write_receipts saveReplay_receipts simp: keeps_receipts_def)

lemma decision_command_receipts:
  "pg_submitSprintTx env scope h sc m db = Inr ((c, rs), db') \<Longrightarrow> keeps_receipts db db'"
  "pg_resolveDecisionTx env scope h dc m db = Inr ((c, rd), db') \<Longrightarrow> keeps_receipts db db'"
  by (auto simp: pg_submitSprintTx_def pg_resolveDecisionTx_def uuid_cast_def Let_def db_exec_Inr db_call_Inr
      split: option.splits sum.splits if_splits dest!: write_command_receipts)

lemma audited_replay_receipts: "audited_replay env operation m scope db r = Inr ((c, r'), db') \<Longrightarrow> keeps_receipts db db'"
  by (auto simp: audited_replay_def intro!: keeps_receipts_same dest!: append_receipts)

lemma governed_command_receipts:
  assumes "run_tx env (pg_command e operation lookup (audited_replay env operation m scope db) work) db = (res, db')"
    "\<And>c r. work = Inr ((c, r), db') \<Longrightarrow> keeps_receipts db db'"
  shows "keeps_receipts db db'"
  using run_tx_state [OF assms(1)] assms(2) audited_replay_receipts by (auto simp: pg_command_Inr)

lemma pg_command_receipts:
  "Pg_CreateRun sha256 env s i obj m db = (r, db') \<Longrightarrow> keeps_receipts db db'"
  "Pg_TransitionRun sha256 env s i v target m db = (r, db') \<Longrightarrow> keeps_receipts db db'"
  "Pg_ResumeRun sha256 env s i v m db = (r, db') \<Longrightarrow> keeps_receipts db db'"
  "Pg_PlanSprint sha256 env s pc m db = (rp, db') \<Longrightarrow> keeps_receipts db db'"
  "Pg_SubmitSprint sha256 env s sc m db = (rs, db') \<Longrightarrow> keeps_receipts db db'"
  "Pg_ResolveDecision sha256 env s dc m db = (rd, db') \<Longrightarrow> keeps_receipts db db'"
  "Pg_RecordToolAudit env rec db = (u, db') \<Longrightarrow> keeps_receipts db db'"
proof -
  show "Pg_CreateRun sha256 env s i obj m db = (r, db') \<Longrightarrow> keeps_receipts db db'"
    by (drule Pg_CreateRun_state) (elim disjE exE, simp, rule command_receipts(1))
  show "Pg_TransitionRun sha256 env s i v target m db = (r, db') \<Longrightarrow> keeps_receipts db db'"
    unfolding Pg_TransitionRun_def Let_def
    by (split if_split_asm option.split_asm; (simp; fail)?)+ (erule governed_command_receipts, rule command_receipts(2))
  show "Pg_ResumeRun sha256 env s i v m db = (r, db') \<Longrightarrow> keeps_receipts db db'"
    unfolding Pg_ResumeRun_def Let_def
    by (split if_split_asm option.split_asm; (simp; fail)?)+ (erule governed_command_receipts, rule command_receipts(3))
  show "Pg_PlanSprint sha256 env s pc m db = (rp, db') \<Longrightarrow> keeps_receipts db db'"
    unfolding Pg_PlanSprint_def Let_def
    by (split option.split_asm; (simp; fail)?) (erule governed_command_receipts, rule command_receipts(4))
  show "Pg_SubmitSprint sha256 env s sc m db = (rs, db') \<Longrightarrow> keeps_receipts db db'"
    unfolding Pg_SubmitSprint_def Let_def
    by (split option.split_asm; (simp; fail)?) (erule governed_command_receipts, rule decision_command_receipts(1))
  show "Pg_ResolveDecision sha256 env s dc m db = (rd, db') \<Longrightarrow> keeps_receipts db db'"
    unfolding Pg_ResolveDecision_def Let_def
    by (split option.split_asm; (simp; fail)?) (erule governed_command_receipts, rule decision_command_receipts(2))
  show "Pg_RecordToolAudit env rec db = (u, db') \<Longrightarrow> keeps_receipts db db'"
    by (auto simp: Pg_RecordToolAudit_def Let_def split: option.splits dest!: run_tx_state append_receipts(3) intro: keeps_receipts_same)
qed

lemmas table_frames = update_deliveries_def backfill_deliveries_def consumer_added_def checkpoint_added_def

lemma pg_step_receipts:
  assumes "pg_step sha256 s db db'"
  shows "keeps_receipts db db'"
  using assms
proof cases
  case step_RebuildRunProjection
  from rebuild_state [OF this] show ?thesis by (auto intro: keeps_receipts_same)
next
  case step_ClaimOutbox
  from ClaimOutbox_state [OF this] show ?thesis by (auto intro: keeps_receipts_same)
next
  case step_CompleteOutbox
  from CompleteOutbox_state [OF this] show ?thesis by (auto intro: keeps_receipts_same)
next
  case step_FailOutbox
  from FailOutbox_state [OF this] show ?thesis by (auto intro: keeps_receipts_same)
next
  case step_EnsureProjectionConsumer
  from EnsureProjectionConsumer_state [OF this] show ?thesis by (auto simp: table_frames intro: keeps_receipts_same)
next
  case step_ClaimProjectionDeliveries
  from ClaimProjectionDeliveries_state [OF this] show ?thesis by (auto simp: table_frames intro: keeps_receipts_same)
next
  case step_CompleteProjectionDelivery
  from CompleteProjectionDelivery_state [OF this] show ?thesis by (auto simp: table_frames intro: keeps_receipts_same)
next
  case step_FailProjectionDelivery
  from FailProjectionDelivery_state [OF this] show ?thesis by (auto simp: table_frames intro: keeps_receipts_same)
next
  case step_RequeueProjectionDelivery
  from RequeueProjectionDelivery_state [OF this] show ?thesis by (auto simp: table_frames intro: keeps_receipts_same)
next
  case step_ResetRetrievalProjection
  from ResetRetrievalProjection_state [OF this] show ?thesis by (auto simp: table_frames intro!: keeps_receipts_same)
next
  case step_other_event
  then show ?thesis by (blast intro: keeps_receipts_same appendEvent_receipts)
next
  case step_other_table
  then show ?thesis by (simp add: keeps_receipts_same)
qed (blast dest: pg_command_receipts)+

section \<open>Receipts of attempts\<close>

lemma append_attempt_receipts:
  "append_attempt_payload env n operation failure et a extra m d = Inr d' \<Longrightarrow> pg_idempotency (ad_pg d') = pg_idempotency (ad_pg d)"
  by (auto simp: append_attempt_payload_def with_pg_def split: option.splits dest!: appendEvent_receipts)

lemma update_attempt_receipts:
  "update_attempt e op stale sts v i st f d = Inr (a, d') \<Longrightarrow> ad_pg d' = ad_pg d"
  by (auto simp: update_attempt_def db_exec_Inr Let_def split: option.splits if_splits)

lemma attemptTx_receipts:
  "createAttemptTx env s scope h r st m p d = Inr ((c, a), d') \<Longrightarrow> keeps_receipts (ad_pg d) (ad_pg d')"
  "startAttemptTx hexsum env scope h i v m p d b = Inr ((c, a), d') \<Longrightarrow> keeps_receipts (ad_pg d) (ad_pg d')"
  "finishAttemptTx hexsum env scope h i v wr m p d b = Inr ((c, a), d') \<Longrightarrow> keeps_receipts (ad_pg d) (ad_pg d')"
  by (auto simp: createAttemptTx_def insert_attempt_def startAttemptTx_def finishAttemptTx_def appendAttemptEvent_def
      saveAttemptReplay_def saveCreatedAttemptReplay_def with_pg_def Let_def db_exec_Inr
      split: option.splits sum.splits if_splits
      dest!: appendEvent_receipts append_attempt_receipts update_attempt_receipts saveReplay_receipts simp: keeps_receipts_def)

lemma reconcile_attempts_receipts:
  "reconcile_attempts env p m now n as d = Inr (rs, d') \<Longrightarrow> pg_idempotency (ad_pg d') = pg_idempotency (ad_pg d)"
  by (induction as arbitrary: n d rs)
    (auto simp: appendReconciledAttemptEvent_def dest!: append_attempt_receipts update_attempt_receipts)

lemma reconcileAttemptsTx_receipts:
  "reconcileAttemptsTx env s scope h m p as d = Inr ((c, rs), d') \<Longrightarrow> keeps_receipts (ad_pg d) (ad_pg d')"
  by (auto simp: reconcileAttemptsTx_def saveAttemptReconciliationReplay_def with_pg_def
      dest!: reconcile_attempts_receipts saveReplay_receipts simp: keeps_receipts_def)

lemma attempt_operation_receipts:
  "CreateAttempt sha256 env s r st m p d = (res, d') \<Longrightarrow> keeps_receipts (ad_pg d) (ad_pg d')"
  "StartAttempt sha256 hexsum env s i v m p d = (res, d') \<Longrightarrow> keeps_receipts (ad_pg d) (ad_pg d')"
  "FinishAttempt sha256 hexsum registry env s i v wr m p d = (res, d') \<Longrightarrow> keeps_receipts (ad_pg d) (ad_pg d')"
  "ReconcileAbandonedAttempts sha256 env s m p d = (ress, d') \<Longrightarrow> keeps_receipts (ad_pg d) (ad_pg d')"
  subgoal
    by (fastforce simp: CreateAttempt_def Let_def begin_command_def lockIdempotency_def enforce_attempt_commit_fence_def
        split: if_splits option.splits dest!: run_tx_state attemptTx_receipts(1))
  subgoal
    by (auto simp: StartAttempt_def Let_def split: option.splits dest!: attempt_command_state attemptTx_receipts(2))
  subgoal
    by (auto simp: FinishAttempt_def Let_def split: option.splits dest!: attempt_command_state attemptTx_receipts(3))
  subgoal
    by (fastforce simp: ReconcileAbandonedAttempts_def Let_def begin_command_def lockIdempotency_def
        split: option.splits dest!: run_tx_state reconcileAttemptsTx_receipts)
  done

end
