(* ===== verification/AttemptSafety.thy ===== *)
theory AttemptSafety
  imports ReceiptSafety
begin

text \<open>
  The attempts over whole histories: any calls of the attempt repository, any operations on
  leases and any commands of the control plane, in any order and with any outcome of the
  database.
\<close>

section \<open>Histories\<close>

text \<open>
  Any calls by any schedulers, with the operations on leases and the commands of the control
  plane in between, which append no events of attempts.
\<close>

inductive attempt_step :: "(string \<Rightarrow> 'h) \<Rightarrow> (string \<Rightarrow> string) \<Rightarrow> Registry result \<Rightarrow> LeaseStore
    \<Rightarrow> 'h AttemptDB \<times> pgtime \<Rightarrow> 'h AttemptDB \<times> pgtime \<Rightarrow> bool" for sha256 hexsum registry s where
  step_CreateAttempt: "env_ok (db_of env) t t' \<Longrightarrow> CreateAttempt sha256 env s r st m p d = (res, d')
    \<Longrightarrow> attempt_step sha256 hexsum registry s (d, t) (d', t')"
| step_StartAttempt: "env_ok (db_of env) t t' \<Longrightarrow> StartAttempt sha256 hexsum env s i v m p d = (res, d')
    \<Longrightarrow> attempt_step sha256 hexsum registry s (d, t) (d', t')"
| step_FinishAttempt: "env_ok (db_of env) t t' \<Longrightarrow> FinishAttempt sha256 hexsum registry env s i v wr m p d = (res, d')
    \<Longrightarrow> attempt_step sha256 hexsum registry s (d, t) (d', t')"
| step_ReconcileAbandonedAttempts: "env_ok (db_of env) t t' \<Longrightarrow> ReconcileAbandonedAttempts sha256 env s m p d = (ress, d')
    \<Longrightarrow> attempt_step sha256 hexsum registry s (d, t) (d', t')"
| step_leases: "lease_step sha256 (ad_leases d, t) (l, t') \<Longrightarrow> attempt_step sha256 hexsum registry s (d, t) (d\<lparr>ad_leases := l\<rparr>, t')"
| step_control: "pg_step sha256 s (ad_pg d) pg \<Longrightarrow> attempt_log pg = attempt_log (ad_pg d)
    \<Longrightarrow> t \<le> t' \<Longrightarrow> attempt_step sha256 hexsum registry s (d, t) (d\<lparr>ad_pg := pg\<rparr>, t')"

lemma attempt_step_effect [consumes 2, case_names same leases control created moved]:
  assumes "attempt_step sha256 hexsum registry s (d, t) (d', t')" "attempts_keyed d"
  obtains "d' = d" | l where "lease_step sha256 (ad_leases d, t) (l, t')" "d' = d\<lparr>ad_leases := l\<rparr>"
  | pg where "pg_step sha256 s (ad_pg d) pg" "attempt_log pg = attempt_log (ad_pg d)" "d' = d\<lparr>ad_pg := pg\<rparr>"
  | "row_created s t t' d d'" | "rows_moved s t t' d d'"
  using assms(1)
proof cases
  case (step_CreateAttempt env r st m p res)
  with CreateAttempt_state show ?thesis using that(1,4) by blast
next
  case (step_StartAttempt env i v m p res)
  with StartAttempt_state [OF _ _ assms(2)] show ?thesis using that(1,5) by blast
next
  case (step_FinishAttempt env i v wr m p res)
  with FinishAttempt_state [OF _ _ assms(2)] show ?thesis using that(1,5) by blast
next
  case (step_ReconcileAbandonedAttempts env m p ress)
  with ReconcileAbandonedAttempts_state [OF _ _ assms(2)] show ?thesis using that(1,5) by blast
qed (use that in blast)+

lemma attempt_step_receipts:
  assumes "attempt_step sha256 hexsum registry s (d, t) (d', t')"
  shows "keeps_receipts (ad_pg d) (ad_pg d')"
  using assms
proof cases
  case (step_control pg)
  then show ?thesis using pg_step_receipts by fastforce
qed (auto dest: attempt_operation_receipts)

lemma attempt_steps_receipts:
  assumes "(attempt_step sha256 hexsum registry s)\<^sup>*\<^sup>* (d, t) (d', t')"
  shows "keeps_receipts (ad_pg d) (ad_pg d')"
  using assms
  by (induction rule: rtranclp_induct2) (auto intro: keeps_receipts_trans attempt_step_receipts)

section \<open>The invariant\<close>

lemma pg_step_runs_kept:
  assumes "pg_step sha256 s db db'" "map_of (pg_runs db) i \<noteq> None"
  shows "map_of (pg_runs db') i \<noteq> None"
proof -
  have upd: "map_of (pg_runs db') i \<noteq> None" if "pg_runs db' = AList.update j row (pg_runs db)" for j row
    using assms(2) that by (simp add: update_conv')
  show ?thesis using assms(1)
  proof (cases rule: pg_step_governed)
    case untouched
    then show ?thesis using assms(2) by (simp add: untouched_def core_def)
  next
    case (create env scope h j obj m c r)
    from createRun_effect [OF create(2)] show ?thesis unfolding core_eqs by (elim exE conjE) (rule upd)
  next
    case (transition env scope h j v target m c r)
    from transitionRun_effect [OF transition(2)] obtain row cancelling a where
      "cancelSprint env cancelling (run_updated_at r) m (db\<lparr>pg_runs := AList.update j (moved_row row r) (pg_runs db)\<rparr>) = Inr a"
      "core db' = core a" by blast
    then have "pg_runs db' = AList.update j (moved_row row r) (pg_runs db)"
      using cancelSprint_Inr by (fastforce simp: core_def)
    then show ?thesis by (rule upd)
  next
    case (resume env scope h j v m c r)
    from resumeRun_effect [OF resume(2)] show ?thesis unfolding core_eqs by (elim exE conjE) (rule upd)
  next
    case (plan env scope h command m c r)
    from planSprint_effect [OF plan(2)] show ?thesis unfolding core_eqs by (elim exE conjE) (rule upd)
  next
    case (submit env scope h command m c r)
    from submitSprint_effect [OF submit(2)] show ?thesis unfolding core_eqs by (elim exE conjE) (rule upd)
  next
    case (resolve env scope h command m c r)
    from resolveDecision_effect [OF resolve(2)] show ?thesis unfolding core_eqs by (elim exE conjE) (rule upd)
  qed
qed

text \<open>The states of an attempt.\<close>

definition attempt_state_ok :: "Attempt \<Rightarrow> bool" where
  "attempt_state_ok a \<longleftrightarrow>
     at_Status a = ''queued'' \<and> at_Version a = 1 \<and> at_StartedAt a = None \<and> at_FinishedAt a = None
   \<or> at_Status a = ''running'' \<and> at_Version a = 2 \<and> at_StartedAt a \<noteq> None \<and> at_FinishedAt a = None
   \<or> at_Status a \<in> set terminalAttemptStatuses \<and> at_FinishedAt a \<noteq> None
     \<and> (if at_StartedAt a = None then at_Version a = 2 \<and> at_Status a = ''failed_retryable'' else at_Version a = 3)"

lemma terminal_iff: "st \<in> set terminalAttemptStatuses \<longleftrightarrow>
    st \<in> {''succeeded'', ''blocked'', ''failed_retryable'', ''failed_terminal'', ''cancelled''}"
  by (auto simp: terminalAttemptStatuses_def)

lemma attempt_change_state_ok: "attempt_change s t t' d a a' \<Longrightarrow> attempt_state_ok a \<Longrightarrow> attempt_state_ok a'"
  by (induction rule: attempt_change.induct) (auto simp: attempt_state_ok_def terminal_iff)

definition same_attempt :: "Attempt \<Rightarrow> Attempt \<Rightarrow> bool" where
  "same_attempt a a' \<longleftrightarrow> at_AttemptID a' = at_AttemptID a \<and> at_RunID a' = at_RunID a \<and> at_Ordinal a' = at_Ordinal a
     \<and> at_LeaseResourceType a' = at_LeaseResourceType a \<and> at_LeaseResourceID a' = at_LeaseResourceID a
     \<and> at_WorkerID a' = at_WorkerID a \<and> at_FencingToken a' = at_FencingToken a \<and> at_CreatedAt a' = at_CreatedAt a"

lemma same_attempt_refl: "same_attempt a a"
  by (simp add: same_attempt_def)

lemma attempt_change_same: "attempt_change s t t' d a a' \<Longrightarrow> same_attempt a a' \<and> at_Version a' = at_Version a + 1"
  by (induction rule: attempt_change.induct) (auto simp: same_attempt_def)

lemma rows_moved_row:
  assumes "rows_moved s t t' d d'" "map_of (ad_attempts d) i = Some a" "attempts_keyed d"
  obtains a' where "map_of (ad_attempts d') i = Some a'" "a' = a \<or> attempt_change s t t' d a a'"
proof -
  from assms(1) obtain as where as: "map_of (ad_attempts d') = map_of (ad_attempts d) ++ by_id as"
    "\<forall>a' \<in> set as. \<exists>a. map_of (ad_attempts d) (at_AttemptID a') = Some a \<and> attempt_change s t t' d a a'"
    unfolding rows_moved_def by blast
  show ?thesis
  proof (cases "by_id as i")
    case None
    then show ?thesis using that as(1) assms(2) by (simp add: map_add_def)
  next
    case (Some a')
    then have "a' \<in> set as" "at_AttemptID a' = i" by (auto simp: by_id_def dest!: map_of_SomeD)
    with as(2) assms(2) have "attempt_change s t t' d a a'" by force
    with Some show ?thesis using that as(1) by (simp add: map_add_def)
  qed
qed

lemma rows_moved_None:
  assumes "rows_moved s t t' d d'" "map_of (ad_attempts d) i = None"
  shows "map_of (ad_attempts d') i = None"
  using assms unfolding rows_moved_def by (metis map_of_eq_None_iff set_map)

text \<open>A table whose keys stay where they are, each with the attempt of the same run and ordinal.\<close>

lemma table_by_keys:
  assumes "distinct (map fst t)"
  shows "map f t = map (\<lambda>k. f (k, the (map_of t k))) (map fst t)"
proof -
  have "f x = f (fst x, the (map_of t (fst x)))" if "x \<in> set t" for x
    using map_of_is_SomeI [OF assms, of "fst x" "snd x"] that by simp
  then show ?thesis by simp
qed

lemma rows_moved_places:
  assumes "rows_moved s t t' d d'" "attempts_keyed d"
  shows "map (\<lambda>(i, a). (at_RunID a, at_Ordinal a)) (ad_attempts d') = map (\<lambda>(i, a). (at_RunID a, at_Ordinal a)) (ad_attempts d)"
    (is "map ?f _ = _")
proof -
  have keys: "map fst (ad_attempts d') = map fst (ad_attempts d)" using assms(1) by (simp add: rows_moved_def)
  have dist: "distinct (map fst (ad_attempts d))" using assms(2) by (simp add: attempts_keyed_def)
  have at_key: "?f (k, the (map_of (ad_attempts d') k)) = ?f (k, the (map_of (ad_attempts d) k))"
    if k: "k \<in> set (map fst (ad_attempts d))" for k
  proof -
    from k obtain a where a: "map_of (ad_attempts d) k = Some a"
      by (cases "map_of (ad_attempts d) k") (auto simp: map_of_eq_None_iff)
    from rows_moved_row [OF assms(1) this assms(2)] obtain a' where
      a': "map_of (ad_attempts d') k = Some a'" "a' = a \<or> attempt_change s t t' d a a'" by blast
    then have "same_attempt a a'" using attempt_change_same same_attempt_refl by blast
    then show ?thesis using a a'(1) by (simp add: same_attempt_def)
  qed
  have "map ?f (ad_attempts d') = map (\<lambda>k. ?f (k, the (map_of (ad_attempts d') k))) (map fst (ad_attempts d))"
    using table_by_keys [of "ad_attempts d'" ?f] dist keys by simp
  also have "\<dots> = map (\<lambda>k. ?f (k, the (map_of (ad_attempts d) k))) (map fst (ad_attempts d))"
    by (rule map_cong [OF refl]) (rule at_key)
  also have "\<dots> = map ?f (ad_attempts d)" using table_by_keys [OF dist, of ?f] by simp
  finally show ?thesis .
qed

definition run_ordinals :: "(string \<times> Attempt) list \<Rightarrow> string \<Rightarrow> int list" where
  "run_ordinals tab r = map snd (filter (\<lambda>(q, n). q = r) (map (\<lambda>(i, a). (at_RunID a, at_Ordinal a)) tab))"

definition ordinals_ok :: "'h AttemptDB \<Rightarrow> bool" where
  "ordinals_ok d \<longleftrightarrow> (\<forall>r. run_ordinals (ad_attempts d) r = [1..int (length (run_ordinals (ad_attempts d) r))])"

definition log_of :: "'h AttemptDB \<Rightarrow> string \<Rightarrow> EventRow list" where
  "log_of d i = filter (\<lambda>ev. ev_aggregate_id ev = i) (attempt_log (ad_pg d))"

definition logged_row :: "Attempt option \<Rightarrow> EventRow list \<Rightarrow> bool" where
  "logged_row row log \<longleftrightarrow> (case row of None \<Rightarrow> log = []
     | Some a \<Rightarrow> map ev_aggregate_version log = [1..at_Version a] \<and> event_of (last log) a)"

definition attempt_logged :: "'h AttemptDB \<Rightarrow> bool" where
  "attempt_logged d \<longleftrightarrow> (\<forall>i. logged_row (map_of (ad_attempts d) i) (log_of d i))"

definition attempts_inv :: "'h AttemptDB \<times> pgtime \<Rightarrow> bool" where
  "attempts_inv st \<longleftrightarrow> attempts_keyed (fst st) \<and> ordinals_ok (fst st) \<and> attempt_logged (fst st)
     \<and> (\<forall>i a. map_of (ad_attempts (fst st)) i = Some a \<longrightarrow> attempt_state_ok a
          \<and> map_of (pg_runs (ad_pg (fst st))) (at_RunID a) \<noteq> None)"

lemma next_ordinal_alt: "next_ordinal r tab = foldr max (run_ordinals tab r) 0 + 1"
  unfolding next_ordinal_def run_ordinals_def by (induction tab) auto

lemma foldr_max_upto: "foldr max [1..int n] 0 = int n"
proof -
  have "foldr max xs 0 = Max (insert 0 (set xs))" for xs :: "int list"
    by (induction xs) (auto simp: insert_commute max.left_commute)
  then show ?thesis by (auto intro!: Max_eqI)
qed

lemma alist_update_new: "map_of t k = None \<Longrightarrow> AList.update k v t = t @ [(k, v)]"
  by (induction t) (auto split: if_splits)

lemma run_ordinals_append:
  "run_ordinals (tab @ [(i, a)]) r = run_ordinals tab r @ (if at_RunID a = r then [at_Ordinal a] else [])"
  by (simp add: run_ordinals_def)

lemma ordinals_created:
  assumes "ordinals_ok d" "map_of (ad_attempts d) i = None" "at_Ordinal a = next_ordinal (at_RunID a) (ad_attempts d)"
    "ad_attempts d' = AList.update i a (ad_attempts d)"
  shows "ordinals_ok d'"
  unfolding ordinals_ok_def
proof
  fix r
  let ?n = "length (run_ordinals (ad_attempts d) r)"
  have old: "run_ordinals (ad_attempts d) r = [1..int ?n]" using assms(1) by (simp add: ordinals_ok_def)
  have "at_Ordinal a = int ?n + 1" if "at_RunID a = r"
    using foldr_max_upto [of ?n] that by (simp add: assms(3) next_ordinal_alt flip: old)
  moreover have "[1..int ?n] @ [int ?n + 1] = [1..int ?n + 1]" by (simp add: upto_rec2)
  moreover have "run_ordinals (ad_attempts d') r = [1..int ?n] @ (if at_RunID a = r then [at_Ordinal a] else [])"
    unfolding assms(4) alist_update_new [OF assms(2)] run_ordinals_append by (simp flip: old)
  ultimately show "run_ordinals (ad_attempts d') r = [1..int (length (run_ordinals (ad_attempts d') r))]"
    by (auto simp: add.commute)
qed

lemma moved_events:
  assumes "list_all2 event_of evs as" "distinct (map at_AttemptID as)"
  shows "(by_id as i = None \<and> filter (\<lambda>ev. ev_aggregate_id ev = i) evs = [])
    \<or> (\<exists>a ev. by_id as i = Some a \<and> filter (\<lambda>ev. ev_aggregate_id ev = i) evs = [ev] \<and> event_of ev a)"
  using assms
proof (induction rule: list_all2_induct)
  case Nil
  then show ?case by (simp add: by_id_def)
next
  case (Cons ev evs a as)
  have id: "ev_aggregate_id ev = at_AttemptID a" using Cons.hyps(1) by (simp add: event_of_def)
  show ?case
  proof (cases "at_AttemptID a = i")
    case True
    then have "by_id as i = None" using Cons.prems by (auto simp: by_id_def map_of_eq_None_iff)
    then have "filter (\<lambda>ev. ev_aggregate_id ev = i) evs = []" using Cons by auto
    with True id Cons.hyps(1) show ?thesis by (auto simp: by_id_def)
  next
    case False
    then show ?thesis using Cons id by (simp add: by_id_def)
  qed
qed

lemma logged_moved:
  assumes "attempt_logged d" "rows_moved s t t' d d'" "attempts_keyed d"
  shows "attempt_logged d'"
  unfolding attempt_logged_def
proof
  fix i
  from assms(2) obtain as evs where as: "distinct (map at_AttemptID as)" "map_of (ad_attempts d') = map_of (ad_attempts d) ++ by_id as"
      "\<forall>a' \<in> set as. \<exists>a. map_of (ad_attempts d) (at_AttemptID a') = Some a \<and> attempt_change s t t' d a a'"
      "attempt_log (ad_pg d') = attempt_log (ad_pg d) @ evs" "list_all2 event_of evs as"
    unfolding rows_moved_def by blast
  have log: "log_of d' i = log_of d i @ filter (\<lambda>ev. ev_aggregate_id ev = i) evs" by (simp add: log_of_def as(4))
  have old: "logged_row (map_of (ad_attempts d) i) (log_of d i)" using assms(1) by (simp add: attempt_logged_def)
  from moved_events [OF as(5,1), of i] show "logged_row (map_of (ad_attempts d') i) (log_of d' i)"
  proof (elim disjE exE conjE)
    assume "by_id as i = None" "filter (\<lambda>ev. ev_aggregate_id ev = i) evs = []"
    then have "map_of (ad_attempts d') i = map_of (ad_attempts d) i" "log_of d' i = log_of d i"
      using as(2) log by (simp_all add: map_add_def)
    then show ?thesis using old by simp
  next
    fix a' ev
    assume a': "by_id as i = Some a'" "filter (\<lambda>ev. ev_aggregate_id ev = i) evs = [ev]" "event_of ev a'"
    then have "a' \<in> set as" "at_AttemptID a' = i" by (auto simp: by_id_def dest!: map_of_SomeD)
    with as(3) obtain a where a: "map_of (ad_attempts d) i = Some a" "attempt_change s t t' d a a'" by blast
    have v: "at_Version a' = at_Version a + 1" using attempt_change_same [OF a(2)] by simp
    have pos: "0 < at_Version a" using assms(3) a(1) by (simp add: attempts_keyed_def)
    have "map_of (ad_attempts d') i = Some a'" "log_of d' i = log_of d i @ [ev]"
      using a' as(2) log by (simp_all add: map_add_def)
    moreover have "[1..at_Version a] @ [at_Version a + 1] = [1..at_Version a + 1]" using pos by (simp add: upto_rec2)
    moreover have "ev_aggregate_version ev = at_Version a'" using a'(3) by (simp add: event_of_def)
    ultimately show ?thesis using a'(3) old a(1) v by (simp add: logged_row_def)
  qed
qed

lemma logged_created:
  assumes "attempt_logged d" "map_of (ad_attempts d) (at_AttemptID a) = None" "at_Version a = 1"
    "d' = d\<lparr>ad_attempts := AList.update (at_AttemptID a) a (ad_attempts d), ad_pg := pg\<rparr>" "logs_attempt (ad_pg d) a pg"
  shows "attempt_logged d'"
  unfolding attempt_logged_def
proof
  fix i
  from assms(5) obtain ev where ev: "event_of ev a" "attempt_log pg = attempt_log (ad_pg d) @ [ev]"
    by (auto simp: logs_attempt_def)
  have row: "map_of (ad_attempts d') i = (if i = at_AttemptID a then Some a else map_of (ad_attempts d) i)"
    by (simp add: assms(4) update_conv')
  have log: "log_of d' i = log_of d i @ (if i = at_AttemptID a then [ev] else [])"
    using ev by (auto simp: log_of_def assms(4) event_of_def)
  have old: "logged_row (map_of (ad_attempts d) i) (log_of d i)" using assms(1) by (simp add: attempt_logged_def)
  show "logged_row (map_of (ad_attempts d') i) (log_of d' i)"
  proof (cases "i = at_AttemptID a")
    case True
    then have "log_of d i = []" using old assms(2) by (simp add: logged_row_def)
    then show ?thesis using True row log ev(1) assms(3) by (simp add: logged_row_def event_of_def)
  next
    case False
    then show ?thesis using old row log by simp
  qed
qed

lemma attempts_inv_same:
  assumes "attempts_inv (d, t)" "ad_attempts d' = ad_attempts d" "attempt_log (ad_pg d') = attempt_log (ad_pg d)"
    "\<And>i. map_of (pg_runs (ad_pg d)) i \<noteq> None \<Longrightarrow> map_of (pg_runs (ad_pg d')) i \<noteq> None"
  shows "attempts_inv (d', t')"
proof -
  have "log_of d' = log_of d" by (simp add: log_of_def assms(3) fun_eq_iff)
  then show ?thesis using assms(1,2,4)
    by (simp add: attempts_inv_def attempts_keyed_def ordinals_ok_def attempt_logged_def)
qed

lemma attempts_inv_step:
  assumes "attempt_step sha256 hexsum registry s st st'" "attempts_inv st"
  shows "attempts_inv st'"
proof -
  obtain d t d' t' where st: "st = (d, t)" "st' = (d', t')" by (cases st; cases st')
  have inv: "attempts_inv (d, t)" and step: "attempt_step sha256 hexsum registry s (d, t) (d', t')" using assms st by simp_all
  from inv have keyed: "attempts_keyed d" and ord: "ordinals_ok d" and logd: "attempt_logged d"
    and rows: "\<And>i a. map_of (ad_attempts d) i = Some a \<Longrightarrow> attempt_state_ok a \<and> map_of (pg_runs (ad_pg d)) (at_RunID a) \<noteq> None"
    by (auto simp: attempts_inv_def)
  from step keyed have "attempts_inv (d', t')"
  proof (cases rule: attempt_step_effect)
    case same
    then show ?thesis by (intro attempts_inv_same [OF inv]) simp_all
  next
    case (leases l)
    then show ?thesis by (intro attempts_inv_same [OF inv]) simp_all
  next
    case (control pg)
    then show ?thesis by (intro attempts_inv_same [OF inv]) (use pg_step_runs_kept in simp_all)
  next
    case created
    then obtain p a pg where c: "fresh_attempt s p d a" "map_of (pg_runs (ad_pg d)) (at_RunID a) \<noteq> None"
      "d' = d\<lparr>ad_attempts := AList.update (at_AttemptID a) a (ad_attempts d), ad_pg := pg\<rparr>" "logs_attempt (ad_pg d) a pg"
      unfolding row_created_def by blast
    have new: "map_of (ad_attempts d) (at_AttemptID a) = None" "at_Version a = 1" "attempt_state_ok a"
      "at_Ordinal a = next_ordinal (at_RunID a) (ad_attempts d)" using c(1) by (simp_all add: fresh_attempt_def attempt_state_ok_def)
    have "pg_runs pg = pg_runs (ad_pg d)" using c(4) by (simp add: logs_attempt_def core_def)
    moreover have "attempts_keyed d'"
      using keyed new by (auto simp: attempts_keyed_def c(3) update_conv' intro: distinct_update)
    moreover have "ordinals_ok d'" by (rule ordinals_created [OF ord new(1,4)]) (simp add: c(3))
    moreover have "attempt_logged d'" by (rule logged_created [OF logd new(1,2) c(3,4)])
    ultimately show ?thesis using rows c(2) new(3) by (auto simp: attempts_inv_def c(3) update_conv')
  next
    case moved
    have core: "pg_runs (ad_pg d') = pg_runs (ad_pg d)" and keys: "map fst (ad_attempts d') = map fst (ad_attempts d)"
      using moved by (simp_all add: rows_moved_def core_def)
    have row: "attempt_state_ok a' \<and> map_of (pg_runs (ad_pg d')) (at_RunID a') \<noteq> None \<and> at_AttemptID a' = i \<and> at_Version a' > 0"
      if a': "map_of (ad_attempts d') i = Some a'" for i a'
    proof -
      obtain a where a: "map_of (ad_attempts d) i = Some a"
        using rows_moved_None [OF moved, of i] a' by (cases "map_of (ad_attempts d) i") auto
      from rows_moved_row [OF moved a keyed] a' have ch: "a' = a \<or> attempt_change s t t' d a a'" by auto
      have "at_AttemptID a = i" "at_Version a > 0" using keyed a by (simp_all add: attempts_keyed_def)
      with ch rows [OF a] show ?thesis
        using attempt_change_same [of s t t' d a a'] attempt_change_state_ok [of s t t' d a a']
        by (auto simp: core same_attempt_def)
    qed
    have "attempts_keyed d'" using row keys keyed by (simp add: attempts_keyed_def)
    moreover have "ordinals_ok d'"
      using ord by (simp add: ordinals_ok_def run_ordinals_def rows_moved_places [OF moved keyed])
    moreover have "attempt_logged d'" by (rule logged_moved [OF logd moved keyed])
    ultimately show ?thesis using row by (auto simp: attempts_inv_def)
  qed
  then show ?thesis by (simp add: st)
qed

definition empty_attempts :: "'h AttemptDB" where
  "empty_attempts = \<lparr>ad_pg = empty_pg, ad_leases = empty_db, ad_attempts = []\<rparr>"

lemma attempts_inv_empty: "attempts_inv (empty_attempts, t)"
  by (simp add: attempts_inv_def empty_attempts_def attempts_keyed_def ordinals_ok_def run_ordinals_def attempt_logged_def
      logged_row_def log_of_def attempt_log_def empty_pg_def)

interpretation attempt_history: step_invariant "\<lambda>st. fst st = empty_attempts"
  "attempt_step sha256 hexsum registry s" attempts_inv
  for sha256 :: "string \<Rightarrow> 'h" and hexsum registry s
proof unfold_locales
  show "attempts_inv st" if "fst st = empty_attempts" for st :: "'h AttemptDB \<times> pgtime"
    using that attempts_inv_empty [of "snd st"] by (metis prod.collapse)
qed (rule attempts_inv_step)

section \<open>Attempts over histories\<close>

text \<open>The changes that an attempt can have seen.\<close>

definition attempt_evolves :: "Attempt \<Rightarrow> Attempt \<Rightarrow> bool" where
  "attempt_evolves a a' \<longleftrightarrow> a' = a \<or> same_attempt a a' \<and> at_Version a < at_Version a'
     \<and> (at_Status a = ''queued'' \<and> at_Status a' = ''running''
        \<or> at_Status a \<in> {''queued'', ''running''} \<and> at_Status a' \<in> set terminalAttemptStatuses)"

lemma attempt_change_evolves: "attempt_change s t t' d a a' \<Longrightarrow> attempt_evolves a a'"
  by (induction rule: attempt_change.induct) (auto simp: attempt_evolves_def same_attempt_def terminal_iff)

lemma same_attempt_trans: "same_attempt a b \<Longrightarrow> same_attempt b c \<Longrightarrow> same_attempt a c"
  by (simp add: same_attempt_def)

lemma active_not_terminal: "st \<in> set terminalAttemptStatuses \<Longrightarrow> st \<notin> {''queued'', ''running''}"
  by (auto simp: terminal_iff)

lemma attempt_evolves_trans:
  assumes "attempt_evolves a b" "attempt_evolves b c"
  shows "attempt_evolves a c"
proof (cases "b = a \<or> c = b")
  case False
  with assms have ab: "same_attempt a b" "at_Version a < at_Version b" "at_Status a = ''queued'' \<and> at_Status b = ''running''
      \<or> at_Status a \<in> {''queued'', ''running''} \<and> at_Status b \<in> set terminalAttemptStatuses"
    and bc: "same_attempt b c" "at_Version b < at_Version c" "at_Status b = ''queued'' \<and> at_Status c = ''running''
      \<or> at_Status b \<in> {''queued'', ''running''} \<and> at_Status c \<in> set terminalAttemptStatuses"
    unfolding attempt_evolves_def by blast+
  have "at_Status a = ''queued''" "at_Status b = ''running''" "at_Status c \<in> set terminalAttemptStatuses"
    using ab(3) bc(3) active_not_terminal by force+
  then show ?thesis using same_attempt_trans [OF ab(1) bc(1)] ab(2) bc(2) by (simp add: attempt_evolves_def)
qed (use assms in auto)

lemma attempt_step_row:
  assumes "attempt_step sha256 hexsum registry s (d, t) (d', t')" "attempts_inv (d, t)" "map_of (ad_attempts d) i = Some a"
  obtains a' where "map_of (ad_attempts d') i = Some a'" "a' = a \<or> attempt_change s t t' d a a'"
proof -
  have keyed: "attempts_keyed d" using assms(2) by (simp add: attempts_inv_def)
  from assms(1) keyed show ?thesis
  proof (cases rule: attempt_step_effect)
    case created
    then have "map_of (ad_attempts d') i = Some a"
      using assms(3) by (auto simp: row_created_def fresh_attempt_def update_conv')
    then show ?thesis using that by blast
  next
    case moved
    from rows_moved_row [OF moved assms(3) keyed] show ?thesis using that by blast
  qed (use that assms(3) in auto)
qed

lemma attempt_steps_row:
  assumes "(attempt_step sha256 hexsum registry s)\<^sup>*\<^sup>* (d, t) (d', t')" "attempts_inv (d, t)" "map_of (ad_attempts d) i = Some a"
  shows "attempts_inv (d', t') \<and> (\<exists>a'. map_of (ad_attempts d') i = Some a' \<and> attempt_evolves a a')"
  using assms(1)
proof (induction rule: rtranclp_induct2)
  case refl
  then show ?case using assms by (simp add: attempt_evolves_def)
next
  case (step d1 t1 d2 t2)
  then obtain a1 where a1: "map_of (ad_attempts d1) i = Some a1" "attempt_evolves a a1" and inv: "attempts_inv (d1, t1)" by blast
  from attempt_step_row [OF step.hyps(2) inv a1(1)] obtain a2 where
    a2: "map_of (ad_attempts d2) i = Some a2" "a2 = a1 \<or> attempt_change s t1 t2 d1 a1 a2" by blast
  have "attempt_evolves a a2"
    using a1(2) a2(2) attempt_change_evolves attempt_evolves_trans by blast
  with a2(1) show ?case using attempts_inv_step [OF step.hyps(2) inv] by blast
qed

text \<open>
  C35. In every reachable database an attempt stands under its own identifier, belongs to an
  existing run and is in one of the states of the lifecycle: queued at version 1, running at
  version 2, or ended, at version 3 or, when it was reconciled before it started, at version 2. The
  attempts of a run are numbered 1, 2, 3, ... in the order of their creation. The events of
  an attempt have the versions 1 up to its current one, and the last of them carries the attempt as it is.
\<close>

theorem attempts_reachable_inv:
  assumes "(attempt_step sha256 hexsum registry s)\<^sup>*\<^sup>* (empty_attempts, t0) (d, t)" "map_of (ad_attempts d) i = Some a"
  shows "at_AttemptID a = i \<and> map_of (pg_runs (ad_pg d)) (at_RunID a) \<noteq> None \<and> attempt_state_ok a
    \<and> run_ordinals (ad_attempts d) (at_RunID a) = [1..int (length (run_ordinals (ad_attempts d) (at_RunID a)))]
    \<and> map ev_aggregate_version (log_of d i) = [1..at_Version a] \<and> event_of (last (log_of d i)) a"
proof -
  have inv: "attempts_inv (d, t)" by (rule attempt_history.inv_reachable [OF _ assms(1)]) simp
  then have "logged_row (map_of (ad_attempts d) i) (log_of d i)" by (simp add: attempts_inv_def attempt_logged_def)
  then have "map ev_aggregate_version (log_of d i) = [1..at_Version a]" "event_of (last (log_of d i)) a"
    using assms(2) by (simp_all add: logged_row_def)
  moreover have "at_AttemptID a = i" "map_of (pg_runs (ad_pg d)) (at_RunID a) \<noteq> None" "attempt_state_ok a"
      "ordinals_ok d"
    using inv assms(2) by (auto simp: attempts_inv_def attempts_keyed_def)
  ultimately show ?thesis unfolding ordinals_ok_def by blast
qed

text \<open>
  C36. Over any history an attempt is never lost, keeps its run, ordinal, worker and fence, and
  only moves forward from queued to running to a terminal status. A terminal attempt never
  changes again.
\<close>

theorem attempt_lifecycle:
  assumes "(attempt_step sha256 hexsum registry s)\<^sup>*\<^sup>* (empty_attempts, t0) (d, t)" "map_of (ad_attempts d) i = Some a"
    "(attempt_step sha256 hexsum registry s)\<^sup>*\<^sup>* (d, t) (d', t')"
  shows "\<exists>a'. map_of (ad_attempts d') i = Some a' \<and> attempt_evolves a a'
    \<and> (at_Status a \<in> set terminalAttemptStatuses \<longrightarrow> a' = a)"
proof -
  have inv: "attempts_inv (d, t)" by (rule attempt_history.inv_reachable [OF _ assms(1)]) simp
  from attempt_steps_row [OF assms(3) inv assms(2)] obtain a' where
    a': "map_of (ad_attempts d') i = Some a'" "attempt_evolves a a'" by blast
  moreover have "a' = a" if "at_Status a \<in> set terminalAttemptStatuses"
    using a'(2) active_not_terminal [OF that] by (auto simp: attempt_evolves_def)
  ultimately show ?thesis by blast
qed

lemma attempt_step_fenced:
  assumes "attempt_step sha256 hexsum registry s (d, t) (d', t')" "attempts_keyed d"
  shows "leases_fenced (ad_leases d) (ad_leases d')"
  using assms
proof (cases rule: attempt_step_effect)
  case (leases l)
  then show ?thesis using lease_step_fenced by fastforce
qed (auto simp: row_created_def rows_moved_def intro: leases_fenced_refl)

definition overtaken :: "LeaseKey \<Rightarrow> int \<Rightarrow> 'h AttemptDB \<Rightarrow> bool" where
  "overtaken k token d \<longleftrightarrow> (\<exists>row. lease_rows (ad_leases d) k = Some row \<and> token < lr_fencing_token row)"

lemma overtaken_kept:
  assumes "overtaken k token d" "leases_fenced (ad_leases d) (ad_leases d')"
  shows "overtaken k token d'"
  using assms map_evolvesD unfolding overtaken_def leases_fenced_def fenced_def by fastforce

lemma overtaken_not_live: "overtaken k token d \<Longrightarrow> \<not> live_fence k ow token now d"
  by (auto simp: overtaken_def live_fence_def)

lemma overtaken_change:
  assumes "attempt_change s t t' d a a'" "overtaken (attempt_key s a) (at_FencingToken a) d"
  shows "at_Status a \<in> {''queued'', ''running''} \<and> (\<exists>now. a' = ended_of ''failed_retryable'' now a)"
  using assms(1)
proof cases
  case (starts c now)
  then show ?thesis using overtaken_not_live [OF assms(2)] by blast
next
  case (ends st c now)
  then show ?thesis using overtaken_not_live [OF assms(2)] by blast
qed blast

text \<open>
  C6. Once the lease of an attempt carries a larger fencing token, the attempt can neither be
  started nor finished with a result any more, whoever calls what: it stays as it is, or it is
  reconciled as retryable, once.
\<close>

theorem overtaken_attempt_only_reconciled:
  assumes "(attempt_step sha256 hexsum registry s)\<^sup>*\<^sup>* (empty_attempts, t0) (d, t)" "map_of (ad_attempts d) i = Some a"
    "lease_rows (ad_leases d) (attempt_key s a) = Some row" "at_FencingToken a < lr_fencing_token row"
    "(attempt_step sha256 hexsum registry s)\<^sup>*\<^sup>* (d, t) (d', t')"
  shows "map_of (ad_attempts d') i = Some a \<or>
    (at_Status a \<in> {''queued'', ''running''} \<and> (\<exists>now. map_of (ad_attempts d') i = Some (ended_of ''failed_retryable'' now a)))"
proof -
  let ?P = "\<lambda>d'. map_of (ad_attempts d') i = Some a \<or>
    (at_Status a \<in> {''queued'', ''running''} \<and> (\<exists>now. map_of (ad_attempts d') i = Some (ended_of ''failed_retryable'' now a)))"
  have inv: "attempts_inv (d, t)" by (rule attempt_history.inv_reachable [OF _ assms(1)]) simp
  have ov: "overtaken (attempt_key s a) (at_FencingToken a) d" using assms(3,4) by (auto simp: overtaken_def)
  from assms(5) have "?P d' \<and> overtaken (attempt_key s a) (at_FencingToken a) d' \<and> attempts_inv (d', t')"
  proof (induction rule: rtranclp_induct2)
    case refl
    then show ?case using assms(2) ov inv by simp
  next
    case (step d1 t1 d2 t2)
    then have inv1: "attempts_inv (d1, t1)" and ov1: "overtaken (attempt_key s a) (at_FencingToken a) d1" and P1: "?P d1" by blast+
    have keyed: "attempts_keyed d1" using inv1 by (simp add: attempts_inv_def)
    have ov2: "overtaken (attempt_key s a) (at_FencingToken a) d2"
      by (rule overtaken_kept [OF ov1 attempt_step_fenced [OF step.hyps(2) keyed]])
    from P1 have "?P d2"
    proof
      assume "map_of (ad_attempts d1) i = Some a"
      from attempt_step_row [OF step.hyps(2) inv1 this] obtain a2 where
        "map_of (ad_attempts d2) i = Some a2" "a2 = a \<or> attempt_change s t1 t2 d1 a a2" by blast
      then show ?thesis using overtaken_change [OF _ ov1] by blast
    next
      assume "at_Status a \<in> {''queued'', ''running''} \<and> (\<exists>now. map_of (ad_attempts d1) i = Some (ended_of ''failed_retryable'' now a))"
      then obtain now where a: "at_Status a \<in> {''queued'', ''running''}" "map_of (ad_attempts d1) i = Some (ended_of ''failed_retryable'' now a)" by blast
      have "overtaken (attempt_key s (ended_of ''failed_retryable'' now a)) (at_FencingToken (ended_of ''failed_retryable'' now a)) d1"
        using ov1 by (simp add: attempt_key_def)
      from attempt_step_row [OF step.hyps(2) inv1 a(2)] overtaken_change [OF _ this] have
        "map_of (ad_attempts d2) i = Some (ended_of ''failed_retryable'' now a)" by auto
      then show ?thesis using a(1) by blast
    qed
    then show ?case using ov2 attempts_inv_step [OF step.hyps(2) inv1] by blast
  qed
  then show ?thesis by blast
qed

lemma attempt_state_ok_version: "attempt_state_ok a \<Longrightarrow> at_Version a \<le> 3"
  by (auto simp: attempt_state_ok_def split: if_splits)

text \<open>
  C37. An attempt settles: in every infinite history there is a point after which it never
  changes again.
\<close>

theorem attempt_settles:
  assumes "fst (f 0) = empty_attempts" "\<And>n. attempt_step sha256 hexsum registry s (f n) (f (Suc n))"
  shows "\<exists>N. \<forall>n \<ge> N. map_of (ad_attempts (fst (f n))) i = map_of (ad_attempts (fst (f N))) i"
proof (cases "\<exists>n a. map_of (ad_attempts (fst (f n))) i = Some a")
  case False
  then show ?thesis by (metis not_Some_eq)
next
  case True
  then obtain n0 a0 where a0: "map_of (ad_attempts (fst (f n0))) i = Some a0" by blast
  have steps: "(attempt_step sha256 hexsum registry s)\<^sup>*\<^sup>* (f n) (f (n + k))" for n k
    by (induction k) (auto intro: rtranclp.rtrancl_into_rtrancl assms(2))
  have inv: "attempts_inv (f n)" for n
    by (rule attempt_history.inv_reachable [OF assms(1)]) (use steps [of 0 n] in simp)
  have grows: "\<exists>a'. map_of (ad_attempts (fst (f (n + k)))) i = Some a' \<and> attempt_evolves a a'"
    if "map_of (ad_attempts (fst (f n))) i = Some a" for n k a
    using attempt_steps_row [of sha256 hexsum registry s "fst (f n)" "snd (f n)" "fst (f (n + k))" "snd (f (n + k))" i a]
      steps [of n k] inv [of n] that by simp
  define v where "v n = (case map_of (ad_attempts (fst (f n))) i of None \<Rightarrow> 0 | Some a \<Rightarrow> nat (at_Version a))" for n
  have "v n < 4" for n
    using inv [of n] attempt_state_ok_version by (fastforce simp: v_def attempts_inv_def split: option.splits)
  then obtain N where N: "\<forall>n. v n \<le> v N"
    using ex_has_greatest_nat [of "\<lambda>_. True" 0 v 4] by auto
  have "at_Version a0 > 0" using inv [of n0] a0 by (simp add: attempts_inv_def attempts_keyed_def)
  then have "v n0 > 0" using a0 by (simp add: v_def)
  then have "v N > 0" using N by (metis le_zero_eq not_gr_zero)
  then obtain a where a: "map_of (ad_attempts (fst (f N))) i = Some a" by (auto simp: v_def split: option.splits)
  have "map_of (ad_attempts (fst (f n))) i = Some a" if "n \<ge> N" for n
  proof -
    from grows [OF a, of "n - N"] that obtain a' where a': "map_of (ad_attempts (fst (f n))) i = Some a'" "attempt_evolves a a'" by auto
    moreover have "\<not> at_Version a < at_Version a'"
      using spec [OF N, of n] a a'(1) \<open>v N > 0\<close> by (simp add: v_def)
    ultimately show ?thesis by (auto simp: attempt_evolves_def)
  qed
  then show ?thesis using a by (intro exI [of _ N]) simp
qed

lemma ReconcileAbandonedAttempts_first:
  assumes "ReconcileAbandonedAttempts sha256 env s m p d = (Inr rs, d')" "attempts_keyed d"
    "map_of (pg_idempotency (ad_pg d)) (''reconcile_attempts:'' @ st_repositoryID s @ '':'' @ lk_ResourceID p, IdempotencyKey m) = None"
  shows "reconciled (postgresTimestamp (pg_now env 0)) (abandoned_attempts env s p d) d rs d'"
    and "validateAttemptFence p (st_tenantID s) (st_repositoryID s) = None
      \<and> live_fence (row_key (proof_key p) (st_repositoryID s)) (lp_OwnerID p) (lp_FencingToken p) (db_clock (db_of env) 0) d"
proof -
  have "\<exists>scope h c. reconcileAttemptsTx env s scope h m p (abandoned_attempts env s p d) d = Inr ((c, rs), d')"
    using assms(1,3) unfolding ReconcileAbandonedAttempts_def Let_def loadAttemptReconciliationReplay_def
    by (fastforce simp: begin_command_def lockIdempotency_def run_tx_def db_commit_def db_exec_def db_call_def reconcileAttemptsTx_def
        split: option.splits sum.splits if_splits prod.splits)
  then show "reconciled (postgresTimestamp (pg_now env 0)) (abandoned_attempts env s p d) d rs d'"
    using assms(2) unfolding attempts_keyed_def by (blast elim: reconcileAttemptsTx_effect)
  show "validateAttemptFence p (st_tenantID s) (st_repositoryID s) = None
      \<and> live_fence (row_key (proof_key p) (st_repositoryID s)) (lp_OwnerID p) (lp_FencingToken p) (db_clock (db_of env) 0) d"
    using assms(1) unfolding ReconcileAbandonedAttempts_def Let_def
    by (auto simp: begin_command_def lockIdempotency_def run_tx_def db_exec_def db_call_def prepareAttemptWrite_def verifyAttemptFence_def
        reject_def split: option.splits sum.splits if_splits)
qed

text \<open>
  What a scheduler with a new fence finds: the active attempts on its resource that were
  written under any other fence.
\<close>

definition left_behind :: "LeaseProof \<Rightarrow> Attempt \<Rightarrow> bool" where
  "left_behind p a \<longleftrightarrow> (at_Status a = ''queued'' \<or> at_Status a = ''running'')
     \<and> (at_LeaseResourceType a, at_LeaseResourceID a) = (lk_ResourceType p, lk_ResourceID p)
     \<and> (at_WorkerID a, at_FencingToken a) \<noteq> (lp_OwnerID p, lp_FencingToken p)"

text \<open>A resource has one lease row, so where the fence of the proof is live no other one is.\<close>

lemma live_fence_unique:
  "live_fence k ow token now d \<Longrightarrow> live_fence k ow' token' now' d \<Longrightarrow> (ow', token') = (ow, token)"
  by (auto simp: live_fence_def split: option.splits)

lemma left_behind_dead:
  assumes "validateAttemptFence p (st_tenantID s) (st_repositoryID s) = None"
    "live_fence (row_key (proof_key p) (st_repositoryID s)) (lp_OwnerID p) (lp_FencingToken p) now d" "left_behind p a"
  shows "\<not> live_fence (attempt_key s a) (at_WorkerID a) (at_FencingToken a) now' d"
proof
  assume live: "live_fence (attempt_key s a) (at_WorkerID a) (at_FencingToken a) now' d"
  have "row_key (proof_key p) (st_repositoryID s) = attempt_key s a"
    using assms(1,3) proof_key_owned [OF assms(1), of a]
    by (simp add: left_behind_def row_key_def proof_key_def validateAttemptFence_def attempt_key_def split: if_splits)
  from live_fence_unique [OF assms(2) [unfolded this] live] assms(3) show False by (simp add: left_behind_def)
qed

lemma abandoned_attempts_left_behind:
  assumes "attempts_inv (d, t)" "validateAttemptFence p (st_tenantID s) (st_repositoryID s) = None"
    "live_fence (row_key (proof_key p) (st_repositoryID s)) (lp_OwnerID p) (lp_FencingToken p) now d"
  shows "abandoned_attempts env s p d
    = sort_key (pg_collation env \<circ> at_RunID) (sort_key at_Ordinal (filter (left_behind p) (map snd (ad_attempts d))))"
proof -
  have ab: "abandoned (db_of env) s p d a \<longleftrightarrow> left_behind p a" if "map_of (ad_attempts d) i = Some a" for i a
    using left_behind_dead [OF assms(2,3), of a] assms(1) that by (auto simp: abandoned_def left_behind_def attempts_inv_def)
  have "abandoned (db_of env) s p d a \<longleftrightarrow> left_behind p a" if "a \<in> set (map snd (ad_attempts d))" for a
  proof -
    from that obtain i where "(i, a) \<in> set (ad_attempts d)" by auto
    then have "map_of (ad_attempts d) i = Some a" using assms(1) by (simp add: attempts_inv_def attempts_keyed_def)
    then show ?thesis by (rule ab)
  qed
  then have "filter (abandoned (db_of env) s p d) (map snd (ad_attempts d)) = filter (left_behind p) (map snd (ad_attempts d))"
    by (rule filter_cong [OF refl])
  then show ?thesis by (simp add: abandoned_attempts_def)
qed

text \<open>
  C38. A first reconciliation, one that finds no receipt under its key, ends exactly the
  attempts that an earlier fence left behind: the queued and running ones on the resource of
  the scheduler that carry another worker or token. They become retryable at the time of the
  application clock, one version on, and are returned in the order of run and ordinal; every
  other attempt, the scheduler's own included, stays as it is, and none is left behind. No
  attempt is ended under a live fence: the scheduler has proved its own lease, which is the
  one row of the resource, so the fence of an ended attempt is live at no time.
\<close>

theorem reconcile_ends_exactly_abandoned:
  assumes "(attempt_step sha256 hexsum registry s)\<^sup>*\<^sup>* (empty_attempts, t0) (d, t)"
    "ReconcileAbandonedAttempts sha256 env s m p d = (Inr rs, d')"
    "map_of (pg_idempotency (ad_pg d)) (''reconcile_attempts:'' @ st_repositoryID s @ '':'' @ lk_ResourceID p, IdempotencyKey m) = None"
    "now = postgresTimestamp (pg_now env 0)"
  shows "(\<forall>i a. map_of (ad_attempts d) i = Some a \<longrightarrow> map_of (ad_attempts d') i =
         Some (if left_behind p a then a\<lparr>at_Status := ''failed_retryable'', at_FinishedAt := Some now, at_UpdatedAt := now,
            at_Version := at_Version a + 1\<rparr> else a)
       \<and> (left_behind p a \<longrightarrow> (\<forall>c. \<not> live_fence (attempt_key s a) (at_WorkerID a) (at_FencingToken a) c d)))
    \<and> rs = map (ended_of ''failed_retryable'' now) (sort_key (pg_collation env \<circ> at_RunID)
         (sort_key at_Ordinal (filter (left_behind p) (map snd (ad_attempts d)))))
    \<and> filter (left_behind p) (map snd (ad_attempts d')) = []"
proof -
  let ?as = "abandoned_attempts env s p d"
  let ?e = "ended_of ''failed_retryable'' now"
  have inv: "attempts_inv (d, t)" by (rule attempt_history.inv_reachable [OF _ assms(1)]) simp
  then have keyed: "attempts_keyed d" by (simp add: attempts_inv_def)
  note first = ReconcileAbandonedAttempts_first [OF assms(2) keyed assms(3)]
  have dead: "\<not> live_fence (attempt_key s a) (at_WorkerID a) (at_FencingToken a) c d" if "left_behind p a" for a c
    using first(2) left_behind_dead that by blast
  have as: "?as = sort_key (pg_collation env \<circ> at_RunID) (sort_key at_Ordinal (filter (left_behind p) (map snd (ad_attempts d))))"
    by (rule abandoned_attempts_left_behind [OF inv]) (use first(2) in blast)+
  have r: "reconciled now ?as d rs d'" using first(1) by (simp add: assms(4))
  have rs: "rs = map ?e ?as" using r abandoned_attempts_row(1) [OF _ keyed] unfolding reconciled_def by simp
  have mem: "i \<in> at_AttemptID ` set ?as \<longleftrightarrow> left_behind p a" if a: "map_of (ad_attempts d) i = Some a" for i a
  proof
    assume "i \<in> at_AttemptID ` set ?as"
    then obtain b where b: "b \<in> set ?as" "at_AttemptID b = i" by auto
    with abandoned_attempts_row(1) [OF b(1) keyed] a have "b = a" by simp
    with b(1) show "left_behind p a" by (simp add: as)
  next
    assume "left_behind p a"
    then have "a \<in> set ?as" using map_of_SomeD [OF a] by (force simp: as)
    moreover have "at_AttemptID a = i" using keyed a by (simp add: attempts_keyed_def)
    ultimately show "i \<in> at_AttemptID ` set ?as" by blast
  qed
  have new: "map_of (ad_attempts d') i = Some (if left_behind p a then ?e a else a)"
    if "map_of (ad_attempts d) i = Some a" for i a
    using r that mem [OF that] unfolding reconciled_def by simp
  have keys: "map fst (ad_attempts d') = map fst (ad_attempts d)" using r unfolding reconciled_def by blast
  have "\<not> left_behind p b" if "(i, b) \<in> set (ad_attempts d')" for i b
  proof -
    have b: "map_of (ad_attempts d') i = Some b"
      using that keyed keys by (intro map_of_is_SomeI) (simp_all add: attempts_keyed_def)
    then obtain a where "map_of (ad_attempts d) i = Some a"
      using keys by (cases "map_of (ad_attempts d) i") (metis map_of_eq_None_iff set_map option.distinct(1), blast)
    from new [OF this] b show ?thesis by (auto simp: left_behind_def split: if_splits)
  qed
  then have "filter (left_behind p) (map snd (ad_attempts d')) = []" by (auto simp: filter_empty_conv)
  moreover have "?e a = a\<lparr>at_Status := ''failed_retryable'', at_FinishedAt := Some now, at_UpdatedAt := now,
      at_Version := at_Version a + 1\<rparr>" for a
    by (simp add: ended_of_def finished_def)
  ultimately show ?thesis using new dead rs as by simp
qed

section \<open>Receipts\<close>

definition utf8_Attempt :: "Attempt \<Rightarrow> bool" where
  "utf8_Attempt a \<longleftrightarrow> valid_utf8 (at_AttemptID a) \<and> valid_utf8 (at_RunID a) \<and> valid_utf8 (at_Status a)
     \<and> valid_utf8 (at_LeaseResourceType a) \<and> valid_utf8 (at_LeaseResourceID a) \<and> valid_utf8 (at_WorkerID a)"

lemma decode_marshal_Attempt:
  assumes "marshal_Attempt a = Some j" "utf8_Attempt a"
  shows "decode_Attempt j = Some a"
  using assms
  by (cases "at_StartedAt a"; cases "at_FinishedAt a")
    (auto simp: marshal_Attempt_def decode_Attempt_def attempt_fields_def utf8_Attempt_def field_def jstr_def read_ptr_def
      omitempty_def split: if_splits)

lemma checkStoredAttempt_start:
  assumes "check_attempt a = None" "parses_attempt_id (at_AttemptID a)" "ParseRunID (at_RunID a) = Inr (at_RunID a)"
    "ValidTimestamp (at_CreatedAt a)" "ValidTimestamp (at_UpdatedAt a)"
  shows "checkStoredAttempt a = (if at_CreatedAt a \<le> at_UpdatedAt a then Inr a
    else Inl (Errorf ''invalid stored attempt update timestamp'' []))"
proof -
  have "at_LeaseResourceID a \<noteq> []" "at_WorkerID a \<noteq> []" "char_length_in 1 100 (at_Status a)" "at_LeaseResourceType a = ''scheduler''"
    "1 \<le> at_Ordinal a" "1 \<le> at_FencingToken a" "1 \<le> at_Version a"
    using assms(1) by (auto simp: check_attempt_def char_length_in_def split: if_splits)
  then show ?thesis using assms(2-5) by (simp add: checkStoredAttempt_def reject_def ValidTimestamp_def)
qed

text \<open>What a successful command has read, and what its receipt answers to the next one.\<close>

lemma attempt_command_result:
  assumes "attempt_command env s operation scope h i m p work d = (Inr a, d')"
  shows "list_all pg_text_ok [i, lk_ResourceType p, lk_ResourceID p, lp_OwnerID p, scope, IdempotencyKey m]
    \<and> (loadAttemptReplay (db_of env) scope (IdempotencyKey m) h d = Inr (Some a) \<and> d' = d
       \<or> (\<exists>b c dx. map_of (ad_attempts d) i = Some b \<and> work b = Inr ((c, a), dx) \<and> d' = (if c = None then d else dx)))"
  using assms unfolding attempt_command_def Let_def
  by (fastforce simp: begin_command_def lockIdempotency_def lockAttempt_def read_attempt_def prepareAttemptWrite_def verifyAttemptFence_def
      loadAttemptReplay_def loadReplay_def run_tx_def db_commit_def
      split: option.splits if_splits sum.splits prod.splits)

lemma attempt_command_replayed:
  assumes "db_quiet (db_of env)" "list_all pg_text_ok [i, lk_ResourceType p, lk_ResourceID p, lp_OwnerID p, scope, IdempotencyKey m]"
    "read_attempt i d = Some b"
    "live_fence (row_key (proof_key p) (st_repositoryID s)) (lp_OwnerID p) (lp_FencingToken p) (db_clock (db_of env) 0) d"
    "map_of (pg_idempotency (ad_pg d)) (scope, IdempotencyKey m) = Some receipt" "ik_request_hash receipt = h"
  shows "attempt_command env s operation scope h i m p work d =
    (case decodeStoredAttempt (ik_response_body receipt) of
       Inl err \<Rightarrow> (Inl (WrapErr CodeInternal ''postgres.loadAttemptReplay'' (Msg ''decode stored command response'' []) err), d)
     | Inr a \<Rightarrow> (Inr a, d))"
  using assms
  by (simp add: attempt_command_def begin_command_def lockIdempotency_def lockAttempt_def prepareAttemptWrite_def
      verifyAttemptFence_def loadAttemptReplay_def loadReplay_def reject_def run_tx_def db_exec_def Let_def
      split: sum.split)

lemma saveReplay_receipt:
  assumes "saveReplay e operation failure scope key h status response db = Inr db'"
  shows "\<exists>j. response = Some j \<and> map_of (pg_idempotency db') (scope, key)
    = Some \<lparr>ik_request_hash = h, ik_response_status = status, ik_response_body = j\<rparr>"
  using assms by (auto simp: saveReplay_def update_conv' split: option.splits)

lemma startAttemptTx_receipt:
  assumes "startAttemptTx hexsum env scope h i v m p d b = Inr ((c, a), d')" "map_of (ad_attempts d) i = Some b"
  shows "c \<noteq> None \<and> check_attempt a = None \<and> attemptOwnedBy b p
    \<and> a = running_of (postgresTimestamp (pg_now env 0)) b \<and> (\<exists>j. marshal_Attempt a = Some j \<and>
    map_of (pg_idempotency (ad_pg d')) (scope, IdempotencyKey m) = Some \<lparr>ik_request_hash = h, ik_response_status = 201, ik_response_body = j\<rparr>)"
proof -
  from assms(1) obtain d1 d2 pg where up: "update_attempt (db_of env) ''postgres.StartAttempt.update''
       (New CodeConflict ''postgres.StartAttempt'' (Msg ''attempt changed concurrently'' []))
       [''queued''] v i ''running'' (started (postgresTimestamp (pg_now env 0))) d = Inr (a, d1)"
    and own: "attemptOwnedBy b p"
    and sv: "saveReplay (db_of env) ''postgres.saveAttemptReplay'' ''encode command response'' scope (IdempotencyKey m) h 201
      (marshal_Attempt a) (ad_pg d2) = Inr pg" and d': "d' = d2\<lparr>ad_pg := pg\<rparr>" "c \<noteq> None"
    unfolding startAttemptTx_def Let_def reject_Inr by (auto simp: saveAttemptReplay_def)
  from up obtain b1 where "map_of (ad_attempts d) i = Some b1" "a = running_of (postgresTimestamp (pg_now env 0)) b1" "check_attempt a = None"
    unfolding running_of_def by (rule update_attempt_Inr) blast
  with own saveReplay_receipt [OF sv] d' assms(2) show ?thesis by auto
qed

lemma loadAttemptReplay_Some:
  assumes "loadAttemptReplay e scope key h d = Inr (Some a)"
  shows "\<exists>receipt. map_of (pg_idempotency (ad_pg d)) (scope, key) = Some receipt \<and> ik_request_hash receipt = h
    \<and> decodeStoredAttempt (ik_response_body receipt) = Inr a"
  using assms by (auto simp: loadAttemptReplay_def loadReplay_def split: option.splits sum.splits)

text \<open>
  The receipt that a successful start leaves, be it the first one or a replay: it answers
  with the attempt, unless the time of its update lies before the time of its creation.
\<close>

lemma StartAttempt_unfold:
  assumes "StartAttempt sha256 hexsum env s i v m p d = (Inr a, d')"
    "scope = ''start_attempt:'' @ st_repositoryID s @ '':'' @ i"
    "h = hashCommand sha256 m [scope, itoa v, lp_OwnerID p, itoa (lp_FencingToken p)]"
  shows "parses_attempt_id i \<and> validateAttemptFence p (st_tenantID s) (st_repositoryID s) = None"
    "StartAttempt sha256 hexsum e s i v m p x = attempt_command e s ''postgres.StartAttempt'' scope h i m p
      (startAttemptTx hexsum e scope h i v m p x) x"
proof -
  have val: "validateAttemptLifecycleInput i v m p s = None"
    using assms(1) by (auto simp: StartAttempt_def split: option.splits)
  then show "parses_attempt_id i \<and> validateAttemptFence p (st_tenantID s) (st_repositoryID s) = None"
    by (auto simp: validateAttemptLifecycleInput_def validateAttemptID_def split: option.splits if_splits)
  show "StartAttempt sha256 hexsum e s i v m p x = attempt_command e s ''postgres.StartAttempt'' scope h i m p
      (startAttemptTx hexsum e scope h i v m p x) x"
    unfolding StartAttempt_def Let_def val assms(2,3) by simp
qed

lemma StartAttempt_receipt:
  assumes "StartAttempt sha256 hexsum env s i v m p d = (Inr a, d')" "attempts_keyed d"
    "ParseRunID (at_RunID a) = Inr (at_RunID a)" "ValidTimestamp (at_CreatedAt a)" "ValidTimestamp (at_UpdatedAt a)"
    and scope: "scope = ''start_attempt:'' @ st_repositoryID s @ '':'' @ i"
    and h: "h = hashCommand sha256 m [scope, itoa v, lp_OwnerID p, itoa (lp_FencingToken p)]"
  shows "\<exists>receipt. map_of (pg_idempotency (ad_pg d')) (scope, IdempotencyKey m) = Some receipt \<and> ik_request_hash receipt = h
     \<and> decodeStoredAttempt (ik_response_body receipt) = (if at_CreatedAt a \<le> at_UpdatedAt a then Inr a
         else Inl (Errorf ''invalid stored attempt update timestamp'' []))"
proof -
  note start = StartAttempt_unfold [OF assms(1) scope h]
  note res = attempt_command_result [OF assms(1) [unfolded start(2)]]
  from res [THEN conjunct2] show ?thesis
  proof (elim disjE exE conjE)
    assume r: "loadAttemptReplay (db_of env) scope (IdempotencyKey m) h d = Inr (Some a)" "d' = d"
    from loadAttemptReplay_Some [OF r(1)] obtain receipt where rc: "map_of (pg_idempotency (ad_pg d)) (scope, IdempotencyKey m) = Some receipt"
      "ik_request_hash receipt = h" "decodeStoredAttempt (ik_response_body receipt) = Inr a" by blast
    then have "at_CreatedAt a \<le> at_UpdatedAt a"
      by (auto simp: decodeStoredAttempt_def checkStoredAttempt_def Let_def split: option.splits)
    with rc r(2) show ?thesis by auto
  next
    fix b c dx
    assume b: "map_of (ad_attempts d) i = Some b" and tx: "startAttemptTx hexsum env scope h i v m p d b = Inr ((c, a), dx)"
      and "d' = (if c = None then d else dx)"
    from startAttemptTx_receipt [OF tx b] this(3) obtain j now where r: "check_attempt a = None" "attemptOwnedBy b p" "a = running_of now b"
      "marshal_Attempt a = Some j" "map_of (pg_idempotency (ad_pg d')) (scope, IdempotencyKey m)
        = Some \<lparr>ik_request_hash = h, ik_response_status = 201, ik_response_body = j\<rparr>" by auto
    have i: "at_AttemptID a = i" using assms(2) b r(3) by (simp add: attempts_keyed_def)
    have "utf8_Attempt a"
      using res [THEN conjunct1] r(2,3) i assms(3) run_id_text
      by (auto simp: valid_utf8_ascii byte_in_def utf8_Attempt_def attemptOwnedBy_def pg_text_ok_def ParseRunID_def split: if_splits)
    then have "decodeStoredAttempt j = checkStoredAttempt a"
      using decode_marshal_Attempt [OF r(4)] by (simp add: decodeStoredAttempt_def)
    then show ?thesis using r(5) checkStoredAttempt_start [OF r(1) _ assms(3-5)] start(1) i by auto
  qed
qed

text \<open>A command with a receipt writes nothing, and without a live fence it does not reach its receipt.\<close>

lemma loadAttemptReplay_known:
  "map_of (pg_idempotency (ad_pg d)) (scope, key) \<noteq> None \<Longrightarrow> loadAttemptReplay e scope key h d \<noteq> Inr None"
  by (auto simp: loadAttemptReplay_def loadReplay_def)

lemma attempt_command_known:
  assumes "map_of (pg_idempotency (ad_pg d)) (scope, IdempotencyKey m) \<noteq> None"
  shows "snd (attempt_command env s operation scope h i m p work d) = d"
proof -
  obtain res d' where r: "attempt_command env s operation scope h i m p work d = (res, d')" by fastforce
  from run_tx_state [OF r [unfolded attempt_command_def Let_def]] have "d' = d"
    using loadAttemptReplay_known [OF assms] by (auto simp: begin_command_def lockIdempotency_def split: option.splits)
  with r show ?thesis by simp
qed

lemma run_tx_Inr: "run_tx env work d = (Inr a, d') \<Longrightarrow> \<exists>y. work = Inr y"
  by (cases work) (simp_all add: run_tx_def)

lemma attempt_command_row:
  assumes "attempt_command env s operation scope h i m p work d = (Inr a, d')"
  shows "map_of (ad_attempts d) i \<noteq> None"
  using run_tx_Inr [OF assms [unfolded attempt_command_def Let_def]]
  by (auto simp: begin_command_def lockIdempotency_def lockAttempt_def read_attempt_def db_exec_Inr split: option.splits)

lemma attempt_command_fenced_off:
  assumes "db_quiet (db_of env)" "list_all pg_text_ok [i, lk_ResourceType p, lk_ResourceID p, lp_OwnerID p]" "read_attempt i d = Some b"
    "\<not> live_fence (row_key (proof_key p) (st_repositoryID s)) (lp_OwnerID p) (lp_FencingToken p) (db_clock (db_of env) 0) d"
  shows "\<exists>err. attempt_command env s operation scope h i m p work d = (Inl err, d) \<and> CodeOf err = CodeConflict"
  using assms
  by (simp add: attempt_command_def begin_command_def lockIdempotency_def lockAttempt_def prepareAttemptWrite_def
      verifyAttemptFence_def reject_def run_tx_def db_exec_def Let_def)

text \<open>A retried start, at any later time.\<close>

lemma StartAttempt_retried:
  assumes reach: "(attempt_step sha256 hexsum registry s)\<^sup>*\<^sup>* (empty_attempts, t0) (d, t)"
    and call: "StartAttempt sha256 hexsum env s i v m p d = (Inr a, d')" "env_ok (db_of env) t t'"
    and a: "ParseRunID (at_RunID a) = Inr (at_RunID a)" "ValidTimestamp (at_CreatedAt a)" "ValidTimestamp (at_UpdatedAt a)"
    and later: "(attempt_step sha256 hexsum registry s)\<^sup>*\<^sup>* (d', t') (d'', t'')"
  shows "snd (StartAttempt sha256 hexsum env' s i v m p d'') = d''"
    and "db_quiet (db_of env') \<Longrightarrow> \<not> live_fence (proof_key p) (lp_OwnerID p) (lp_FencingToken p) (db_clock (db_of env') 0) d'' \<Longrightarrow>
      \<exists>err. StartAttempt sha256 hexsum env' s i v m p d'' = (Inl err, d'') \<and> CodeOf err = CodeConflict"
    and "db_quiet (db_of env') \<Longrightarrow> live_fence (proof_key p) (lp_OwnerID p) (lp_FencingToken p) (db_clock (db_of env') 0) d'' \<Longrightarrow>
      (if at_CreatedAt a \<le> at_UpdatedAt a then StartAttempt sha256 hexsum env' s i v m p d'' = (Inr a, d'')
       else \<exists>err. StartAttempt sha256 hexsum env' s i v m p d'' = (Inl err, d'') \<and> CodeOf err = CodeInternal)"
proof -
  define scope h where scope: "scope = ''start_attempt:'' @ st_repositoryID s @ '':'' @ i"
    and h: "h = hashCommand sha256 m [scope, itoa v, lp_OwnerID p, itoa (lp_FencingToken p)]"
  note start = StartAttempt_unfold [OF call(1) scope h]
  have "attempts_inv (d, t)" by (rule attempt_history.inv_reachable [OF _ reach]) simp
  then have keyed: "attempts_keyed d" by (simp add: attempts_inv_def)
  have inv': "attempts_inv (d', t')"
    by (rule attempt_history.inv_reachable [OF _ rtranclp.rtrancl_into_rtrancl [OF reach step_StartAttempt [OF call(2,1)]]]) simp
  note res = attempt_command_result [OF call(1) [unfolded start(2)]]
  from StartAttempt_receipt [OF call(1) keyed a scope h] obtain receipt where
    rc': "map_of (pg_idempotency (ad_pg d')) (scope, IdempotencyKey m) = Some receipt" and rc: "ik_request_hash receipt = h"
     "decodeStoredAttempt (ik_response_body receipt) = (if at_CreatedAt a \<le> at_UpdatedAt a then Inr a
         else Inl (Errorf ''invalid stored attempt update timestamp'' []))" by blast
  have kept: "map_of (pg_idempotency (ad_pg d'')) (scope, IdempotencyKey m) = Some receipt"
    using attempt_steps_receipts [OF later] rc' by (rule keeps_receiptsD)
  then show "snd (StartAttempt sha256 hexsum env' s i v m p d'') = d''"
    unfolding start(2) by (intro attempt_command_known) simp
  have "map_of (ad_attempts d) i \<noteq> None" by (rule attempt_command_row [OF call(1) [unfolded start(2)]])
  then obtain b where "map_of (ad_attempts d) i = Some b" by blast
  with attempt_step_row [OF step_StartAttempt [OF call(2,1)] \<open>attempts_inv (d, t)\<close>] obtain b' where
    "map_of (ad_attempts d') i = Some b'" by blast
  from attempt_steps_row [OF later inv' this] obtain b2 where b2: "read_attempt i d'' = Some b2"
    by (auto simp: attempts_inv_def read_attempt_def)
  have key: "row_key (proof_key p) (st_repositoryID s) = proof_key p"
    using start(1) by (simp add: row_key_def proof_key_def validateAttemptFence_def split: if_splits)
  show "\<exists>err. StartAttempt sha256 hexsum env' s i v m p d'' = (Inl err, d'') \<and> CodeOf err = CodeConflict"
    if "db_quiet (db_of env')" "\<not> live_fence (proof_key p) (lp_OwnerID p) (lp_FencingToken p) (db_clock (db_of env') 0) d''"
    unfolding start(2) by (rule attempt_command_fenced_off [OF that(1) _ b2]) (use res that(2) key in simp_all)
  show "if at_CreatedAt a \<le> at_UpdatedAt a then StartAttempt sha256 hexsum env' s i v m p d'' = (Inr a, d'')
       else \<exists>err. StartAttempt sha256 hexsum env' s i v m p d'' = (Inl err, d'') \<and> CodeOf err = CodeInternal"
    if quiet: "db_quiet (db_of env')" and live: "live_fence (proof_key p) (lp_OwnerID p) (lp_FencingToken p) (db_clock (db_of env') 0) d''"
  proof -
    have "StartAttempt sha256 hexsum env' s i v m p d'' = (case decodeStoredAttempt (ik_response_body receipt) of
         Inl err \<Rightarrow> (Inl (WrapErr CodeInternal ''postgres.loadAttemptReplay'' (Msg ''decode stored command response'' []) err), d'')
       | Inr a \<Rightarrow> (Inr a, d''))"
      unfolding start(2) by (rule attempt_command_replayed [OF quiet res [THEN conjunct1] b2 _ kept rc(1)]) (simp add: key live)
    then show ?thesis by (simp add: rc(2) CodeOf_def WrapErr_def)
  qed
qed

text \<open>
  C39. A retried start. Whatever happened since a start succeeded (the receipt it left is
  kept by every later step), the same call changes nothing, whatever the database does.
  When the database reports no error it is answered with the first answer as long as the
  lease of the scheduler is live, and with a conflict once it is not, since the fence is
  verified before the receipt is read. The application clock at the start must not lie
  behind the creation of the attempt, which is a reading of the database clock; the
  identifier of the run must be a well-formed one and both times must be representable.
\<close>

theorem start_retry:
  assumes "(attempt_step sha256 hexsum registry s)\<^sup>*\<^sup>* (empty_attempts, t0) (d, t)"
    "StartAttempt sha256 hexsum env s i v m p d = (Inr a, d')" "env_ok (db_of env) t t'"
    "(attempt_step sha256 hexsum registry s)\<^sup>*\<^sup>* (d', t') (d'', t'')"
    "at_CreatedAt a \<le> at_UpdatedAt a"
    "ParseRunID (at_RunID a) = Inr (at_RunID a)" "ValidTimestamp (at_CreatedAt a)" "ValidTimestamp (at_UpdatedAt a)"
  shows "snd (StartAttempt sha256 hexsum env' s i v m p d'') = d''
    \<and> (db_quiet (db_of env') \<longrightarrow>
        (if live_fence (proof_key p) (lp_OwnerID p) (lp_FencingToken p) (db_clock (db_of env') 0) d''
         then fst (StartAttempt sha256 hexsum env' s i v m p d'') = Inr a
         else \<exists>err. fst (StartAttempt sha256 hexsum env' s i v m p d'') = Inl err \<and> CodeOf err = CodeConflict))"
proof -
  note retried = StartAttempt_retried [OF assms(1-3,6-8,4), of env']
  show ?thesis
    using retried(1) retried(2,3) assms(5) by (auto split: if_splits)
qed

text \<open>
  C40. The receipt of a start made while the application clock was behind the creation time
  of the attempt cannot be read: in any later state, every retry that the database serves
  under a live lease is answered with an internal error, although the start succeeded.
\<close>

theorem start_receipt_unreadable:
  assumes "(attempt_step sha256 hexsum registry s)\<^sup>*\<^sup>* (empty_attempts, t0) (d, t)"
    "map_of (pg_idempotency (ad_pg d)) (''start_attempt:'' @ st_repositoryID s @ '':'' @ i, IdempotencyKey m) = None"
    "map_of (ad_attempts d) i = Some b" "postgresTimestamp (pg_now env 0) < at_CreatedAt b"
    "StartAttempt sha256 hexsum env s i v m p d = (Inr a, d')" "env_ok (db_of env) t t'"
    "(attempt_step sha256 hexsum registry s)\<^sup>*\<^sup>* (d', t') (d'', t'')"
    "ParseRunID (at_RunID b) = Inr (at_RunID b)" "ValidTimestamp (at_CreatedAt b)" "ValidTimestamp (postgresTimestamp (pg_now env 0))"
    "db_quiet (db_of env')" "live_fence (proof_key p) (lp_OwnerID p) (lp_FencingToken p) (db_clock (db_of env') 0) d''"
  shows "\<exists>err. StartAttempt sha256 hexsum env' s i v m p d'' = (Inl err, d'') \<and> CodeOf err = CodeInternal"
proof -
  note start = StartAttempt_unfold [OF assms(5) refl refl]
  from attempt_command_result [OF assms(5) [unfolded start(2)]] obtain c dx where
    "startAttemptTx hexsum env (''start_attempt:'' @ st_repositoryID s @ '':'' @ i)
       (hashCommand sha256 m [''start_attempt:'' @ st_repositoryID s @ '':'' @ i, itoa v, lp_OwnerID p, itoa (lp_FencingToken p)])
       i v m p d b = Inr ((c, a), dx)"
    using assms(2,3) loadAttemptReplay_Some by fastforce
  from startAttemptTx_receipt [OF this assms(3)] have a: "a = running_of (postgresTimestamp (pg_now env 0)) b" by blast
  then show ?thesis
    using StartAttempt_retried(3) [OF assms(1,5,6) _ _ _ assms(7,11,12)] assms(4,8-10) by simp
qed

section \<open>A sample history\<close>

text \<open>
  Alice's scheduler creates and starts an attempt, its lease runs out, Bob's scheduler takes
  the lease over and reconciles.
\<close>

definition sample_at_env :: "pgtime \<Rightarrow> time \<Rightarrow> 8 word \<Rightarrow> PgEnv" where
  "sample_at_env now appnow w = DBEnv.extend (sample_env now)
     (PgEnv.fields (\<lambda>_. appnow) (\<lambda>n. w # replicate 15 0) (\<lambda>_. 0) (\<lambda>_. 50) (\<lambda>_. 0) (\<lambda>_. False))"

definition sample_scheduler :: "string \<Rightarrow> int \<Rightarrow> LeaseProof" where
  "sample_scheduler owner token = \<lparr>lk_TenantID = ''tenant'', lk_RepositoryID = ''repo'', lk_ResourceType = ''scheduler'',
     lk_ResourceID = ''main'', lp_OwnerID = owner, lp_FencingToken = token\<rparr>"

definition sample_attempt :: Attempt where
  "sample_attempt = \<lparr>at_AttemptID = ''attempt_01000000-0000-4000-8000-000000000000'', at_RunID = sample_rid, at_Ordinal = 1,
     at_Status = ''queued'', at_LeaseResourceType = ''scheduler'', at_LeaseResourceID = ''main'', at_WorkerID = ''alice'',
     at_FencingToken = 1, at_StartedAt = None, at_FinishedAt = None, at_Version = 1, at_CreatedAt = 100000, at_UpdatedAt = 100000\<rparr>"

definition sample_time :: time where "sample_time = 1700000000000000000"

definition sample_running :: Attempt where
  "sample_running = running_of sample_time sample_attempt"

definition sample_leases :: "string \<Rightarrow> int \<Rightarrow> pgtime \<Rightarrow> string LeaseDB" where
  "sample_leases owner token t = empty_db\<lparr>leases := [(sample_key ''scheduler'' ''main'',
     \<lparr>lr_owner_id = owner, lr_fencing_token = token, lr_acquired_at = t, lr_expires_at = t + 1000000, lr_updated_at = t\<rparr>)]\<rparr>"

definition sample_create :: "Attempt result \<times> string AttemptDB" where
  "sample_create = CreateAttempt id (sample_at_env 100 sample_time 1) sample_lease_store sample_rid ''queued''
     sample_metadata (sample_scheduler ''alice'' 1) \<lparr>ad_pg = sample_pg, ad_leases = sample_leases ''alice'' 1 0, ad_attempts = []\<rparr>"

definition sample_start :: "time \<Rightarrow> Attempt result \<times> string AttemptDB" where
  "sample_start now = StartAttempt id id (sample_at_env 200 now 2) sample_lease_store (at_AttemptID sample_attempt) 1
     sample_metadata (sample_scheduler ''alice'' 1) (snd sample_create)"

definition sample_overtaken :: "string AttemptDB" where
  "sample_overtaken = (snd (sample_start sample_time))\<lparr>ad_leases := sample_leases ''bob'' 2 2000000\<rparr>"

definition sample_reconcile :: "Attempt list result \<times> string AttemptDB" where
  "sample_reconcile = ReconcileAbandonedAttempts id (sample_at_env 2000100 sample_time 3) sample_lease_store
     sample_metadata (sample_scheduler ''bob'' 2) sample_overtaken"

lemma sample_acquires:
  "snd (AcquireLease (sample_env 0) sample_lease_store (sample_key ''scheduler'' ''main'') ''alice'' Second empty_db) = sample_leases ''alice'' 1 0"
  "snd (AcquireLease (sample_env 2000000) sample_lease_store (sample_key ''scheduler'' ''main'') ''bob'' Second (sample_leases ''alice'' 1 0))
     = sample_leases ''bob'' 2 2000000"
  by code_simp+

lemma sample_create_result: "fst sample_create = Inr sample_attempt \<and> ad_attempts (snd sample_create) = [(at_AttemptID sample_attempt, sample_attempt)]
    \<and> ad_leases (snd sample_create) = sample_leases ''alice'' 1 0"
  by code_simp

lemma sample_start_result: "fst (sample_start sample_time) = Inr sample_running
    \<and> ad_attempts (snd (sample_start sample_time)) = [(at_AttemptID sample_attempt, sample_running)]
    \<and> ad_leases (snd (sample_start sample_time)) = sample_leases ''alice'' 1 0
    \<and> read_attempt (at_AttemptID sample_attempt) (snd (sample_start sample_time)) = Some sample_running"
  by code_simp

lemma sample_reconcile_result: "fst sample_reconcile = Inr [ended_of ''failed_retryable'' sample_time sample_running]
    \<and> map_of (pg_idempotency (ad_pg sample_overtaken)) (''reconcile_attempts:repo:main'', IdempotencyKey sample_metadata) = None"
  by code_simp

abbreviation sample_attempt_step :: "string AttemptDB \<times> pgtime \<Rightarrow> string AttemptDB \<times> pgtime \<Rightarrow> bool" where
  "sample_attempt_step \<equiv> attempt_step id id (Inr Map.empty) sample_lease_store"

lemma sample_at_env_ok: "t \<le> now \<Longrightarrow> now \<le> t' \<Longrightarrow> env_ok (db_of (sample_at_env now appnow w)) t t'"
  by (simp add: sample_at_env_def env_ok_sample DBEnv.extend_def DBEnv.truncate_def sample_env_def env_ok_def)

lemma sample_at_quiet: "db_quiet (db_of (sample_at_env now appnow w))" "db_clock (db_of (sample_at_env now appnow w)) n = now"
  by (simp_all add: sample_at_env_def DBEnv.extend_def DBEnv.truncate_def sample_env_def db_quiet_def)

lemma sample_lease_step:
  assumes "ad_leases d = l" "snd (AcquireLease (sample_env now) sample_lease_store (sample_key ''scheduler'' ''main'') owner Second l) = l'" "t \<le> now"
  shows "sample_attempt_step (d, t) (d\<lparr>ad_leases := l'\<rparr>, now)"
  by (rule step_leases) (use lease_step.AcquireLease [OF env_ok_sample [OF assms(3) order_refl]] assms(1,2) in metis)

lemma sample_attempt_steps:
  "sample_attempt_step (empty_attempts, 0) (empty_attempts\<lparr>ad_pg := sample_pg\<rparr>, 0)"
  "sample_attempt_step (empty_attempts\<lparr>ad_pg := sample_pg\<rparr>, 0)
     (\<lparr>ad_pg = sample_pg, ad_leases = sample_leases ''alice'' 1 0, ad_attempts = []\<rparr>, 0)"
  "sample_attempt_step (\<lparr>ad_pg = sample_pg, ad_leases = sample_leases ''alice'' 1 0, ad_attempts = []\<rparr>, 0) (snd sample_create, 100)"
  "sample_attempt_step (snd sample_create, 100) (snd (sample_start sample_time), 200)"
  "sample_attempt_step (snd (sample_start sample_time), 200) (sample_overtaken, 2000000)"
  "sample_attempt_step (sample_overtaken, 2000000) (snd sample_reconcile, 2000100)"
proof -
  have log: "attempt_log sample_pg = []" by code_simp
  show "sample_attempt_step (empty_attempts, 0) (empty_attempts\<lparr>ad_pg := sample_pg\<rparr>, 0)"
    by (rule step_control) (simp_all add: empty_attempts_def sample_pg_step log, simp add: attempt_log_def empty_pg_def)
  show "sample_attempt_step (empty_attempts\<lparr>ad_pg := sample_pg\<rparr>, 0)
     (\<lparr>ad_pg = sample_pg, ad_leases = sample_leases ''alice'' 1 0, ad_attempts = []\<rparr>, 0)"
    using sample_lease_step [OF _ sample_acquires(1), of "empty_attempts\<lparr>ad_pg := sample_pg\<rparr>" 0] by (simp add: empty_attempts_def)
  show "sample_attempt_step (\<lparr>ad_pg = sample_pg, ad_leases = sample_leases ''alice'' 1 0, ad_attempts = []\<rparr>, 0) (snd sample_create, 100)"
    unfolding sample_create_def by (rule step_CreateAttempt [OF sample_at_env_ok surjective_pairing]) simp_all
  show "sample_attempt_step (snd sample_create, 100) (snd (sample_start sample_time), 200)"
    unfolding sample_start_def by (rule step_StartAttempt [OF sample_at_env_ok surjective_pairing]) simp_all
  show "sample_attempt_step (snd (sample_start sample_time), 200) (sample_overtaken, 2000000)"
    unfolding sample_overtaken_def using sample_start_result by (intro sample_lease_step [OF _ sample_acquires(2)]) simp_all
  show "sample_attempt_step (sample_overtaken, 2000000) (snd sample_reconcile, 2000100)"
    unfolding sample_reconcile_def by (rule step_ReconcileAbandonedAttempts [OF sample_at_env_ok surjective_pairing]) simp_all
qed

lemma sample_attempt_reached:
  "sample_attempt_step\<^sup>*\<^sup>* (empty_attempts, 0) (snd sample_create, 100)"
  "sample_attempt_step\<^sup>*\<^sup>* (empty_attempts, 0) (snd (sample_start sample_time), 200)"
  "sample_attempt_step\<^sup>*\<^sup>* (empty_attempts, 0) (sample_overtaken, 2000000)"
  "sample_attempt_step\<^sup>*\<^sup>* (sample_overtaken, 2000000) (snd sample_reconcile, 2000100)"
proof -
  show c: "sample_attempt_step\<^sup>*\<^sup>* (empty_attempts, 0) (snd sample_create, 100)"
    using sample_attempt_steps(1-3) by (meson rtranclp.rtrancl_into_rtrancl rtranclp.rtrancl_refl)
  then show st: "sample_attempt_step\<^sup>*\<^sup>* (empty_attempts, 0) (snd (sample_start sample_time), 200)"
    using sample_attempt_steps(4) by (rule rtranclp.rtrancl_into_rtrancl)
  then show "sample_attempt_step\<^sup>*\<^sup>* (empty_attempts, 0) (sample_overtaken, 2000000)"
    using sample_attempt_steps(5) by (rule rtranclp.rtrancl_into_rtrancl)
  show "sample_attempt_step\<^sup>*\<^sup>* (sample_overtaken, 2000000) (snd sample_reconcile, 2000100)"
    using sample_attempt_steps(6) by (rule r_into_rtranclp)
qed

lemma sample_rows:
  "map_of (ad_attempts (snd sample_create)) (at_AttemptID sample_attempt) = Some sample_attempt"
  "map_of (ad_attempts (snd (sample_start sample_time))) (at_AttemptID sample_attempt) = Some sample_running"
  "map_of (ad_attempts sample_overtaken) (at_AttemptID sample_attempt) = Some sample_running"
  "at_Status sample_running = ''running''" "at_Version sample_running = 2" "at_FencingToken sample_running = 1"
  "at_Status sample_attempt = ''queued''" "at_RunID sample_running = sample_rid"
  using sample_create_result sample_start_result by (simp_all add: sample_overtaken_def sample_running_def sample_attempt_def)

theorem attempts_reachable_inv_witness:
  "map ev_aggregate_version (log_of (snd (sample_start sample_time)) (at_AttemptID sample_attempt)) = [1, 2]
    \<and> attempt_state_ok sample_running"
  using attempts_reachable_inv [OF sample_attempt_reached(2) sample_rows(2)] by (simp add: sample_rows upto_rec1)

theorem attempt_lifecycle_witness:
  "\<exists>a'. map_of (ad_attempts (snd sample_reconcile)) (at_AttemptID sample_attempt) = Some a' \<and> attempt_evolves sample_running a'"
  using attempt_lifecycle [OF sample_attempt_reached(3) sample_rows(3) sample_attempt_reached(4)] by blast

theorem overtaken_attempt_only_reconciled_witness:
  "lease_rows (ad_leases sample_overtaken) (attempt_key sample_lease_store sample_running) \<noteq> None
    \<and> (map_of (ad_attempts (snd sample_reconcile)) (at_AttemptID sample_attempt) = Some sample_running
      \<or> (\<exists>now. map_of (ad_attempts (snd sample_reconcile)) (at_AttemptID sample_attempt)
           = Some (ended_of ''failed_retryable'' now sample_running)))"
proof -
  have "lease_rows (ad_leases sample_overtaken) (attempt_key sample_lease_store sample_running)
      = Some \<lparr>lr_owner_id = ''bob'', lr_fencing_token = 2, lr_acquired_at = 2000000, lr_expires_at = 3000000, lr_updated_at = 2000000\<rparr>"
    by (simp add: sample_overtaken_def sample_leases_def attempt_key_def sample_running_def sample_attempt_def sample_key_def sample_lease_store_def)
  from overtaken_attempt_only_reconciled [OF sample_attempt_reached(3) sample_rows(3) this _ sample_attempt_reached(4)] this
  show ?thesis by (auto simp: sample_rows)
qed

theorem reconcile_ends_exactly_abandoned_witness:
  "map_of (ad_attempts (snd sample_reconcile)) (at_AttemptID sample_attempt)
      = Some (sample_running\<lparr>at_Status := ''failed_retryable'', at_FinishedAt := Some sample_time, at_UpdatedAt := sample_time, at_Version := 3\<rparr>)
    \<and> filter (left_behind (sample_scheduler ''bob'' 2)) (map snd (ad_attempts (snd sample_reconcile))) = []"
proof -
  let ?env = "sample_at_env 2000100 sample_time 3"
  have r: "ReconcileAbandonedAttempts id ?env sample_lease_store sample_metadata (sample_scheduler ''bob'' 2) sample_overtaken
      = (Inr [ended_of ''failed_retryable'' sample_time sample_running], snd sample_reconcile)"
    using sample_reconcile_result by (metis prod.collapse sample_reconcile_def)
  have left: "left_behind (sample_scheduler ''bob'' 2) sample_running" by code_simp
  have now: "sample_time = postgresTimestamp (pg_now ?env 0)" by code_simp
  have "map_of (pg_idempotency (ad_pg sample_overtaken))
      (''reconcile_attempts:'' @ st_repositoryID sample_lease_store @ '':'' @ lk_ResourceID (sample_scheduler ''bob'' 2), IdempotencyKey sample_metadata) = None"
    using sample_reconcile_result by (simp add: sample_lease_store_def sample_scheduler_def)
  from reconcile_ends_exactly_abandoned [OF sample_attempt_reached(3) r this now] left sample_rows(3,5) show ?thesis by simp
qed

lemma sample_alice_live:
  "db_clock (db_of env) 0 < 1000000 \<Longrightarrow> ad_leases d = sample_leases ''alice'' 1 0 \<Longrightarrow>
   live_fence (proof_key (sample_scheduler ''alice'' 1)) (lp_OwnerID (sample_scheduler ''alice'' 1))
     (lp_FencingToken (sample_scheduler ''alice'' 1)) (db_clock (db_of env) 0) d"
  by (simp add: live_fence_def sample_leases_def sample_scheduler_def proof_key_def sample_key_def)

theorem start_retry_witness:
  "StartAttempt id id (sample_at_env 300 sample_time 9) sample_lease_store (at_AttemptID sample_attempt) 1
     sample_metadata (sample_scheduler ''alice'' 1) (snd (sample_start sample_time)) = (Inr sample_running, snd (sample_start sample_time))
   \<and> (\<exists>err. StartAttempt id id (sample_at_env 2000100 sample_time 9) sample_lease_store (at_AttemptID sample_attempt) 1
     sample_metadata (sample_scheduler ''alice'' 1) sample_overtaken = (Inl err, sample_overtaken) \<and> CodeOf err = CodeConflict)"
proof -
  have r: "StartAttempt id id (sample_at_env 200 sample_time 2) sample_lease_store (at_AttemptID sample_attempt) 1 sample_metadata
      (sample_scheduler ''alice'' 1) (snd sample_create) = (Inr sample_running, snd (sample_start sample_time))"
    using sample_start_result by (metis prod.collapse sample_start_def)
  have a: "at_CreatedAt sample_running \<le> at_UpdatedAt sample_running" "ParseRunID (at_RunID sample_running) = Inr (at_RunID sample_running)"
      "ValidTimestamp (at_CreatedAt sample_running)" "ValidTimestamp (at_UpdatedAt sample_running)"
    by code_simp+
  have ok: "env_ok (db_of (sample_at_env 200 sample_time 2)) 100 200" by (rule sample_at_env_ok) simp_all
  note retry = start_retry [OF sample_attempt_reached(1) r ok _ a]
  have "live_fence (proof_key (sample_scheduler ''alice'' 1)) (lp_OwnerID (sample_scheduler ''alice'' 1))
      (lp_FencingToken (sample_scheduler ''alice'' 1)) (db_clock (db_of (sample_at_env 300 sample_time 9)) 0) (snd (sample_start sample_time))"
    by (rule sample_alice_live) (use sample_start_result in \<open>simp_all add: sample_at_quiet\<close>)
  moreover have "\<not> live_fence (proof_key (sample_scheduler ''alice'' 1)) (lp_OwnerID (sample_scheduler ''alice'' 1))
      (lp_FencingToken (sample_scheduler ''alice'' 1)) (db_clock (db_of (sample_at_env 2000100 sample_time 9)) 0) sample_overtaken"
    by (simp add: live_fence_def sample_overtaken_def sample_leases_def sample_scheduler_def proof_key_def sample_key_def)
  moreover have "sample_attempt_step\<^sup>*\<^sup>* (snd (sample_start sample_time), 200) (sample_overtaken, 2000000)"
    by (rule r_into_rtranclp) (rule sample_attempt_steps(5))
  ultimately show ?thesis
    using retry [OF rtranclp.rtrancl_refl, of "sample_at_env 300 sample_time 9"] retry [of _ _ "sample_at_env 2000100 sample_time 9"]
    by (simp add: sample_at_quiet prod_eq_iff)
qed

theorem start_receipt_unreadable_witness:
  "fst (sample_start 1000) = Inr (running_of 1000 sample_attempt)
   \<and> (\<exists>err. StartAttempt id id (sample_at_env 300 sample_time 9) sample_lease_store (at_AttemptID sample_attempt) 1
     sample_metadata (sample_scheduler ''alice'' 1) (snd (sample_start 1000)) = (Inl err, snd (sample_start 1000)) \<and> CodeOf err = CodeInternal)"
proof -
  have st: "fst (sample_start 1000) = Inr (running_of 1000 sample_attempt)" "ad_leases (snd (sample_start 1000)) = sample_leases ''alice'' 1 0"
    by code_simp+
  then have r: "StartAttempt id id (sample_at_env 200 1000 2) sample_lease_store (at_AttemptID sample_attempt) 1 sample_metadata
      (sample_scheduler ''alice'' 1) (snd sample_create) = (Inr (running_of 1000 sample_attempt), snd (sample_start 1000))"
    by (metis prod.collapse sample_start_def)
  have ok: "env_ok (db_of (sample_at_env 200 1000 2)) 100 200" by (rule sample_at_env_ok) simp_all
  have first: "map_of (pg_idempotency (ad_pg (snd sample_create)))
      (''start_attempt:'' @ st_repositoryID sample_lease_store @ '':'' @ at_AttemptID sample_attempt, IdempotencyKey sample_metadata) = None"
    by code_simp
  have b: "postgresTimestamp (pg_now (sample_at_env 200 1000 2) 0) < at_CreatedAt sample_attempt"
      "ParseRunID (at_RunID sample_attempt) = Inr (at_RunID sample_attempt)"
      "ValidTimestamp (at_CreatedAt sample_attempt)" "ValidTimestamp (postgresTimestamp (pg_now (sample_at_env 200 1000 2) 0))"
    by code_simp+
  have "live_fence (proof_key (sample_scheduler ''alice'' 1)) (lp_OwnerID (sample_scheduler ''alice'' 1))
      (lp_FencingToken (sample_scheduler ''alice'' 1)) (db_clock (db_of (sample_at_env 300 sample_time 9)) 0) (snd (sample_start 1000))"
    by (rule sample_alice_live) (simp_all add: sample_at_quiet st)
  from start_receipt_unreadable [OF sample_attempt_reached(1) first sample_rows(1) b(1) r ok rtranclp.rtrancl_refl b(2-4) sample_at_quiet(1) this] st(1)
  show ?thesis by blast
qed

definition sample_run_of :: "nat \<Rightarrow> string AttemptDB \<times> pgtime" where
  "sample_run_of n = [(empty_attempts, 0), (empty_attempts\<lparr>ad_pg := sample_pg\<rparr>, 0),
     (\<lparr>ad_pg = sample_pg, ad_leases = sample_leases ''alice'' 1 0, ad_attempts = []\<rparr>, 0), (snd sample_create, 100),
     (snd (sample_start sample_time), 200), (sample_overtaken, 2000000), (snd sample_reconcile, 2000100)] ! min n 6"

lemma sample_run_of_step: "sample_attempt_step (sample_run_of n) (sample_run_of (Suc n))"
proof -
  have idle: "sample_attempt_step (d, t) (d, t)" for d t
    by (rule step_CreateAttempt [where st = "''done''", OF sample_at_env_ok [of t t]]) (simp_all add: CreateAttempt_def)
  consider "n = 0" | "n = 1" | "n = 2" | "n = 3" | "n = 4" | "n = 5" | "n \<ge> 6" by linarith
  then show ?thesis
    by cases (simp_all add: sample_run_of_def sample_attempt_steps idle min_def numeral_nat)
qed

theorem attempt_settles_witness:
  "\<exists>N. \<forall>n \<ge> N. map_of (ad_attempts (fst (sample_run_of n))) (at_AttemptID sample_attempt)
     = map_of (ad_attempts (fst (sample_run_of N))) (at_AttemptID sample_attempt)"
  by (rule attempt_settles [of sample_run_of, OF _ sample_run_of_step]) (simp add: sample_run_of_def)

end
