(* ===== verification/Spec2Isabelle.thy ===== *)
theory Spec2Isabelle
  imports Faults Identity Contracts Runstate Control ControlService Leases LeaseSets LeaseSafety PgSafety Governance QueueSafety AttemptSafety
begin

text \<open>
  A verification library for the governed control plane of Forja.

  \<^bold>\<open>The program.\<close> Forja runs agents under contracts: a human or an agent plans a sprint, the
  sprint is submitted with a decision to take, somebody with the right to decide approves
  or rejects it, and only then may the run that belongs to the sprint be worked on. The
  control plane keeps runs, sprints and decisions either in memory (\<open>internal/runstate\<close>,
  \<open>internal/control\<close>) or in PostgreSQL (\<open>internal/postgres\<close>); \<open>internal/control/service.go\<close>
  authenticates and authorizes the callers of either. Workers take resources under fenced
  leases; every durable change appends an immutable event and an outbox row, from which
  projectors rebuild read models.

  \<^bold>\<open>Theories and sources\<close> (paths under \<open>src/internal\<close>):

  \<^item> \<open>Prelude\<close>: Go strings, UTF-8, \<open>strings\<close> and \<open>strconv\<close>, maps whose entries only evolve;
    the locales \<open>step_invariant\<close> (invariants of step relations) and \<open>replayed_command\<close>
    (write-once receipts).
  \<^item> \<open>Faults\<close> (\<open>fault/fault.go\<close>): error codes and the wrapped chain.
  \<^item> \<open>Identity\<close> (\<open>identity/id.go\<close>, \<open>governance.go\<close>): identifiers from an entropy source.
  \<^item> \<open>Contracts\<close> (\<open>contracts/types.go\<close>): run, sprint and decision and their JSON documents.
  \<^item> \<open>Runstate\<close> (\<open>runstate/state.go\<close>): the state machine of runs, \<open>Store\<close> with its command
    receipts.
  \<^item> \<open>Control\<close> (\<open>control/types.go\<close>, \<open>memory.go\<close>): \<open>MemoryRepository\<close>: \<open>PlanSprint\<close>,
    \<open>SubmitSprint\<close>, \<open>ResolveDecision\<close>, \<open>TransitionRun\<close>, \<open>ResumeRun\<close>, the readers and the audit
    trail.
  \<^item> \<open>ControlService\<close> (\<open>control/service.go\<close>): principals, permissions, validation and each
    operation of \<open>Service\<close> over any repository.
  \<^item> \<open>Leases\<close> (\<open>postgres/leases.go\<close>), \<open>LeaseSets\<close> (\<open>postgres/lease_sets.go\<close>,
    \<open>contracts/delivery.go\<close>) and \<open>LeaseSafety\<close>: leases of one resource, atomic sets of file,
    artifact and worktree leases, and their histories.
  \<^item> \<open>PgDatabase\<close>, \<open>PgStore\<close> (\<open>postgres/store.go\<close>, \<open>control.go\<close> and the migrations): the
    tables with their constraints and triggers, \<open>appendEvent\<close>, receipts, and the commands of
    the durable repository.
  \<^item> \<open>PgProjection\<close> (\<open>postgres/projection.go\<close>): replay of the run events and the read model.
  \<^item> \<open>PgQueues\<close> (\<open>postgres/outbox.go\<close>, \<open>projection_deliveries.go\<close>): the outbox, the deliveries
    of projectors and their checkpoints.
  \<^item> \<open>PgSafety\<close>, \<open>Governance\<close>, \<open>QueueSafety\<close>: whole histories of the durable repository.
  \<^item> \<open>WorkerResults\<close>, \<open>Attempts\<close> (\<open>postgres/attempts.go\<close>, \<open>attempt_lifecycle.go\<close>,
    \<open>ValidateJSON\<close> of \<open>contracts/registry.go\<close>): the contract of a worker result, and creation,
    start, completion and reconciliation of attempts under the fenced lease of a scheduler;
    \<open>AttemptEffects\<close>, \<open>ReceiptSafety\<close>, \<open>AttemptSafety\<close>: what the operations write, that
    receipts are kept, and the histories of attempts, leases and the control plane together.

  \<^bold>\<open>State and operations.\<close> A Go structure is a record with its fields, an enumeration a
  datatype, an error a value of type \<open>error\<close>. An operation takes the readings of the clock,
  the entropy and the state, and gives its result and the new state; the lock of an
  in-memory store and the transaction of a durable one make it one step. Where PostgreSQL
  decides on its own (clock readings, the order of rows, failing statements, commits whose
  outcome is unknown, identity gaps, collation, rows locked by others), the decision is part
  of the environment of the call and the theorems hold for every environment, or name what
  they assume of it; the histories of leases and attempts assume that the readings of the
  database clock do not decrease. A hash function is an argument, and no theorem assumes that it has no
  collisions unless it says so.

  \<^bold>\<open>What is shown.\<close>

  \<^item> Runs: every path to work passes through approval, versions prevent lost updates, runs
    are never lost, retried commands get the first answer, reused keys are refused.
  \<^item> Governance: the invariant that links sprints, runs and decisions holds in every
    reachable repository; a run past approval belongs to an approved sprint with an approved
    decision; a decision is final; a held run is queued again by \<open>ResumeRun\<close> only; a command
    that succeeds leaves exactly one success record if it names a tool, and none otherwise.
    Through the service, the approval was given by an actor who was granted the permission,
    and a command or read without permission or scope is refused and changes nothing;
    recording an audit needs the scope unless it records a denial. These histories assume
    that the generated identifiers of decisions are fresh.
  \<^item> Refinement: one abstract machine (\<open>gov_step\<close>) is simulated by the in-memory and by the
    durable repository (locale \<open>forward_simulation\<close>, interpreted twice), step by step, so
    that approval before work carries over to every reachable database. The machine uses the
    transition table of \<open>runstate\<close>; what the table itself guarantees is shown in \<open>Runstate\<close>.
  \<^item> Leases: tokens never decrease and identify one grant, an overtaken proof never verifies
    again, two lease sets that verify in one state are disjoint, the end of a set is final.
  \<^item> Events: after any history, replaying the immutable events gives the canonical runs.
  \<^item> Queues: a claim that was taken over can neither publish nor fail its row; the
    checkpoint of a projector only covers what was published.
  \<^item> Attempts: they are numbered without gaps, never lost, and only move forward from queued
    to running to a terminal status, with one event per version; they settle in every infinite
    history. An attempt whose lease was taken over can only be reconciled, and a first
    reconciliation ends exactly those that an earlier fence left behind, none of them under a
    live fence. Receipts are written once over all histories (\<open>ReceiptSafety\<close>), so a retried
    start changes nothing and is answered from its receipt under a live lease, unless the
    application clock was behind that of the database: then every such retry is an internal
    error.
  \<^item> Identifiers, errors and bounds: generated identifiers parse, stored error texts keep
    their bound and stay well-formed, \<open>IsCode\<close> answers for the outermost code only.

  \<^bold>\<open>Interfaces.\<close> The service relies on a repository through the contract of
  \<open>ControlService\<close> (locale \<open>governed_repository\<close>), which the in-memory repository is shown to keep; histories rely on one
  lemma per operation through \<open>step_invariant\<close>; the receipts of the in-memory stores are
  instances of the write-once locale; refinement is the locale above.

  \<^bold>\<open>Loops, fuel and bounds.\<close> No definition needs fuel: every loop of the modelled code runs
  over a finite list or a finite string and is structural recursion, or a \<open>fun\<close> whose
  measure is the length of the rest of the string. Versions, sequence numbers and fencing
  tokens are unbounded integers here and 64-bit in Go; PostgreSQL's own bounds are part of
  the table constraints where a value from outside reaches them.

  \<^bold>\<open>What is not modelled.\<close> The programs under \<open>cmd\<close>, the HTTP, MCP and command-line surfaces
  (\<open>daemon\<close>, \<open>mcpserver\<close>, \<open>cli\<close>) and configuration, logging and telemetry translate requests to
  the operations above and read or print; what they do rests on network, process and SDK
  behaviour. The worker supervisor, isolated delivery and the execution pipeline drive child
  processes, Git and the file system. The knowledge, memory, indexing and retrieval planes
  (with \<open>objectstore\<close>) rest on object stores, language toolchains, Qdrant and embedding models;
  their PostgreSQL repositories write to tables of their own and enter here as the writes of
  others in \<open>pg_step\<close>. JSON is modelled as documents where only documents are stored.
\<close>

end
